(* ===== verification/CDCF_Prelude.thy ===== *)
theory CDCF_Prelude
  imports Main "HOL-Library.Word" "HOL-Library.Char_ord" "HOL-Library.List_Lexorder"
begin

text \<open>
  Shared vocabulary of the development: the machine integers of the C++ code at their
  widths, the exceptions and the undefined behaviour its operations can end in, the
  sequencing of state-changing steps that may throw, and the theorem collections the
  component theories fill.

  A C++ operation that mutates an object and may throw is a function
  \<open>'s \<Rightarrow> 's \<times> cpp_exn option\<close>: the state reached and, if control left by an
  exception, which one. The state of a throwing run is kept, because the mutations made
  before the throw stay visible to the other threads.
\<close>

section \<open>Machine types\<close>

type_synonym byte = "8 word"
type_synonym u16 = "16 word"
type_synonym u32 = "32 word"
type_synonym u64 = "64 word"

section \<open>Abnormal ends\<close>

datatype cpp_exn =
    MaxPayloadExceeded nat      \<comment> \<open>gossip::Payload::MaxPayloadExceeded\<close>
  | LengthError                 \<comment> \<open>std::length_error of vector::reserve\<close>
  | LogicError                  \<comment> \<open>std::logic_error\<close>
  | InvalidArgument             \<comment> \<open>std::invalid_argument of std::stoi\<close>
  | OutOfRange                  \<comment> \<open>std::out_of_range of std::stoi\<close>
  | RuntimeError                \<comment> \<open>std::runtime_error\<close>
  | PortOccupied                \<comment> \<open>gossip::PortOccupied\<close>
  | AsioError                   \<comment> \<open>asio::system_error\<close>
  | BadFunctionCall             \<comment> \<open>a call of an empty std::function\<close>
  | UndefinedBehaviour          \<comment> \<open>the C++ standard gives the execution no meaning\<close>

type_synonym 's act = "'s \<Rightarrow> 's \<times> cpp_exn option"

section \<open>Sequencing steps that may throw\<close>

definition skip_act :: "'s act" where
  "skip_act s = (s, None)"

definition throw :: "cpp_exn \<Rightarrow> 's act" where
  "throw e s = (s, Some e)"

definition then_do :: "'s act \<Rightarrow> 's act \<Rightarrow> 's act" where
  "then_do f g s = (case f s of (s', None) \<Rightarrow> g s' | (s', Some e) \<Rightarrow> (s', Some e))"

definition pure_act :: "('s \<Rightarrow> 's) \<Rightarrow> 's act" where
  "pure_act f s = (f s, None)"

fun run_acts :: "'s act list \<Rightarrow> 's act" where
  "run_acts [] = skip_act"
| "run_acts (a # as) = then_do a (run_acts as)"

text \<open>
  What an interface promises of a step is nearly always of the form: a predicate on the
  state survives it, however the step ends.
\<close>

definition preserves :: "('s \<Rightarrow> bool) \<Rightarrow> 's act \<Rightarrow> bool" where
  "preserves P a \<longleftrightarrow> (\<forall>s. P s \<longrightarrow> P (fst (a s)))"

named_theorems act_simps \<open>evaluation of the sequencing combinators\<close>
named_theorems keeps \<open>preservation of a state predicate by a step\<close>

lemma skip_act_simps [act_simps, simp]: "skip_act s = (s, None)"
  by (simp add: skip_act_def)

lemma throw_simps [act_simps, simp]: "throw e s = (s, Some e)"
  by (simp add: throw_def)

lemma pure_act_simps [act_simps, simp]: "pure_act f s = (f s, None)"
  by (simp add: pure_act_def)

lemma then_do_None [act_simps]: "f s = (s', None) \<Longrightarrow> then_do f g s = g s'"
  by (simp add: then_do_def)

lemma then_do_Some [act_simps]: "f s = (s', Some e) \<Longrightarrow> then_do f g s = (s', Some e)"
  by (simp add: then_do_def)

lemma then_do_pure [act_simps, simp]: "then_do (pure_act f) g s = g (f s)"
  by (simp add: then_do_def)

lemma then_do_skip_right [simp]: "then_do f skip_act s = f s"
  by (cases "f s") (auto simp: then_do_def split: option.splits)

lemma preservesI: "(\<And>s. P s \<Longrightarrow> P (fst (a s))) \<Longrightarrow> preserves P a"
  by (simp add: preserves_def)

lemma preservesD: "preserves P a \<Longrightarrow> P s \<Longrightarrow> P (fst (a s))"
  by (simp add: preserves_def)

lemma preserves_skip [keeps, intro]: "preserves P skip_act"
  by (simp add: preserves_def)

lemma preserves_throw [keeps, intro]: "preserves P (throw e)"
  by (simp add: preserves_def)

lemma preserves_then_do [keeps, intro]:
  assumes "preserves P f" and "preserves P g"
  shows "preserves P (then_do f g)"
proof (rule preservesI)
  fix s assume "P s"
  then have "P (fst (f s))" using assms(1) by (rule preservesD [rotated])
  then show "P (fst (then_do f g s))"
    using assms(2) by (cases "f s") (auto simp: then_do_def preserves_def split: option.splits)
qed

lemma then_do_fst_cases:
  assumes "P (fst (f s))" and "\<And>s'. f s = (s', None) \<Longrightarrow> P (fst (g s'))"
  shows "P (fst (then_do f g s))"
  using assms by (cases "f s") (auto simp: then_do_def split: option.splits)

section \<open>Lists\<close>

lemma take_drop_split: "n \<le> length xs \<Longrightarrow> take n xs @ drop n xs = xs"
  by simp

lemma take_append_le: "n \<le> length xs \<Longrightarrow> take n (xs @ ys) = take n xs"
  by simp

lemma concat_replicate_append:
  "concat (map (\<lambda>(f, n). replicate n f) (xs @ [(g, m)])) =
   concat (map (\<lambda>(f, n). replicate n f) xs) @ replicate m g"
  by simp

text \<open>The position of a value in a list, as \<open>std::find\<close> gives it.\<close>

fun erase_first :: "'a \<Rightarrow> 'a list \<Rightarrow> 'a list" where
  "erase_first x [] = []"
| "erase_first x (y # ys) = (if x = y then ys else y # erase_first x ys)"

lemma erase_first_remove1: "erase_first x ys = remove1 x ys"
  by (induction ys) auto

end
