(* ===== verification/Std_Map.thy ===== *)
theory Std_Map
  imports CDCF_Prelude
begin

text \<open>
  The associative containers of the C++ standard library as the code uses them.
  \<open>std::map\<close> and \<open>std::set\<close> keep their entries in the order of a key and treat
  keys that the order does not separate as one key: an assignment through
  \<open>operator[]\<close> to a present key replaces the value and leaves the key that is
  stored, with whatever its other fields are. Membership depends on this, because its
  \<open>Member\<close> keys carry a uid and a role that the order ignores.

  A container is the list of its entries in iteration order; \<open>key\<close> maps a key to the
  linearly ordered part of it that the comparison looks at.
\<close>

section \<open>Operations\<close>

fun map_entry :: "('k \<Rightarrow> 'o) \<Rightarrow> 'k \<Rightarrow> ('k \<times> 'v) list \<Rightarrow> ('k \<times> 'v) option" where
  "map_entry key k [] = None"
| "map_entry key k ((k', v) # m) =
     (if key k' = key k then Some (k', v) else map_entry key k m)"

definition map_find :: "('k \<Rightarrow> 'o) \<Rightarrow> 'k \<Rightarrow> ('k \<times> 'v) list \<Rightarrow> 'v option" where
  "map_find key k m = map_option snd (map_entry key k m)"

definition map_has :: "('k \<Rightarrow> 'o) \<Rightarrow> 'k \<Rightarrow> ('k \<times> 'v) list \<Rightarrow> bool" where
  "map_has key k m = (map_entry key k m \<noteq> None)"

fun map_put :: "('k \<Rightarrow> 'o::linorder) \<Rightarrow> 'k \<Rightarrow> 'v \<Rightarrow> ('k \<times> 'v) list \<Rightarrow> ('k \<times> 'v) list" where
  "map_put key k v [] = [(k, v)]"
| "map_put key k v ((k', v') # m) =
     (if key k = key k' then (k', v) # m
      else if key k < key k' then (k, v) # (k', v') # m
      else (k', v') # map_put key k v m)"

fun map_erase :: "('k \<Rightarrow> 'o) \<Rightarrow> 'k \<Rightarrow> ('k \<times> 'v) list \<Rightarrow> ('k \<times> 'v) list" where
  "map_erase key k [] = []"
| "map_erase key k ((k', v) # m) = (if key k' = key k then m else (k', v) # map_erase key k m)"

definition map_wf :: "('k \<Rightarrow> 'o::linorder) \<Rightarrow> ('k \<times> 'v) list \<Rightarrow> bool" where
  "map_wf key m = sorted_wrt (<) (map (key \<circ> fst) m)"

text \<open>The abstract value of a container: a finite map from the ordered part of the keys.\<close>

definition map_abs :: "('k \<Rightarrow> 'o) \<Rightarrow> ('k \<times> 'v) list \<Rightarrow> 'o \<rightharpoonup> 'v" where
  "map_abs key m = map_of (map (\<lambda>(k, v). (key k, v)) m)"

section \<open>The containers implement finite maps\<close>

lemma map_find_abs: "map_find key k m = map_abs key m (key k)"
  by (induction m) (auto simp: map_find_def map_abs_def)

lemma map_has_find: "map_has key k m \<longleftrightarrow> map_find key k m \<noteq> None"
  by (simp add: map_has_def map_find_def)

lemma map_wf_Nil [simp]: "map_wf key []"
  by (simp add: map_wf_def)

lemma map_wf_Cons: "map_wf key ((k, v) # m) \<longleftrightarrow> (\<forall>(k', v')\<in>set m. key k < key k') \<and> map_wf key m"
  by (auto simp: map_wf_def)

lemma map_wf_tl: "map_wf key (e # m) \<Longrightarrow> map_wf key m"
  by (simp add: map_wf_def)

lemma map_abs_None_less:
  "(\<forall>(k', v')\<in>set m. x < key k') \<Longrightarrow> map_abs key m x = (None :: 'v option)"
  for x :: "'o::linorder"
  by (induction m) (auto simp: map_abs_def)

lemma keys_map_put: "key ` fst ` set (map_put key k v m) = insert (key k) (key ` fst ` set m)"
proof (induction m)
  case (Cons e m)
  then show ?case by (cases e) (auto simp: image_Un insert_commute)
qed simp

lemma keys_map_erase_subset: "set (map_erase key k m) \<subseteq> set m"
  by (induction m) (auto split: if_splits)

lemma map_wf_put:
  fixes m :: "('k \<times> 'v) list" and key :: "'k \<Rightarrow> 'o::linorder"
  shows "map_wf key m \<Longrightarrow> map_wf key (map_put key k v m)"
proof (induction m)
  case Nil
  then show ?case by (simp add: map_wf_def)
next
  case (Cons e m)
  obtain k' v' where e: "e = (k', v')" by (cases e)
  have below: "\<forall>x \<in> key ` fst ` set m. key k' < x"
    using Cons.prems by (auto simp: e map_wf_def)
  show ?case
  proof (cases "key k' < key k")
    case True
    then have "\<forall>x \<in> key ` fst ` set (map_put key k v m). key k' < x"
      using below by (auto simp only: keys_map_put)
    then show ?thesis
      using Cons True by (auto simp: e map_wf_def)
  next
    case False
    then show ?thesis
      using Cons.prems by (auto simp: e map_wf_def)
  qed
qed

lemma map_wf_erase: "map_wf key m \<Longrightarrow> map_wf key (map_erase key k m)"
proof (induction m)
  case (Cons e m)
  then show ?case
    using keys_map_erase_subset [of key k m]
    by (cases e) (auto simp: map_wf_def)
qed simp

lemma map_abs_put:
  fixes key :: "'k \<Rightarrow> 'o::linorder"
  shows "map_wf key m \<Longrightarrow> map_abs key (map_put key k v m) = (map_abs key m)(key k \<mapsto> v)"
proof (induction m)
  case Nil
  then show ?case by (simp add: map_abs_def)
next
  case (Cons e m)
  then show ?case
    by (cases e) (auto simp: map_abs_def map_wf_def)
qed

lemma map_abs_erase:
  fixes key :: "'k \<Rightarrow> 'o::linorder"
  shows "map_wf key m \<Longrightarrow> map_abs key (map_erase key k m) = (map_abs key m)(key k := None)"
proof (induction m)
  case Nil
  then show ?case by (simp add: map_abs_def)
next
  case (Cons e m)
  obtain k' v' where e: "e = (k', v')" by (cases e)
  show ?case
  proof (cases "key k' = key k")
    case True
    have "\<forall>(k'', v'')\<in>set m. key k < key k''"
      using Cons.prems True by (auto simp: e map_wf_def)
    then have "map_abs key m (key k) = None" by (rule map_abs_None_less)
    then show ?thesis using True by (auto simp: e map_abs_def fun_eq_iff)
  next
    case False
    then show ?thesis using Cons by (auto simp: e map_abs_def map_wf_def fun_eq_iff)
  qed
qed

lemma map_abs_Nil [simp]: "map_abs key [] = Map.empty"
  by (simp add: map_abs_def)

lemma dom_map_abs: "dom (map_abs key m) = key ` fst ` set m"
  by (force simp: map_abs_def dom_map_of_conv_image_fst)

lemma map_entry_key: "map_entry key k m = Some (k', v) \<Longrightarrow> key k' = key k"
  by (induction m) (auto split: if_splits)

lemma map_entry_in: "map_entry key k m = Some e \<Longrightarrow> e \<in> set m"
  by (induction m) (auto split: if_splits)

lemma map_abs_entry: "map_abs key m (key k) = Some v \<Longrightarrow> \<exists>k'. map_entry key k m = Some (k', v)"
  using map_find_abs [of key k m] by (auto simp: map_find_def)

lemma map_entry_None: "map_entry key k m = None \<longleftrightarrow> map_abs key m (key k) = None"
  using map_find_abs [of key k m] by (auto simp: map_find_def)

text \<open>An assignment keeps the stored key when one is there and stores the new one otherwise.\<close>

lemma map_entry_put:
  fixes key :: "'k \<Rightarrow> 'o::linorder"
  shows "map_wf key m \<Longrightarrow> map_entry key k' (map_put key k v m) =
    (if key k' = key k
     then Some (case map_entry key k m of None \<Rightarrow> (k, v) | Some (k0, _) \<Rightarrow> (k0, v))
     else map_entry key k' m)"
proof (induction m)
  case Nil
  then show ?case by auto
next
  case (Cons e m)
  obtain k0 v0 where e: "e = (k0, v0)" by (cases e)
  have "map_entry key k m = None" if "key k < key k0"
  proof -
    have "\<forall>(k1, v1)\<in>set m. key k < key k1"
      using Cons.prems that by (fastforce simp: e map_wf_def)
    then show ?thesis by (simp add: map_entry_None map_abs_None_less)
  qed
  then show ?case using Cons by (auto simp: e map_wf_def)
qed

lemma map_entry_erase:
  fixes key :: "'k \<Rightarrow> 'o::linorder"
  assumes "map_wf key m"
  shows "map_entry key k' (map_erase key k m) =
    (if key k' = key k then None else map_entry key k' m)"
  using assms
proof (induction m)
  case (Cons e m)
  obtain k0 v0 where e: "e = (k0, v0)" by (cases e)
  have "map_entry key k m = None" if "key k = key k0"
  proof -
    have "\<forall>(k1, v1)\<in>set m. key k < key k1"
      using Cons.prems that by (auto simp: e map_wf_def)
    then show ?thesis by (simp add: map_entry_None map_abs_None_less)
  qed
  moreover have "map_entry key k' m = map_entry key k m" if "key k' = key k"
    by (induction m) (auto simp: that)
  ultimately show ?case using Cons by (auto simp: e map_wf_def)
qed simp

lemma map_entry_cong: "key k = key k' \<Longrightarrow> map_entry key k m = map_entry key k' m"
  by (induction m) auto

text \<open>Putting back the value that is there changes nothing.\<close>

lemma map_put_same: "map_entry key k m = Some (k', v) \<Longrightarrow> map_wf key m \<Longrightarrow> map_put key k v m = m"
  for key :: "'k \<Rightarrow> 'o::linorder"
proof (induction m)
  case (Cons e m)
  obtain k0 v0 where e: "e = (k0, v0)" by (cases e)
  have "key k0 < key k" if "key k0 \<noteq> key k"
    using Cons.prems that map_entry_in [of key k m "(k', v)"] map_entry_key [of key k m k' v]
    by (fastforce simp: e map_wf_def)
  then show ?case using Cons by (auto simp: e map_wf_def split: if_splits)
qed simp

lemma map_erase_absent: "map_entry key k m = None \<Longrightarrow> map_erase key k m = m"
  by (induction m) (auto split: if_splits)

section \<open>The interface clients rely on\<close>

text \<open>
  What the components need of a container, whatever its representation: look-ups after an
  assignment or a removal, and an invariant that both keep. The facts below are proved
  once from these laws.
\<close>

locale keyed_store =
  fixes key :: "'k \<Rightarrow> 'o"
    and find :: "'k \<Rightarrow> 'm \<Rightarrow> 'v option"
    and put :: "'k \<Rightarrow> 'v \<Rightarrow> 'm \<Rightarrow> 'm"
    and erase :: "'k \<Rightarrow> 'm \<Rightarrow> 'm"
    and invar :: "'m \<Rightarrow> bool"
  assumes find_cong: "key k = key k' \<Longrightarrow> find k m = find k' m"
    and find_put: "invar m \<Longrightarrow> find k' (put k v m) = (if key k' = key k then Some v else find k' m)"
    and find_erase: "invar m \<Longrightarrow> find k' (erase k m) = (if key k' = key k then None else find k' m)"
    and invar_put: "invar m \<Longrightarrow> invar (put k v m)"
    and invar_erase: "invar m \<Longrightarrow> invar (erase k m)"
begin

lemma find_put_same: "invar m \<Longrightarrow> find k (put k v m) = Some v"
  by (simp add: find_put)

lemma find_put_other: "invar m \<Longrightarrow> key k' \<noteq> key k \<Longrightarrow> find k' (put k v m) = find k' m"
  by (simp add: find_put)

lemma find_erase_same: "invar m \<Longrightarrow> find k (erase k m) = None"
  by (simp add: find_erase)

lemma find_put_put: "invar m \<Longrightarrow> find k' (put k v (put k u m)) = find k' (put k v m)"
  by (simp add: find_put invar_put)

lemma find_put_erase: "invar m \<Longrightarrow> find k' (put k v (erase k m)) = find k' (put k v m)"
  by (simp add: find_put find_erase invar_erase)

lemma find_erase_put: "invar m \<Longrightarrow> find k' (erase k (put k v m)) = find k' (erase k m)"
  by (simp add: find_erase find_put invar_put)

lemma invar_fold_put: "invar m \<Longrightarrow> invar (fold (\<lambda>(k, v). put k v) kvs m)"
  by (induction kvs arbitrary: m) (auto simp: invar_put split: prod.splits)

lemma find_fold_put_None:
  "invar m \<Longrightarrow> \<forall>(k', v)\<in>set kvs. key k' \<noteq> key k \<Longrightarrow>
   find k (fold (\<lambda>(k, v). put k v) kvs m) = find k m"
  by (induction kvs arbitrary: m) (auto simp: find_put invar_put split: prod.splits)

text \<open>Assigning a whole list of entries leaves each key with its last value.\<close>

lemma find_fold_put:
  "invar m \<Longrightarrow> find k (fold (\<lambda>(k, v). put k v) kvs m) =
     (case map_of (rev (map (\<lambda>(k, v). (key k, v)) kvs)) (key k) of
        None \<Rightarrow> find k m | Some v \<Rightarrow> Some v)"
proof (induction kvs arbitrary: m)
  case (Cons kv kvs)
  then show ?case
    by (cases kv) (auto simp: find_put invar_put map_add_def map_of_append split: option.splits)
qed simp

end

text \<open>\<open>std::map\<close> under any key provides the interface.\<close>

interpretation std_map: keyed_store key "map_find key" "map_put key" "map_erase key" "map_wf key"
  for key :: "'k \<Rightarrow> 'o::linorder"
  by unfold_locales
    (auto simp: map_find_abs map_abs_put map_abs_erase map_wf_put map_wf_erase)

lemmas map_laws = map_abs_put map_abs_erase map_wf_put map_wf_erase map_find_abs map_has_find

section \<open>Default insertion\<close>

text \<open>Reading through \<open>operator[]\<close> inserts a default value for an absent key.\<close>

definition map_index :: "('k \<Rightarrow> 'o::linorder) \<Rightarrow> 'v \<Rightarrow> 'k \<Rightarrow> ('k \<times> 'v) list \<Rightarrow> 'v \<times> ('k \<times> 'v) list" where
  "map_index key d k m =
     (case map_find key k m of Some v \<Rightarrow> (v, m) | None \<Rightarrow> (d, map_put key k d m))"

lemma map_index_fst: "fst (map_index key d k m) = (case map_find key k m of Some v \<Rightarrow> v | None \<Rightarrow> d)"
  by (simp add: map_index_def split: option.splits)

lemma map_index_wf: "map_wf key m \<Longrightarrow> map_wf key (snd (map_index key d k m))"
  by (auto simp: map_index_def map_wf_put split: option.splits)

end
