(* ===== verification/Std_String.thy ===== *)
theory Std_String
  imports CDCF_Prelude
begin

text \<open>
  The string functions of the C++ standard library that the code calls:
  \<open>std::to_string\<close> on unsigned values, \<open>std::stoi\<close>, \<open>std::getline\<close> with a
  delimiter, \<open>find_last_of\<close> and \<open>substr\<close>. A \<open>std::string\<close> is a list of its
  bytes.
\<close>

section \<open>Decimal numbers\<close>

definition digit_char :: "nat \<Rightarrow> char" where
  "digit_char d = char_of (48 + d)"

fun to_string :: "nat \<Rightarrow> string" where
  "to_string n = (if n < 10 then [digit_char n] else to_string (n div 10) @ [digit_char (n mod 10)])"

declare to_string.simps [simp del]

definition is_digit :: "char \<Rightarrow> bool" where
  "is_digit c \<longleftrightarrow> 48 \<le> (of_char c :: nat) \<and> (of_char c :: nat) \<le> 57"

definition is_space :: "char \<Rightarrow> bool" where
  "is_space c \<longleftrightarrow> of_char c = (32 :: nat) \<or> (9 \<le> (of_char c :: nat) \<and> (of_char c :: nat) \<le> 13)"

definition digits_value :: "string \<Rightarrow> nat" where
  "digits_value ds = foldl (\<lambda>v c. 10 * v + (of_char c - 48)) 0 ds"

text \<open>
  \<open>std::stoi\<close>: leading white space, a sign, then the longest run of digits; what follows
  is ignored.
\<close>

definition stoi :: "string \<Rightarrow> cpp_exn + int" where
  "stoi s =
     (let t = dropWhile is_space s;
          neg = (t \<noteq> [] \<and> hd t = CHR ''-'');
          u = (if t \<noteq> [] \<and> (hd t = CHR ''-'' \<or> hd t = CHR ''+'') then tl t else t);
          ds = takeWhile is_digit u;
          v = (if neg then - int (digits_value ds) else int (digits_value ds))
      in if ds = [] then Inl InvalidArgument
         else if - (2 ^ 31) \<le> v \<and> v < 2 ^ 31 then Inr v
         else Inl OutOfRange)"

lemma of_char_digit_char: "d < 10 \<Longrightarrow> (of_char (digit_char d) :: nat) = 48 + d"
  by (simp add: digit_char_def)

lemma is_digit_digit_char: "d < 10 \<Longrightarrow> is_digit (digit_char d)"
  by (simp add: is_digit_def of_char_digit_char)

lemma to_string_digits: "c \<in> set (to_string n) \<Longrightarrow> is_digit c"
proof (induction n rule: to_string.induct)
  case (1 n)
  show ?case
  proof (cases "n < 10")
    case True
    then show ?thesis using 1 by (simp add: to_string.simps [of n] is_digit_digit_char)
  next
    case False
    then have "c \<in> set (to_string (n div 10)) \<or> c = digit_char (n mod 10)"
      using 1(2) by (auto simp: to_string.simps [of n])
    then show ?thesis using 1 False by (auto simp: is_digit_digit_char)
  qed
qed

lemma to_string_nonempty: "to_string n \<noteq> []"
  by (simp add: to_string.simps [of n])

lemma digits_value_snoc: "digits_value (ds @ [c]) = 10 * digits_value ds + (of_char c - 48)"
  by (simp add: digits_value_def)

lemma digits_value_to_string: "digits_value (to_string n) = n"
proof (induction n rule: to_string.induct)
  case (1 n)
  show ?case
  proof (cases "n < 10")
    case True
    then show ?thesis by (simp add: to_string.simps [of n] digits_value_def of_char_digit_char)
  next
    case False
    then show ?thesis
      using 1 by (simp add: to_string.simps [of n] digits_value_snoc of_char_digit_char)
  qed
qed

lemma is_digit_not_space: "is_digit c \<Longrightarrow> \<not> is_space c"
  by (auto simp: is_digit_def is_space_def)

lemma is_digit_not_sign: "is_digit c \<Longrightarrow> c \<noteq> CHR ''-'' \<and> c \<noteq> CHR ''+'' \<and> c \<noteq> CHR '':''"
  by (auto simp: is_digit_def)

lemma takeWhile_all: "\<forall>c\<in>set xs. P c \<Longrightarrow> takeWhile P xs = xs"
  by simp

lemma stoi_digits:
  assumes "\<forall>c\<in>set s. is_digit c" and "s \<noteq> []" and "digits_value s < 2 ^ 31"
  shows "stoi s = Inr (int (digits_value s))"
proof -
  obtain c cs where s: "s = c # cs" using assms(2) by (cases s) auto
  then have c: "is_digit c" using assms(1) by simp
  have "dropWhile is_space s = s" using is_digit_not_space [OF c] by (simp add: s)
  moreover have "hd s \<noteq> CHR ''-''" "hd s \<noteq> CHR ''+''" using is_digit_not_sign [OF c] by (auto simp: s)
  moreover have tw: "takeWhile is_digit s = s" using takeWhile_all [OF assms(1)] .
  ultimately show ?thesis using assms(2,3) by (simp add: stoi_def Let_def tw)
qed

lemma stoi_to_string: "n < 2 ^ 31 \<Longrightarrow> stoi (to_string n) = Inr (int n)"
  using stoi_digits [of "to_string n"] to_string_digits to_string_nonempty digits_value_to_string
  by simp

section \<open>Splitting\<close>

text \<open>
  \<open>std::getline(ss, token, delim)\<close>: \<open>None\<close> when nothing is left; otherwise the bytes up
  to the delimiter and the rest after it.
\<close>

definition getline :: "char \<Rightarrow> string \<Rightarrow> (string \<times> string) option" where
  "getline delim s =
     (if s = [] then None
      else Some (takeWhile (\<lambda>c. c \<noteq> delim) s, tl (dropWhile (\<lambda>c. c \<noteq> delim) s)))"

lemma getline_shrinks: "getline delim s = Some (t, r) \<Longrightarrow> length r < length s"
proof -
  assume "getline delim s = Some (t, r)"
  then have "s \<noteq> []" and r: "r = tl (dropWhile (\<lambda>c. c \<noteq> delim) s)"
    by (auto simp: getline_def split: if_splits)
  then show ?thesis
    using length_dropWhile_le [of "\<lambda>c. c \<noteq> delim" s]
    by (cases s) (auto simp: le_imp_less_Suc intro: order_le_less_trans [OF diff_le_self])
qed

text \<open>\<open>node_keeper::split\<close>.\<close>

function split :: "string \<Rightarrow> char \<Rightarrow> string list" where
  "split input delim =
     (case getline delim input of
        None \<Rightarrow> []
      | Some (token, rest) \<Rightarrow>
          (if token = [] then split rest delim else token # split rest delim))"
  by pat_completeness auto
termination
  by (relation "measure (length \<circ> fst)") (auto dest: getline_shrinks)

declare split.simps [simp del]

lemma split_Nil [simp]: "split [] d = []"
  by (simp add: split.simps getline_def)

lemma split_last: "d \<notin> set t \<Longrightarrow> t \<noteq> [] \<Longrightarrow> split t d = [t]"
proof -
  assume "d \<notin> set t" and "t \<noteq> []"
  then have "getline d t = Some (t, [])"
    by (metis (mono_tags, lifting) getline_def takeWhile_eq_all_conv dropWhile_eq_Nil_conv list.sel(2))
  then show ?thesis using \<open>t \<noteq> []\<close> by (simp add: split.simps [of t])
qed

lemma split_token: "d \<notin> set t \<Longrightarrow> t \<noteq> [] \<Longrightarrow> split (t @ d # r) d = t # split r d"
proof -
  assume "d \<notin> set t" and "t \<noteq> []"
  then have "getline d (t @ d # r) = Some (t, r)"
    by (auto simp: getline_def takeWhile_append dropWhile_append)
  then show ?thesis using \<open>t \<noteq> []\<close> by (simp add: split.simps [of "t @ d # r"])
qed

lemma split_tokens: "t \<in> set (split s d) \<Longrightarrow> t \<noteq> [] \<and> d \<notin> set t"
proof (induction s d rule: split.induct)
  case (1 s d)
  show ?case
  proof (cases "getline d s")
    case None
    then show ?thesis using 1(3) by (simp add: split.simps [of s])
  next
    case (Some tr)
    obtain u r where tr: "tr = (u, r)" by (cases tr)
    have "d \<notin> set u" using Some by (auto simp: tr getline_def split: if_splits dest: set_takeWhileD)
    have "t \<in> set (split r d) \<or> (u \<noteq> [] \<and> t = u)"
      using 1(3) Some by (auto simp: tr split.simps [of s] split: if_splits)
    moreover have "t \<in> set (split r d) \<Longrightarrow> t \<noteq> [] \<and> d \<notin> set t"
      using 1(1) [OF Some, of u r] 1(2) [OF Some, of u r] tr by (cases "u = []") auto
    ultimately show ?thesis using \<open>d \<notin> set u\<close> by auto
  qed
qed

fun join :: "char \<Rightarrow> string list \<Rightarrow> string" where
  "join d [] = []"
| "join d [t] = t"
| "join d (t # ts) = t @ d # join d ts"

lemma split_join:
  "\<forall>t\<in>set ts. t \<noteq> [] \<and> d \<notin> set t \<Longrightarrow> split (join d ts) d = ts"
  by (induction d ts rule: join.induct) (auto simp: split_last split_token)

section \<open>The last occurrence of a character\<close>

text \<open>\<open>find_last_of\<close> with one character; \<open>None\<close> is \<open>npos\<close>.\<close>

fun find_last_of :: "char \<Rightarrow> string \<Rightarrow> nat option" where
  "find_last_of c [] = None"
| "find_last_of c (x # xs) =
     (case find_last_of c xs of Some i \<Rightarrow> Some (Suc i) | None \<Rightarrow> if x = c then Some 0 else None)"

lemma find_last_of_None: "find_last_of c xs = None \<longleftrightarrow> c \<notin> set xs"
  by (induction xs) (auto split: option.splits)

lemma find_last_of_append:
  "c \<notin> set ys \<Longrightarrow> find_last_of c (xs @ c # ys) = Some (length xs)"
  by (induction xs) (auto simp: find_last_of_None [THEN iffD2])

end
