(* ===== verification/Gossip_Types.thy ===== *)
theory Gossip_Types
  imports Std_String
begin

text \<open>
  The value types of \<open>node_keeper/src/gossip.h\<close>: error codes, addresses and the bounded
  payload of a UDP gossip datagram.
\<close>

datatype gossip_code = kOK | kUnknown | kHostNotFound

record address =
  addr_host :: string
  addr_port :: u16

text \<open>\<open>Address::operator==\<close> compares both fields, which is equality of the records.\<close>

definition address_eq :: "address \<Rightarrow> address \<Rightarrow> bool" where
  "address_eq a b \<longleftrightarrow> addr_host a = addr_host b \<and> addr_port a = addr_port b"

lemma address_eq_iff: "address_eq a b \<longleftrightarrow> a = b" for a b :: address
  by (cases a; cases b) (simp add: address_eq_def)

definition kMaxPayloadSize :: nat where
  "kMaxPayloadSize = 65527"

type_synonym payload = "byte list"

text \<open>The constructor \<open>Payload(data, size)\<close>, which the two others delegate to.\<close>

definition mk_payload :: "byte list \<Rightarrow> cpp_exn + payload" where
  "mk_payload data =
     (if kMaxPayloadSize < length data then Inl (MaxPayloadExceeded (length data)) else Inr data)"

lemma mk_payload_Inr: "mk_payload d = Inr p \<longleftrightarrow> p = d \<and> length d \<le> kMaxPayloadSize"
  by (auto simp: mk_payload_def)

lemma mk_payload_small: "length d \<le> kMaxPayloadSize \<Longrightarrow> mk_payload d = Inr d"
  by (simp add: mk_payload_def)

type_synonym pull_result = "gossip_code \<times> byte list"

end
