(* ===== verification/Member.thy ===== *)
theory Member
  imports Std_Map Gossip_Types
begin

text \<open>
  Cluster members and the membership configuration: the classes \<open>Member\<close> and
  \<open>Config\<close> of \<open>node_keeper/src/membership.h\<close>, their functions at the end of
  \<open>membership.cc\<close>, the resolver of \<open>net_common.cc\<close> and the identifiers of
  \<open>uuid.h\<close>.
\<close>

section \<open>Members\<close>

record member =
  m_uid :: string
  m_node_name :: string
  m_host_name :: string
  m_ip_address :: string
  m_role :: string
  m_port :: u16

definition Member :: "string \<Rightarrow> string \<Rightarrow> u16 \<Rightarrow> string \<Rightarrow> string \<Rightarrow> string \<Rightarrow> member" where
  "Member node_name ip_address port host_name uid role =
     \<lparr>m_uid = uid, m_node_name = node_name, m_host_name = host_name,
      m_ip_address = ip_address, m_role = role, m_port = port\<rparr>"

definition empty_member :: member where
  "empty_member = Member [] [] 0 [] [] []"

definition IsEmptyMember :: "member \<Rightarrow> bool" where
  "IsEmptyMember m \<longleftrightarrow> m_node_name m = [] \<and> m_ip_address m = [] \<and> m_port m = 0"

definition member_eq :: "member \<Rightarrow> member \<Rightarrow> bool" where
  "member_eq lhs rhs \<longleftrightarrow> m_ip_address lhs = m_ip_address rhs \<and> m_port lhs = m_port rhs"

definition member_less :: "member \<Rightarrow> member \<Rightarrow> bool" where
  "member_less lhs rhs \<longleftrightarrow>
     m_ip_address lhs < m_ip_address rhs \<or>
     (m_ip_address lhs = m_ip_address rhs \<and> m_port lhs < m_port rhs)"

definition member_address :: "member \<Rightarrow> address" where
  "member_address m = \<lparr>addr_host = m_ip_address m, addr_port = m_port m\<rparr>"

text \<open>
  The part of a member that the comparisons look at, as a type with the order of
  \<open>operator<\<close>. Containers of members are keyed by it.
\<close>

datatype member_key = MKey string u16

instantiation member_key :: linorder
begin

fun less_member_key :: "member_key \<Rightarrow> member_key \<Rightarrow> bool" where
  "less_member_key (MKey a p) (MKey b q) \<longleftrightarrow> a < b \<or> (a = b \<and> p < q)"

definition less_eq_member_key :: "member_key \<Rightarrow> member_key \<Rightarrow> bool" where
  "less_eq_member_key x y \<longleftrightarrow> x = y \<or> x < y"

instance
proof
  fix x y z :: member_key
  show "x < y \<longleftrightarrow> x \<le> y \<and> \<not> y \<le> x"
    by (cases x; cases y) (auto simp: less_eq_member_key_def)
  show "x \<le> x" by (simp add: less_eq_member_key_def)
  show "x \<le> y \<Longrightarrow> y \<le> z \<Longrightarrow> x \<le> z"
    by (cases x; cases y; cases z) (auto simp: less_eq_member_key_def)
  show "x \<le> y \<Longrightarrow> y \<le> x \<Longrightarrow> x = y"
    by (cases x; cases y) (auto simp: less_eq_member_key_def)
  show "x \<le> y \<or> y \<le> x"
    by (cases x; cases y) (auto simp: less_eq_member_key_def)
qed

end

definition mkey :: "member \<Rightarrow> member_key" where
  "mkey m = MKey (m_ip_address m) (m_port m)"

lemma member_eq_key: "member_eq a b \<longleftrightarrow> mkey a = mkey b"
  by (simp add: member_eq_def mkey_def)

lemma member_less_key: "member_less a b \<longleftrightarrow> mkey a < mkey b"
  by (simp add: member_less_def mkey_def)

lemma member_address_key: "member_address a = member_address b \<longleftrightarrow> mkey a = mkey b"
  by (simp add: member_address_def mkey_def)

text \<open>Containers keyed by members.\<close>

abbreviation mfind :: "member \<Rightarrow> (member \<times> 'v) list \<Rightarrow> 'v option" where
  "mfind \<equiv> map_find mkey"

abbreviation mentry :: "member \<Rightarrow> (member \<times> 'v) list \<Rightarrow> (member \<times> 'v) option" where
  "mentry \<equiv> map_entry mkey"

abbreviation mput :: "member \<Rightarrow> 'v \<Rightarrow> (member \<times> 'v) list \<Rightarrow> (member \<times> 'v) list" where
  "mput \<equiv> map_put mkey"

abbreviation merase :: "member \<Rightarrow> (member \<times> 'v) list \<Rightarrow> (member \<times> 'v) list" where
  "merase \<equiv> map_erase mkey"

abbreviation mwf :: "(member \<times> 'v) list \<Rightarrow> bool" where
  "mwf \<equiv> map_wf mkey"

section \<open>Host names and identifiers\<close>

datatype membership_code =
    MEMBERSHIP_SUCCESS
  | MEMBERSHIP_FAILURE
  | MEMBERSHIP_INIT_HOSTMEMBER_EMPTY
  | MEMBERSHIP_INIT_TRANSPORT_EMPTY
  | MEMBERSHIP_CONFIG_IP_ADDRESS_INVALID

record resolver_entry =
  re_is_v4 :: bool
  re_address :: string
  re_host_name :: string

text \<open>
  \<open>ResolveHostName\<close>: \<open>resolver\<close> is the asio resolver, which reports an error code or
  the endpoints of a host. The result is the code with the host name and the address
  written to the two references, which keep their old values on failure.
\<close>

fun last_v4 :: "resolver_entry list \<Rightarrow> resolver_entry option \<Rightarrow> resolver_entry option" where
  "last_v4 [] found = found"
| "last_v4 (e # es) found = last_v4 es (if re_is_v4 e then Some e else found)"

definition ResolveHostName ::
  "(string \<Rightarrow> int + resolver_entry list) \<Rightarrow> string \<Rightarrow> string \<Rightarrow> string
     \<Rightarrow> membership_code \<times> string \<times> string" where
  "ResolveHostName resolver a hostname ip_address =
     (case resolver a of
        Inl ec \<Rightarrow> (MEMBERSHIP_CONFIG_IP_ADDRESS_INVALID, hostname, ip_address)
      | Inr endpoints \<Rightarrow>
          (case last_v4 endpoints None of
             Some e \<Rightarrow> (MEMBERSHIP_SUCCESS, re_host_name e, re_address e)
           | None \<Rightarrow> (MEMBERSHIP_CONFIG_IP_ADDRESS_INVALID, hostname, ip_address)))"

lemma last_v4_Some: "last_v4 es found = Some e \<Longrightarrow> found = Some e \<or> (e \<in> set es \<and> re_is_v4 e)"
  by (induction es arbitrary: found) (fastforce split: if_splits)+

lemma last_v4_eq: "last_v4 es found =
  (case rev (filter re_is_v4 es) of [] \<Rightarrow> found | e # _ \<Rightarrow> Some e)"
  by (induction es arbitrary: found) (auto split: list.splits)

text \<open>
  \<open>generate_uuid_v4\<close>: \<open>dis i\<close> is the i-th draw from the distribution over 0 to 15 and
  \<open>dis2\<close> the one draw over 8 to 11; a draw is printed in hexadecimal.
\<close>

definition hex_char :: "nat \<Rightarrow> char" where
  "hex_char d = (if d < 10 then char_of (48 + d) else char_of (87 + d))"

definition hex_draws :: "(nat \<Rightarrow> nat) \<Rightarrow> nat \<Rightarrow> nat \<Rightarrow> string" where
  "hex_draws dis from n = map (\<lambda>i. hex_char (dis i)) [from..<from + n]"

definition generate_uuid_v4 :: "(nat \<Rightarrow> nat) \<Rightarrow> nat \<Rightarrow> string" where
  "generate_uuid_v4 dis dis2 =
     hex_draws dis 0 8 @ ''-'' @ hex_draws dis 8 4 @ ''-4'' @ hex_draws dis 12 3 @ ''-'' @
     [hex_char dis2] @ hex_draws dis 15 3 @ ''-'' @ hex_draws dis 18 12"

lemma length_hex_draws [simp]: "length (hex_draws dis from n) = n"
  by (simp add: hex_draws_def)

lemma length_uuid: "length (generate_uuid_v4 dis dis2) = 36"
  by (simp add: generate_uuid_v4_def)

section \<open>Configuration\<close>

record config =
  c_host :: member
  c_seed_members :: "member list"
  c_retransmit_multiplier :: int
  c_gossip_interval :: nat
  c_failure_detector_interval :: nat
  c_leave_without_notification :: bool
  c_failure_detector_off :: bool
  c_relay_ping_enabled :: bool
  c_print_ping_log :: bool

definition Config :: config where
  "Config = \<lparr>c_host = empty_member, c_seed_members = [], c_retransmit_multiplier = 3,
     c_gossip_interval = 500, c_failure_detector_interval = 2000,
     c_leave_without_notification = False, c_failure_detector_off = False,
     c_relay_ping_enabled = False, c_print_ping_log = False\<rparr>"

definition SetHostMember ::
  "(string \<Rightarrow> int + resolver_entry list) \<Rightarrow> string \<Rightarrow>
   string \<Rightarrow> string \<Rightarrow> u16 \<Rightarrow> string \<Rightarrow> config \<Rightarrow> membership_code \<times> config" where
  "SetHostMember resolver uuid node_name ip_address port role c =
     (case ResolveHostName resolver ip_address [] [] of
        (code, hostname, ip_address_converted) \<Rightarrow>
          (code, c\<lparr>c_host := Member node_name ip_address_converted port hostname uuid role\<rparr>))"

definition AddOneSeedMember :: "string \<Rightarrow> string \<Rightarrow> u16 \<Rightarrow> config \<Rightarrow> membership_code \<times> config" where
  "AddOneSeedMember node_name ip_address port c =
     (let seed = Member node_name ip_address port [] [] [] in
      if \<exists>m\<in>set (c_seed_members c). member_eq m seed then (MEMBERSHIP_FAILURE, c)
      else (MEMBERSHIP_SUCCESS, c\<lparr>c_seed_members := c_seed_members c @ [seed]\<rparr>))"

definition SetRetransmitMultiplier :: "int \<Rightarrow> config \<Rightarrow> config" where
  "SetRetransmitMultiplier multiplier c = c\<lparr>c_retransmit_multiplier := multiplier\<rparr>"

definition SetGossipInterval :: "nat \<Rightarrow> config \<Rightarrow> config" where
  "SetGossipInterval interval c = c\<lparr>c_gossip_interval := interval\<rparr>"

definition SetFailureDetectorIntervalInMilliSeconds :: "nat \<Rightarrow> config \<Rightarrow> config" where
  "SetFailureDetectorIntervalInMilliSeconds interval c = c\<lparr>c_failure_detector_interval := interval\<rparr>"

definition EnableLeaveWithoutNotification :: "config \<Rightarrow> config" where
  "EnableLeaveWithoutNotification c = c\<lparr>c_leave_without_notification := True\<rparr>"

definition SetFailureDetectorOff :: "config \<Rightarrow> config" where
  "SetFailureDetectorOff c = c\<lparr>c_failure_detector_off := True\<rparr>"

definition EnableRelayPing :: "config \<Rightarrow> config" where
  "EnableRelayPing c = c\<lparr>c_relay_ping_enabled := True\<rparr>"

definition EnablePrintPingLog :: "config \<Rightarrow> config" where
  "EnablePrintPingLog c = c\<lparr>c_print_ping_log := True\<rparr>"

text \<open>The seed list never holds two members the comparison identifies.\<close>

definition seeds_distinct :: "config \<Rightarrow> bool" where
  "seeds_distinct c \<longleftrightarrow> distinct (map mkey (c_seed_members c))"

lemma seeds_distinct_Config: "seeds_distinct Config"
  by (simp add: seeds_distinct_def Config_def)

lemma distinct_map_snoc: "distinct (map f (xs @ [x])) \<longleftrightarrow> distinct (map f xs) \<and> f x \<notin> f ` set xs"
  by auto

lemma AddOneSeedMember_distinct:
  assumes "seeds_distinct c"
  shows "seeds_distinct (snd (AddOneSeedMember n ip p c))"
proof (cases "\<exists>m\<in>set (c_seed_members c). member_eq m (Member n ip p [] [] [])")
  case True
  then have "snd (AddOneSeedMember n ip p c) = c"
    by (simp only: AddOneSeedMember_def Let_def if_True snd_conv)
  then show ?thesis using assms by (simp only:)
next
  case False
  then have absent: "mkey (Member n ip p [] [] []) \<notin> mkey ` set (c_seed_members c)"
    by (metis (no_types, lifting) imageE member_eq_key)
  have "c_seed_members (snd (AddOneSeedMember n ip p c)) =
      c_seed_members c @ [Member n ip p [] [] []]"
    using False by (simp add: AddOneSeedMember_def)
  then show ?thesis
    using assms absent unfolding seeds_distinct_def by (simp only: distinct_map_snoc) blast
qed

lemma member_eq_refl [simp]: "member_eq m m"
  by (simp add: member_eq_def)

lemma AddOneSeedMember_in:
  "\<exists>m\<in>set (c_seed_members (snd (AddOneSeedMember n ip p c))). member_eq m (Member n' ip p [] [] [])"
proof (cases "\<exists>m\<in>set (c_seed_members c). member_eq m (Member n ip p [] [] [])")
  case True
  then have "snd (AddOneSeedMember n ip p c) = c" by (simp add: AddOneSeedMember_def)
  then show ?thesis using True by (simp add: member_eq_def Member_def)
next
  case False
  then have "Member n ip p [] [] [] \<in> set (c_seed_members (snd (AddOneSeedMember n ip p c)))"
    by (simp add: AddOneSeedMember_def)
  then show ?thesis by (rule bexI [rotated]) (simp add: member_eq_def Member_def)
qed

lemma AddOneSeedMember_twice:
  "fst (AddOneSeedMember n ip p (snd (AddOneSeedMember n' ip p c))) = MEMBERSHIP_FAILURE"
  unfolding AddOneSeedMember_def [of n] Let_def by (simp only: AddOneSeedMember_in if_True fst_conv)

end
