(* ===== verification/Membership_Message.thy ===== *)
theory Membership_Message
  imports Member
begin

text \<open>
  The messages nodes exchange, \<open>node_keeper/src/membership_message.h\<close> and
  \<open>membership_message.cc\<close>, over the records of \<open>node_keeper/protobuf/message.proto\<close>.
  A proto2 field that carries a presence bit is an option; a getter of an absent field
  gives the default of its type. Numbers are int32 fields: 32-bit words.

  Turning a message into bytes and back is code protobuf generates and is not under
  src/: it is the parameter \<open>wire\<close>.
\<close>

section \<open>Protobuf records\<close>

datatype member_status = UP | DOWN | SUSPECT | RECOVERY | ACTOR_SYSTEM_DOWN | ACTOR_SYSTEM_UP

record member_update =
  u_name :: "string option"
  u_hostname :: "string option"
  u_ip :: "string option"
  u_port :: "u32 option"
  u_role :: "string option"
  u_status :: "member_status option"
  u_incarnation :: "u32 option"
  u_member_id :: "string option"
  u_actor_system_up :: "bool option"

datatype full_state_code = FULL_SUCCESS | FULL_FAILURE | REENTRY_REJECTED

record full_state =
  fs_error :: "full_state_code option"
  fs_states :: "member_update list"

datatype pull_request_type = FULL_STATE | PING | PING_RELAY

record pull_request =
  pr_type :: "pull_request_type option"
  pr_name :: "string option"
  pr_ip :: "string option"
  pr_port :: "u32 option"
  pr_self_name :: "string option"
  pr_self_ip :: "string option"
  pr_self_port :: "u32 option"
  pr_states :: "member_update list"

datatype pull_response_type = PING_SUSCESS | PING_FAILURE | PING_REQUEST_RECEIVED

record pull_response =
  ps_type :: "pull_response_type option"
  ps_name :: "string option"
  ps_ip :: "string option"
  ps_port :: "u32 option"

definition pb_string :: "string option \<Rightarrow> string" where
  "pb_string f = (case f of None \<Rightarrow> [] | Some s \<Rightarrow> s)"

definition pb_int :: "u32 option \<Rightarrow> u32" where
  "pb_int f = (case f of None \<Rightarrow> 0 | Some n \<Rightarrow> n)"

definition pb_bool :: "bool option \<Rightarrow> bool" where
  "pb_bool f = (case f of None \<Rightarrow> False | Some b \<Rightarrow> b)"

definition pb_status :: "member_status option \<Rightarrow> member_status" where
  "pb_status f = (case f of None \<Rightarrow> UP | Some s \<Rightarrow> s)"

lemma pb_simps [simp]:
  "pb_string (Some s) = s" "pb_int (Some n) = n" "pb_bool (Some b) = b" "pb_status (Some x) = x"
  "pb_string None = []" "pb_int None = 0" "pb_bool None = False" "pb_status None = UP"
  by (simp_all add: pb_string_def pb_int_def pb_bool_def pb_status_def)

definition empty_update :: member_update where
  "empty_update = \<lparr>u_name = None, u_hostname = None, u_ip = None, u_port = None, u_role = None,
     u_status = None, u_incarnation = None, u_member_id = None, u_actor_system_up = None\<rparr>"

definition empty_full_state :: full_state where
  "empty_full_state = \<lparr>fs_error = None, fs_states = []\<rparr>"

definition empty_request :: pull_request where
  "empty_request = \<lparr>pr_type = None, pr_name = None, pr_ip = None, pr_port = None,
     pr_self_name = None, pr_self_ip = None, pr_self_port = None, pr_states = []\<rparr>"

definition empty_response :: pull_response where
  "empty_response = \<lparr>ps_type = None, ps_name = None, ps_ip = None, ps_port = None\<rparr>"

text \<open>\<open>IsInitialized\<close>: the required fields are present.\<close>

definition update_IsInitialized :: "member_update \<Rightarrow> bool" where
  "update_IsInitialized u \<longleftrightarrow>
     u_name u \<noteq> None \<and> u_hostname u \<noteq> None \<and> u_ip u \<noteq> None \<and> u_port u \<noteq> None \<and>
     u_role u \<noteq> None \<and> u_status u \<noteq> None \<and> u_incarnation u \<noteq> None"

text \<open>The generated serialisers and parsers, one pair per message type.\<close>

record wire =
  ser_update :: "member_update \<Rightarrow> byte list"
  par_update :: "byte list \<Rightarrow> member_update"
  ser_full :: "full_state \<Rightarrow> byte list"
  par_full :: "byte list \<Rightarrow> full_state"
  ser_request :: "pull_request \<Rightarrow> byte list"
  par_request :: "byte list \<Rightarrow> pull_request"
  ser_response :: "pull_response \<Rightarrow> byte list"
  par_response :: "byte list \<Rightarrow> pull_response"

section \<open>UpdateMessage\<close>

definition SetUpdate :: "member \<Rightarrow> u32 \<Rightarrow> member_update \<Rightarrow> member_update" where
  "SetUpdate m inc u =
     u\<lparr>u_name := Some (m_node_name m), u_hostname := Some (m_host_name m),
       u_ip := Some (m_ip_address m), u_port := Some (ucast (m_port m)),
       u_incarnation := Some inc, u_member_id := Some (m_uid m), u_role := Some (m_role m)\<rparr>"

definition InitAsUpMessage :: "member \<Rightarrow> u32 \<Rightarrow> member_update" where
  "InitAsUpMessage m inc = (SetUpdate m inc empty_update)\<lparr>u_status := Some UP\<rparr>"

definition InitAsDownMessage :: "member \<Rightarrow> u32 \<Rightarrow> member_update" where
  "InitAsDownMessage m inc = (SetUpdate m inc empty_update)\<lparr>u_status := Some DOWN\<rparr>"

definition InitAsSuspectMessage :: "member \<Rightarrow> u32 \<Rightarrow> member_update" where
  "InitAsSuspectMessage m inc = (SetUpdate m inc empty_update)\<lparr>u_status := Some SUSPECT\<rparr>"

definition InitAsRecoveryMessage :: "member \<Rightarrow> u32 \<Rightarrow> member_update" where
  "InitAsRecoveryMessage m inc = (SetUpdate m inc empty_update)\<lparr>u_status := Some RECOVERY\<rparr>"

definition InitAsActorSystemDownMessage :: "member \<Rightarrow> u32 \<Rightarrow> member_update" where
  "InitAsActorSystemDownMessage m inc =
     (SetUpdate m inc empty_update)\<lparr>u_status := Some ACTOR_SYSTEM_DOWN\<rparr>"

definition InitAsActorSystemUpMessage :: "member \<Rightarrow> u32 \<Rightarrow> member_update" where
  "InitAsActorSystemUpMessage m inc =
     (SetUpdate m inc empty_update)\<lparr>u_status := Some ACTOR_SYSTEM_UP\<rparr>"

definition update_GetMember :: "member_update \<Rightarrow> member" where
  "update_GetMember u =
     Member (pb_string (u_name u)) (pb_string (u_ip u)) (ucast (pb_int (u_port u)))
       (pb_string (u_hostname u)) (pb_string (u_member_id u)) (pb_string (u_role u))"

definition GetIncarnation :: "member_update \<Rightarrow> u32" where
  "GetIncarnation u = pb_int (u_incarnation u)"

definition IsUpMessage :: "member_update \<Rightarrow> bool" where
  "IsUpMessage u \<longleftrightarrow> \<not> (\<not> update_IsInitialized u \<or> pb_status (u_status u) \<noteq> UP)"

definition IsDownMessage :: "member_update \<Rightarrow> bool" where
  "IsDownMessage u \<longleftrightarrow> \<not> (\<not> update_IsInitialized u \<or> pb_status (u_status u) \<noteq> DOWN)"

definition IsSuspectMessage :: "member_update \<Rightarrow> bool" where
  "IsSuspectMessage u \<longleftrightarrow> \<not> (\<not> update_IsInitialized u \<or> pb_status (u_status u) \<noteq> SUSPECT)"

definition IsRecoveryMessage :: "member_update \<Rightarrow> bool" where
  "IsRecoveryMessage u \<longleftrightarrow> \<not> (\<not> update_IsInitialized u \<or> pb_status (u_status u) \<noteq> RECOVERY)"

definition IsActorSystemDownMessage :: "member_update \<Rightarrow> bool" where
  "IsActorSystemDownMessage u \<longleftrightarrow>
     (if \<not> update_IsInitialized u then False else pb_status (u_status u) = ACTOR_SYSTEM_DOWN)"

definition IsActorSystemUpMessage :: "member_update \<Rightarrow> bool" where
  "IsActorSystemUpMessage u \<longleftrightarrow>
     (if \<not> update_IsInitialized u then False else pb_status (u_status u) = ACTOR_SYSTEM_UP)"

lemmas update_inits = InitAsUpMessage_def InitAsDownMessage_def InitAsSuspectMessage_def
  InitAsRecoveryMessage_def InitAsActorSystemDownMessage_def InitAsActorSystemUpMessage_def

lemmas update_tests = IsUpMessage_def IsDownMessage_def IsSuspectMessage_def
  IsRecoveryMessage_def IsActorSystemDownMessage_def IsActorSystemUpMessage_def

section \<open>FullStateMessage\<close>

text \<open>The reported status of a member, \<open>MemberWithStatus\<close>.\<close>

record member_with_status =
  ws_member :: member
  ws_status :: member_status

definition state_of :: "member \<Rightarrow> member_status \<Rightarrow> member_update" where
  "state_of m st = empty_update\<lparr>u_name := Some (m_node_name m), u_hostname := Some (m_host_name m),
     u_ip := Some (m_ip_address m), u_role := Some (m_role m), u_port := Some (ucast (m_port m)),
     u_status := Some st, u_incarnation := Some 1\<rparr>"

fun InitAsFullStateMessage :: "member list \<Rightarrow> full_state \<Rightarrow> full_state" where
  "InitAsFullStateMessage [] f = f"
| "InitAsFullStateMessage (m # ms) f =
     InitAsFullStateMessage ms
       (f\<lparr>fs_error := Some FULL_SUCCESS, fs_states := fs_states f @ [state_of m UP]\<rparr>)"

fun InitAsFullStateMessageWithStatus :: "member_with_status list \<Rightarrow> full_state \<Rightarrow> full_state" where
  "InitAsFullStateMessageWithStatus [] f = f"
| "InitAsFullStateMessageWithStatus (w # ws) f =
     InitAsFullStateMessageWithStatus ws
       (f\<lparr>fs_error := Some FULL_SUCCESS,
          fs_states := fs_states f @ [state_of (ws_member w) (ws_status w)]\<rparr>)"

definition InitAsReentryRejected :: "full_state \<Rightarrow> full_state" where
  "InitAsReentryRejected f = f\<lparr>fs_error := Some REENTRY_REJECTED\<rparr>"

definition full_IsSuccess :: "full_state \<Rightarrow> bool" where
  "full_IsSuccess f \<longleftrightarrow> (case fs_error f of None \<Rightarrow> FULL_SUCCESS | Some e \<Rightarrow> e) = FULL_SUCCESS"

definition state_member :: "member_update \<Rightarrow> member" where
  "state_member u = Member (pb_string (u_name u)) (pb_string (u_ip u)) (ucast (pb_int (u_port u)))
     (pb_string (u_hostname u)) [] (pb_string (u_role u))"

definition full_GetMembers :: "full_state \<Rightarrow> member list" where
  "full_GetMembers f = map state_member (fs_states f)"

definition full_GetMembersWithStatus :: "full_state \<Rightarrow> member_with_status list" where
  "full_GetMembersWithStatus f =
     map (\<lambda>u. \<lparr>ws_member = state_member u, ws_status = pb_status (u_status u)\<rparr>) (fs_states f)"

section \<open>PullRequestMessage\<close>

definition InitAsFullStateType :: "pull_request \<Rightarrow> pull_request" where
  "InitAsFullStateType r = r\<lparr>pr_type := Some FULL_STATE\<rparr>"

definition InitAsPingType_bare :: "pull_request \<Rightarrow> pull_request" where
  "InitAsPingType_bare r = r\<lparr>pr_type := Some PING\<rparr>"

definition ping_state :: "member \<Rightarrow> u32 \<Rightarrow> (member \<times> bool) list \<Rightarrow> member_update" where
  "ping_state m inc member_actor_system =
     empty_update\<lparr>u_name := Some (m_node_name m), u_hostname := Some (m_host_name m),
       u_ip := Some (m_ip_address m), u_port := Some (ucast (m_port m)), u_role := Some (m_role m),
       u_status := Some UP, u_incarnation := Some inc,
       u_actor_system_up := Some (case mfind m member_actor_system of Some b \<Rightarrow> b | None \<Rightarrow> False)\<rparr>"

definition InitAsPingType ::
  "(member \<times> u32) list \<Rightarrow> (member \<times> bool) list \<Rightarrow> pull_request \<Rightarrow> pull_request" where
  "InitAsPingType members member_actor_system r =
     r\<lparr>pr_type := Some PING,
       pr_states := pr_states r @ map (\<lambda>(m, inc). ping_state m inc member_actor_system) members\<rparr>"

definition InitAsPingRelayType :: "member \<Rightarrow> member \<Rightarrow> pull_request \<Rightarrow> pull_request" where
  "InitAsPingRelayType self target r =
     r\<lparr>pr_type := Some PING_RELAY, pr_name := Some (m_node_name target),
       pr_ip := Some (m_ip_address target), pr_port := Some (ucast (m_port target)),
       pr_self_name := Some (m_node_name self), pr_self_ip := Some (m_ip_address self),
       pr_self_port := Some (ucast (m_port self))\<rparr>"

definition request_type :: "pull_request \<Rightarrow> pull_request_type" where
  "request_type r = (case pr_type r of None \<Rightarrow> FULL_STATE | Some t \<Rightarrow> t)"

definition IsFullStateType :: "pull_request \<Rightarrow> bool" where
  "IsFullStateType r \<longleftrightarrow> request_type r = FULL_STATE"

definition IsPingType :: "pull_request \<Rightarrow> bool" where
  "IsPingType r \<longleftrightarrow> request_type r = PING"

definition IsPingRelayType :: "pull_request \<Rightarrow> bool" where
  "IsPingRelayType r \<longleftrightarrow> request_type r = PING_RELAY"

definition request_GetName :: "pull_request \<Rightarrow> string" where
  "request_GetName r = (if IsPingRelayType r then pb_string (pr_name r) else [])"

definition request_GetIpAddress :: "pull_request \<Rightarrow> string" where
  "request_GetIpAddress r = (if IsPingRelayType r then pb_string (pr_ip r) else [])"

definition request_GetPort :: "pull_request \<Rightarrow> u32" where
  "request_GetPort r = (if IsPingRelayType r then pb_int (pr_port r) else 0)"

definition request_GetSelfIpAddress :: "pull_request \<Rightarrow> string" where
  "request_GetSelfIpAddress r = (if IsPingRelayType r then pb_string (pr_self_ip r) else [])"

definition request_GetSelfPort :: "pull_request \<Rightarrow> u32" where
  "request_GetSelfPort r = (if IsPingRelayType r then pb_int (pr_self_port r) else 0)"

fun collect_states :: "(member_update \<Rightarrow> 'v) \<Rightarrow> member_update list \<Rightarrow> (member \<times> 'v) list \<Rightarrow> (member \<times> 'v) list" where
  "collect_states f [] m = m"
| "collect_states f (u # us) m =
     collect_states f us
       (if pb_status (u_status u) = UP then mput (update_GetMember u) (f u) m else m)"

definition GetMembersWithIncarnation :: "pull_request \<Rightarrow> (member \<times> u32) list" where
  "GetMembersWithIncarnation r = collect_states (\<lambda>u. pb_int (u_incarnation u)) (pr_states r) []"

definition GetMembersWithActorSystem :: "pull_request \<Rightarrow> (member \<times> bool) list" where
  "GetMembersWithActorSystem r = collect_states (\<lambda>u. pb_bool (u_actor_system_up u)) (pr_states r) []"

section \<open>PullResponseMessage\<close>

definition InitAsPingSuccess :: "member \<Rightarrow> pull_response" where
  "InitAsPingSuccess m = empty_response\<lparr>ps_type := Some PING_SUSCESS, ps_name := Some (m_node_name m),
     ps_ip := Some (m_ip_address m), ps_port := Some (ucast (m_port m))\<rparr>"

definition InitAsPingFailure :: "member \<Rightarrow> pull_response" where
  "InitAsPingFailure m = empty_response\<lparr>ps_type := Some PING_FAILURE, ps_name := Some (m_node_name m),
     ps_ip := Some (m_ip_address m), ps_port := Some (ucast (m_port m))\<rparr>"

definition InitAsPingReceived :: pull_response where
  "InitAsPingReceived = empty_response\<lparr>ps_type := Some PING_REQUEST_RECEIVED\<rparr>"

definition response_type :: "pull_response \<Rightarrow> pull_response_type" where
  "response_type p = (case ps_type p of None \<Rightarrow> PING_SUSCESS | Some t \<Rightarrow> t)"

definition IsPingSuccess :: "pull_response \<Rightarrow> bool" where
  "IsPingSuccess p \<longleftrightarrow> response_type p = PING_SUSCESS"

definition IsPingFailure :: "pull_response \<Rightarrow> bool" where
  "IsPingFailure p \<longleftrightarrow> response_type p = PING_FAILURE"

definition response_GetMember :: "pull_response \<Rightarrow> member" where
  "response_GetMember p =
     (if response_type p = PING_SUSCESS \<or> response_type p = PING_FAILURE
      then Member (pb_string (ps_name p)) (pb_string (ps_ip p)) (ucast (pb_int (ps_port p))) [] [] []
      else empty_member)"

end
