(* ===== verification/Message_Laws.thy ===== *)
theory Message_Laws
  imports Membership_Message
begin

text \<open>
  What survives a message: an update carries its member whole, with its incarnation and
  exactly one status; the two messages that describe many members, the full state and the
  ping request, drop the uid.
\<close>

definition without_uid :: "member \<Rightarrow> member" where
  "without_uid m = m\<lparr>m_uid := []\<rparr>"

lemma mkey_without_uid [simp]: "mkey (without_uid m) = mkey m"
  by (simp add: mkey_def without_uid_def)

lemma without_uid_fields [simp]:
  "m_uid (without_uid m) = []" "m_node_name (without_uid m) = m_node_name m"
  "m_host_name (without_uid m) = m_host_name m" "m_ip_address (without_uid m) = m_ip_address m"
  "m_role (without_uid m) = m_role m" "m_port (without_uid m) = m_port m"
  by (simp_all add: without_uid_def)

lemma ucast_16_32_16 [simp]: "(ucast (ucast (p :: u16) :: u32) :: u16) = p"
  by (rule bit_word_eqI) (simp add: bit_ucast_iff)

lemma Member_fields [simp]:
  "m_uid (Member n ip p h u r) = u" "m_node_name (Member n ip p h u r) = n"
  "m_host_name (Member n ip p h u r) = h" "m_ip_address (Member n ip p h u r) = ip"
  "m_role (Member n ip p h u r) = r" "m_port (Member n ip p h u r) = p"
  by (simp_all add: Member_def)

lemma Member_eta: "Member (m_node_name m) (m_ip_address m) (m_port m) (m_host_name m) (m_uid m) (m_role m) = m"
  by (simp add: Member_def)

lemma mkey_Member [simp]: "mkey (Member n ip p h u r) = MKey ip p"
  by (simp add: mkey_def)

section \<open>Updates\<close>

lemma GetMember_SetUpdate [simp]:
  "update_GetMember ((SetUpdate m inc u)\<lparr>u_status := st\<rparr>) = m"
  by (simp add: update_GetMember_def SetUpdate_def Member_def)

lemma GetIncarnation_SetUpdate [simp]:
  "GetIncarnation ((SetUpdate m inc u)\<lparr>u_status := st\<rparr>) = inc"
  by (simp add: GetIncarnation_def SetUpdate_def)

lemma IsInitialized_SetUpdate [simp]:
  "update_IsInitialized ((SetUpdate m inc u)\<lparr>u_status := Some st\<rparr>)"
  by (simp add: update_IsInitialized_def SetUpdate_def)

lemma update_status_tests:
  assumes "update_IsInitialized u" and "u_status u = Some st"
  shows "IsUpMessage u \<longleftrightarrow> st = UP" and "IsDownMessage u \<longleftrightarrow> st = DOWN"
    and "IsSuspectMessage u \<longleftrightarrow> st = SUSPECT" and "IsRecoveryMessage u \<longleftrightarrow> st = RECOVERY"
    and "IsActorSystemDownMessage u \<longleftrightarrow> st = ACTOR_SYSTEM_DOWN"
    and "IsActorSystemUpMessage u \<longleftrightarrow> st = ACTOR_SYSTEM_UP"
  using assms by (simp_all add: update_tests)

text \<open>The six messages, each read back as it was written.\<close>

lemma InitAs_fields [simp]:
  "update_GetMember (InitAsUpMessage m i) = m" "GetIncarnation (InitAsUpMessage m i) = i"
  "update_GetMember (InitAsDownMessage m i) = m" "GetIncarnation (InitAsDownMessage m i) = i"
  "update_GetMember (InitAsSuspectMessage m i) = m" "GetIncarnation (InitAsSuspectMessage m i) = i"
  "update_GetMember (InitAsRecoveryMessage m i) = m" "GetIncarnation (InitAsRecoveryMessage m i) = i"
  "update_GetMember (InitAsActorSystemDownMessage m i) = m"
  "GetIncarnation (InitAsActorSystemDownMessage m i) = i"
  "update_GetMember (InitAsActorSystemUpMessage m i) = m"
  "GetIncarnation (InitAsActorSystemUpMessage m i) = i"
  by (simp_all add: InitAsUpMessage_def InitAsDownMessage_def InitAsSuspectMessage_def
      InitAsRecoveryMessage_def InitAsActorSystemDownMessage_def InitAsActorSystemUpMessage_def)

lemma InitAs_tests [simp]:
  "IsUpMessage (InitAsUpMessage m i)" "IsDownMessage (InitAsDownMessage m i)"
  "\<not> IsUpMessage (InitAsDownMessage m i)" "\<not> IsUpMessage (InitAsSuspectMessage m i)"
  "\<not> IsDownMessage (InitAsSuspectMessage m i)" "IsSuspectMessage (InitAsSuspectMessage m i)"
  "\<not> IsDownMessage (InitAsUpMessage m i)"
  "IsRecoveryMessage (InitAsRecoveryMessage m i)"
  by (simp_all add: InitAsUpMessage_def InitAsDownMessage_def InitAsSuspectMessage_def
      InitAsRecoveryMessage_def update_status_tests [OF IsInitialized_SetUpdate])

lemma update_uninitialised:
  assumes "\<not> update_IsInitialized u"
  shows "\<not> IsUpMessage u" "\<not> IsDownMessage u" "\<not> IsSuspectMessage u" "\<not> IsRecoveryMessage u"
    "\<not> IsActorSystemDownMessage u" "\<not> IsActorSystemUpMessage u"
  using assms by (simp_all add: update_tests)

section \<open>Full states\<close>

lemma state_member_state_of [simp]: "state_member (state_of m st) = without_uid m"
  by (simp add: state_member_def state_of_def Member_def without_uid_def empty_update_def)

lemma status_state_of [simp]: "u_status (state_of m st) = Some st"
  by (simp add: state_of_def)

lemma fs_states_InitAsFullStateMessageWithStatus:
  "fs_states (InitAsFullStateMessageWithStatus ws f) =
     fs_states f @ map (\<lambda>w. state_of (ws_member w) (ws_status w)) ws"
  by (induction ws f rule: InitAsFullStateMessageWithStatus.induct) auto

lemma fs_error_InitAsFullStateMessageWithStatus:
  "fs_error (InitAsFullStateMessageWithStatus ws f) = (if ws = [] then fs_error f else Some FULL_SUCCESS)"
  by (induction ws f rule: InitAsFullStateMessageWithStatus.induct) auto

lemma fs_states_InitAsFullStateMessage:
  "fs_states (InitAsFullStateMessage ms f) = fs_states f @ map (\<lambda>m. state_of m UP) ms"
  by (induction ms f rule: InitAsFullStateMessage.induct) auto

lemma full_state_roundtrip:
  "full_GetMembersWithStatus (InitAsFullStateMessageWithStatus ws empty_full_state) =
     map (\<lambda>w. w\<lparr>ws_member := without_uid (ws_member w)\<rparr>) ws"
  by (simp add: full_GetMembersWithStatus_def fs_states_InitAsFullStateMessageWithStatus empty_full_state_def)

lemma full_state_success: "full_IsSuccess (InitAsFullStateMessageWithStatus ws empty_full_state)"
  by (simp add: full_IsSuccess_def fs_error_InitAsFullStateMessageWithStatus empty_full_state_def)

section \<open>Ping requests\<close>

lemma ping_state_fields [simp]:
  "update_GetMember (ping_state m inc as) = without_uid m"
  "u_status (ping_state m inc as) = Some UP"
  "u_incarnation (ping_state m inc as) = Some inc"
  "u_actor_system_up (ping_state m inc as) = Some (case mfind m as of Some b \<Rightarrow> b | None \<Rightarrow> False)"
  by (simp_all add: ping_state_def update_GetMember_def Member_def without_uid_def empty_update_def)

lemma collect_states_fold:
  "collect_states f us m =
     fold (\<lambda>(k, v). mput k v)
       (map (\<lambda>u. (update_GetMember u, f u)) (filter (\<lambda>u. pb_status (u_status u) = UP) us)) m"
  by (induction f us m rule: collect_states.induct) auto

lemma mwf_collect_states: "mwf m \<Longrightarrow> mwf (collect_states f us m)"
  unfolding collect_states_fold by (rule std_map.invar_fold_put)

lemma map_put_largest: "\<forall>(k', v')\<in>set m. key k' < key k \<Longrightarrow> map_put key k v m = m @ [(k, v)]"
  for key :: "'k \<Rightarrow> 'o::linorder"
  by (induction m) (auto simp: not_less_iff_gr_or_eq)

text \<open>Reading back the entries of a container in its own order rebuilds it.\<close>

lemma fold_put_sorted:
  fixes key :: "'k \<Rightarrow> 'o::linorder"
  assumes "map_wf key (m @ es)"
  shows "fold (\<lambda>(k, v). map_put key k v) es m = m @ es"
  using assms
proof (induction es arbitrary: m)
  case (Cons e es)
  obtain k v where e: "e = (k, v)" by (cases e)
  have "map_put key k v m = m @ [(k, v)]"
    by (rule map_put_largest) (use Cons.prems in \<open>auto simp: e map_wf_def sorted_wrt_append\<close>)
  then show ?case using Cons.IH [of "m @ [e]"] Cons.prems by (simp add: e)
qed simp

lemma collect_ping_states:
  assumes "mwf ms"
  shows "collect_states f (map (\<lambda>(m, inc). ping_state m inc as) ms) [] =
    map (\<lambda>(m, inc). (without_uid m, f (ping_state m inc as))) ms"
proof -
  have "map_wf mkey (map (\<lambda>(m, inc). (without_uid m, f (ping_state m inc as))) ms)"
    using assms by (simp add: map_wf_def comp_def case_prod_beta)
  then have "fold (\<lambda>(k, v). mput k v) (map (\<lambda>(m, inc). (without_uid m, f (ping_state m inc as))) ms) [] =
      map (\<lambda>(m, inc). (without_uid m, f (ping_state m inc as))) ms"
    using fold_put_sorted [of mkey "[]"] by simp
  moreover have "filter (\<lambda>u. pb_status (u_status u) = UP) (map (\<lambda>(m, inc). ping_state m inc as) ms) =
      map (\<lambda>(m, inc). ping_state m inc as) ms"
    by (auto simp: filter_id_conv)
  moreover have "(\<lambda>u. (update_GetMember u, f u)) \<circ> (\<lambda>(m, inc). ping_state m inc as) =
      (\<lambda>(m, inc). (without_uid m, f (ping_state m inc as)))"
    by auto
  ultimately show ?thesis by (simp add: collect_states_fold)
qed

lemma ping_members_roundtrip:
  "mwf ms \<Longrightarrow> GetMembersWithIncarnation (InitAsPingType ms as empty_request) =
     map (\<lambda>(m, inc). (without_uid m, inc)) ms"
  by (simp add: GetMembersWithIncarnation_def InitAsPingType_def empty_request_def collect_ping_states)

lemma ping_actor_systems_roundtrip:
  "mwf ms \<Longrightarrow> GetMembersWithActorSystem (InitAsPingType ms as empty_request) =
     map (\<lambda>(m, inc). (without_uid m, (case mfind m as of Some b \<Rightarrow> b | None \<Rightarrow> False))) ms"
  by (simp add: GetMembersWithActorSystem_def InitAsPingType_def empty_request_def collect_ping_states)

lemma request_types [simp]:
  "IsFullStateType (InitAsFullStateType r)" "\<not> IsPingType (InitAsFullStateType r)"
  "IsPingType (InitAsPingType ms as r)" "IsPingType (InitAsPingType_bare r)"
  "\<not> IsFullStateType (InitAsPingType ms as r)" "\<not> IsPingRelayType (InitAsPingType ms as r)"
  "IsPingRelayType (InitAsPingRelayType a b r)" "\<not> IsPingType (InitAsPingRelayType a b r)"
  by (simp_all add: IsFullStateType_def IsPingType_def IsPingRelayType_def request_type_def
      InitAsFullStateType_def InitAsPingType_def InitAsPingType_bare_def InitAsPingRelayType_def)

lemma relay_request_fields:
  "request_GetName (InitAsPingRelayType self target r) = m_node_name target"
  "request_GetIpAddress (InitAsPingRelayType self target r) = m_ip_address target"
  "ucast (request_GetPort (InitAsPingRelayType self target r)) = m_port target"
  "request_GetSelfIpAddress (InitAsPingRelayType self target r) = m_ip_address self"
  "ucast (request_GetSelfPort (InitAsPingRelayType self target r)) = m_port self"
  by (simp_all add: request_GetName_def request_GetIpAddress_def request_GetPort_def
      request_GetSelfIpAddress_def request_GetSelfPort_def) (simp_all add: InitAsPingRelayType_def)

section \<open>Ping responses\<close>

lemma response_tests [simp]:
  "IsPingSuccess (InitAsPingSuccess m)" "\<not> IsPingFailure (InitAsPingSuccess m)"
  "IsPingFailure (InitAsPingFailure m)" "\<not> IsPingSuccess (InitAsPingFailure m)"
  "\<not> IsPingFailure InitAsPingReceived" "\<not> IsPingSuccess InitAsPingReceived"
  by (simp_all add: IsPingSuccess_def IsPingFailure_def response_type_def InitAsPingSuccess_def
      InitAsPingFailure_def InitAsPingReceived_def)

text \<open>A response names its member only: uid, host name and role are lost.\<close>

lemma response_GetMember_Failure [simp]:
  "response_GetMember (InitAsPingFailure m) = Member (m_node_name m) (m_ip_address m) (m_port m) [] [] []"
  by (simp add: response_GetMember_def response_type_def InitAsPingFailure_def)

lemma response_GetMember_Success [simp]:
  "response_GetMember (InitAsPingSuccess m) = Member (m_node_name m) (m_ip_address m) (m_port m) [] [] []"
  by (simp add: response_GetMember_def response_type_def InitAsPingSuccess_def)

end
