(* ===== verification/Fifo_Spec.thy ===== *)
theory Fifo_Spec
  imports CDCF_Prelude
begin

text \<open>
  The contract of a first-in first-out buffer. Three parts of the program are such
  buffers: the work list of the timed functor queue, the channel between the membership
  loop and a gRPC subscriber, and the mails a load-balancing policy holds back. Each
  provides an interpretation; the ordering facts are proved here once.
\<close>

text \<open>Take up to \<open>n\<close> elements out of a buffer.\<close>

fun drain :: "('q \<Rightarrow> ('a \<times> 'q) option) \<Rightarrow> nat \<Rightarrow> 'q \<Rightarrow> 'a list \<times> 'q" where
  "drain deq 0 q = ([], q)"
| "drain deq (Suc n) q =
     (case deq q of None \<Rightarrow> ([], q)
      | Some (x, q') \<Rightarrow> (case drain deq n q' of (xs, q'') \<Rightarrow> (x # xs, q'')))"

locale fifo =
  fixes enq :: "'a \<Rightarrow> 'q \<Rightarrow> 'q"
    and deq :: "'q \<Rightarrow> ('a \<times> 'q) option"
    and contents :: "'q \<Rightarrow> 'a list"
    and invar :: "'q \<Rightarrow> bool"
    and accepts :: "'q \<Rightarrow> bool"
  assumes contents_enq: "invar q \<Longrightarrow> accepts q \<Longrightarrow> contents (enq x q) = contents q @ [x]"
    and contents_deq: "invar q \<Longrightarrow> deq q = Some (x, q') \<Longrightarrow> contents q = x # contents q'"
    and deq_None: "invar q \<Longrightarrow> deq q = None \<longleftrightarrow> contents q = []"
    and invar_enq: "invar q \<Longrightarrow> invar (enq x q)"
    and invar_deq: "invar q \<Longrightarrow> deq q = Some (x, q') \<Longrightarrow> invar q'"
    and accepts_enq: "accepts q \<Longrightarrow> accepts (enq x q)"
begin

lemma deq_Some: "invar q \<Longrightarrow> contents q = x # xs \<Longrightarrow> \<exists>q'. deq q = Some (x, q') \<and> contents q' = xs \<and> invar q'"
  using contents_deq [of q] deq_None [of q] invar_deq [of q]
  by (cases "deq q") auto

lemma contents_enqs:
  "invar q \<Longrightarrow> accepts q \<Longrightarrow> contents (fold enq xs q) = contents q @ xs"
  by (induction xs arbitrary: q) (auto simp: contents_enq invar_enq accepts_enq)

lemma invar_enqs: "invar q \<Longrightarrow> invar (fold enq xs q)"
  by (induction xs arbitrary: q) (auto simp: invar_enq)

lemma drain_take:
  "invar q \<Longrightarrow> fst (drain deq n q) = take n (contents q)"
proof (induction n arbitrary: q)
  case (Suc n)
  show ?case
  proof (cases "contents q")
    case Nil
    then have "deq q = None" using Suc.prems deq_None by blast
    then show ?thesis using Nil by simp
  next
    case (Cons x xs)
    then obtain q' where q': "deq q = Some (x, q')" "contents q' = xs" "invar q'"
      using Suc.prems deq_Some by blast
    then show ?thesis using Suc.IH [of q'] Cons by (cases "drain deq n q'") simp
  qed
qed simp

lemma drain_drop:
  "invar q \<Longrightarrow> contents (snd (drain deq n q)) = drop n (contents q)"
proof (induction n arbitrary: q)
  case (Suc n)
  show ?case
  proof (cases "contents q")
    case Nil
    then have "deq q = None" using Suc.prems deq_None by blast
    then show ?thesis using Nil by simp
  next
    case (Cons x xs)
    then obtain q' where q': "deq q = Some (x, q')" "contents q' = xs" "invar q'"
      using Suc.prems deq_Some by blast
    then show ?thesis using Suc.IH [of q'] Cons by (cases "drain deq n q'") simp
  qed
qed simp

text \<open>First in, first out: what is put into an empty buffer comes out in the order it went in.\<close>

lemma fifo_order:
  assumes "invar q" and "accepts q" and "contents q = []"
  shows "fst (drain deq (length xs) (fold enq xs q)) = xs"
  using assms by (simp add: drain_take contents_enqs invar_enqs)

lemma drain_all_empty:
  assumes "invar q"
  shows "contents (snd (drain deq (length (contents q)) q)) = []"
  using assms by (simp add: drain_drop)

end

text \<open>\<open>std::queue\<close> is a list with its front first.\<close>

definition queue_push :: "'a \<Rightarrow> 'a list \<Rightarrow> 'a list" where
  "queue_push x q = q @ [x]"

definition queue_pop :: "'a list \<Rightarrow> ('a \<times> 'a list) option" where
  "queue_pop q = (case q of [] \<Rightarrow> None | x # q' \<Rightarrow> Some (x, q'))"

interpretation std_queue: fifo queue_push queue_pop id "\<lambda>_. True" "\<lambda>_. True"
  by unfold_locales (auto simp: queue_push_def queue_pop_def split: list.splits)

end
