(* ===== verification/Functor_Queue.thy ===== *)
theory Functor_Queue
  imports Fifo_Spec
begin

text \<open>
  The timed functor queue of \<open>node_keeper/src/queue.h\<close> and \<open>queue.cc\<close>: callers push
  a functor with the number of times it is to be called; one worker thread takes the
  functors in order and calls each that many times, sleeping the interval after every
  call. Membership runs gossip dissemination and failure detection on two such queues.

  The worker is a small-step machine, because \<open>Push\<close> and the destructor run on other
  threads between its steps: its program counter is at the top of its loop, in the middle
  of calling a functor some more times, or past the end of the thread function.
\<close>

section \<open>State and operations\<close>

datatype 'f worker_pc = AtLoopTop | Calling 'f nat | Stopped

record 'f fqueue =
  fq_interval :: nat                    \<comment> \<open>\<open>interval_\<close>, in milliseconds\<close>
  fq_pending :: "('f \<times> nat) list"    \<comment> \<open>\<open>queue_\<close>\<close>
  fq_pc :: "'f worker_pc"               \<comment> \<open>where \<open>thread_\<close> is in \<open>CallFunctors\<close>\<close>
  fq_should_stop :: bool                \<comment> \<open>\<open>should_stop_\<close>\<close>

definition TimedFunctorQueue :: "nat \<Rightarrow> 'f fqueue" where
  "TimedFunctorQueue interval =
     \<lparr>fq_interval = interval, fq_pending = [], fq_pc = AtLoopTop, fq_should_stop = False\<rparr>"

definition Push :: "'f \<Rightarrow> int \<Rightarrow> 'f fqueue \<Rightarrow> 'f fqueue" where
  "Push f t q =
     (if t < 1 then q else q\<lparr>fq_pending := queue_push (f, nat t) (fq_pending q)\<rparr>)"

text \<open>The part of the destructor before \<open>thread_->join()\<close>.\<close>

definition request_stop :: "'f fqueue \<Rightarrow> 'f fqueue" where
  "request_stop q = q\<lparr>fq_should_stop := True\<rparr>"

text \<open>
  One step of \<open>CallFunctors\<close>; the second component is the functor called in it. At the
  top of the loop the thread leaves when it has been told to stop, sleeps when the queue
  is empty, and takes the front otherwise; inside the \<open>for\<close> it calls and sleeps.
\<close>

fun worker_step :: "'f fqueue \<Rightarrow> 'f fqueue \<times> 'f option" where
  "worker_step q =
     (case fq_pc q of
        Stopped \<Rightarrow> (q, None)
      | AtLoopTop \<Rightarrow>
          (if fq_should_stop q then (q\<lparr>fq_pc := Stopped\<rparr>, None)
           else case queue_pop (fq_pending q) of
                  None \<Rightarrow> (q, None)
                | Some ((f, n), r) \<Rightarrow> (q\<lparr>fq_pending := r, fq_pc := Calling f n\<rparr>, None))
      | Calling f 0 \<Rightarrow> (q\<lparr>fq_pc := AtLoopTop\<rparr>, None)
      | Calling f (Suc n) \<Rightarrow> (q\<lparr>fq_pc := Calling f n\<rparr>, Some f))"

declare worker_step.simps [simp del]

text \<open>\<open>k\<close> steps of the worker with no other thread in between, and the calls they make.\<close>

fun worker_run :: "nat \<Rightarrow> 'f fqueue \<Rightarrow> 'f fqueue \<times> 'f list" where
  "worker_run 0 q = (q, [])"
| "worker_run (Suc k) q =
     (case worker_step q of (q', e) \<Rightarrow>
        (case worker_run k q' of (q'', es) \<Rightarrow>
           (q'', (case e of None \<Rightarrow> es | Some f \<Rightarrow> f # es))))"

section \<open>Specification: the sequence of calls still owed\<close>

definition owed_now :: "'f worker_pc \<Rightarrow> 'f list" where
  "owed_now pc = (case pc of Calling f n \<Rightarrow> replicate n f | _ \<Rightarrow> [])"

definition owed :: "'f fqueue \<Rightarrow> 'f list" where
  "owed q = owed_now (fq_pc q) @ concat (map (\<lambda>(f, n). replicate n f) (fq_pending q))"

definition times_ok :: "'f fqueue \<Rightarrow> bool" where
  "times_ok q \<longleftrightarrow> (\<forall>(f, n)\<in>set (fq_pending q). 0 < n)"

lemma times_ok_Push: "times_ok q \<Longrightarrow> times_ok (Push f t q)"
  by (auto simp: times_ok_def Push_def queue_push_def)

lemma times_ok_step: "times_ok q \<Longrightarrow> times_ok (fst (worker_step q))"
  by (auto simp: times_ok_def worker_step.simps queue_pop_def
      split: worker_pc.splits list.splits nat.splits option.splits)

lemma owed_Push: "owed (Push f t q) = owed q @ replicate (nat t) f"
  by (auto simp: owed_def Push_def queue_push_def)

lemma owed_request_stop: "owed (request_stop q) = owed q"
  by (simp add: owed_def request_stop_def)

text \<open>Every step pays the head of what is owed, or nothing.\<close>

lemma owed_step:
  "owed q = (case snd (worker_step q) of None \<Rightarrow> [] | Some f \<Rightarrow> [f]) @ owed (fst (worker_step q))"
  by (auto simp: owed_def owed_now_def worker_step.simps queue_pop_def
      split: worker_pc.splits list.splits nat.splits option.splits)

lemma owed_run: "owed q = snd (worker_run k q) @ owed (fst (worker_run k q))"
proof (induction k arbitrary: q)
  case (Suc k)
  obtain q' e where s: "worker_step q = (q', e)" by fastforce
  obtain q'' es where r: "worker_run k q' = (q'', es)" by fastforce
  show ?case using owed_step [of q] Suc.IH [of q'] by (auto simp: s r split: option.splits)
qed simp

text \<open>The work list is a FIFO buffer of (functor, times) pairs.\<close>

definition work_enq :: "'f \<times> nat \<Rightarrow> 'f fqueue \<Rightarrow> 'f fqueue" where
  "work_enq w q = Push (fst w) (int (snd w) + 1) q"

definition work_deq :: "'f fqueue \<Rightarrow> (('f \<times> nat) \<times> 'f fqueue) option" where
  "work_deq q = (case queue_pop (fq_pending q) of None \<Rightarrow> None
     | Some ((f, n), r) \<Rightarrow> Some ((f, n - 1), q\<lparr>fq_pending := r\<rparr>))"

definition work_list :: "'f fqueue \<Rightarrow> ('f \<times> nat) list" where
  "work_list q = map (\<lambda>(f, n). (f, n - 1)) (fq_pending q)"

interpretation functor_fifo: fifo work_enq work_deq work_list times_ok "\<lambda>_. True"
  by unfold_locales
    (auto simp: work_enq_def work_deq_def work_list_def times_ok_def Push_def queue_push_def
      queue_pop_def split: list.splits prod.splits option.splits)

section \<open>Progress of the worker\<close>

text \<open>
  The number of steps the worker needs for what is in the queue: per entry one to take it,
  one per call and one to leave the \<open>for\<close>.
\<close>

definition steps_needed :: "'f fqueue \<Rightarrow> nat" where
  "steps_needed q = (case fq_pc q of Calling f n \<Rightarrow> Suc n | _ \<Rightarrow> 0)
     + sum_list (map (\<lambda>(f, n). n + 2) (fq_pending q))"

lemma steps_needed_0: "steps_needed q = 0 \<Longrightarrow> owed q = []"
  by (auto simp: steps_needed_def owed_def owed_now_def split: worker_pc.splits)

lemma steps_needed_step:
  assumes "\<not> fq_should_stop q" and "fq_pc q \<noteq> Stopped" and "0 < steps_needed q"
  shows "steps_needed (fst (worker_step q)) = steps_needed q - 1"
    and "\<not> fq_should_stop (fst (worker_step q))"
    and "fq_pc (fst (worker_step q)) \<noteq> Stopped"
  using assms
  by (auto simp: steps_needed_def worker_step.simps queue_pop_def
      split: worker_pc.splits list.splits nat.splits option.splits prod.splits)

lemma worker_run_pays:
  assumes "\<not> fq_should_stop q" and "fq_pc q \<noteq> Stopped"
  shows "owed (fst (worker_run (steps_needed q) q)) = []"
  using assms
proof (induction "steps_needed q" arbitrary: q)
  case 0
  have "steps_needed q = 0" using 0(1) by simp
  then show ?case using steps_needed_0 by simp
next
  case (Suc k)
  let ?q' = "fst (worker_step q)"
  have pos: "0 < steps_needed q" using Suc.hyps(2) by simp
  have k: "k = steps_needed ?q'" using steps_needed_step(1) [OF Suc.prems pos] Suc.hyps(2) by simp
  have "owed (fst (worker_run (steps_needed ?q') ?q')) = []"
    using Suc.hyps(1) [OF k] steps_needed_step(2,3) [OF Suc.prems pos] by blast
  moreover have "fst (worker_run (Suc k) q) = fst (worker_run k ?q')"
    by (cases "worker_step q"; cases "worker_run k ?q'") simp
  ultimately show ?case using k by (simp add: Suc.hyps(2) [symmetric] del: worker_run.simps)
qed

text \<open>A stopped worker calls nothing, whatever is pending.\<close>

lemma worker_run_Stopped: "fq_pc q = Stopped \<Longrightarrow> worker_run k q = (q, [])"
  by (induction k) (auto simp: worker_step.simps)

lemma worker_run_stopping:
  "fq_should_stop q \<Longrightarrow> fq_pc q = AtLoopTop \<Longrightarrow> snd (worker_run k q) = []"
  by (cases k) (auto simp: worker_step.simps worker_run_Stopped)

lemma worker_run_stop_calling:
  "fq_should_stop q \<Longrightarrow> fq_pc q = Calling f n \<Longrightarrow> \<exists>m\<le>n. snd (worker_run k q) = replicate m f"
proof (induction n arbitrary: q k)
  case 0
  show ?case
  proof (cases k)
    case (Suc k')
    then show ?thesis using 0
      worker_run_stopping [of "q\<lparr>fq_pc := AtLoopTop\<rparr>" k']
      by (auto simp: worker_step.simps split: prod.splits)
  qed simp
next
  case (Suc n)
  show ?case
  proof (cases k)
    case (Suc k')
    obtain m where "m \<le> n" "snd (worker_run k' (q\<lparr>fq_pc := Calling f n\<rparr>)) = replicate m f"
      using Suc.IH [of "q\<lparr>fq_pc := Calling f n\<rparr>" k'] Suc.prems by auto
    then have "snd (worker_run k q) = replicate (Suc m) f"
      using Suc Suc.prems by (auto simp: worker_step.simps split: prod.splits)
    then show ?thesis using \<open>m \<le> n\<close> by (intro exI [of _ "Suc m"]) auto
  qed (auto intro: exI [of _ 0])
qed

end
