(* ===== verification/Membership.thy ===== *)
theory Membership
  imports Message_Laws Functor_Queue
begin

text \<open>
  The membership protocol of a node: the class \<open>Membership\<close> of
  \<open>node_keeper/src/membership.h\<close> and \<open>membership.cc\<close>. Its fields are the record
  \<open>membership\<close>; each member function is one definition over it.

  What a function asks of the outside world is a value: \<open>effects\<close> lists, in order, the
  calls to the subscribers and to the transport. A function handed to the transport as a
  callback is a value of \<open>pull_cont\<close>, and the two timed queues hold values of \<open>job\<close>;
  \<open>did_pull\<close> and \<open>run_job\<close> give them their bodies. A random choice takes the number
  \<open>pick\<close> for the draw. A member function runs as one step: the locks it takes and
  releases inside are not modelled.
\<close>

section \<open>State\<close>

datatype job = Disseminate payload | FailureDetect

type_synonym member_set = "(member \<times> unit) list"

datatype pull_cont =
    SeedPull address                       \<comment> \<open>the callback of \<open>PullFromSeedMember\<close>\<close>
  | PingReply member                       \<comment> \<open>the callback of \<open>Ping\<close>\<close>
  | RelayReply member member member_set    \<comment> \<open>the callback of \<open>RelayPing\<close>\<close>
  | RelayedPing address member             \<comment> \<open>the callback of \<open>HandlePull\<close> for a relay request\<close>

datatype effect =
    SubscriberUpdate nat
  | SendGossipTo "address list" payload
  | SendPull address "byte list" pull_cont
  | SendPush address "byte list"
  | SleepSeconds nat

record membership =
  members :: "(member \<times> u32) list"
  suspects :: "(member \<times> u32) list"
  actor_systems :: "(member \<times> bool) list"
  self_member :: member
  is_self_actor_system_up :: bool
  seed_members :: "member list"
  has_transport :: bool
  subscribers :: "nat list"
  gossip_queue :: "job fqueue option"
  failure_detector_queue :: "job fqueue option"
  incarnation :: u32
  retransmit_multiplier :: int
  if_notify_leave :: bool
  is_relay_ping_enabled :: bool
  print_ping_log :: bool
  effects :: "effect list"

definition new_membership :: membership where
  "new_membership = \<lparr>members = [], suspects = [], actor_systems = [], self_member = empty_member,
     is_self_actor_system_up = False, seed_members = [], has_transport = False, subscribers = [],
     gossip_queue = None, failure_detector_queue = None, incarnation = 0,
     retransmit_multiplier = 3, if_notify_leave = True, is_relay_ping_enabled = False,
     print_ping_log = False, effects = []\<rparr>"

definition emit :: "effect \<Rightarrow> membership \<Rightarrow> membership" where
  "emit e s = s\<lparr>effects := effects s @ [e]\<rparr>"

section \<open>Readers\<close>

definition GetMembers :: "membership \<Rightarrow> member list" where
  "GetMembers s = map fst (members s)"

definition GetSuspects :: "membership \<Rightarrow> member list" where
  "GetSuspects s = map fst (suspects s)"

definition GetActorSystems :: "membership \<Rightarrow> (member \<times> bool) list" where
  "GetActorSystems s = actor_systems s"

definition GetSelf :: "membership \<Rightarrow> member" where
  "GetSelf s = self_member s"

definition IfBelongsToMembers :: "member \<Rightarrow> membership \<Rightarrow> bool" where
  "IfBelongsToMembers m s \<longleftrightarrow> mfind m (members s) \<noteq> None"

definition IfBelongsToSuspects :: "member \<Rightarrow> membership \<Rightarrow> bool" where
  "IfBelongsToSuspects m s \<longleftrightarrow> mfind m (suspects s) \<noteq> None"

definition GetMemberLocalIncarnation :: "member \<Rightarrow> membership \<Rightarrow> u32" where
  "GetMemberLocalIncarnation m s = (case mfind m (members s) of None \<Rightarrow> 0 | Some i \<Rightarrow> i)"

definition GetSuspectLocalIncarnation :: "member \<Rightarrow> membership \<Rightarrow> u32" where
  "GetSuspectLocalIncarnation m s = (case mfind m (suspects s) of None \<Rightarrow> 0 | Some i \<Rightarrow> i)"

definition others :: "membership \<Rightarrow> member list" where
  "others s = filter (\<lambda>m. \<not> member_eq m (self_member s)) (map fst (members s))"

definition GetAllMemberAddress :: "membership \<Rightarrow> address list" where
  "GetAllMemberAddress s = map member_address (others s)"

definition GetMembersWithStatus :: "membership \<Rightarrow> member_with_status list" where
  "GetMembersWithStatus s = map (\<lambda>m. \<lparr>ws_member = m,
     ws_status = (if mfind m (actor_systems s) = Some True then ACTOR_SYSTEM_UP else UP)\<rparr>)
     (map fst (members s))"

text \<open>
  A draw from \<open>uniform_int_distribution<>(0, size - 1)\<close> over a vector: with an empty
  vector the bounds are 0 and -1, which the standard excludes.
\<close>

definition random_element :: "nat \<Rightarrow> 'a list \<Rightarrow> cpp_exn + 'a" where
  "random_element pick xs =
     (if xs = [] then Inl UndefinedBehaviour else Inr (xs ! (pick mod length xs)))"

definition GetRandomSeedAddress :: "nat \<Rightarrow> membership \<Rightarrow> cpp_exn + address" where
  "GetRandomSeedAddress pick s = map_sum id member_address (random_element pick (seed_members s))"

definition GetRandomMember :: "nat \<Rightarrow> membership \<Rightarrow> cpp_exn + (bool \<times> member)" where
  "GetRandomMember pick s =
     (if length (members s) \<le> 1 then Inr (False, empty_member)
      else map_sum id (Pair True) (random_element pick (others s)))"

definition GetRandomPingTarget :: "nat \<Rightarrow> membership \<Rightarrow> cpp_exn + (bool \<times> member)" where
  "GetRandomPingTarget pick s =
     (if length (members s) + length (suspects s) \<le> 1 then Inr (False, empty_member)
      else map_sum id (Pair True) (random_element pick (others s @ map fst (suspects s))))"

text \<open>The loop of \<open>GetRelayMember\<close> does not break: the last member that qualifies wins.\<close>

fun last_relay :: "member_set \<Rightarrow> member list \<Rightarrow> bool \<times> member \<Rightarrow> bool \<times> member" where
  "last_relay excluded [] r = r"
| "last_relay excluded (m # ms) r =
     last_relay excluded ms (if mfind m excluded = None then (True, m) else r)"

definition GetRelayMember :: "member_set \<Rightarrow> membership \<Rightarrow> bool \<times> member" where
  "GetRelayMember excluded s =
     (if length (members s) \<le> 2 then (False, empty_member)
      else last_relay excluded (map fst (members s)) (False, empty_member))"

text \<open>
  \<open>static_cast<int>(ceil(log10(n)))\<close> for a positive \<open>n\<close>, the least \<open>k\<close> with
  \<open>n \<le> 10 ^ k\<close> (taking \<open>log10\<close> to be exact at the powers of ten). For an empty
  container the argument of the cast is minus infinity, which has no int.
\<close>

function ceil_log10 :: "nat \<Rightarrow> nat" where
  "ceil_log10 n = (if n \<le> 1 then 0 else Suc (ceil_log10 ((n + 9) div 10)))"
  by pat_completeness auto
termination by (relation "measure id") auto

declare ceil_log10.simps [simp del]

definition GetRetransmitLimit :: "membership \<Rightarrow> cpp_exn + int" where
  "GetRetransmitLimit s =
     (let n = length (members s); r = retransmit_multiplier s * int (ceil_log10 n) in
      if n = 0 \<or> r < - (2 ^ 31) \<or> 2 ^ 31 \<le> r then Inl UndefinedBehaviour else Inr r)"

section \<open>Notification and dissemination\<close>

definition Subscribe :: "nat \<Rightarrow> membership \<Rightarrow> membership" where
  "Subscribe i s = s\<lparr>subscribers := subscribers s @ [i]\<rparr>"

definition Notify :: "membership \<Rightarrow> membership" where
  "Notify s = s\<lparr>effects := effects s @ map SubscriberUpdate (subscribers s)\<rparr>"

text \<open>\<open>gossip_queue_->Push(..., GetRetransmitLimit())\<close>, through a pointer that may be null.\<close>

definition SendGossip :: "payload \<Rightarrow> membership act" where
  "SendGossip p s =
     (case GetRetransmitLimit s of
        Inl e \<Rightarrow> (s, Some e)
      | Inr n \<Rightarrow>
          (case gossip_queue s of
             None \<Rightarrow> (s, Some UndefinedBehaviour)
           | Some q \<Rightarrow> (s\<lparr>gossip_queue := Some (Push (Disseminate p) n q)\<rparr>, None)))"

text \<open>Building a payload out of serialised bytes throws when there are too many.\<close>

definition with_payload :: "byte list \<Rightarrow> (payload \<Rightarrow> membership act) \<Rightarrow> membership act" where
  "with_payload bytes k s = (case mk_payload bytes of Inl e \<Rightarrow> (s, Some e) | Inr p \<Rightarrow> k p s)"

definition IncreaseIncarnation :: "membership \<Rightarrow> membership" where
  "IncreaseIncarnation s = s\<lparr>incarnation := incarnation s + 1\<rparr>"

definition DisseminateGossip :: "nat \<Rightarrow> payload \<Rightarrow> membership act" where
  "DisseminateGossip pick p s =
     (case GetRandomMember pick s of
        Inl e \<Rightarrow> (s, Some e)
      | Inr (False, _) \<Rightarrow> (s, None)
      | Inr (True, m) \<Rightarrow>
          (if has_transport s then emit (SendGossipTo [member_address m] p) s else s, None))"

fun gossip_repeatedly :: "nat \<Rightarrow> address list \<Rightarrow> payload \<Rightarrow> membership \<Rightarrow> membership" where
  "gossip_repeatedly 0 addrs p s = s"
| "gossip_repeatedly (Suc n) addrs p s = gossip_repeatedly n addrs p (emit (SendGossipTo addrs p) s)"

definition NotifyLeave :: "wire \<Rightarrow> membership act" where
  "NotifyLeave W s =
     (if 1 < length (members s) then
        let s = IncreaseIncarnation s in
        with_payload (ser_update W (InitAsDownMessage (self_member s) (incarnation s)))
          (\<lambda>p s. case GetRetransmitLimit s of
             Inl e \<Rightarrow> (s, Some e)
           | Inr n \<Rightarrow>
               (if 0 < n \<and> \<not> has_transport s then (s, Some UndefinedBehaviour)
                else (gossip_repeatedly (nat n) (GetAllMemberAddress s) p s, None))) s
      else (s, None))"

definition destroy_membership :: "wire \<Rightarrow> membership act" where
  "destroy_membership W s = (if if_notify_leave s then NotifyLeave W s else (s, None))"

section \<open>Changes of the tables\<close>

definition AddMember :: "member \<Rightarrow> membership \<Rightarrow> membership" where
  "AddMember m s = Notify (s\<lparr>members := mput m (incarnation s) (members s)\<rparr>)"

definition AddOrUpdateSuspect :: "member \<Rightarrow> u32 \<Rightarrow> membership \<Rightarrow> membership" where
  "AddOrUpdateSuspect m inc s = s\<lparr>suspects := mput m inc (suspects s)\<rparr>"

text \<open>A table from which the entry of \<open>m\<close> is dropped when it was stored under another uid.\<close>

definition stale :: "member \<Rightarrow> (member \<times> u32) list \<Rightarrow> bool" where
  "stale m t \<longleftrightarrow> (case mentry m t of Some (saved, _) \<Rightarrow> m_uid saved \<noteq> m_uid m | None \<Rightarrow> False)"

definition EraseExpiredMember :: "member \<Rightarrow> membership \<Rightarrow> membership" where
  "EraseExpiredMember m s =
     (let old_member = stale m (members s);
          s1 = (if old_member then s\<lparr>members := merase m (members s)\<rparr> else s);
          old_suspect = stale m (suspects s1);
          s2 = (if old_suspect then s1\<lparr>suspects := merase m (suspects s1)\<rparr> else s1) in
      if old_member \<or> old_suspect
      then Notify (s2\<lparr>actor_systems := mput m False (actor_systems s2)\<rparr>)
      else s2)"

definition MergeUpUpdate :: "member \<Rightarrow> u32 \<Rightarrow> membership \<Rightarrow> membership" where
  "MergeUpUpdate m inc s =
     (case mfind m (members s) of
        Some i \<Rightarrow> if i \<ge> inc then s else Notify (s\<lparr>members := mput m inc (members s)\<rparr>)
      | None \<Rightarrow> Notify (s\<lparr>members := mput m inc (members s)\<rparr>))"

definition MergeDownUpdate :: "member \<Rightarrow> u32 \<Rightarrow> membership \<Rightarrow> membership" where
  "MergeDownUpdate m inc s =
     (if member_eq m (self_member s) then s
      else
        let s1 = (if mfind m (members s) \<noteq> None then s\<lparr>members := merase m (members s)\<rparr> else s);
            s2 = (if mfind m (suspects s1) \<noteq> None then s1\<lparr>suspects := merase m (suspects s1)\<rparr> else s1)
        in Notify (s2\<lparr>actor_systems := mput m False (actor_systems s2)\<rparr>))"

definition MergeActorSystemUp :: "member \<Rightarrow> u32 \<Rightarrow> membership \<Rightarrow> membership" where
  "MergeActorSystemUp m inc s =
     (case mfind m (members s) of
        Some i \<Rightarrow> if i \<ge> inc then s
          else Notify (s\<lparr>members := mput m inc (members s),
                         actor_systems := mput m True (actor_systems s)\<rparr>)
      | None \<Rightarrow> Notify (s\<lparr>members := mput m inc (members s),
                         actor_systems := mput m True (actor_systems s)\<rparr>))"

definition MergeActorSystemDown :: "member \<Rightarrow> u32 \<Rightarrow> membership \<Rightarrow> membership" where
  "MergeActorSystemDown m inc s =
     (case mfind m (members s) of
        Some i \<Rightarrow> if i \<ge> inc then s
          else Notify (s\<lparr>members := mput m inc (members s),
                         actor_systems := mput m False (actor_systems s)\<rparr>)
      | None \<Rightarrow> Notify (s\<lparr>members := mput m inc (members s),
                         actor_systems := mput m False (actor_systems s)\<rparr>))"

text \<open>The loop of \<open>UpdateActorSystemStatus\<close> and its final \<open>Notify\<close>.\<close>

definition update_status_entry :: "member_with_status \<Rightarrow> membership \<Rightarrow> membership" where
  "update_status_entry w s =
     (let m = ws_member w;
          s1 = (if mfind m (members s) = None then s\<lparr>members := mput m 0 (members s)\<rparr> else s) in
      s1\<lparr>actor_systems := mput m (ws_status w = ACTOR_SYSTEM_UP) (actor_systems s1)\<rparr>)"

definition UpdateActorSystemStatus :: "member_with_status list \<Rightarrow> membership \<Rightarrow> membership" where
  "UpdateActorSystemStatus ws s = Notify (fold update_status_entry ws s)"

text \<open>
  One round of \<open>MergeMembers\<close>, on the tables and \<open>should_notify\<close>. Both incarnations
  are ints here: the comparison is signed, unlike every other one.
\<close>

definition copy_actor_flag :: "(member \<times> bool) list \<Rightarrow> member \<Rightarrow> membership \<Rightarrow> membership" where
  "copy_actor_flag flags m s =
     (case mfind m flags of
        Some up \<Rightarrow> s\<lparr>actor_systems := mput m up (actor_systems s)\<rparr>
      | None \<Rightarrow> s)"

definition merge_member_entry ::
  "(member \<times> bool) list \<Rightarrow> member \<times> u32 \<Rightarrow> membership \<times> bool \<Rightarrow> membership \<times> bool" where
  "merge_member_entry flags entry sn =
     (case (entry, sn) of ((m, inc), (s, should_notify)) \<Rightarrow>
       (case mfind m (members s) of
          Some i \<Rightarrow>
            (if sint inc > sint i
             then (copy_actor_flag flags m (s\<lparr>members := mput m inc (members s)\<rparr>), True)
             else (s, should_notify))
        | None \<Rightarrow> (copy_actor_flag flags m (s\<lparr>members := mput m inc (members s)\<rparr>), True)))"

definition MergeMembers ::
  "(member \<times> u32) list \<Rightarrow> (member \<times> bool) list \<Rightarrow> membership \<Rightarrow> membership" where
  "MergeMembers ms flags s =
     (case fold (merge_member_entry flags) ms (s, False) of
        (s', should_notify) \<Rightarrow> if should_notify then Notify s' else s')"

section \<open>Suspicion and recovery\<close>

definition Suspect :: "wire \<Rightarrow> member \<Rightarrow> u32 \<Rightarrow> membership act" where
  "Suspect W m inc s =
     (if IfBelongsToMembers m s then
        let s1 = AddOrUpdateSuspect m inc s in
        with_payload (ser_update W (InitAsSuspectMessage m inc))
          (\<lambda>p. then_do
             (pure_act (\<lambda>s. s\<lparr>members := merase m (members s),
                              actor_systems := mput m False (actor_systems s)\<rparr>))
             (then_do (SendGossip p) (pure_act Notify))) s1
      else (s, None))"

text \<open>
  \<open>members_[member] = suspects_[member]\<close> reads through \<open>operator[]\<close>, so a member that
  is no suspect is first inserted there with 0.
\<close>

definition RecoverySuspect :: "wire \<Rightarrow> member \<Rightarrow> membership act" where
  "RecoverySuspect W m s =
     (case map_index mkey 0 m (suspects s) of
        (inc, suspects') \<Rightarrow>
          with_payload (ser_update W (InitAsRecoveryMessage m inc))
            (\<lambda>p. then_do (SendGossip p) (pure_act Notify))
            (s\<lparr>members := mput m inc (members s), suspects := merase m suspects'\<rparr>))"

section \<open>Pulling and pinging\<close>

definition PullFromSeedMember :: "wire \<Rightarrow> nat \<Rightarrow> membership act" where
  "PullFromSeedMember W pick s =
     (if has_transport s then
        (case GetRandomSeedAddress pick s of
           Inl e \<Rightarrow> (s, Some e)
         | Inr a \<Rightarrow> (emit (SendPull a (ser_request W (InitAsFullStateType empty_request)) (SeedPull a)) s, None))
      else (s, None))"

definition Ping :: "membership \<Rightarrow> membership" where
  "Ping s = (case failure_detector_queue s of
       None \<Rightarrow> s
     | Some q \<Rightarrow> s\<lparr>failure_detector_queue := Some (Push FailureDetect 1 q)\<rparr>)"

text \<open>The functor \<open>Ping\<close> pushes.\<close>

definition failure_detector_functor :: "wire \<Rightarrow> nat \<Rightarrow> membership act" where
  "failure_detector_functor W pick s =
     (if has_transport s then
        let bytes = ser_request W (InitAsPingType (members s) (actor_systems s) empty_request) in
        (case GetRandomPingTarget pick s of
           Inl e \<Rightarrow> (s, Some e)
         | Inr (False, _) \<Rightarrow> (Ping s, None)
         | Inr (True, target) \<Rightarrow>
             (Ping (emit (SendPull (member_address target) bytes (PingReply target)) s), None))
      else (Ping s, None))"

definition RelayPing :: "wire \<Rightarrow> member \<Rightarrow> member_set \<Rightarrow> membership act" where
  "RelayPing W target excluded s =
     (case GetRelayMember excluded s of
        (True, relay) \<Rightarrow>
          (if has_transport s
           then (emit (SendPull (member_address relay)
                   (ser_request W (InitAsPingRelayType (self_member s) target empty_request))
                   (RelayReply target relay excluded)) s, None)
           else (s, Some UndefinedBehaviour))
      | (False, _) \<Rightarrow> Suspect W target (GetMemberLocalIncarnation target s) s)"

definition SendSelfActorSystemUpGossip :: "wire \<Rightarrow> membership act" where
  "SendSelfActorSystemUpGossip W s =
     (let s = IncreaseIncarnation s in
      with_payload (ser_update W (InitAsActorSystemUpMessage (self_member s) (incarnation s))) SendGossip s)"

definition SetSelfActorSystemUp :: "membership \<Rightarrow> membership" where
  "SetSelfActorSystemUp s =
     s\<lparr>is_self_actor_system_up := True, actor_systems := mput (self_member s) True (actor_systems s)\<rparr>"

definition NotifyActorSystemDown :: "wire \<Rightarrow> membership act" where
  "NotifyActorSystemDown W s =
     (let s = IncreaseIncarnation (s\<lparr>is_self_actor_system_up := False,
                actor_systems := merase (self_member s) (actor_systems s)\<rparr>) in
      with_payload (ser_update W (InitAsActorSystemDownMessage (self_member s) (incarnation s))) SendGossip s)"

definition HandleDidPull :: "wire \<Rightarrow> pull_result \<Rightarrow> membership act" where
  "HandleDidPull W result s =
     (if fst result = kOK then
        let message = par_full W (snd result) in
        if full_IsSuccess message then
          let s = IncreaseIncarnation (UpdateActorSystemStatus (full_GetMembersWithStatus message) s) in
          with_payload (ser_update W (InitAsUpMessage (self_member s) (incarnation s)))
            (\<lambda>p. then_do (SendGossip p)
               (\<lambda>s. if is_self_actor_system_up s then SendSelfActorSystemUpGossip W s else (s, None))) s
        else (s, None)
      else (s, None))"

section \<open>Handlers\<close>

text \<open>\<open>HandleGossip\<close>, one definition per kind of message.\<close>

definition HandleUp :: "payload \<Rightarrow> member_update \<Rightarrow> membership act" where
  "HandleUp p message s =
     (let m = update_GetMember message; inc = GetIncarnation message in
      if member_eq m (self_member s) then (s, None)
      else
        let s = EraseExpiredMember m s in
        if IfBelongsToSuspects m s \<and> GetSuspectLocalIncarnation m s \<ge> inc then (s, None)
        else if IfBelongsToMembers m s \<and> GetMemberLocalIncarnation m s \<ge> inc then (s, None)
        else then_do (SendGossip p) (pure_act (MergeUpUpdate m inc)) s)"

definition HandleDown :: "payload \<Rightarrow> member_update \<Rightarrow> membership act" where
  "HandleDown p message s =
     (let m = update_GetMember message in
      if \<not> IfBelongsToMembers m s \<and> \<not> IfBelongsToSuspects m s then (s, None)
      else then_do (SendGossip p) (pure_act (MergeDownUpdate m (GetIncarnation message))) s)"

definition HandleSuspect :: "wire \<Rightarrow> member_update \<Rightarrow> membership act" where
  "HandleSuspect W message s =
     (let m = update_GetMember message; inc = GetIncarnation message in
      if IfBelongsToSuspects m s then
        (if GetSuspectLocalIncarnation m s < inc then AddOrUpdateSuspect m inc s else s, None)
      else if IfBelongsToMembers m s \<and> inc \<ge> GetMemberLocalIncarnation m s
      then Suspect W m inc s
      else (s, None))"

definition HandleRecovery :: "wire \<Rightarrow> member_update \<Rightarrow> membership act" where
  "HandleRecovery W message s =
     (let m = update_GetMember message in
      if \<not> IfBelongsToSuspects m s then (s, None)
      else if GetIncarnation message < GetSuspectLocalIncarnation m s then (s, None)
      else RecoverySuspect W m s)"

definition HandleActorSystemDown :: "payload \<Rightarrow> member_update \<Rightarrow> membership act" where
  "HandleActorSystemDown p message s =
     (let m = update_GetMember message; inc = GetIncarnation message in
      if \<not> IfBelongsToMembers m s then (s, None)
      else if GetMemberLocalIncarnation m s \<ge> inc then (s, None)
      else then_do (SendGossip p) (pure_act (MergeActorSystemDown m inc)) s)"

definition HandleActorSystemUp :: "payload \<Rightarrow> member_update \<Rightarrow> membership act" where
  "HandleActorSystemUp p message s =
     (let m = update_GetMember message; inc = GetIncarnation message in
      if \<not> IfBelongsToMembers m s then (s, None)
      else if GetMemberLocalIncarnation m s \<ge> inc then (s, None)
      else then_do (SendGossip p) (pure_act (MergeActorSystemUp m inc)) s)"

definition HandleGossip :: "wire \<Rightarrow> address \<Rightarrow> payload \<Rightarrow> membership act" where
  "HandleGossip W node p =
     (let message = par_update W p in
      if IsUpMessage message then HandleUp p message
      else if IsDownMessage message then HandleDown p message
      else if IsSuspectMessage message then HandleSuspect W message
      else if IsRecoveryMessage message then HandleRecovery W message
      else if IsActorSystemDownMessage message then HandleActorSystemDown p message
      else if IsActorSystemUpMessage message then HandleActorSystemUp p message
      else skip_act)"

definition string_bytes :: "string \<Rightarrow> byte list" where
  "string_bytes s = map of_char s"

text \<open>The reply is always given; a relay also starts the ping it was asked for.\<close>

definition HandlePull :: "wire \<Rightarrow> address \<Rightarrow> byte list \<Rightarrow> membership \<Rightarrow> membership \<times> byte list" where
  "HandlePull W sender data s =
     (let request = par_request W data in
      if IsFullStateType request then
        (s, ser_full W (InitAsFullStateMessageWithStatus (GetMembersWithStatus s) empty_full_state))
      else if IsPingType request then
        (MergeMembers (GetMembersWithIncarnation request) (GetMembersWithActorSystem request) s,
         ser_response W (InitAsPingSuccess (self_member s)))
      else if IsPingRelayType request then
        (if has_transport s then
           let target = Member (request_GetName request) (request_GetIpAddress request)
                          (ucast (request_GetPort request)) [] [] [];
               target_address = \<lparr>addr_host = request_GetIpAddress request,
                          addr_port = ucast (request_GetPort request)\<rparr>;
               destination = \<lparr>addr_host = request_GetSelfIpAddress request,
                          addr_port = ucast (request_GetSelfPort request)\<rparr> in
           (emit (SendPull target_address (ser_request W (InitAsPingType_bare empty_request))
               (RelayedPing destination target)) s,
            ser_response W InitAsPingReceived)
         else (s, string_bytes ''pull''))
      else (s, string_bytes ''pull''))"

definition HandlePush :: "wire \<Rightarrow> address \<Rightarrow> byte list \<Rightarrow> membership act" where
  "HandlePush W sender data s =
     (let message = par_response W data; target = response_GetMember message in
      if IsPingFailure message then Suspect W target (GetMemberLocalIncarnation target s) s
      else (s, None))"

text \<open>The bodies of the callbacks given to \<open>Pull\<close>.\<close>

fun did_pull :: "wire \<Rightarrow> nat \<Rightarrow> pull_cont \<Rightarrow> pull_result \<Rightarrow> membership act" where
  "did_pull W pick (SeedPull a) result s =
     (if fst result = kOK then HandleDidPull W result s
      else PullFromSeedMember W pick (emit (SleepSeconds 1) s))"
| "did_pull W pick (PingReply target) result s =
     (if fst result = kOK \<and> IfBelongsToSuspects target s then RecoverySuspect W target s
      else if fst result \<noteq> kOK \<and> IfBelongsToMembers target s then
        (if is_relay_ping_enabled s
         then RelayPing W target (mput target () (mput (self_member s) () [])) s
         else Suspect W target (GetMemberLocalIncarnation target s) s)
      else (s, None))"
| "did_pull W pick (RelayReply target relay excluded) result s =
     (if fst result \<noteq> kOK then RelayPing W target (mput relay () excluded) s else (s, None))"
| "did_pull W pick (RelayedPing destination target) result s =
     (if has_transport s then
        (emit (SendPush destination (ser_response W
           (if fst result = kOK then InitAsPingSuccess target else InitAsPingFailure target))) s, None)
      else (s, Some UndefinedBehaviour))"

section \<open>Initialisation and the two workers\<close>

definition Init :: "wire \<Rightarrow> nat \<Rightarrow> bool \<Rightarrow> config \<Rightarrow> membership \<Rightarrow> membership \<times> (cpp_exn + membership_code)" where
  "Init W pick transport cfg s =
     (if IsEmptyMember (c_host cfg) then (s, Inr MEMBERSHIP_INIT_HOSTMEMBER_EMPTY)
      else
        let s1 = AddMember (c_host cfg)
                   (s\<lparr>print_ping_log := c_print_ping_log cfg, self_member := c_host cfg\<rparr>) in
        if \<not> transport then (s1, Inr MEMBERSHIP_INIT_TRANSPORT_EMPTY)
        else
          let s2 = s1\<lparr>has_transport := True,
                      if_notify_leave := \<not> c_leave_without_notification cfg,
                      gossip_queue := Some (TimedFunctorQueue (c_gossip_interval cfg)),
                      retransmit_multiplier := c_retransmit_multiplier cfg,
                      seed_members := seed_members s1 @
                        filter (\<lambda>m. \<not> member_eq m (self_member s1)) (c_seed_members cfg)\<rparr> in
          case (if c_seed_members cfg \<noteq> [] \<and> seed_members s2 \<noteq> []
                then PullFromSeedMember W pick s2 else (s2, None)) of
            (s3, Some e) \<Rightarrow> (s3, Inl e)
          | (s3, None) \<Rightarrow>
              let s4 = s3\<lparr>is_relay_ping_enabled := c_relay_ping_enabled cfg\<rparr> in
              (if c_failure_detector_off cfg then s4
               else Ping (s4\<lparr>failure_detector_queue :=
                      Some (TimedFunctorQueue (c_failure_detector_interval cfg))\<rparr>),
               Inr MEMBERSHIP_SUCCESS))"

fun run_job :: "wire \<Rightarrow> nat \<Rightarrow> job \<Rightarrow> membership act" where
  "run_job W pick (Disseminate p) = DisseminateGossip pick p"
| "run_job W pick FailureDetect = failure_detector_functor W pick"

text \<open>One step of a worker thread, with the functor it calls, if any, run to its end.\<close>

definition run_called :: "wire \<Rightarrow> nat \<Rightarrow> job option \<Rightarrow> membership act" where
  "run_called W pick called = (case called of None \<Rightarrow> skip_act | Some j \<Rightarrow> run_job W pick j)"

definition gossip_worker :: "wire \<Rightarrow> nat \<Rightarrow> membership act" where
  "gossip_worker W pick s =
     (case gossip_queue s of
        None \<Rightarrow> (s, None)
      | Some q \<Rightarrow> run_called W pick (snd (worker_step q)) (s\<lparr>gossip_queue := Some (fst (worker_step q))\<rparr>))"

definition detector_worker :: "wire \<Rightarrow> nat \<Rightarrow> membership act" where
  "detector_worker W pick s =
     (case failure_detector_queue s of
        None \<Rightarrow> (s, None)
      | Some q \<Rightarrow> run_called W pick (snd (worker_step q))
                    (s\<lparr>failure_detector_queue := Some (fst (worker_step q))\<rparr>))"

end
