(* ===== verification/Membership_Contract.thy ===== *)
theory Membership_Contract
  imports Membership
begin

text \<open>
  The contract of a state predicate the member functions of \<open>Membership\<close> maintain.
  A predicate that survives the few primitive changes, an assignment or a removal in
  each table, a push on the gossip queue, a change of the flags and of the effects,
  survives every member function; this is proved once, in the locale, and used for each
  invariant of the node.
\<close>

section \<open>Frame of the primitive operations\<close>

lemma SendGossip_cases:
  obtains (push) n q where "GetRetransmitLimit s = Inr n" and "gossip_queue s = Some q"
      and "SendGossip p s = (s\<lparr>gossip_queue := Some (Push (Disseminate p) n q)\<rparr>, None)"
  | (fail) e where "SendGossip p s = (s, Some e)"
  by (cases "GetRetransmitLimit s"; cases "gossip_queue s") (auto simp: SendGossip_def)

lemma SendGossip_frame [simp]:
  "members (fst (SendGossip p s)) = members s"
  "suspects (fst (SendGossip p s)) = suspects s"
  "actor_systems (fst (SendGossip p s)) = actor_systems s"
  "self_member (fst (SendGossip p s)) = self_member s"
  "subscribers (fst (SendGossip p s)) = subscribers s"
  "incarnation (fst (SendGossip p s)) = incarnation s"
  "effects (fst (SendGossip p s)) = effects s"
  "failure_detector_queue (fst (SendGossip p s)) = failure_detector_queue s"
  by (cases rule: SendGossip_cases [of s p]; simp)+

lemma Notify_frame [simp]:
  "members (Notify s) = members s" "suspects (Notify s) = suspects s"
  "actor_systems (Notify s) = actor_systems s" "self_member (Notify s) = self_member s"
  "subscribers (Notify s) = subscribers s" "incarnation (Notify s) = incarnation s"
  "gossip_queue (Notify s) = gossip_queue s" "retransmit_multiplier (Notify s) = retransmit_multiplier s"
  "failure_detector_queue (Notify s) = failure_detector_queue s"
  "has_transport (Notify s) = has_transport s"
  by (simp_all add: Notify_def)

lemma emit_frame [simp]:
  "members (emit e s) = members s" "suspects (emit e s) = suspects s"
  "actor_systems (emit e s) = actor_systems s" "self_member (emit e s) = self_member s"
  "subscribers (emit e s) = subscribers s" "incarnation (emit e s) = incarnation s"
  "gossip_queue (emit e s) = gossip_queue s" "has_transport (emit e s) = has_transport s"
  "failure_detector_queue (emit e s) = failure_detector_queue s"
  "seed_members (emit e s) = seed_members s" "effects (emit e s) = effects s @ [e]"
  by (simp_all add: emit_def)

section \<open>The contract\<close>

locale membership_contract =
  fixes P :: "membership \<Rightarrow> bool"
  assumes put_member: "P s \<Longrightarrow> t = mput m i (members s) \<Longrightarrow> P (s\<lparr>members := t\<rparr>)"
    and erase_member: "P s \<Longrightarrow> t = merase m (members s) \<Longrightarrow> P (s\<lparr>members := t\<rparr>)"
    and put_suspect: "P s \<Longrightarrow> u = mput m i (suspects s) \<Longrightarrow> P (s\<lparr>suspects := u\<rparr>)"
    and erase_suspect: "P s \<Longrightarrow> u = merase m (suspects s) \<Longrightarrow> P (s\<lparr>suspects := u\<rparr>)"
    and put_actor: "P s \<Longrightarrow> a = mput m b (actor_systems s) \<Longrightarrow> P (s\<lparr>actor_systems := a\<rparr>)"
    and erase_actor: "P s \<Longrightarrow> a = merase m (actor_systems s) \<Longrightarrow> P (s\<lparr>actor_systems := a\<rparr>)"
    and set_effects: "P s \<Longrightarrow> P (s\<lparr>effects := es\<rparr>)"
    and set_incarnation: "P s \<Longrightarrow> P (s\<lparr>incarnation := k\<rparr>)"
    and set_self_up: "P s \<Longrightarrow> P (s\<lparr>is_self_actor_system_up := b\<rparr>)"
    and set_subscribers: "P s \<Longrightarrow> P (s\<lparr>subscribers := is\<rparr>)"
    and push_gossip: "P s \<Longrightarrow> gossip_queue s = Some q \<Longrightarrow> length p \<le> kMaxPayloadSize \<Longrightarrow>
        P (s\<lparr>gossip_queue := Some (Push (Disseminate p) n q)\<rparr>)"
begin

lemmas primitives = put_member erase_member put_suspect erase_suspect put_actor erase_actor
  set_effects set_incarnation set_self_up set_subscribers push_gossip

lemma keep_Notify: "P s \<Longrightarrow> P (Notify s)"
  by (simp add: Notify_def set_effects)

lemma keep_emit: "P s \<Longrightarrow> P (emit e s)"
  by (simp add: emit_def set_effects)

lemma keep_IncreaseIncarnation: "P s \<Longrightarrow> P (IncreaseIncarnation s)"
  by (simp add: IncreaseIncarnation_def set_incarnation)

lemma keep_Subscribe: "P s \<Longrightarrow> P (Subscribe i s)"
  by (simp add: Subscribe_def set_subscribers)

lemma keep_SendGossip: "length p \<le> kMaxPayloadSize \<Longrightarrow> preserves P (SendGossip p)"
proof (rule preservesI)
  fix s assume "length p \<le> kMaxPayloadSize" and "P s"
  then show "P (fst (SendGossip p s))"
    by (cases rule: SendGossip_cases [of s p]) (auto intro: push_gossip)
qed

lemma keep_with_payload:
  assumes "\<And>p. length p \<le> kMaxPayloadSize \<Longrightarrow> preserves P (k p)"
  shows "preserves P (with_payload bytes k)"
  using assms by (auto simp: preserves_def with_payload_def mk_payload_def)

lemma keep_pure: "(\<And>s. P s \<Longrightarrow> P (f s)) \<Longrightarrow> preserves P (pure_act f)"
  by (simp add: preserves_def)

lemma keep_gossip_repeatedly: "P s \<Longrightarrow> P (gossip_repeatedly n addrs p s)"
  by (induction n addrs p s rule: gossip_repeatedly.induct) (auto intro: keep_emit)

lemma keep_AddMember: "P s \<Longrightarrow> P (AddMember m s)"
  unfolding AddMember_def by (intro keep_Notify put_member) simp_all

lemma keep_AddOrUpdateSuspect: "P s \<Longrightarrow> P (AddOrUpdateSuspect m i s)"
  unfolding AddOrUpdateSuspect_def by (rule put_suspect) simp_all

text \<open>Dropping a member from some of the tables and marking its actor system down.\<close>

lemma dropped:
  assumes "P s"
  shows "P (s\<lparr>actor_systems := mput m b (actor_systems s)\<rparr>)"
    and "P (s\<lparr>members := merase m (members s), actor_systems := mput m b (actor_systems s)\<rparr>)"
    and "P (s\<lparr>suspects := merase m (suspects s), actor_systems := mput m b (actor_systems s)\<rparr>)"
    and "P (s\<lparr>members := merase m (members s), suspects := merase m (suspects s),
               actor_systems := mput m b (actor_systems s)\<rparr>)"
    and "P (s\<lparr>members := merase m (members s), suspects := merase m (suspects s)\<rparr>)"
proof -
  let ?m = "s\<lparr>members := merase m (members s)\<rparr>"
  let ?u = "\<lambda>s. s\<lparr>suspects := merase m (suspects s)\<rparr>"
  let ?a = "\<lambda>s. s\<lparr>actor_systems := mput m b (actor_systems s)\<rparr>"
  have m: "P ?m" using assms by (rule erase_member) simp
  have u: "P (?u r)" if "P r" for r using that by (rule erase_suspect) simp
  have a: "P (?a r)" if "P r" for r using that by (rule put_actor) simp
  show "P (s\<lparr>actor_systems := mput m b (actor_systems s)\<rparr>)" using assms by (rule a)
  show "P (s\<lparr>members := merase m (members s), actor_systems := mput m b (actor_systems s)\<rparr>)"
    using a [OF m] by simp
  show "P (s\<lparr>suspects := merase m (suspects s), actor_systems := mput m b (actor_systems s)\<rparr>)"
    using a [OF u [OF assms]] by simp
  show "P (s\<lparr>members := merase m (members s), suspects := merase m (suspects s),
             actor_systems := mput m b (actor_systems s)\<rparr>)"
    using a [OF u [OF m]] by simp
  show "P (s\<lparr>members := merase m (members s), suspects := merase m (suspects s)\<rparr>)"
    using u [OF m] by simp
qed

lemma keep_EraseExpiredMember: "P s \<Longrightarrow> P (EraseExpiredMember m s)"
  unfolding EraseExpiredMember_def Let_def
  by (auto intro!: keep_Notify dropped erase_member [OF _ refl] erase_suspect [OF _ refl])

lemma keep_MergeUpUpdate: "P s \<Longrightarrow> P (MergeUpUpdate m i s)"
  unfolding MergeUpUpdate_def
  by (auto intro!: keep_Notify put_member [OF _ refl] split: option.splits)

lemma put_both:
  assumes "P s"
  shows "P (s\<lparr>members := mput m i (members s), actor_systems := mput m b (actor_systems s)\<rparr>)"
  by (rule put_actor [of "s\<lparr>members := mput m i (members s)\<rparr>"], rule put_member [OF assms refl]) simp

lemma keep_MergeActorSystemUp: "P s \<Longrightarrow> P (MergeActorSystemUp m i s)"
  unfolding MergeActorSystemUp_def by (auto intro!: keep_Notify put_both split: option.splits)

lemma keep_MergeActorSystemDown: "P s \<Longrightarrow> P (MergeActorSystemDown m i s)"
  unfolding MergeActorSystemDown_def by (auto intro!: keep_Notify put_both split: option.splits)

lemma keep_MergeDownUpdate: "P s \<Longrightarrow> P (MergeDownUpdate m i s)"
  unfolding MergeDownUpdate_def Let_def
  by (auto intro!: keep_Notify dropped)

lemma keep_update_status_entry: "P s \<Longrightarrow> P (update_status_entry w s)"
  unfolding update_status_entry_def Let_def
  by (auto intro!: put_actor [OF _ refl] put_both)

lemma keep_UpdateActorSystemStatus: "P s \<Longrightarrow> P (UpdateActorSystemStatus ws s)"
proof -
  have "P (fold update_status_entry ws s)" if "P s" for s
    using that by (induction ws arbitrary: s) (auto intro: keep_update_status_entry)
  then show "P s \<Longrightarrow> ?thesis" by (simp add: UpdateActorSystemStatus_def keep_Notify)
qed

lemma keep_copy_actor_flag: "P s \<Longrightarrow> P (copy_actor_flag flags m s)"
  unfolding copy_actor_flag_def by (auto intro!: put_actor [OF _ refl] split: option.splits)

lemma keep_merge_member_entry: "P (fst sn) \<Longrightarrow> P (fst (merge_member_entry flags e sn))"
  unfolding merge_member_entry_def
  by (auto intro!: keep_copy_actor_flag put_member [OF _ refl] split: option.splits prod.splits)

lemma keep_MergeMembers: "P s \<Longrightarrow> P (MergeMembers ms flags s)"
proof -
  have "P (fst (fold (merge_member_entry flags) ms sn))" if "P (fst sn)" for sn
    using that by (induction ms arbitrary: sn) (simp_all add: keep_merge_member_entry)
  from this [of "(s, False)"] show "P s \<Longrightarrow> ?thesis"
    by (cases "fold (merge_member_entry flags) ms (s, False)") (auto simp: MergeMembers_def keep_Notify)
qed

lemma keep_Suspect: "preserves P (Suspect W m i)"
proof -
  have "preserves P (with_payload (ser_update W (InitAsSuspectMessage m i))
      (\<lambda>p. then_do
         (pure_act (\<lambda>s. s\<lparr>members := merase m (members s),
                          actor_systems := mput m False (actor_systems s)\<rparr>))
         (then_do (SendGossip p) (pure_act Notify))))" (is "preserves P ?body")
  proof (rule keep_with_payload)
    fix p :: payload
    assume "length p \<le> kMaxPayloadSize"
    then show "preserves P (then_do
         (pure_act (\<lambda>s. s\<lparr>members := merase m (members s),
                          actor_systems := mput m False (actor_systems s)\<rparr>))
         (then_do (SendGossip p) (pure_act Notify)))"
      by (intro preserves_then_do keep_SendGossip keep_pure keep_Notify
          put_actor [of "_\<lparr>members := _\<rparr>"] erase_member) simp_all
  qed
  then show ?thesis
    by (auto simp: preserves_def Suspect_def Let_def keep_AddOrUpdateSuspect)
qed

lemma keep_RecoverySuspect: "preserves P (RecoverySuspect W m)"
proof (rule preservesI)
  fix s assume "P s"
  obtain inc t where i: "map_index mkey 0 m (suspects s) = (inc, t)" by fastforce
  have "P (s\<lparr>suspects := t\<rparr>)"
    using i \<open>P s\<close> by (auto simp: map_index_def put_suspect split: option.splits)
  then have "P (s\<lparr>suspects := t, members := mput m inc (members s)\<rparr>)"
    by (rule put_member) simp
  then have "P (s\<lparr>suspects := t, members := mput m inc (members s), suspects := merase m t\<rparr>)"
    by (rule erase_suspect) simp
  then have "P (s\<lparr>members := mput m inc (members s), suspects := merase m t\<rparr>)"
    by simp
  then show "P (fst (RecoverySuspect W m s))"
    by (auto simp: RecoverySuspect_def i intro!: preservesD keep_with_payload
        preserves_then_do keep_SendGossip keep_pure keep_Notify)
qed

lemma keep_PullFromSeedMember: "preserves P (PullFromSeedMember W pick)"
  by (auto simp: preserves_def PullFromSeedMember_def keep_emit split: sum.splits)

lemma keep_RelayPing: "preserves P (RelayPing W target excluded)"
  by (rule preservesI)
    (auto simp: RelayPing_def keep_emit intro!: preservesD [OF keep_Suspect] split: prod.splits bool.splits)

lemma keep_SendSelfActorSystemUpGossip: "preserves P (SendSelfActorSystemUpGossip W)"
  unfolding SendSelfActorSystemUpGossip_def Let_def
  by (rule preservesI, rule preservesD, rule keep_with_payload, rule keep_SendGossip)
    (auto intro: keep_IncreaseIncarnation)

lemma keep_SetSelfActorSystemUp: "P s \<Longrightarrow> P (SetSelfActorSystemUp s)"
  unfolding SetSelfActorSystemUp_def
  by (rule put_actor [of "s\<lparr>is_self_actor_system_up := True\<rparr>"], rule set_self_up) simp_all

lemma keep_NotifyActorSystemDown: "preserves P (NotifyActorSystemDown W)"
proof (rule preservesI)
  fix s assume "P s"
  then have "P (s\<lparr>is_self_actor_system_up := False, actor_systems := merase (self_member s) (actor_systems s)\<rparr>)"
    by (intro erase_actor [of "s\<lparr>is_self_actor_system_up := False\<rparr>"] set_self_up) simp_all
  then show "P (fst (NotifyActorSystemDown W s))"
    unfolding NotifyActorSystemDown_def Let_def
    by (intro preservesD [OF keep_with_payload] keep_SendGossip keep_IncreaseIncarnation)
qed

lemma keep_HandleDidPull: "preserves P (HandleDidPull W result)"
proof (rule preservesI)
  fix s assume "P s"
  have up: "preserves P (\<lambda>s. if is_self_actor_system_up s then SendSelfActorSystemUpGossip W s else (s, None))"
    by (rule preservesI) (simp add: preservesD [OF keep_SendSelfActorSystemUpGossip])
  show "P (fst (HandleDidPull W result s))"
    unfolding HandleDidPull_def Let_def
    by (simp add: \<open>P s\<close> preservesD [OF keep_with_payload] preserves_then_do keep_SendGossip up
        keep_IncreaseIncarnation keep_UpdateActorSystemStatus)
qed

lemma keep_NotifyLeave: "preserves P (NotifyLeave W)"
proof (rule preservesI)
  fix s assume "P s"
  then show "P (fst (NotifyLeave W s))"
    unfolding NotifyLeave_def Let_def
    by (auto intro!: preservesD [OF keep_with_payload] keep_IncreaseIncarnation preservesI
        keep_gossip_repeatedly split: sum.splits)
qed

section \<open>Handlers\<close>

lemma keep_gossip_then: "length p \<le> kMaxPayloadSize \<Longrightarrow> (\<And>s. P s \<Longrightarrow> P (f s)) \<Longrightarrow> P s \<Longrightarrow>
   P (fst (then_do (SendGossip p) (pure_act f) s))"
  by (intro preservesD [of P "then_do (SendGossip p) (pure_act f)"] preserves_then_do keep_SendGossip keep_pure)

lemma keep_HandleGossip:
  assumes "length p \<le> kMaxPayloadSize"
  shows "preserves P (HandleGossip W node p)"
proof (rule preservesI)
  fix s assume "P s"
  then show "P (fst (HandleGossip W node p s))"
    unfolding HandleGossip_def HandleUp_def HandleDown_def HandleSuspect_def HandleRecovery_def
      HandleActorSystemDown_def HandleActorSystemUp_def Let_def
    by (simp add: assms keep_gossip_then keep_MergeUpUpdate keep_MergeDownUpdate
        keep_EraseExpiredMember keep_AddOrUpdateSuspect keep_MergeActorSystemUp
        keep_MergeActorSystemDown preservesD [OF keep_Suspect] preservesD [OF keep_RecoverySuspect])
qed

lemma keep_HandlePull: "P s \<Longrightarrow> P (fst (HandlePull W sender data s))"
  by (simp add: HandlePull_def Let_def keep_MergeMembers keep_emit)

lemma keep_HandlePush: "preserves P (HandlePush W sender data)"
  by (rule preservesI) (simp add: HandlePush_def Let_def preservesD [OF keep_Suspect])

lemma keep_did_pull: "preserves P (did_pull W pick c result)"
  by (rule preservesI, cases c)
    (simp_all add: keep_emit preservesD [OF keep_HandleDidPull] preservesD [OF keep_PullFromSeedMember]
      preservesD [OF keep_Suspect] preservesD [OF keep_RecoverySuspect] preservesD [OF keep_RelayPing])

lemma keep_DisseminateGossip: "preserves P (DisseminateGossip pick p)"
  by (auto simp: preserves_def DisseminateGossip_def keep_emit split: sum.splits prod.splits bool.splits)

end

end
