(* ===== verification/Node_System.thy ===== *)
theory Node_System
  imports Membership_Contract
begin

text \<open>
  A running node: \<open>Membership\<close> after a successful \<open>Init\<close>, with the events the
  transport, the two worker threads, the gRPC service and the daemon cause. Each event runs
  one member function; \<open>node_step\<close> relates the states before and after, and
  \<open>reachable\<close> holds of every state a run can be in. An exception other than undefined
  behaviour leaves the state it was thrown in.
\<close>

section \<open>Events\<close>

datatype node_event =
    Gossip_in address payload
  | Pull_in address "byte list"
  | Push_in address "byte list"
  | Pull_done pull_cont pull_result
  | Gossip_tick
  | Detector_tick
  | Actor_up
  | Actor_down
  | Leave
  | Subscribed nat

fun run_event :: "wire \<Rightarrow> nat \<Rightarrow> node_event \<Rightarrow> membership act" where
  "run_event W pick (Gossip_in a p) = HandleGossip W a p"
| "run_event W pick (Pull_in a d) = pure_act (\<lambda>s. fst (HandlePull W a d s))"
| "run_event W pick (Push_in a d) = HandlePush W a d"
| "run_event W pick (Pull_done c r) = did_pull W pick c r"
| "run_event W pick Gossip_tick = gossip_worker W pick"
| "run_event W pick Detector_tick = detector_worker W pick"
| "run_event W pick Actor_up = then_do (pure_act SetSelfActorSystemUp) (SendSelfActorSystemUpGossip W)"
| "run_event W pick Actor_down = NotifyActorSystemDown W"
| "run_event W pick Leave = NotifyLeave W"
| "run_event W pick (Subscribed i) = pure_act (Subscribe i)"

text \<open>What the transport guarantees of an event: a datagram fits the receive buffer.\<close>

fun event_ok :: "node_event \<Rightarrow> bool" where
  "event_ok (Gossip_in a p) \<longleftrightarrow> length p \<le> kMaxPayloadSize"
| "event_ok _ \<longleftrightarrow> True"

inductive node_step :: "wire \<Rightarrow> membership \<Rightarrow> node_event \<Rightarrow> membership \<Rightarrow> bool" for W where
  run: "event_ok e \<Longrightarrow> run_event W pick e s = (s', x) \<Longrightarrow> x \<noteq> Some UndefinedBehaviour \<Longrightarrow>
    node_step W s e s'"

inductive_cases node_stepE: "node_step W s e s'"

inductive_simps node_step_iff: "node_step W s e s'"

inductive reachable :: "wire \<Rightarrow> membership \<Rightarrow> bool" for W where
  start: "Init W pick True cfg new_membership = (s, Inr MEMBERSHIP_SUCCESS) \<Longrightarrow> reachable W s"
| step: "reachable W s \<Longrightarrow> node_step W s e s' \<Longrightarrow> reachable W s'"

section \<open>Invariants of a node\<close>

text \<open>
  The contract extended by the two workers: a predicate the member functions keep and the
  queue threads keep too holds in every state reached from one where it holds.
\<close>

locale node_contract = membership_contract +
  assumes gossip_round: "P s \<Longrightarrow> gossip_queue s = Some q \<Longrightarrow>
      P (s\<lparr>gossip_queue := Some (fst (worker_step q))\<rparr>)"
    and detector_round: "P s \<Longrightarrow> P (fst (detector_worker W pick s))"
    and rearm_after_tick: "P s \<Longrightarrow> gossip_queue s = Some q \<Longrightarrow> snd (worker_step q) = Some FailureDetect \<Longrightarrow>
      P (fst (failure_detector_functor W pick (s\<lparr>gossip_queue := Some (fst (worker_step q))\<rparr>)))"
begin

lemma keep_gossip_worker: "P s \<Longrightarrow> P (fst (gossip_worker W pick s))"
proof (cases "gossip_queue s")
  case (Some q)
  assume "P s"
  show ?thesis
  proof (cases "snd (worker_step q)")
    case None
    then show ?thesis using Some \<open>P s\<close> by (simp add: gossip_worker_def run_called_def gossip_round)
  next
    case (Some j)
    then show ?thesis
      using \<open>gossip_queue s = Some q\<close> \<open>P s\<close>
      by (cases j) (simp_all add: gossip_worker_def run_called_def gossip_round rearm_after_tick
          preservesD [OF keep_DisseminateGossip])
  qed
qed (simp add: gossip_worker_def)

lemma keep_event: "event_ok e \<Longrightarrow> P s \<Longrightarrow> P (fst (run_event W pick e s))"
  by (cases e)
    (simp_all add: preservesD [OF keep_HandleGossip] keep_HandlePull preservesD [OF keep_HandlePush]
      preservesD [OF keep_did_pull] keep_gossip_worker detector_round keep_SetSelfActorSystemUp
      preservesD [OF keep_SendSelfActorSystemUpGossip] preservesD [OF keep_NotifyActorSystemDown]
      preservesD [OF keep_NotifyLeave] keep_Subscribe)

lemma keep_step: "node_step W s e s' \<Longrightarrow> P s \<Longrightarrow> P s'"
  by (erule node_stepE) (metis fst_conv keep_event)

lemma keep_reachable:
  assumes "\<And>pick cfg s. Init W pick True cfg new_membership = (s, Inr MEMBERSHIP_SUCCESS) \<Longrightarrow> P s"
    and "reachable W s"
  shows "P s"
  using assms(2) by (induction rule: reachable.induct) (auto intro: assms(1) keep_step)

end

subsection \<open>What \<open>Init\<close> establishes\<close>

definition initial :: "wire \<Rightarrow> nat \<Rightarrow> config \<Rightarrow> membership" where
  "initial W pick cfg = fst (Init W pick True cfg new_membership)"

lemma PullFromSeedMember_frame:
  assumes "PullFromSeedMember W pick s = (s', x)"
  shows "members s' = members s" "suspects s' = suspects s" "actor_systems s' = actor_systems s"
    "self_member s' = self_member s" "has_transport s' = has_transport s"
    "gossip_queue s' = gossip_queue s" "failure_detector_queue s' = failure_detector_queue s"
    "seed_members s' = seed_members s" "incarnation s' = incarnation s"
    "retransmit_multiplier s' = retransmit_multiplier s" "subscribers s' = subscribers s"
    "is_self_actor_system_up s' = is_self_actor_system_up s" "if_notify_leave s' = if_notify_leave s"
  using assms
  by (cases "GetRandomSeedAddress pick s"; cases "has_transport s";
      simp add: PullFromSeedMember_def emit_def; elim conjE; hypsubst; simp)+

text \<open>The state \<open>Init\<close> has built when it turns to the seeds.\<close>

definition before_pull :: "config \<Rightarrow> membership" where
  "before_pull cfg = new_membership\<lparr>print_ping_log := c_print_ping_log cfg, self_member := c_host cfg,
     members := [(c_host cfg, 0)], has_transport := True,
     if_notify_leave := \<not> c_leave_without_notification cfg,
     gossip_queue := Some (TimedFunctorQueue (c_gossip_interval cfg)),
     retransmit_multiplier := c_retransmit_multiplier cfg,
     seed_members := filter (\<lambda>m. \<not> member_eq m (c_host cfg)) (c_seed_members cfg)\<rparr>"

definition start_detector :: "config \<Rightarrow> membership \<Rightarrow> membership" where
  "start_detector cfg s =
     (let s4 = s\<lparr>is_relay_ping_enabled := c_relay_ping_enabled cfg\<rparr> in
      if c_failure_detector_off cfg then s4
      else Ping (s4\<lparr>failure_detector_queue :=
             Some (TimedFunctorQueue (c_failure_detector_interval cfg))\<rparr>))"

lemma Init_eq:
  "Init W pick True cfg new_membership =
     (if IsEmptyMember (c_host cfg) then (new_membership, Inr MEMBERSHIP_INIT_HOSTMEMBER_EMPTY)
      else case (if c_seed_members cfg \<noteq> [] \<and> seed_members (before_pull cfg) \<noteq> []
                 then PullFromSeedMember W pick (before_pull cfg) else (before_pull cfg, None)) of
          (s3, Some e) \<Rightarrow> (s3, Inl e)
        | (s3, None) \<Rightarrow> (start_detector cfg s3, Inr MEMBERSHIP_SUCCESS))"
proof -
  have 1: "AddMember (c_host cfg)
      (new_membership\<lparr>print_ping_log := c_print_ping_log cfg, self_member := c_host cfg\<rparr>) =
      new_membership\<lparr>print_ping_log := c_print_ping_log cfg, self_member := c_host cfg,
        members := [(c_host cfg, 0)]\<rparr>"
    by (simp add: AddMember_def Notify_def new_membership_def)
  have 3: "seed_members new_membership = []" by (simp add: new_membership_def)
  show ?thesis
    unfolding Init_def Let_def 1 by (simp add: 3 before_pull_def start_detector_def Let_def)
qed

lemma before_pull_fields [simp]:
  "members (before_pull cfg) = [(c_host cfg, 0)]" "suspects (before_pull cfg) = []"
  "actor_systems (before_pull cfg) = []" "self_member (before_pull cfg) = c_host cfg"
  "has_transport (before_pull cfg)" "failure_detector_queue (before_pull cfg) = None"
  "gossip_queue (before_pull cfg) = Some (TimedFunctorQueue (c_gossip_interval cfg))"
  "seed_members (before_pull cfg) = filter (\<lambda>m. \<not> member_eq m (c_host cfg)) (c_seed_members cfg)"
  "incarnation (before_pull cfg) = 0"
  "retransmit_multiplier (before_pull cfg) = c_retransmit_multiplier cfg"
  "\<not> is_self_actor_system_up (before_pull cfg)" "subscribers (before_pull cfg) = []"
  "effects (before_pull cfg) = []"
  by (simp_all add: before_pull_def new_membership_def)

lemma Init_success_start:
  assumes "Init W pick True cfg new_membership = (s, Inr MEMBERSHIP_SUCCESS)"
  obtains s3 where "s = start_detector cfg s3" and "s3 = before_pull cfg"
  | s3 where "s = start_detector cfg s3" and "PullFromSeedMember W pick (before_pull cfg) = (s3, None)"
  using assms by (auto simp only: Init_eq split: if_splits prod.splits option.splits)

lemma Init_returns:
  assumes "\<not> IsEmptyMember (c_host cfg)"
  shows "\<exists>s. Init W pick True cfg new_membership = (s, Inr MEMBERSHIP_SUCCESS)"
proof (cases "c_seed_members cfg \<noteq> [] \<and> seed_members (before_pull cfg) \<noteq> []")
  case True
  then have "\<exists>s. PullFromSeedMember W pick (before_pull cfg) = (s, None)"
    by (auto simp: PullFromSeedMember_def GetRandomSeedAddress_def random_element_def)
  then show ?thesis using assms True by (auto simp: Init_eq)
next
  case False
  then show ?thesis unfolding Init_eq using assms by (simp only: if_False) simp
qed

lemma start_detector_frame [simp]:
  "members (start_detector cfg s) = members s" "suspects (start_detector cfg s) = suspects s"
  "actor_systems (start_detector cfg s) = actor_systems s"
  "self_member (start_detector cfg s) = self_member s"
  "gossip_queue (start_detector cfg s) = gossip_queue s"
  "seed_members (start_detector cfg s) = seed_members s"
  "incarnation (start_detector cfg s) = incarnation s"
  "has_transport (start_detector cfg s) = has_transport s"
  "retransmit_multiplier (start_detector cfg s) = retransmit_multiplier s"
  by (simp_all add: start_detector_def Let_def Ping_def)

lemma start_detector_queue:
  "failure_detector_queue s = None \<Longrightarrow> failure_detector_queue (start_detector cfg s) =
     (if c_failure_detector_off cfg then None
      else Some (Push FailureDetect 1 (TimedFunctorQueue (c_failure_detector_interval cfg))))"
  by (simp add: start_detector_def Let_def Ping_def)

lemma Init_success:
  assumes "Init W pick True cfg new_membership = (s, Inr MEMBERSHIP_SUCCESS)"
  shows "members s = [(c_host cfg, 0)]" and "suspects s = []" and "actor_systems s = []"
    and "self_member s = c_host cfg" and "has_transport s"
    and "gossip_queue s = Some (TimedFunctorQueue (c_gossip_interval cfg))"
    and "failure_detector_queue s = (if c_failure_detector_off cfg then None
           else Some (Push FailureDetect 1 (TimedFunctorQueue (c_failure_detector_interval cfg))))"
    and "seed_members s = filter (\<lambda>m. \<not> member_eq m (c_host cfg)) (c_seed_members cfg)"
    and "incarnation s = 0" and "retransmit_multiplier s = c_retransmit_multiplier cfg"
  by (rule Init_success_start [OF assms];
      simp add: PullFromSeedMember_frame start_detector_queue)+

subsection \<open>The tables stay sorted maps\<close>

definition tables_wf :: "membership \<Rightarrow> bool" where
  "tables_wf s \<longleftrightarrow> mwf (members s) \<and> mwf (suspects s) \<and> mwf (actor_systems s)"

lemma Ping_frame [simp]:
  "members (Ping s) = members s" "suspects (Ping s) = suspects s"
  "actor_systems (Ping s) = actor_systems s" "gossip_queue (Ping s) = gossip_queue s"
  "self_member (Ping s) = self_member s" "incarnation (Ping s) = incarnation s"
  "effects (Ping s) = effects s" "seed_members (Ping s) = seed_members s"
  "has_transport (Ping s) = has_transport s" "retransmit_multiplier (Ping s) = retransmit_multiplier s"
  by (simp_all add: Ping_def split: option.splits)

lemma failure_detector_functor_frame [simp]:
  "members (fst (failure_detector_functor W pick s)) = members s"
  "suspects (fst (failure_detector_functor W pick s)) = suspects s"
  "actor_systems (fst (failure_detector_functor W pick s)) = actor_systems s"
  "gossip_queue (fst (failure_detector_functor W pick s)) = gossip_queue s"
  "self_member (fst (failure_detector_functor W pick s)) = self_member s"
  "incarnation (fst (failure_detector_functor W pick s)) = incarnation s"
  by (auto simp: failure_detector_functor_def Let_def split: sum.splits prod.splits bool.splits)

lemma DisseminateGossip_frame [simp]:
  "members (fst (DisseminateGossip pick p s)) = members s"
  "suspects (fst (DisseminateGossip pick p s)) = suspects s"
  "actor_systems (fst (DisseminateGossip pick p s)) = actor_systems s"
  "gossip_queue (fst (DisseminateGossip pick p s)) = gossip_queue s"
  "failure_detector_queue (fst (DisseminateGossip pick p s)) = failure_detector_queue s"
  "self_member (fst (DisseminateGossip pick p s)) = self_member s"
  "incarnation (fst (DisseminateGossip pick p s)) = incarnation s"
  by (auto simp: DisseminateGossip_def split: sum.splits prod.splits bool.splits)

lemma detector_worker_frame [simp]:
  "members (fst (detector_worker W pick s)) = members s"
  "suspects (fst (detector_worker W pick s)) = suspects s"
  "actor_systems (fst (detector_worker W pick s)) = actor_systems s"
  "gossip_queue (fst (detector_worker W pick s)) = gossip_queue s"
  "self_member (fst (detector_worker W pick s)) = self_member s"
  "incarnation (fst (detector_worker W pick s)) = incarnation s"
  by (auto simp: detector_worker_def run_called_def split: option.splits) (case_tac x2a; simp)+

interpretation tables: node_contract tables_wf
  by unfold_locales (simp_all add: tables_wf_def map_wf_put map_wf_erase)

lemma tables_wf_Init:
  "Init W pick True cfg new_membership = (s, Inr MEMBERSHIP_SUCCESS) \<Longrightarrow> tables_wf s"
  by (simp add: Init_success tables_wf_def map_wf_def)

subsection \<open>Random choices\<close>

text \<open>A sorted table has at most one entry for the node itself.\<close>

lemma mwf_distinct: "mwf t \<Longrightarrow> distinct (map (mkey \<circ> fst) t)"
  by (simp add: map_wf_def strict_sorted_iff)

lemma others_nonempty:
  assumes "mwf (members s)" and "1 < length (members s)"
  shows "others s \<noteq> []"
proof
  assume "others s = []"
  then have all: "\<forall>m\<in>set (map fst (members s)). mkey m = mkey (self_member s)"
    by (auto simp: others_def filter_empty_conv member_eq_key)
  obtain a b r where t: "members s = a # b # r"
    using assms(2) by (cases "members s" rule: remdups_adj.cases) auto
  show False using all mwf_distinct [OF assms(1)] by (simp add: t)
qed

lemma random_element_in:
  "xs \<noteq> [] \<Longrightarrow> \<exists>x\<in>set xs. random_element pick xs = Inr x"
  by (auto simp: random_element_def)

lemma GetRandomMember_defined:
  assumes "mwf (members s)" and "1 < length (members s)"
  shows "\<exists>m\<in>set (others s). GetRandomMember pick s = Inr (True, m)"
  using random_element_in [OF others_nonempty [OF assms], of pick] assms(2)
  by (auto simp: GetRandomMember_def)

lemma GetRandomPingTarget_defined:
  assumes "mwf (members s)" and "1 < length (members s) + length (suspects s)"
  shows "\<exists>m\<in>set (others s) \<union> set (GetSuspects s). GetRandomPingTarget pick s = Inr (True, m)"
proof -
  have "others s @ map fst (suspects s) \<noteq> []"
    using others_nonempty [OF assms(1)] assms(2) by (cases "suspects s") auto
  from random_element_in [OF this, of pick] obtain m
    where "m \<in> set (others s @ map fst (suspects s))"
      and "random_element pick (others s @ map fst (suspects s)) = Inr m" by blast
  then show ?thesis
    using assms(2) by (intro bexI [of _ m]) (simp_all add: GetRandomPingTarget_def GetSuspects_def)
qed

lemma failure_detector_functor_rearms:
  assumes "mwf (members s)"
  shows "failure_detector_queue (fst (failure_detector_functor W pick s)) =
    failure_detector_queue (Ping s)"
proof -
  have "\<exists>b m. GetRandomPingTarget pick s = Inr (b, m)"
  proof (cases "1 < length (members s) + length (suspects s)")
    case True
    then show ?thesis using GetRandomPingTarget_defined [OF assms] by blast
  qed (simp add: GetRandomPingTarget_def, rule exI [of _ False], simp)
  then show ?thesis
    by (auto simp: failure_detector_functor_def Let_def Ping_def split: bool.splits option.splits)
qed

subsection \<open>Nothing too long is ever queued\<close>

definition job_small :: "job \<Rightarrow> bool" where
  "job_small j \<longleftrightarrow> (case j of Disseminate p \<Rightarrow> length p \<le> kMaxPayloadSize | FailureDetect \<Rightarrow> False)"

definition jobs_small :: "job fqueue \<Rightarrow> bool" where
  "jobs_small q \<longleftrightarrow> (\<forall>(j, n)\<in>set (fq_pending q). job_small j) \<and>
     (case fq_pc q of Calling j n \<Rightarrow> job_small j | _ \<Rightarrow> True)"

definition payloads_small :: "membership \<Rightarrow> bool" where
  "payloads_small s \<longleftrightarrow> (case gossip_queue s of None \<Rightarrow> True | Some q \<Rightarrow> jobs_small q)"

lemma jobs_small_Push: "jobs_small q \<Longrightarrow> job_small j \<Longrightarrow> jobs_small (Push j n q)"
  by (auto simp: jobs_small_def Push_def queue_push_def)

lemma jobs_small_step: "jobs_small q \<Longrightarrow> jobs_small (fst (worker_step q))"
  by (auto simp: jobs_small_def worker_step.simps queue_pop_def
      split: worker_pc.splits list.splits nat.splits option.splits prod.splits)

lemma jobs_small_call: "jobs_small q \<Longrightarrow> snd (worker_step q) \<noteq> Some FailureDetect"
  by (auto simp: jobs_small_def worker_step.simps queue_pop_def job_small_def
      split: worker_pc.splits list.splits nat.splits option.splits prod.splits)

interpretation payloads: node_contract payloads_small
proof (unfold_locales, goal_cases)
  case (11 s q p n)
  then show ?case by (simp add: payloads_small_def jobs_small_Push job_small_def)
next
  case (12 s q)
  then show ?case by (simp add: payloads_small_def jobs_small_step)
next
  case (14 s q W pick)
  then show ?case by (simp add: payloads_small_def jobs_small_call)
qed (simp_all add: payloads_small_def)

lemma payloads_small_Init:
  "Init W pick True cfg new_membership = (s, Inr MEMBERSHIP_SUCCESS) \<Longrightarrow> payloads_small s"
  by (simp add: Init_success payloads_small_def jobs_small_def TimedFunctorQueue_def)

subsection \<open>The failure detector is always armed once\<close>

definition armed_once :: "job fqueue \<Rightarrow> bool" where
  "armed_once q \<longleftrightarrow> owed q = [FailureDetect] \<and> \<not> fq_should_stop q \<and> fq_pc q \<noteq> Stopped"

definition detector_armed :: "membership \<Rightarrow> bool" where
  "detector_armed s \<longleftrightarrow> (case failure_detector_queue s of None \<Rightarrow> True | Some q \<Rightarrow> armed_once q)"

lemma worker_step_alive:
  assumes "\<not> fq_should_stop q" and "fq_pc q \<noteq> Stopped"
  shows "\<not> fq_should_stop (fst (worker_step q))" and "fq_pc (fst (worker_step q)) \<noteq> Stopped"
  using assms
  by (auto simp: worker_step.simps queue_pop_def
      split: worker_pc.splits list.splits nat.splits option.splits prod.splits)

lemma Push_alive [simp]:
  "fq_should_stop (Push j n q) = fq_should_stop q" "fq_pc (Push j n q) = fq_pc q"
  by (simp_all add: Push_def)

lemma armed_once_step:
  assumes "armed_once q" and "worker_step q = (q', called)"
  shows "called = None \<and> armed_once q' \<or> called = Some FailureDetect \<and> armed_once (Push FailureDetect 1 q')"
  using assms owed_step [of q] worker_step_alive [of q]
  by (cases called) (auto simp: armed_once_def owed_Push)

definition node_inv :: "membership \<Rightarrow> bool" where
  "node_inv s \<longleftrightarrow> tables_wf s \<and> payloads_small s \<and> detector_armed s"

lemma detector_armed_round:
  assumes "tables_wf s" and "detector_armed s"
  shows "detector_armed (fst (detector_worker W pick s))"
proof (cases "failure_detector_queue s")
  case (Some q)
  obtain q' called where w: "worker_step q = (q', called)" by fastforce
  have q: "armed_once q" using assms(2) Some by (simp add: detector_armed_def)
  let ?s = "s\<lparr>failure_detector_queue := Some q'\<rparr>"
  from armed_once_step [OF q w] show ?thesis
  proof
    assume "called = Some FailureDetect \<and> armed_once (Push FailureDetect 1 q')"
    moreover have "mwf (members ?s)" using assms(1) by (simp add: tables_wf_def)
    ultimately show ?thesis
      using failure_detector_functor_rearms [of ?s W pick]
      by (simp add: detector_worker_def run_called_def Some w detector_armed_def Ping_def)
  qed (simp add: detector_worker_def run_called_def Some w detector_armed_def)
qed (simp add: detector_worker_def detector_armed_def)

interpretation node: node_contract node_inv
proof (unfold_locales, goal_cases)
  case (11 s q p n)
  then show ?case
    using tables.push_gossip payloads.push_gossip by (simp add: node_inv_def detector_armed_def)
next
  case (12 s q)
  then show ?case
    using tables.gossip_round payloads.gossip_round by (simp add: node_inv_def detector_armed_def)
next
  case (13 s W pick)
  then show ?case
    using tables.detector_round payloads.detector_round detector_armed_round by (simp add: node_inv_def)
next
  case (14 s q W pick)
  then show ?case using jobs_small_call by (simp add: node_inv_def payloads_small_def)
qed (simp_all add: node_inv_def tables_wf_def payloads_small_def detector_armed_def map_wf_put map_wf_erase)

lemma armed_once_new: "armed_once (Push FailureDetect 1 (TimedFunctorQueue n))"
  by (simp add: armed_once_def owed_Push) (simp add: TimedFunctorQueue_def owed_def owed_now_def)

lemma node_inv_Init:
  assumes "Init W pick True cfg new_membership = (s, Inr MEMBERSHIP_SUCCESS)"
  shows "node_inv s"
  using tables_wf_Init [OF assms] payloads_small_Init [OF assms]
  by (simp add: node_inv_def detector_armed_def Init_success [OF assms] armed_once_new)

lemma node_inv_reachable: "reachable W s \<Longrightarrow> node_inv s"
  by (rule node.keep_reachable) (auto intro: node_inv_Init)

end
