(* ===== verification/Membership_Laws.thy ===== *)
theory Membership_Laws
  imports Node_System
begin

text \<open>
  What the member functions of \<open>Membership\<close> do to the three tables, in terms of
  look-ups: the functional behaviour of each merge, the effect of suspicion and recovery,
  and the handling of gossip, which ends because no message is passed on twice.
\<close>

section \<open>Look-ups after an update\<close>

lemma mfind_mput: "mwf t \<Longrightarrow> mfind k (mput m v t) = (if mkey k = mkey m then Some v else mfind k t)"
  by (simp add: std_map.find_put)

lemma mfind_merase: "mwf t \<Longrightarrow> mfind k (merase m t) = (if mkey k = mkey m then None else mfind k t)"
  by (simp add: std_map.find_erase)

lemma mfind_cong: "mkey k = mkey m \<Longrightarrow> mfind k t = mfind m t"
  by (rule std_map.find_cong)

lemma mfind_entry: "mfind k t = map_option snd (mentry k t)"
  by (simp add: map_find_def)

lemma mfind_Nil [simp]: "mfind k [] = None"
  by (simp add: map_find_def)

lemma mfind_Cons: "mfind k ((m, v) # t) = (if mkey m = mkey k then Some v else mfind k t)"
  by (simp add: map_find_def)

lemma merase_absent: "mfind m t = None \<Longrightarrow> merase m t = t"
  by (simp add: map_find_def map_erase_absent)

lemmas table_simps = mfind_mput mfind_merase map_wf_put map_wf_erase

lemma tables_wfD: "tables_wf s \<Longrightarrow> mwf (members s)" "tables_wf s \<Longrightarrow> mwf (suspects s)"
  "tables_wf s \<Longrightarrow> mwf (actor_systems s)"
  by (simp_all add: tables_wf_def)

lemma IncreaseIncarnation_frame [simp]:
  "members (IncreaseIncarnation s) = members s" "suspects (IncreaseIncarnation s) = suspects s"
  "actor_systems (IncreaseIncarnation s) = actor_systems s"
  "self_member (IncreaseIncarnation s) = self_member s"
  "gossip_queue (IncreaseIncarnation s) = gossip_queue s"
  "incarnation (IncreaseIncarnation s) = incarnation s + 1"
  by (simp_all add: IncreaseIncarnation_def)

section \<open>Merging one update\<close>

text \<open>\<open>MergeUpUpdate\<close> keeps the larger incarnation, compared unsigned.\<close>

definition newer :: "u32 option \<Rightarrow> u32 \<Rightarrow> u32" where
  "newer old inc = (case old of None \<Rightarrow> inc | Some i \<Rightarrow> max i inc)"

lemma MergeUpUpdate_members:
  assumes "tables_wf s"
  shows "mfind k (members (MergeUpUpdate m inc s)) =
    (if mkey k = mkey m then Some (newer (mfind m (members s)) inc) else mfind k (members s))"
  using assms mfind_cong [of k m "members s"]
  by (auto simp: MergeUpUpdate_def newer_def tables_wf_def table_simps max_def
      split: option.splits)

lemma MergeUpUpdate_rest [simp]:
  "suspects (MergeUpUpdate m inc s) = suspects s"
  "actor_systems (MergeUpUpdate m inc s) = actor_systems s"
  "self_member (MergeUpUpdate m inc s) = self_member s"
  "gossip_queue (MergeUpUpdate m inc s) = gossip_queue s"
  by (simp_all add: MergeUpUpdate_def split: option.splits)

lemma tables_wf_MergeUpUpdate: "tables_wf s \<Longrightarrow> tables_wf (MergeUpUpdate m inc s)"
  by (rule tables.keep_MergeUpUpdate)

lemma newer_absorb: "newer (Some (newer old i)) j = newer (Some (newer old j)) i"
  by (auto simp: newer_def max_def split: option.splits)

lemma MergeUpUpdate_commute:
  assumes "tables_wf s"
  shows "mfind k (members (MergeUpUpdate a i (MergeUpUpdate b j s))) =
         mfind k (members (MergeUpUpdate b j (MergeUpUpdate a i s)))"
  using tables_wf_MergeUpUpdate [OF assms, of b j] tables_wf_MergeUpUpdate [OF assms, of a i] assms
    newer_absorb [of "mfind a (members s)" j i] mfind_cong [of a b "members s"]
  by (auto simp: MergeUpUpdate_members)

text \<open>A down update removes its member everywhere, at whatever incarnation.\<close>

lemma MergeDownUpdate_self [simp]: "member_eq m (self_member s) \<Longrightarrow> MergeDownUpdate m inc s = s"
  by (simp add: MergeDownUpdate_def)

lemma MergeDownUpdate_tables:
  assumes "tables_wf s" and "\<not> member_eq m (self_member s)"
  shows "mfind k (members (MergeDownUpdate m inc s)) =
           (if mkey k = mkey m then None else mfind k (members s))"
    and "mfind k (suspects (MergeDownUpdate m inc s)) =
           (if mkey k = mkey m then None else mfind k (suspects s))"
    and "mfind k (actor_systems (MergeDownUpdate m inc s)) =
           (if mkey k = mkey m then Some False else mfind k (actor_systems s))"
  using assms mfind_cong [of k m "members s"] mfind_cong [of k m "suspects s"]
  by (auto simp: MergeDownUpdate_def Let_def tables_wf_def table_simps)

text \<open>Stale entries, those stored under another uid, disappear from both tables.\<close>

lemma stale_mfind: "stale m t \<Longrightarrow> mfind m t \<noteq> None"
  by (auto simp: stale_def map_find_def split: option.splits)

lemma EraseExpiredMember_tables:
  assumes "tables_wf s"
  shows "mfind k (members (EraseExpiredMember m s)) =
           (if mkey k = mkey m \<and> stale m (members s) then None else mfind k (members s))"
    and "mfind k (suspects (EraseExpiredMember m s)) =
           (if mkey k = mkey m \<and> stale m (suspects s) then None else mfind k (suspects s))"
    and "mfind k (actor_systems (EraseExpiredMember m s)) =
           (if mkey k = mkey m \<and> (stale m (members s) \<or> stale m (suspects s)) then Some False
            else mfind k (actor_systems s))"
    and "self_member (EraseExpiredMember m s) = self_member s"
    and "gossip_queue (EraseExpiredMember m s) = gossip_queue s"
  using assms by (auto simp: EraseExpiredMember_def Let_def tables_wf_def table_simps)

lemma EraseExpiredMember_fresh:
  assumes "\<not> stale m (members s)" and "\<not> stale m (suspects s)"
  shows "EraseExpiredMember m s = s"
  using assms by (simp add: EraseExpiredMember_def Let_def)

lemma stale_merase: "mwf t \<Longrightarrow> \<not> stale m (merase m t)"
  by (simp add: stale_def map_entry_erase)

lemma EraseExpiredMember_not_stale:
  assumes "tables_wf s"
  shows "\<not> stale m (members (EraseExpiredMember m s))"
    and "\<not> stale m (suspects (EraseExpiredMember m s))"
  using assms by (auto simp: EraseExpiredMember_def Let_def tables_wf_def stale_merase)

lemma stale_mput:
  assumes "mwf t" and "\<not> stale m t"
  shows "\<not> stale m (mput m v t)"
  using assms by (auto simp: stale_def map_entry_put split: option.splits)

section \<open>Suspicion and recovery\<close>

lemma Suspect_member:
  assumes "Suspect W m inc s = (s', None)" and "tables_wf s" and "IfBelongsToMembers m s"
  shows "mfind k (members s') = (if mkey k = mkey m then None else mfind k (members s))"
    and "mfind k (suspects s') = (if mkey k = mkey m then Some inc else mfind k (suspects s))"
    and "mfind k (actor_systems s') = (if mkey k = mkey m then Some False else mfind k (actor_systems s))"
    and "self_member s' = self_member s"
proof -
  let ?p = "ser_update W (InitAsSuspectMessage m inc)"
  let ?s1 = "(AddOrUpdateSuspect m inc s)
      \<lparr>members := merase m (members s), actor_systems := mput m False (actor_systems s)\<rparr>"
  have "length ?p \<le> kMaxPayloadSize"
    using assms(1,3) by (auto simp: Suspect_def with_payload_def mk_payload_def split: if_splits)
  then have "then_do (SendGossip ?p) (pure_act Notify) ?s1 = (s', None)"
    using assms(1,3)
    by (simp add: Suspect_def with_payload_def mk_payload_small AddOrUpdateSuspect_def)
  then have "s' = Notify (fst (SendGossip ?p ?s1))"
    by (cases "SendGossip ?p ?s1") (auto simp: then_do_def split: option.splits)
  then show "mfind k (members s') = (if mkey k = mkey m then None else mfind k (members s))"
    and "mfind k (suspects s') = (if mkey k = mkey m then Some inc else mfind k (suspects s))"
    and "mfind k (actor_systems s') = (if mkey k = mkey m then Some False else mfind k (actor_systems s))"
    and "self_member s' = self_member s"
    using assms(2) by (simp_all add: AddOrUpdateSuspect_def tables_wf_def table_simps)
qed

lemma Suspect_other: "\<not> IfBelongsToMembers m s \<Longrightarrow> Suspect W m inc s = (s, None)"
  by (simp add: Suspect_def)

lemma RecoverySuspect_tables:
  assumes "RecoverySuspect W m s = (s', None)" and "tables_wf s"
  shows "mfind k (members s') =
           (if mkey k = mkey m then Some (GetSuspectLocalIncarnation m s) else mfind k (members s))"
    and "mfind k (suspects s') = (if mkey k = mkey m then None else mfind k (suspects s))"
    and "actor_systems s' = actor_systems s"
    and "self_member s' = self_member s"
proof -
  obtain inc t where i: "map_index mkey 0 m (suspects s) = (inc, t)" by fastforce
  have inc: "inc = GetSuspectLocalIncarnation m s"
    using map_index_fst [of mkey 0 m "suspects s"] i by (simp add: GetSuspectLocalIncarnation_def)
  have wf: "mwf t" using map_index_wf [of mkey "suspects s" 0 m] i assms(2) by (simp add: tables_wf_def)
  have t: "mfind k t = mfind k (suspects s)" if "mkey k \<noteq> mkey m" for k
    using i that assms(2) by (auto simp: map_index_def tables_wf_def table_simps split: option.splits)
  let ?p = "ser_update W (InitAsRecoveryMessage m inc)"
  let ?s1 = "s\<lparr>members := mput m inc (members s), suspects := merase m t\<rparr>"
  have "length ?p \<le> kMaxPayloadSize"
    using assms(1) by (auto simp: RecoverySuspect_def i with_payload_def mk_payload_def split: if_splits)
  then have "then_do (SendGossip ?p) (pure_act Notify) ?s1 = (s', None)"
    using assms(1) by (simp add: RecoverySuspect_def i with_payload_def mk_payload_small)
  then have "s' = Notify (fst (SendGossip ?p ?s1))"
    by (cases "SendGossip ?p ?s1") (auto simp: then_do_def split: option.splits)
  then show "mfind k (members s') =
           (if mkey k = mkey m then Some (GetSuspectLocalIncarnation m s) else mfind k (members s))"
    and "mfind k (suspects s') = (if mkey k = mkey m then None else mfind k (suspects s))"
    and "actor_systems s' = actor_systems s" and "self_member s' = self_member s"
    using assms(2) by (simp_all add: tables_wf_def table_simps inc [symmetric] wf t)
qed

section \<open>Joins of whole tables\<close>

text \<open>
  The specification of \<open>MergeMembers\<close>: pointwise, an unknown member is taken over and a
  known one keeps the larger incarnation, compared signed.
\<close>

definition signed_join :: "u32 option \<Rightarrow> u32 option \<Rightarrow> u32 option" where
  "signed_join old new = (case new of None \<Rightarrow> old
     | Some j \<Rightarrow> (case old of None \<Rightarrow> Some j | Some i \<Rightarrow> if sint j > sint i then Some j else Some i))"

lemma merge_member_entry_members:
  assumes "tables_wf s"
  shows "mfind k (members (fst (merge_member_entry flags (m, j) (s, b)))) =
    (if mkey k = mkey m then signed_join (mfind m (members s)) (Some j) else mfind k (members s))"
  using assms mfind_cong [of k m "members s"]
  by (auto simp: merge_member_entry_def signed_join_def copy_actor_flag_def tables_wf_def table_simps
      split: option.splits)

lemma tables_wf_merge_member_entry:
  "tables_wf (fst sn) \<Longrightarrow> tables_wf (fst (merge_member_entry flags e sn))"
  by (rule tables.keep_merge_member_entry)

lemma fold_merge_member_entry:
  assumes "tables_wf s" and "mwf ms"
  shows "mfind k (members (fst (fold (merge_member_entry flags) ms (s, b)))) =
    signed_join (mfind k (members s)) (mfind k ms)"
  using assms
proof (induction ms arbitrary: s b)
  case Nil
  then show ?case by (simp add: signed_join_def)
next
  case (Cons e ms)
  obtain m j where e: "e = (m, j)" by (cases e)
  obtain s1 b1 where s1: "merge_member_entry flags (m, j) (s, b) = (s1, b1)" by fastforce
  have wf1: "tables_wf s1"
    using tables_wf_merge_member_entry [of "(s, b)" flags "(m, j)"] Cons.prems(1) s1 by simp
  have ms: "mwf ms" using Cons.prems(2) by (rule map_wf_tl)
  have step: "mfind k (members s1) =
    (if mkey k = mkey m then signed_join (mfind m (members s)) (Some j) else mfind k (members s))"
    using merge_member_entry_members [OF Cons.prems(1), of k flags m j b] s1 by simp
  have absent: "mfind k ms = None" if "mkey k = mkey m"
  proof -
    have "\<forall>(k', v')\<in>set ms. mkey k < mkey k'" using Cons.prems(2) that by (simp add: e map_wf_Cons)
    then show ?thesis by (simp add: map_find_abs map_abs_None_less)
  qed
  have "mfind k (members (fst (fold (merge_member_entry flags) ms (s1, b1)))) =
      signed_join (mfind k (members s1)) (mfind k ms)"
    by (rule Cons.IH [OF wf1 ms])
  then show ?case
    using absent mfind_cong [of k m "members s"]
    by (cases "mkey k = mkey m") (simp_all add: e s1 step mfind_Cons signed_join_def)
qed

lemma MergeMembers_members:
  assumes "tables_wf s" and "mwf ms"
  shows "mfind k (members (MergeMembers ms flags s)) = signed_join (mfind k (members s)) (mfind k ms)"
  using fold_merge_member_entry [OF assms, of k flags False]
  by (cases "fold (merge_member_entry flags) ms (s, False)") (simp add: MergeMembers_def)

text \<open>The specification of \<open>UpdateActorSystemStatus\<close>.\<close>

lemma update_status_entry_tables:
  assumes "tables_wf s"
  shows "mfind k (members (update_status_entry w s)) =
      (if mkey k = mkey (ws_member w) \<and> mfind k (members s) = None then Some 0 else mfind k (members s))"
    and "mfind k (actor_systems (update_status_entry w s)) =
      (if mkey k = mkey (ws_member w) then Some (ws_status w = ACTOR_SYSTEM_UP)
       else mfind k (actor_systems s))"
  using assms mfind_cong [of k "ws_member w" "members s"]
  by (auto simp: update_status_entry_def Let_def tables_wf_def table_simps)

lemma fold_update_status_members:
  assumes "tables_wf s"
  shows "mfind k (members (fold update_status_entry ws s)) =
    (if mfind k (members s) = None \<and> mkey k \<in> mkey ` ws_member ` set ws then Some 0
     else mfind k (members s))"
  using assms
proof (induction ws arbitrary: s)
  case (Cons w ws)
  have "tables_wf (update_status_entry w s)" by (rule tables.keep_update_status_entry [OF Cons.prems])
  from Cons.IH [OF this] show ?case
    by (auto simp: update_status_entry_tables [OF Cons.prems])
qed simp

lemma fold_update_status_actors:
  assumes "tables_wf s"
  shows "mfind k (actor_systems (fold update_status_entry ws s)) =
    (case map_of (rev (map (\<lambda>w. (mkey (ws_member w), ws_status w = ACTOR_SYSTEM_UP)) ws)) (mkey k) of
       None \<Rightarrow> mfind k (actor_systems s) | Some up \<Rightarrow> Some up)"
  using assms
proof (induction ws arbitrary: s)
  case (Cons w ws)
  have "tables_wf (update_status_entry w s)" by (rule tables.keep_update_status_entry [OF Cons.prems])
  from Cons.IH [OF this] show ?case
    by (auto simp: update_status_entry_tables [OF Cons.prems] map_add_def split: option.splits)
qed simp

lemma UpdateActorSystemStatus_frame [simp]:
  "members (UpdateActorSystemStatus ws s) = members (fold update_status_entry ws s)"
  "actor_systems (UpdateActorSystemStatus ws s) = actor_systems (fold update_status_entry ws s)"
  by (simp_all add: UpdateActorSystemStatus_def)

end
