(* ===== verification/Gossip_Handling.thy ===== *)
theory Gossip_Handling
  imports Membership_Laws
begin

text \<open>
  The handling of gossip. A message is passed on, with the retransmission limit of the
  moment, exactly when it brings news, and handling it a second time does nothing: a node
  never spreads the same message twice, so the flood a message starts dies out. Then the
  chain of relayed pings, which ends in a suspicion.
\<close>

section \<open>Every message is news once\<close>

lemma then_do_pureD:
  "then_do f (pure_act g) s = (s', None) \<Longrightarrow> f s = (fst (f s), None) \<and> s' = g (fst (f s))"
  by (cases "f s") (auto simp: then_do_def split: option.splits)

lemma gossip_thenD:
  assumes "then_do (SendGossip p) (pure_act g) s = (s', None)"
  obtains r where "SendGossip p s = (r, None)" and "s' = g r" and "members r = members s"
    and "suspects r = suspects s" and "actor_systems r = actor_systems s"
    and "self_member r = self_member s"
  using then_do_pureD [OF assms] SendGossip_frame [of p s] by metis

lemma stale_MergeUpUpdate:
  assumes "tables_wf s" and "\<not> stale m (members s)"
  shows "\<not> stale m (members (MergeUpUpdate m inc s))"
  using assms by (auto simp: MergeUpUpdate_def tables_wf_def stale_mput split: option.splits)

lemma MergeUpUpdate_known:
  assumes "tables_wf s"
  shows "IfBelongsToMembers m (MergeUpUpdate m inc s)"
    and "inc \<le> GetMemberLocalIncarnation m (MergeUpUpdate m inc s)"
  using MergeUpUpdate_members [OF assms, of m m inc]
  by (auto simp: IfBelongsToMembers_def GetMemberLocalIncarnation_def newer_def split: option.splits)

lemma belongs_cong:
  "members s = members r \<Longrightarrow> IfBelongsToMembers m s = IfBelongsToMembers m r"
  "suspects s = suspects r \<Longrightarrow> IfBelongsToSuspects m s = IfBelongsToSuspects m r"
  "members s = members r \<Longrightarrow> GetMemberLocalIncarnation m s = GetMemberLocalIncarnation m r"
  "suspects s = suspects r \<Longrightarrow> GetSuspectLocalIncarnation m s = GetSuspectLocalIncarnation m r"
  by (simp_all add: IfBelongsToMembers_def IfBelongsToSuspects_def GetMemberLocalIncarnation_def
      GetSuspectLocalIncarnation_def)

lemma HandleUp_again:
  assumes "tables_wf s" and "HandleUp p u s = (s', None)"
  shows "HandleUp p u s' = (s', None)"
proof -
  let ?m = "update_GetMember u" and ?inc = "GetIncarnation u"
  let ?s1 = "EraseExpiredMember ?m s"
  let ?old = "IfBelongsToSuspects ?m ?s1 \<and> GetSuspectLocalIncarnation ?m ?s1 \<ge> ?inc \<or>
      IfBelongsToMembers ?m ?s1 \<and> GetMemberLocalIncarnation ?m ?s1 \<ge> ?inc"
  note ns = EraseExpiredMember_not_stale [OF assms(1), of ?m]
  show ?thesis
  proof (cases "member_eq ?m (self_member s)")
    case True
    then show ?thesis using assms(2) by (simp add: HandleUp_def Let_def)
  next
    case other: False
    show ?thesis
    proof (cases ?old)
      case True
      then have "s' = ?s1" using assms(2) other by (auto simp: HandleUp_def Let_def split: if_splits)
      then show ?thesis using True other
        by (auto simp: HandleUp_def Let_def EraseExpiredMember_fresh [OF ns]
            EraseExpiredMember_tables(4) [OF assms(1)])
    next
      case False
      then have "then_do (SendGossip p) (pure_act (MergeUpUpdate ?m ?inc)) ?s1 = (s', None)"
        using assms(2) other by (auto simp: HandleUp_def Let_def split: if_splits)
      then obtain r where r: "s' = MergeUpUpdate ?m ?inc r" "members r = members ?s1"
        "suspects r = suspects ?s1" "actor_systems r = actor_systems ?s1"
        "self_member r = self_member ?s1" by (rule gossip_thenD)
      have wf: "tables_wf r"
        using r tables.keep_EraseExpiredMember [OF assms(1), of ?m] by (simp add: tables_wf_def)
      have "\<not> stale ?m (members s')" "\<not> stale ?m (suspects s')"
        using stale_MergeUpUpdate [OF wf, of ?m ?inc] ns r by simp_all
      then have "EraseExpiredMember ?m s' = s'" by (rule EraseExpiredMember_fresh)
      then show ?thesis
        using MergeUpUpdate_known(1) [OF wf, of ?m ?inc] MergeUpUpdate_known(2) [OF wf, of ?inc ?m] r(1) by (simp add: HandleUp_def Let_def)
    qed
  qed
qed

lemma HandleDown_again:
  assumes "tables_wf s" and "HandleDown p u s = (s', None)"
    and "\<not> member_eq (update_GetMember u) (self_member s)"
  shows "HandleDown p u s' = (s', None)"
proof (cases "IfBelongsToMembers (update_GetMember u) s \<or> IfBelongsToSuspects (update_GetMember u) s")
  case True
  let ?m = "update_GetMember u"
  from True have "then_do (SendGossip p) (pure_act (MergeDownUpdate ?m (GetIncarnation u))) s = (s', None)"
    using assms(2) by (auto simp: HandleDown_def Let_def split: if_splits)
  then obtain r where r: "s' = MergeDownUpdate ?m (GetIncarnation u) r" "members r = members s"
    "suspects r = suspects s" "actor_systems r = actor_systems s" "self_member r = self_member s"
    by (rule gossip_thenD)
  have "tables_wf r" using assms(1) r by (simp add: tables_wf_def)
  then show ?thesis using r MergeDownUpdate_tables [of r ?m] assms(3)
    by (simp add: HandleDown_def Let_def IfBelongsToMembers_def IfBelongsToSuspects_def)
qed (use assms in \<open>auto simp: HandleDown_def Let_def\<close>)

lemma HandleSuspect_again:
  assumes "tables_wf s" and "HandleSuspect W u s = (s', None)"
  shows "HandleSuspect W u s' = (s', None)"
proof -
  let ?m = "update_GetMember u" and ?inc = "GetIncarnation u"
  consider (known) "IfBelongsToSuspects ?m s"
    | (new) "\<not> IfBelongsToSuspects ?m s" "IfBelongsToMembers ?m s" "?inc \<ge> GetMemberLocalIncarnation ?m s"
    | (none) "\<not> IfBelongsToSuspects ?m s" "\<not> (IfBelongsToMembers ?m s \<and> ?inc \<ge> GetMemberLocalIncarnation ?m s)"
    by blast
  then show ?thesis
  proof cases
    case known
    have "mwf (suspects s)" using assms(1) by (rule tables_wfD)
    then show ?thesis using known assms(2)
      by (auto simp: HandleSuspect_def Let_def IfBelongsToSuspects_def GetSuspectLocalIncarnation_def
          AddOrUpdateSuspect_def table_simps split: if_splits)
  next
    case new
    then have s: "Suspect W ?m ?inc s = (s', None)" using assms(2) by (simp add: HandleSuspect_def Let_def)
    have "IfBelongsToSuspects ?m s'" "GetSuspectLocalIncarnation ?m s' = ?inc"
      using Suspect_member(2) [OF s assms(1) new(2)]
      by (simp_all add: IfBelongsToSuspects_def GetSuspectLocalIncarnation_def)
    then show ?thesis by (simp add: HandleSuspect_def Let_def)
  next
    case none
    then show ?thesis using assms(2) by (auto simp: HandleSuspect_def Let_def)
  qed
qed

lemma HandleRecovery_again:
  assumes "tables_wf s" and "HandleRecovery W u s = (s', None)"
  shows "HandleRecovery W u s' = (s', None)"
proof (cases "IfBelongsToSuspects (update_GetMember u) s \<and>
    \<not> GetIncarnation u < GetSuspectLocalIncarnation (update_GetMember u) s")
  case True
  then have "RecoverySuspect W (update_GetMember u) s = (s', None)"
    using assms(2) by (simp add: HandleRecovery_def Let_def)
  from RecoverySuspect_tables(2) [OF this assms(1)] show ?thesis
    by (simp add: HandleRecovery_def Let_def IfBelongsToSuspects_def)
qed (use assms in \<open>auto simp: HandleRecovery_def Let_def split: if_splits\<close>)

text \<open>The two messages about actor systems differ only in the flag they set.\<close>

definition merge_actor :: "bool \<Rightarrow> member \<Rightarrow> u32 \<Rightarrow> membership \<Rightarrow> membership" where
  "merge_actor up = (if up then MergeActorSystemUp else MergeActorSystemDown)"

lemma merge_actor_eq:
  "merge_actor up m inc s =
    (if IfBelongsToMembers m s \<and> GetMemberLocalIncarnation m s \<ge> inc then s
     else Notify (s\<lparr>members := mput m inc (members s), actor_systems := mput m up (actor_systems s)\<rparr>))"
  by (auto simp: merge_actor_def MergeActorSystemUp_def MergeActorSystemDown_def
      IfBelongsToMembers_def GetMemberLocalIncarnation_def split: option.splits)

lemma merge_actor_tables:
  assumes "tables_wf s" and "\<not> (IfBelongsToMembers m s \<and> GetMemberLocalIncarnation m s \<ge> inc)"
  shows "mfind k (members (merge_actor up m inc s)) =
      (if mkey k = mkey m then Some inc else mfind k (members s))"
    and "mfind k (actor_systems (merge_actor up m inc s)) =
      (if mkey k = mkey m then Some up else mfind k (actor_systems s))"
    and "suspects (merge_actor up m inc s) = suspects s"
  using assms(2) tables_wfD [OF assms(1)] by (auto simp add: merge_actor_eq table_simps)

definition handle_actor :: "bool \<Rightarrow> payload \<Rightarrow> member_update \<Rightarrow> membership act" where
  "handle_actor up = (if up then HandleActorSystemUp else HandleActorSystemDown)"

lemma handle_actor_eq:
  "handle_actor up p u s =
    (let m = update_GetMember u; inc = GetIncarnation u in
     if IfBelongsToMembers m s \<and> GetMemberLocalIncarnation m s < inc
     then then_do (SendGossip p) (pure_act (merge_actor up m inc)) s
     else (s, None))"
  by (auto simp: handle_actor_def HandleActorSystemUp_def HandleActorSystemDown_def merge_actor_def Let_def)

lemma handle_actor_again:
  assumes "tables_wf s" and "handle_actor up p u s = (s', None)"
  shows "handle_actor up p u s' = (s', None)"
proof -
  let ?m = "update_GetMember u" and ?inc = "GetIncarnation u"
  show ?thesis
  proof (cases "IfBelongsToMembers ?m s \<and> GetMemberLocalIncarnation ?m s < ?inc")
    case True
    then have "then_do (SendGossip p) (pure_act (merge_actor up ?m ?inc)) s = (s', None)"
      using assms(2) by (simp add: handle_actor_eq Let_def)
    then obtain r where r: "s' = merge_actor up ?m ?inc r" "members r = members s"
      "suspects r = suspects s" "actor_systems r = actor_systems s" "self_member r = self_member s"
      by (rule gossip_thenD)
    have wf: "tables_wf r" using assms(1) r by (simp add: tables_wf_def)
    have "\<not> (IfBelongsToMembers ?m r \<and> GetMemberLocalIncarnation ?m r \<ge> ?inc)"
      using True r(2) by (auto simp: belongs_cong [of r s])
    from merge_actor_tables(1) [OF wf this, of ?m up] have "GetMemberLocalIncarnation ?m s' = ?inc"
      by (simp add: r(1) GetMemberLocalIncarnation_def)
    then show ?thesis by (simp add: handle_actor_eq Let_def)
  qed (use assms in \<open>auto simp: handle_actor_eq Let_def\<close>)
qed

lemma HandleGossip_dispatch:
  "HandleGossip W a p s =
    (let u = par_update W p in
     if \<not> update_IsInitialized u then (s, None)
     else case pb_status (u_status u) of
       UP \<Rightarrow> HandleUp p u s | DOWN \<Rightarrow> HandleDown p u s
     | SUSPECT \<Rightarrow> HandleSuspect W u s | RECOVERY \<Rightarrow> HandleRecovery W u s
     | ACTOR_SYSTEM_DOWN \<Rightarrow> handle_actor False p u s
     | ACTOR_SYSTEM_UP \<Rightarrow> handle_actor True p u s)"
  by (auto simp: HandleGossip_def Let_def update_tests handle_actor_def split: member_status.splits)

lemma HandleGossip_again:
  assumes "tables_wf s" and "HandleGossip W a p s = (s', None)"
    and "\<not> member_eq (update_GetMember (par_update W p)) (self_member s)"
  shows "HandleGossip W b p s' = (s', None)"
  using assms HandleUp_again HandleDown_again HandleSuspect_again HandleRecovery_again handle_actor_again
  by (auto simp: HandleGossip_dispatch Let_def split: member_status.splits if_splits)

section \<open>Relayed pings\<close>

text \<open>
  A relayed ping that fails excludes the relay it used and picks another one. \<open>candidates\<close>
  counts the members left to try.
\<close>

definition candidates :: "member_set \<Rightarrow> membership \<Rightarrow> member list" where
  "candidates excluded s = filter (\<lambda>m. mfind m excluded = None) (map fst (members s))"

lemma last_relay_eq:
  "last_relay excluded ms r =
     (case rev (filter (\<lambda>m. mfind m excluded = None) ms) of [] \<Rightarrow> r | m # _ \<Rightarrow> (True, m))"
  by (induction excluded ms r rule: last_relay.induct) (auto split: list.splits)

lemma GetRelayMember_eq:
  "GetRelayMember excluded s =
     (if length (members s) \<le> 2 \<or> candidates excluded s = [] then (False, empty_member)
      else (True, last (candidates excluded s)))"
  by (cases "candidates excluded s" rule: rev_cases)
    (auto simp: GetRelayMember_def last_relay_eq candidates_def [symmetric])

lemma candidates_exclude:
  assumes "mwf excluded" and "candidates excluded s \<noteq> []"
  shows "length (candidates (mput (last (candidates excluded s)) () excluded) s)
       < length (candidates excluded s)"
proof -
  let ?c = "candidates excluded s" and ?r = "last (candidates excluded s)"
  have "candidates (mput ?r () excluded) s = filter (\<lambda>m. mkey m \<noteq> mkey ?r) ?c"
    using assms(1) by (auto simp: candidates_def table_simps intro!: filter_cong)
  moreover have "?r \<in> set ?c" using assms(2) by simp
  ultimately show ?thesis using length_filter_less [of ?r ?c "\<lambda>m. mkey m \<noteq> mkey ?r"] by simp
qed

text \<open>A round that finds no relay suspects the target; one that finds a relay asks it.\<close>

lemma RelayPing_exhausted:
  "fst (GetRelayMember excluded s) = False \<Longrightarrow>
   RelayPing W t excluded s = Suspect W t (GetMemberLocalIncarnation t s) s"
  by (cases "GetRelayMember excluded s") (simp add: RelayPing_def)

lemma RelayPing_asks:
  assumes "GetRelayMember excluded s = (True, r)" and "has_transport s"
  shows "RelayPing W t excluded s = (emit (SendPull (member_address r)
      (ser_request W (InitAsPingRelayType (self_member s) t empty_request))
      (RelayReply t r excluded)) s, None)"
  using assms by (simp add: RelayPing_def)

end
