(* ===== verification/Node_Behaviour.thy ===== *)
theory Node_Behaviour
  imports Gossip_Handling
begin

text \<open>
  The behaviour of whole handlers, composed from the laws of the tables: what a gossip
  message, a failed ping, a pull from a seed or a leave does to a node, and executions in
  which the protocol goes wrong.
\<close>

section \<open>Handlers that succeed\<close>

lemma SendGossip_ok:
  "GetRetransmitLimit s = Inr n \<Longrightarrow> gossip_queue s = Some q \<Longrightarrow>
   SendGossip p s = (s\<lparr>gossip_queue := Some (Push (Disseminate p) n q)\<rparr>, None)"
  by (simp add: SendGossip_def)

lemma HandleGossip_Up:
  assumes "tables_wf s" and "IsUpMessage (par_update W p)"
    and "m = update_GetMember (par_update W p)" and "inc = GetIncarnation (par_update W p)"
    and "\<not> member_eq m (self_member s)" and "\<not> stale m (members s)" and "\<not> stale m (suspects s)"
    and "IfBelongsToMembers m s \<longrightarrow> GetMemberLocalIncarnation m s < inc"
    and "IfBelongsToSuspects m s \<longrightarrow> GetSuspectLocalIncarnation m s < inc"
    and "GetRetransmitLimit s = Inr n" and "gossip_queue s = Some q"
  shows "\<exists>s'. HandleGossip W a p s = (s', None)
    \<and> (\<forall>k. mfind k (members s') = (if mkey k = mkey m then Some inc else mfind k (members s)))
    \<and> suspects s' = suspects s \<and> actor_systems s' = actor_systems s
    \<and> gossip_queue s' = Some (Push (Disseminate p) n q)"
proof -
  let ?r = "s\<lparr>gossip_queue := Some (Push (Disseminate p) n q)\<rparr>"
  have wf: "tables_wf ?r" using assms(1) by (simp add: tables_wf_def)
  have "HandleUp p (par_update W p) s = (MergeUpUpdate m inc ?r, None)"
    using assms(3-9) by (auto simp: HandleUp_def Let_def EraseExpiredMember_fresh then_do_def
        SendGossip_ok [OF assms(10,11)])
  moreover have "newer (mfind m (members s)) inc = inc"
    using assms(8) by (auto simp: newer_def IfBelongsToMembers_def GetMemberLocalIncarnation_def max_def
        split: option.splits)
  ultimately show ?thesis
    using assms(2) MergeUpUpdate_members [OF wf, of _ m inc]
    by (simp add: HandleGossip_def Let_def)
qed

lemma HandleGossip_Down:
  assumes "tables_wf s" and "IsDownMessage (par_update W p)"
    and "m = update_GetMember (par_update W p)" and "\<not> member_eq m (self_member s)"
    and "IfBelongsToMembers m s \<or> IfBelongsToSuspects m s"
    and "GetRetransmitLimit s = Inr n" and "gossip_queue s = Some q"
  shows "\<exists>s'. HandleGossip W a p s = (s', None)
    \<and> (\<forall>k. mfind k (members s') = (if mkey k = mkey m then None else mfind k (members s)))
    \<and> (\<forall>k. mfind k (suspects s') = (if mkey k = mkey m then None else mfind k (suspects s)))
    \<and> mfind m (actor_systems s') = Some False
    \<and> gossip_queue s' = Some (Push (Disseminate p) n q)"
proof -
  let ?u = "par_update W p"
  let ?r = "s\<lparr>gossip_queue := Some (Push (Disseminate p) n q)\<rparr>"
  have wf: "tables_wf ?r" using assms(1) by (simp add: tables_wf_def)
  have nself: "\<not> member_eq m (self_member ?r)" using assms(4) by simp
  have "\<not> IsUpMessage ?u" using assms(2) by (simp add: update_tests)
  moreover have "HandleDown p ?u s = (MergeDownUpdate m (GetIncarnation ?u) ?r, None)"
    using assms(3,5) by (auto simp: HandleDown_def Let_def then_do_def SendGossip_ok [OF assms(6,7)])
  moreover have "gossip_queue (MergeDownUpdate m (GetIncarnation ?u) ?r) = gossip_queue ?r"
    by (simp add: MergeDownUpdate_def Let_def)
  ultimately show ?thesis
    using assms(2) MergeDownUpdate_tables [OF wf nself]
    by (simp add: HandleGossip_def Let_def)
qed

text \<open>No message that says a member is down ever removes the node itself.\<close>

lemma HandleDown_self:
  assumes "HandleDown p u s = (s', None)" and "member_eq (update_GetMember u) (self_member s)"
  shows "members s' = members s \<and> suspects s' = suspects s"
proof (cases "IfBelongsToMembers (update_GetMember u) s \<or> IfBelongsToSuspects (update_GetMember u) s")
  case True
  then have "then_do (SendGossip p) (pure_act (MergeDownUpdate (update_GetMember u) (GetIncarnation u))) s = (s', None)"
    using assms(1) by (auto simp: HandleDown_def Let_def split: if_splits)
  then obtain r where "s' = MergeDownUpdate (update_GetMember u) (GetIncarnation u) r"
    "members r = members s" "suspects r = suspects s" "self_member r = self_member s"
    by (rule gossip_thenD)
  then show ?thesis using assms(2) by simp
qed (use assms in \<open>auto simp: HandleDown_def Let_def\<close>)

lemma did_pull_failed:
  assumes "did_pull W pick (PingReply t) (c, d) s = (s', None)" and "c \<noteq> kOK" and "tables_wf s"
    and "mfind t (members s) = Some i" and "\<not> is_relay_ping_enabled s"
  shows "mfind t (members s') = None" and "mfind t (suspects s') = Some i"
    and "mfind t (actor_systems s') = Some False"
proof -
  have b: "IfBelongsToMembers t s" using assms(4) by (simp add: IfBelongsToMembers_def)
  have "Suspect W t i s = (s', None)"
    using assms b by (simp add: GetMemberLocalIncarnation_def)
  from Suspect_member [OF this assms(3) b]
  show "mfind t (members s') = None" and "mfind t (suspects s') = Some i"
    and "mfind t (actor_systems s') = Some False" by simp_all
qed

text \<open>A suspicion taken back leaves the member with the incarnation it had.\<close>

lemma Suspect_Recovery:
  assumes "Suspect W m i s = (s1, None)" and "RecoverySuspect W m s1 = (s2, None)" and "tables_wf s"
    and "mfind m (members s) = Some i" and "mfind m (suspects s) = None"
  shows "mfind k (members s2) = mfind k (members s)" and "mfind k (suspects s2) = mfind k (suspects s)"
    and "mfind m (actor_systems s2) = Some False"
proof -
  have b: "IfBelongsToMembers m s" using assms(4) by (simp add: IfBelongsToMembers_def)
  note s1 = Suspect_member [OF assms(1,3) b]
  have wf1: "tables_wf s1"
    using preservesD [OF tables.keep_Suspect [of W m i] assms(3)] assms(1) by simp
  note s2 = RecoverySuspect_tables [OF assms(2) wf1]
  have "GetSuspectLocalIncarnation m s1 = i" by (simp add: GetSuspectLocalIncarnation_def s1(2))
  then show "mfind k (members s2) = mfind k (members s)"
    using s2(1) [of k] s1(1) [of k] assms(4) mfind_cong [of k m "members s"] by auto
  show "mfind k (suspects s2) = mfind k (suspects s)"
    using s2(2) [of k] s1(2) [of k] assms(5) mfind_cong [of k m "suspects s"] by auto
  show "mfind m (actor_systems s2) = Some False" by (simp add: s2(3) s1(3))
qed

section \<open>When gossip can be sent\<close>

text \<open>The digits of the retransmission limit are the least sufficient ones.\<close>

lemma ceil_log10_le: "ceil_log10 n \<le> k \<longleftrightarrow> n \<le> 10 ^ k"
proof (induction n arbitrary: k rule: ceil_log10.induct)
  case (1 n)
  show ?case
  proof (cases "n \<le> 1")
    case True
    have "(1 :: nat) \<le> 10 ^ k" by simp
    then have "n \<le> 10 ^ k" using True by linarith
    then show ?thesis using True by (simp add: ceil_log10.simps [of n])
  next
    case False
    show ?thesis
    proof (cases k)
      case (Suc j)
      have "(n + 9) div 10 \<le> 10 ^ j \<longleftrightarrow> n \<le> 10 * 10 ^ j" by linarith
      then show ?thesis using False "1.IH" [of j] Suc by (simp add: ceil_log10.simps [of n])
    qed (use False in \<open>simp add: ceil_log10.simps [of n]\<close>)
  qed
qed

lemma ceil_log10_mono: "m \<le> n \<Longrightarrow> ceil_log10 m \<le> ceil_log10 n"
  by (meson ceil_log10_le le_trans order_refl)

text \<open>The multiplier is in range for the members there are and one more.\<close>

definition limits_ok :: "membership \<Rightarrow> bool" where
  "limits_ok s \<longleftrightarrow> 0 \<le> retransmit_multiplier s \<and>
     retransmit_multiplier s * int (ceil_log10 (Suc (length (members s)))) < 2 ^ 31"

lemma limit_defined:
  assumes "limits_ok s" and "members r \<noteq> []" and "length (members r) \<le> Suc (length (members s))"
    and "retransmit_multiplier r = retransmit_multiplier s"
  shows "GetRetransmitLimit r = Inr (retransmit_multiplier s * int (ceil_log10 (length (members r))))"
proof -
  let ?k = "int (ceil_log10 (length (members r)))"
  have "?k \<le> int (ceil_log10 (Suc (length (members s))))" using ceil_log10_mono [OF assms(3)] by simp
  then have "retransmit_multiplier s * ?k \<le>
      retransmit_multiplier s * int (ceil_log10 (Suc (length (members s))))"
    using assms(1) by (intro mult_left_mono) (auto simp: limits_ok_def)
  then have "\<not> 2 ^ 31 \<le> retransmit_multiplier s * ?k" using assms(1) by (simp add: limits_ok_def)
  moreover have "0 \<le> retransmit_multiplier s * ?k" using assms(1) by (simp add: limits_ok_def)
  then have "\<not> retransmit_multiplier s * ?k < - (2 ^ 31)" by simp
  ultimately show ?thesis
    unfolding GetRetransmitLimit_def Let_def assms(4) using assms(2) by (simp only: if_False length_0_conv simp_thms)
qed

lemma length_merase: "mfind m t \<noteq> None \<Longrightarrow> length (merase m t) = length t - 1"
proof (induction t)
  case (Cons e t)
  then show ?case by (cases e; cases t) (auto simp: mfind_Cons mfind_Nil split: if_splits)
qed simp

lemma length_mput: "length (mput m v t) \<le> Suc (length t)" "mput m v t \<noteq> []"
proof -
  show "length (mput m v t) \<le> Suc (length t)"
  proof (induction t)
    case (Cons e t)
    then show ?case by (cases e) auto
  qed simp
  show "mput m v t \<noteq> []" by (cases t) (auto split: prod.splits if_splits)
qed

lemma Suspect_runs:
  assumes "mfind m (members s) = Some i" and "2 \<le> length (members s)" and "limits_ok s"
    and "gossip_queue s = Some q" and "length (ser_update W (InitAsSuspectMessage m inc)) \<le> kMaxPayloadSize"
  shows "\<exists>s' n. Suspect W m inc s = (s', None) \<and> GetRetransmitLimit s' = Inr n
    \<and> gossip_queue s' = Some (Push (Disseminate (ser_update W (InitAsSuspectMessage m inc))) n q)
    \<and> length (members s') = length (members s) - 1
    \<and> effects s' = effects s @ map SubscriberUpdate (subscribers s)
    \<and> retransmit_multiplier s' = retransmit_multiplier s \<and> is_relay_ping_enabled s' = is_relay_ping_enabled s"
proof -
  let ?p = "ser_update W (InitAsSuspectMessage m inc)"
  let ?s1 = "(AddOrUpdateSuspect m inc s)
      \<lparr>members := merase m (members s), actor_systems := mput m False (actor_systems s)\<rparr>"
  have len: "length (merase m (members s)) = length (members s) - 1"
    using assms(1) by (simp add: length_merase)
  have "merase m (members s) \<noteq> []" using len assms(2) by auto
  then obtain n where n: "GetRetransmitLimit ?s1 = Inr n"
    using limit_defined [OF assms(3), of ?s1] len by (auto simp: AddOrUpdateSuspect_def)
  let ?r = "?s1\<lparr>gossip_queue := Some (Push (Disseminate ?p) n q)\<rparr>"
  have g: "SendGossip ?p ?s1 = (?r, None)"
    by (rule SendGossip_ok [OF n]) (simp add: AddOrUpdateSuspect_def assms(4))
  have "Suspect W m inc s = (Notify ?r, None)"
    using assms(1,5) g
    by (simp add: Suspect_def Let_def IfBelongsToMembers_def with_payload_def mk_payload_small then_do_def
        AddOrUpdateSuspect_def)
  moreover have "GetRetransmitLimit (Notify ?r) = GetRetransmitLimit ?s1"
    by (simp add: GetRetransmitLimit_def Notify_def)
  ultimately show ?thesis using n len by (simp add: Notify_def AddOrUpdateSuspect_def)
qed

lemma RecoverySuspect_runs:
  assumes "limits_ok s" and "gossip_queue s = Some q" and "mfind m (suspects s) = Some i"
    and "length (ser_update W (InitAsRecoveryMessage m i)) \<le> kMaxPayloadSize"
  shows "\<exists>s'. RecoverySuspect W m s = (s', None)"
proof -
  obtain inc t where mi: "map_index mkey 0 m (suspects s) = (inc, t)" by fastforce
  have inc: "inc = i" using map_index_fst [of mkey 0 m "suspects s"] mi assms(3) by simp
  let ?s1 = "s\<lparr>members := mput m i (members s), suspects := merase m t\<rparr>"
  obtain n where n: "GetRetransmitLimit ?s1 = Inr n"
    using limit_defined [OF assms(1), of ?s1] length_mput [of m i "members s"] by auto
  have "SendGossip (ser_update W (InitAsRecoveryMessage m i)) ?s1 =
      (?s1\<lparr>gossip_queue := Some (Push (Disseminate (ser_update W (InitAsRecoveryMessage m i))) n q)\<rparr>, None)"
    by (rule SendGossip_ok [OF n]) (simp add: assms(2))
  then show ?thesis
    using assms(4) by (simp add: RecoverySuspect_def mi inc with_payload_def mk_payload_small then_do_def)
qed

section \<open>Relayed pings\<close>

text \<open>
  A pull whose callback is \<open>c\<close> fails, and so does every pull the callbacks start in turn,
  with no other event in between; None means that the fuel was not enough.
\<close>

fun failing_pulls :: "wire \<Rightarrow> nat \<Rightarrow> pull_cont \<Rightarrow> membership \<Rightarrow> (membership \<times> cpp_exn option) option" where
  "failing_pulls W 0 c s = None"
| "failing_pulls W (Suc n) c s =
     (case did_pull W 0 c (kUnknown, []) s of
        (s', Some e) \<Rightarrow> Some (s', Some e)
      | (s', None) \<Rightarrow>
          (case drop (length (effects s)) (effects s') of
             [SendPull a d c'] \<Rightarrow> failing_pulls W n c' s'
           | _ \<Rightarrow> Some (s', None)))"

lemma candidates_le: "length (candidates excluded s) \<le> length (members s)"
  unfolding candidates_def by (metis length_filter_le length_map)

lemma emit_fields [simp]:
  "members (emit e s) = members s" "suspects (emit e s) = suspects s"
  "actor_systems (emit e s) = actor_systems s" "self_member (emit e s) = self_member s"
  "gossip_queue (emit e s) = gossip_queue s" "has_transport (emit e s) = has_transport s"
  "retransmit_multiplier (emit e s) = retransmit_multiplier s" "effects (emit e s) = effects s @ [e]"
  "is_relay_ping_enabled (emit e s) = is_relay_ping_enabled s"
  by (simp_all add: emit_def)

text \<open>What a ping needs to end in a suspicion: the target is a member and gossip can be sent.\<close>

definition suspectable :: "wire \<Rightarrow> member \<Rightarrow> u32 \<Rightarrow> membership \<Rightarrow> bool" where
  "suspectable W t i s \<longleftrightarrow> tables_wf s \<and> mfind t (members s) = Some i \<and> 2 \<le> length (members s)
     \<and> limits_ok s \<and> gossip_queue s \<noteq> None \<and> has_transport s
     \<and> length (ser_update W (InitAsSuspectMessage t i)) \<le> kMaxPayloadSize"

lemma suspectable_emit [simp]: "suspectable W t i (emit e s) = suspectable W t i s"
  by (simp add: suspectable_def tables_wf_def limits_ok_def)

lemma suspectable_Suspect:
  assumes "suspectable W t i s"
  obtains s' where "Suspect W t i s = (s', None)" and "mfind t (members s') = None"
    and "mfind t (suspects s') = Some i" and "mfind t (actor_systems s') = Some False"
    and "effects s' = effects s @ map SubscriberUpdate (subscribers s)"
proof -
  obtain q where q: "gossip_queue s = Some q" using assms by (auto simp: suspectable_def)
  have b: "IfBelongsToMembers t s" using assms by (simp add: suspectable_def IfBelongsToMembers_def)
  have wf: "tables_wf s" using assms by (simp add: suspectable_def)
  obtain s' where s': "Suspect W t i s = (s', None)"
    "effects s' = effects s @ map SubscriberUpdate (subscribers s)"
    using Suspect_runs [of t s i q W i] assms q by (auto simp: suspectable_def)
  show thesis using that [of s'] s' Suspect_member(1-3) [OF s'(1) wf b, of t] by simp
qed

lemma failing_pulls_exhausted:
  assumes "did_pull W 0 c (kUnknown, []) s = RelayPing W t excluded s"
    and "fst (GetRelayMember excluded s) = False" and "suspectable W t i s"
  shows "\<exists>s'. failing_pulls W (Suc n) c s = Some (s', None)
    \<and> mfind t (members s') = None \<and> mfind t (suspects s') = Some i"
proof -
  have "GetMemberLocalIncarnation t s = i"
    using assms(3) by (simp add: suspectable_def GetMemberLocalIncarnation_def)
  moreover obtain s' where "Suspect W t i s = (s', None)" "mfind t (members s') = None"
    "mfind t (suspects s') = Some i" "effects s' = effects s @ map SubscriberUpdate (subscribers s)"
    using suspectable_Suspect [OF assms(3)] by metis
  ultimately show ?thesis
    using assms(1) RelayPing_exhausted [OF assms(2), of W t] by (cases "subscribers s") auto
qed

lemma failing_relays_suspect:
  assumes "did_pull W 0 c (kUnknown, []) s = RelayPing W t excluded s"
    and "mwf excluded" and "length (candidates excluded s) \<le> n" and "suspectable W t i s"
  shows "\<exists>s'. failing_pulls W (Suc n) c s = Some (s', None)
    \<and> mfind t (members s') = None \<and> mfind t (suspects s') = Some i"
  using assms
proof (induction n arbitrary: c excluded s)
  case (0 c excluded s)
  have "fst (GetRelayMember excluded s) = False" using 0(3) by (simp add: GetRelayMember_eq)
  then show ?case by (rule failing_pulls_exhausted [OF 0(1) _ 0(4)])
next
  case (Suc n c excluded s)
  show ?case
  proof (cases "length (members s) \<le> 2 \<or> candidates excluded s = []")
    case True
    then have "fst (GetRelayMember excluded s) = False" by (auto simp: GetRelayMember_eq)
    then show ?thesis by (rule failing_pulls_exhausted [OF Suc.prems(1) _ Suc.prems(4)])
  next
    case False
    let ?r = "last (candidates excluded s)"
    let ?e = "SendPull (member_address ?r)
      (ser_request W (InitAsPingRelayType (self_member s) t empty_request)) (RelayReply t ?r excluded)"
    have asks: "RelayPing W t excluded s = (emit ?e s, None)"
      by (rule RelayPing_asks) (use False Suc.prems(4) in \<open>simp_all add: GetRelayMember_eq suspectable_def\<close>)
    have "candidates (mput ?r () excluded) (emit ?e s) = candidates (mput ?r () excluded) s"
      by (simp add: candidates_def)
    then have "\<exists>s'. failing_pulls W (Suc n) (RelayReply t ?r excluded) (emit ?e s) = Some (s', None)
        \<and> mfind t (members s') = None \<and> mfind t (suspects s') = Some i"
      using Suc.prems False candidates_exclude [of excluded s]
      by (intro Suc.IH [where excluded = "mput ?r () excluded"])
        (simp_all add: map_wf_put del: failing_pulls.simps)
    then show ?thesis using Suc.prems(1) asks by (simp del: did_pull.simps)
  qed
qed

section \<open>Joining through a seed\<close>

lemma with_payloadD:
  assumes "with_payload b k s = (s', None)"
  shows "length b \<le> kMaxPayloadSize" and "k b s = (s', None)"
  using assms by (auto simp: with_payload_def mk_payload_def split: if_splits)

lemma SendSelf_frame:
  assumes "SendSelfActorSystemUpGossip W s = (s', x)"
  shows "members s' = members s" and "suspects s' = suspects s" and "actor_systems s' = actor_systems s"
proof -
  let ?p = "ser_update W (InitAsActorSystemUpMessage (self_member s) (incarnation s + 1))"
  have "s' = IncreaseIncarnation s \<or> s' = fst (SendGossip ?p (IncreaseIncarnation s))"
    using assms
    by (auto simp: SendSelfActorSystemUpGossip_def Let_def with_payload_def mk_payload_def split: if_splits)
  then show "members s' = members s" and "suspects s' = suspects s" and "actor_systems s' = actor_systems s"
    by auto
qed

lemma SendGossip_tables:
  "SendGossip p s = (r, x) \<Longrightarrow> members r = members s \<and> suspects r = suspects s \<and>
     actor_systems r = actor_systems s"
  using SendGossip_frame(1-3) [of p s] by simp

lemma HandleDidPull_tables:
  assumes "HandleDidPull W (kOK, bytes) s = (s', None)" and "full_IsSuccess (par_full W bytes)"
  shows "members s' = members (UpdateActorSystemStatus (full_GetMembersWithStatus (par_full W bytes)) s)"
    and "actor_systems s' = actor_systems (UpdateActorSystemStatus (full_GetMembersWithStatus (par_full W bytes)) s)"
proof -
  let ?u = "UpdateActorSystemStatus (full_GetMembersWithStatus (par_full W bytes)) s"
  let ?s = "IncreaseIncarnation ?u"
  let ?p = "ser_update W (InitAsUpMessage (self_member ?s) (incarnation ?s))"
  let ?up = "\<lambda>s. if is_self_actor_system_up s then SendSelfActorSystemUpGossip W s else (s, None)"
  have "then_do (SendGossip ?p) ?up ?s = (s', None)"
    using with_payloadD(2) [of ?p _ ?s s'] assms by (simp add: HandleDidPull_def Let_def)
  then obtain r where r: "SendGossip ?p ?s = (r, None)" "?up r = (s', None)"
    by (cases "SendGossip ?p ?s") (auto simp: then_do_def split: option.splits)
  have "members r = members ?u" "actor_systems r = actor_systems ?u"
    using SendGossip_tables [OF r(1)] by simp_all
  moreover have "members s' = members r" "actor_systems s' = actor_systems r"
    using r(2) SendSelf_frame [of W r s' None] by (auto split: if_splits)
  ultimately show "members s' = members ?u" and "actor_systems s' = actor_systems ?u" by simp_all
qed

lemma mfind_in:
  assumes "mwf t" and "(k, v) \<in> set t"
  shows "mfind k t = Some v"
proof -
  have "distinct (map fst (map (\<lambda>(k, v). (mkey k, v)) t))"
    using mwf_distinct [OF assms(1)] by (simp add: comp_def case_prod_beta)
  then show ?thesis
    using assms(2) by (force simp: map_find_abs map_abs_def intro!: map_of_is_SomeI)
qed

lemma mfind_Some_in: "mfind k t = Some v \<Longrightarrow> \<exists>k'. (k', v) \<in> set t \<and> mkey k' = mkey k"
  using map_entry_in [of mkey k t] map_entry_key [of mkey k t] by (fastforce simp: map_find_def)

lemma mfind_key: "mfind k t \<noteq> None \<longleftrightarrow> mkey k \<in> mkey ` fst ` set t"
  by (simp only: map_find_abs dom_map_abs [symmetric] domIff)

lemma GetMembersWithStatus_keys:
  "mkey ` ws_member ` set (GetMembersWithStatus s) = mkey ` set (GetMembers s)"
  by (simp add: GetMembersWithStatus_def GetMembers_def image_image)

text \<open>What the peer's answer to a full state pull parses to.\<close>

definition full_state_answer :: "membership \<Rightarrow> full_state" where
  "full_state_answer s = InitAsFullStateMessageWithStatus (GetMembersWithStatus s) empty_full_state"

lemma HandlePull_full:
  "IsFullStateType (par_request W d) \<Longrightarrow> HandlePull W a d s = (s, ser_full W (full_state_answer s))"
  by (simp add: HandlePull_def Let_def full_state_answer_def)

lemma status_lookup:
  assumes "mwf (members s)" and "m \<in> set (GetMembers s)"
  shows "map_of (rev (map (\<lambda>w. (mkey (ws_member w), ws_status w = ACTOR_SYSTEM_UP))
      (full_GetMembersWithStatus (full_state_answer s)))) (mkey m) =
    Some (mfind m (actor_systems s) = Some True)"
proof -
  let ?ws = "map (\<lambda>w. (mkey (ws_member w), ws_status w = ACTOR_SYSTEM_UP))
      (full_GetMembersWithStatus (full_state_answer s))"
  have ws: "?ws = map (\<lambda>m. (mkey m, mfind m (actor_systems s) = Some True)) (GetMembers s)"
    by (simp add: full_state_answer_def full_state_roundtrip GetMembersWithStatus_def GetMembers_def)
  have "distinct (map fst (rev ?ws))"
    using mwf_distinct [OF assms(1)] by (simp add: ws rev_map [symmetric] GetMembers_def comp_def)
  then show ?thesis using assms(2) by (intro map_of_is_SomeI) (auto simp: ws)
qed

lemma join_tables:
  assumes "tables_wf peer" and "tables_wf s" and "par_full W bytes = full_state_answer peer"
    and "HandleDidPull W (kOK, bytes) s = (s', None)"
  shows "mfind k (members s') = (if mfind k (members s) = None \<and> mfind k (members peer) \<noteq> None
           then Some 0 else mfind k (members s))"
    and "m \<in> set (GetMembers peer) \<Longrightarrow>
         mfind m (actor_systems s') = Some (mfind m (actor_systems peer) = Some True)"
proof -
  have ok: "full_IsSuccess (par_full W bytes)"
    by (simp add: assms(3) full_state_answer_def full_state_success)
  note t = HandleDidPull_tables [OF assms(4) ok]
  have keys: "mkey ` ws_member ` set (full_GetMembersWithStatus (full_state_answer peer)) =
      mkey ` fst ` set (members peer)"
    using GetMembersWithStatus_keys [of peer]
    by (simp add: full_state_answer_def full_state_roundtrip GetMembers_def image_image)
  show "mfind k (members s') = (if mfind k (members s) = None \<and> mfind k (members peer) \<noteq> None
           then Some 0 else mfind k (members s))"
    by (simp only: t(1) UpdateActorSystemStatus_frame fold_update_status_members [OF assms(2)]
        assms(3) keys mfind_key)
  show "m \<in> set (GetMembers peer) \<Longrightarrow>
      mfind m (actor_systems s') = Some (mfind m (actor_systems peer) = Some True)"
    using assms(1) by (simp add: t(2) fold_update_status_actors [OF assms(2)] assms(3)
        status_lookup tables_wf_def)
qed

text \<open>A member learnt from a full state is stored without a uid.\<close>

lemma keys_mput: "e \<in> set (mput k v t) \<Longrightarrow> fst e = k \<or> fst e \<in> fst ` set t"
proof (induction t)
  case (Cons a t)
  then show ?case by (cases a) (auto split: if_splits)
qed simp

lemma fold_update_status_uid:
  assumes "\<forall>w\<in>set ws. m_uid (ws_member w) = []" and "e \<in> set (members (fold update_status_entry ws s))"
  shows "fst e \<in> fst ` set (members s) \<or> m_uid (fst e) = []"
  using assms
proof (induction ws arbitrary: s)
  case (Cons w ws)
  have "fst e \<in> fst ` set (members (update_status_entry w s)) \<or> m_uid (fst e) = []"
    using Cons by simp
  moreover have "fst ` set (members (update_status_entry w s)) \<subseteq> insert (ws_member w) (fst ` set (members s))"
    by (auto simp: update_status_entry_def Let_def dest: keys_mput)
  ultimately show ?case using Cons.prems(1) by auto
qed auto

lemma join_without_uid:
  assumes "par_full W bytes = full_state_answer peer" and "HandleDidPull W (kOK, bytes) s = (s', None)"
    and "mfind m (members s) = None" and "mentry m (members s') = Some (saved, i)"
  shows "m_uid saved = []"
proof -
  let ?ws = "full_GetMembersWithStatus (full_state_answer peer)"
  have ok: "full_IsSuccess (par_full W bytes)"
    by (simp add: assms(1) full_state_answer_def full_state_success)
  have "members s' = members (fold update_status_entry ?ws s)"
    using HandleDidPull_tables(1) [OF assms(2) ok] by (simp add: assms(1))
  then have "(saved, i) \<in> set (members (fold update_status_entry ?ws s))"
    using map_entry_in [OF assms(4)] by simp
  moreover have "\<forall>w\<in>set ?ws. m_uid (ws_member w) = []"
    unfolding full_state_answer_def full_state_roundtrip by auto
  ultimately have "saved \<in> fst ` set (members s) \<or> m_uid saved = []"
    using fold_update_status_uid [of ?ws "(saved, i)" s] by simp
  moreover have "mkey saved = mkey m" using map_entry_key [OF assms(4)] .
  then have "saved \<notin> fst ` set (members s)" using assms(3) by (metis image_eqI mfind_key)
  ultimately show ?thesis by blast
qed

section \<open>Leaving\<close>

lemma gossip_repeatedly_effects:
  "gossip_repeatedly n addrs p s = s\<lparr>effects := effects s @ replicate n (SendGossipTo addrs p)\<rparr>"
  by (induction n addrs p s rule: gossip_repeatedly.induct) (simp_all add: emit_def)

lemma NotifyLeave_effects:
  assumes "1 < length (members s)" and "has_transport s" and "GetRetransmitLimit s = Inr n"
    and "p = ser_update W (InitAsDownMessage (self_member s) (incarnation s + 1))"
    and "length p \<le> kMaxPayloadSize"
  shows "NotifyLeave W s =
    (s\<lparr>incarnation := incarnation s + 1,
       effects := effects s @ replicate (nat n) (SendGossipTo (GetAllMemberAddress s) p)\<rparr>, None)"
proof -
  have "GetRetransmitLimit (IncreaseIncarnation s) = Inr n"
    using assms(3) by (simp add: GetRetransmitLimit_def IncreaseIncarnation_def)
  moreover have "GetAllMemberAddress (IncreaseIncarnation s) = GetAllMemberAddress s"
    by (simp add: GetAllMemberAddress_def others_def)
  moreover have "has_transport (IncreaseIncarnation s)" using assms(2) by (simp add: IncreaseIncarnation_def)
  ultimately show ?thesis
    using assms(1,4,5)
    by (simp add: NotifyLeave_def Let_def with_payload_def mk_payload_small gossip_repeatedly_effects)
      (simp add: IncreaseIncarnation_def)
qed

section \<open>Executions that go wrong\<close>

text \<open>Up gossip newer than the suspicion makes a member of a suspect and leaves it a suspect.\<close>

lemma up_keeps_suspect:
  assumes "tables_wf s" and "HandleUp p u s = (s', None)" and "m = update_GetMember u"
    and "\<not> member_eq m (self_member s)" and "\<not> stale m (suspects s)"
    and "mfind m (suspects s) = Some i" and "i < GetIncarnation u" and "mfind m (members s) = None"
  shows "mfind m (members s') = Some (GetIncarnation u)" and "mfind m (suspects s') = Some i"
proof -
  have "\<not> stale m (members s)" using assms(8) stale_mfind by blast
  then have e: "EraseExpiredMember m s = s" using assms(5) by (rule EraseExpiredMember_fresh)
  have "then_do (SendGossip p) (pure_act (MergeUpUpdate m (GetIncarnation u))) s = (s', None)"
  proof -
    have b: "GetSuspectLocalIncarnation m s = i" "\<not> IfBelongsToMembers m s"
      using assms(6,8) by (simp_all add: GetSuspectLocalIncarnation_def IfBelongsToMembers_def)
    show ?thesis
      using assms(2,4) assms(7) [unfolded linorder_not_le [symmetric]] b
      by (auto simp: HandleUp_def Let_def assms(3) [symmetric] e simp del: not_le split: if_splits)
  qed
  then obtain r where r: "s' = MergeUpUpdate m (GetIncarnation u) r" "members r = members s"
    "suspects r = suspects s" "actor_systems r = actor_systems s" "self_member r = self_member s"
    by (rule gossip_thenD)
  have "tables_wf r" using assms(1) r by (simp add: tables_wf_def)
  from MergeUpUpdate_members [OF this, of m m "GetIncarnation u"]
  show "mfind m (members s') = Some (GetIncarnation u)" by (simp add: r(1,2) assms(8) newer_def)
  show "mfind m (suspects s') = Some i" by (simp add: r(1,3) assms(6))
qed

text \<open>The comparison of a ping is signed: from 2^31 on a larger incarnation loses.\<close>

lemma signed_join_wraps:
  "signed_join (Some 0) (Some (2 ^ 31)) = Some 0" "newer (Some 0) (2 ^ 31) = 2 ^ 31"
  by (simp_all add: signed_join_def newer_def)

end
