(* ===== verification/Sample_Node.thy ===== *)
theory Sample_Node
  imports Node_Behaviour
begin

text \<open>
  Concrete values on which the properties of the node are instantiated: three members, a
  node that knows the other two, its configuration, and a wire on which one chosen message
  of each type is sent and read back.
\<close>

definition member_a :: member where
  "member_a = Member ''a'' ''10.0.0.1'' 5000 ''host-a'' ''u1'' ''seed''"

definition member_b :: member where
  "member_b = Member ''b'' ''10.0.0.2'' 5000 ''host-b'' ''u2'' []"

definition member_c :: member where
  "member_c = Member ''c'' ''10.0.0.3'' 5000 ''host-c'' ''u3'' []"

definition address_b :: address where
  "address_b = member_address member_b"

definition address_c :: address where
  "address_c = member_address member_c"

definition one_message_wire ::
  "member_update \<Rightarrow> full_state \<Rightarrow> pull_request \<Rightarrow> pull_response \<Rightarrow> wire" where
  "one_message_wire u f r p =
     \<lparr>ser_update = (\<lambda>_. [1]), par_update = (\<lambda>_. u), ser_full = (\<lambda>_. [2]), par_full = (\<lambda>_. f),
      ser_request = (\<lambda>_. [3]), par_request = (\<lambda>_. r), ser_response = (\<lambda>_. [4]), par_response = (\<lambda>_. p)\<rparr>"

abbreviation update_wire :: "member_update \<Rightarrow> wire" where
  "update_wire u \<equiv> one_message_wire u empty_full_state empty_request empty_response"

lemma one_message_wire_simps [simp]:
  "ser_update (one_message_wire u f r p) x = [1]" "par_update (one_message_wire u f r p) b = u"
  "ser_full (one_message_wire u f r p) y = [2]" "par_full (one_message_wire u f r p) b = f"
  "ser_request (one_message_wire u f r p) z = [3]" "par_request (one_message_wire u f r p) b = r"
  "ser_response (one_message_wire u f r p) v = [4]" "par_response (one_message_wire u f r p) b = p"
  by (simp_all add: one_message_wire_def)

definition config_a :: config where
  "config_a = snd (AddOneSeedMember ''b'' ''10.0.0.2'' 5000 (Config\<lparr>c_host := member_a\<rparr>))"

text \<open>Node \<open>a\<close> after it has learnt of the two others.\<close>

definition node_a :: membership where
  "node_a = new_membership\<lparr>members := [(member_a, 0), (member_b, 3), (member_c, 7)],
     self_member := member_a, has_transport := True,
     gossip_queue := Some (TimedFunctorQueue 500)\<rparr>"

lemma node_a_simps [simp]:
  "members node_a = [(member_a, 0), (member_b, 3), (member_c, 7)]" "suspects node_a = []"
  "actor_systems node_a = []" "self_member node_a = member_a" "has_transport node_a"
  "gossip_queue node_a = Some (TimedFunctorQueue 500)" "failure_detector_queue node_a = None"
  "\<not> is_relay_ping_enabled node_a" "incarnation node_a = 0" "retransmit_multiplier node_a = 3"
  "effects node_a = []" "subscribers node_a = []" "\<not> is_self_actor_system_up node_a"
  by (simp_all add: node_a_def new_membership_def)

lemma sample_keys [simp]:
  "mkey member_a = MKey ''10.0.0.1'' 5000" "mkey member_b = MKey ''10.0.0.2'' 5000"
  "mkey member_c = MKey ''10.0.0.3'' 5000"
  by (simp_all add: member_a_def member_b_def member_c_def)

lemma sample_order [simp]:
  "MKey ''10.0.0.1'' 5000 < MKey ''10.0.0.2'' 5000" "MKey ''10.0.0.1'' 5000 < MKey ''10.0.0.3'' 5000"
  "MKey ''10.0.0.2'' 5000 < MKey ''10.0.0.3'' 5000"
  by (simp_all add: less_char_def)

lemma tables_wf_node_a [simp]: "tables_wf node_a"
  by (simp add: tables_wf_def map_wf_def)

lemma limit_node_a [simp]: "GetRetransmitLimit node_a = Inr 3"
  by (simp add: GetRetransmitLimit_def ceil_log10.simps)

lemma sample_different [simp]:
  "\<not> member_eq member_b member_a" "\<not> member_eq member_c member_a" "\<not> member_eq member_b member_c"
  by (simp_all add: member_eq_key)

text \<open>A first state of node \<open>a\<close>, which is reachable on every wire.\<close>

lemma Init_config_a:
  "Init W 0 True config_a new_membership = (initial W 0 config_a, Inr MEMBERSHIP_SUCCESS)"
proof -
  have h: "c_host config_a = member_a" "c_seed_members config_a = [Member ''b'' ''10.0.0.2'' 5000 [] [] []]"
    by (simp_all add: config_a_def AddOneSeedMember_def Config_def)
  have "\<not> IsEmptyMember member_a" by (simp add: IsEmptyMember_def member_a_def)
  then have "snd (Init W 0 True config_a new_membership) = Inr MEMBERSHIP_SUCCESS"
    by (simp add: Init_eq h PullFromSeedMember_def GetRandomSeedAddress_def random_element_def
        member_eq_key)
  then show ?thesis by (simp add: initial_def prod_eq_iff)
qed

lemma reachable_initial: "reachable W (initial W 0 config_a)"
  by (rule reachable.start [OF Init_config_a])

text \<open>Node \<open>a\<close> after its seed \<open>b\<close> has answered: it announces itself three times.\<close>

definition join_wire :: wire where
  "join_wire = one_message_wire empty_update
     (InitAsFullStateMessageWithStatus [\<lparr>ws_member = member_b, ws_status = UP\<rparr>] empty_full_state)
     empty_request empty_response"

definition joined_node :: membership where
  "joined_node = fst (run_event join_wire 0 (Pull_done (SeedPull (member_address member_b)) (kOK, [2]))
     (initial join_wire 0 config_a))"

lemma joined_node:
  "reachable join_wire joined_node"
  "gossip_queue joined_node = Some (Push (Disseminate [1]) 3 (TimedFunctorQueue 500))"
  "owed (Push (Disseminate [1]) 3 (TimedFunctorQueue 500)) = replicate 3 (Disseminate [1])"
  "members joined_node = [(member_a, 0), (without_uid member_b, 0)]"
proof -
  let ?W = join_wire and ?s = "initial join_wire 0 config_a"
  have c: "c_host config_a = member_a" "c_retransmit_multiplier config_a = 3" "c_gossip_interval config_a = 500"
    by (simp_all add: config_a_def AddOneSeedMember_def Config_def)
  note i = Init_success [OF Init_config_a [of ?W], unfolded c]
  let ?f = "InitAsFullStateMessageWithStatus [\<lparr>ws_member = member_b, ws_status = UP\<rparr>] empty_full_state"
  have up: "\<not> is_self_actor_system_up ?s"
    by (rule Init_success_start [OF Init_config_a [of ?W]])
      (auto simp: start_detector_def Ping_def Let_def PullFromSeedMember_frame split: option.splits)
  have f: "full_IsSuccess ?f" "full_GetMembersWithStatus ?f = [\<lparr>ws_member = without_uid member_b, ws_status = UP\<rparr>]"
    by (simp_all only: full_state_success full_state_roundtrip) simp
  let ?e = "Pull_done (SeedPull (member_address member_b)) (kOK, [2])"
  have r: "run_event ?W 0 ?e ?s = (joined_node, None)
    \<and> gossip_queue joined_node = Some (Push (Disseminate [1]) 3 (TimedFunctorQueue 500))
    \<and> members joined_node = [(member_a, 0), (without_uid member_b, 0)]"
    using i up f
    by (simp add: joined_node_def HandleDidPull_def Let_def join_wire_def UpdateActorSystemStatus_def
        update_status_entry_def mfind_Cons mfind_Nil with_payload_def mk_payload_def kMaxPayloadSize_def
        IncreaseIncarnation_def SendGossip_def GetRetransmitLimit_def ceil_log10.simps then_do_def Notify_def)
  have "node_step ?W ?s ?e joined_node" by (rule node_step.run [OF _ conjunct1 [OF r]]) simp_all
  then show "reachable join_wire joined_node" by (rule reachable.step [OF reachable_initial])
  show "gossip_queue joined_node = Some (Push (Disseminate [1]) 3 (TimedFunctorQueue 500))"
    and "members joined_node = [(member_a, 0), (without_uid member_b, 0)]"
    using r by blast+
  show "owed (Push (Disseminate [1]) 3 (TimedFunctorQueue 500)) = replicate 3 (Disseminate [1])"
    by (simp add: owed_Push) (simp add: TimedFunctorQueue_def owed_def owed_now_def)
qed

text \<open>A wire that carries the full state of node \<open>a\<close>, as the answer of a seed.\<close>

definition seed_wire :: wire where
  "seed_wire = one_message_wire empty_update (full_state_answer node_a) empty_request empty_response"

lemma seed_answer_handled:
  "\<exists>s'. did_pull seed_wire 0 (SeedPull b) (kOK, [2]) (before_pull config_a) = (s', None)"
proof -
  have c: "c_host config_a = member_a" "c_retransmit_multiplier config_a = 3"
    by (simp_all add: config_a_def AddOneSeedMember_def Config_def)
  have f: "full_IsSuccess (full_state_answer node_a)" by (simp add: full_state_answer_def full_state_success)
  let ?u = "UpdateActorSystemStatus (full_GetMembersWithStatus (full_state_answer node_a)) (before_pull config_a)"
  have "full_GetMembersWithStatus (full_state_answer node_a) =
      map (\<lambda>m. \<lparr>ws_member = without_uid m, ws_status = UP\<rparr>) [member_a, member_b, member_c]"
    unfolding full_state_answer_def full_state_roundtrip by (simp add: GetMembersWithStatus_def mfind_Nil)
  then have "length (members ?u) = 3" "gossip_queue ?u = gossip_queue (before_pull config_a)"
    "retransmit_multiplier ?u = 3" "\<not> is_self_actor_system_up ?u"
    by (simp_all add: UpdateActorSystemStatus_def update_status_entry_def Let_def mfind_Cons mfind_Nil c
        Notify_def)
  then show ?thesis
    using f by (auto simp: seed_wire_def HandleDidPull_def Let_def IncreaseIncarnation_def with_payload_def
        mk_payload_def kMaxPayloadSize_def SendGossip_def GetRetransmitLimit_def ceil_log10.simps then_do_def)
qed

text \<open>The same with the actor system of \<open>c\<close> up at the seed, and then up gossip from \<open>c\<close>.\<close>

definition seed_c_up :: membership where
  "seed_c_up = node_a\<lparr>actor_systems := [(member_c, True)]\<rparr>"

definition restart_wire :: wire where
  "restart_wire = one_message_wire (InitAsUpMessage member_c 8) (full_state_answer seed_c_up)
     empty_request empty_response"

lemma restart_run:
  "\<exists>s1 s2. did_pull restart_wire 0 (SeedPull b) (kOK, [2]) (before_pull config_a) = (s1, None)
    \<and> suspects s1 = [] \<and> self_member s1 = member_a \<and> HandleGossip restart_wire a [1] s1 = (s2, None)"
proof -
  have c: "c_host config_a = member_a" "c_retransmit_multiplier config_a = 3"
    by (simp_all add: config_a_def AddOneSeedMember_def Config_def)
  have f: "full_IsSuccess (full_state_answer seed_c_up)" by (simp add: full_state_answer_def full_state_success)
  let ?u = "UpdateActorSystemStatus (full_GetMembersWithStatus (full_state_answer seed_c_up)) (before_pull config_a)"
  have "full_GetMembersWithStatus (full_state_answer seed_c_up) =
      [\<lparr>ws_member = without_uid member_a, ws_status = UP\<rparr>, \<lparr>ws_member = without_uid member_b, ws_status = UP\<rparr>,
       \<lparr>ws_member = without_uid member_c, ws_status = ACTOR_SYSTEM_UP\<rparr>]"
    unfolding full_state_answer_def full_state_roundtrip
    by (simp add: seed_c_up_def GetMembersWithStatus_def mfind_Nil mfind_Cons)
  then have u: "members ?u = [(member_a, 0), (without_uid member_b, 0), (without_uid member_c, 0)]"
    "gossip_queue ?u = gossip_queue (before_pull config_a)" "retransmit_multiplier ?u = 3"
    "\<not> is_self_actor_system_up ?u" "suspects ?u = []" "self_member ?u = member_a"
    by (simp_all add: UpdateActorSystemStatus_def update_status_entry_def Let_def mfind_Cons mfind_Nil c
        Notify_def)
  let ?s1 = "(IncreaseIncarnation ?u)\<lparr>gossip_queue :=
      Some (Push (Disseminate [1]) 3 (TimedFunctorQueue (c_gossip_interval config_a)))\<rparr>"
  have "did_pull restart_wire 0 (SeedPull b) (kOK, [2]) (before_pull config_a) = (?s1, None)"
    using f u by (simp add: restart_wire_def HandleDidPull_def Let_def IncreaseIncarnation_def with_payload_def
        mk_payload_def kMaxPayloadSize_def SendGossip_def GetRetransmitLimit_def ceil_log10.simps then_do_def)
  moreover have "suspects ?s1 = []" "self_member ?s1 = member_a" using u by (simp_all add: IncreaseIncarnation_def)
  moreover have "stale member_c (members ?s1)" "\<not> stale member_c (suspects ?s1)"
    using u by (simp_all add: stale_def IncreaseIncarnation_def member_c_def)
  then have e: "members (EraseExpiredMember member_c ?s1) = [(member_a, 0), (without_uid member_b, 0)]"
    "suspects (EraseExpiredMember member_c ?s1) = []" "retransmit_multiplier (EraseExpiredMember member_c ?s1) = 3"
    "gossip_queue (EraseExpiredMember member_c ?s1) = gossip_queue ?s1"
    using u by (simp_all add: EraseExpiredMember_def Let_def Notify_def IncreaseIncarnation_def)
  then have "\<exists>s2. HandleUp [1] (InitAsUpMessage member_c 8) ?s1 = (s2, None)"
    using u by (simp add: HandleUp_def Let_def IfBelongsToMembers_def IfBelongsToSuspects_def mfind_Cons mfind_Nil
        SendGossip_def GetRetransmitLimit_def ceil_log10.simps then_do_def)
  then have "\<exists>s2. HandleGossip restart_wire a [1] ?s1 = (s2, None)"
    by (simp add: HandleGossip_def restart_wire_def)
  ultimately show ?thesis by blast
qed

end
