(* ===== verification/Message_Frame.thy ===== *)
theory Message_Frame
  imports CDCF_Prelude
begin

unbundle bit_operations_syntax

text \<open>
  The framing of TCP messages, \<open>node_keeper/src/gossip/message.h\<close>: four bytes of
  length, most significant first, one byte of type, the payload. \<open>Decode\<close> consumes a
  chunk of the stream into \<open>buffer_\<close>; \<open>receive_chunk\<close> is the loop that
  \<open>gossip/connection.h\<close> and \<open>gossip/pull_session.h\<close> run over each chunk a socket
  delivers.

  Lengths are \<open>size_t\<close> values at their 64 bits. A buffer byte is promoted to a signed
  32-bit \<open>int\<close> before the shift and sign-extended by the conversion to
  \<open>size_t\<close>, which matters from length 2^31 on.
\<close>

section \<open>Layout\<close>

definition kHeaderBytes :: nat where "kHeaderBytes = 5"

definition kHeaderLengthBytes :: nat where "kHeaderLengthBytes = 4"

datatype mtype = kPush | kPull | kPullResponse

fun type_code :: "mtype \<Rightarrow> byte" where
  "type_code kPush = 0"
| "type_code kPull = 1"
| "type_code kPullResponse = 2"

definition length_bytes :: "u64 \<Rightarrow> byte list" where
  "length_bytes n =
     map (\<lambda>i. ucast (drop_bit (8 * (kHeaderLengthBytes - i - 1)) n)) [0..<kHeaderLengthBytes]"

definition make_message :: "mtype \<Rightarrow> byte list \<Rightarrow> byte list" where
  "make_message t data = length_bytes (of_nat (length data)) @ type_code t # data"

definition IsHeaderOut :: "byte list \<Rightarrow> bool" where
  "IsHeaderOut buffer \<longleftrightarrow> kHeaderBytes \<le> length buffer"

definition msg_Length :: "byte list \<Rightarrow> u64" where
  "msg_Length buffer =
     (if length buffer < kHeaderBytes then 0
      else foldl (\<lambda>result i. result OR
               scast (push_bit (8 * (kHeaderLengthBytes - i - 1)) (ucast (buffer ! i) :: u32)))
             0 [0..<kHeaderLengthBytes])"

definition IsSatisfied :: "byte list \<Rightarrow> bool" where
  "IsSatisfied buffer \<longleftrightarrow>
     IsHeaderOut buffer \<and> (of_nat (length buffer) :: u64) = msg_Length buffer + of_nat kHeaderBytes"

definition msg_Data :: "byte list \<Rightarrow> byte list" where
  "msg_Data buffer = drop kHeaderBytes buffer"

definition msg_Type :: "byte list \<Rightarrow> byte" where
  "msg_Type buffer = buffer ! kHeaderLengthBytes"

definition msg_Reset :: "byte list \<Rightarrow> byte list" where
  "msg_Reset buffer = []"

section \<open>Decoding\<close>

text \<open>\<open>std::vector<uint8_t>::max_size()\<close>; a larger \<open>reserve\<close> throws.\<close>

definition vector_max_size :: nat where
  "vector_max_size = 2 ^ 63 - 1"

definition DecodeHeader :: "byte list \<Rightarrow> byte list \<Rightarrow> cpp_exn + byte list \<times> nat" where
  "DecodeHeader buffer data =
     (let legacy = length buffer;
          current = length data;
          consumed_bytes = (if legacy + current < kHeaderBytes then current
                            else kHeaderBytes - legacy);
          buffer' = buffer @ take consumed_bytes data
      in if 0 < msg_Length buffer' \<and>
            vector_max_size < unat (of_nat kHeaderBytes + msg_Length buffer')
         then Inl LengthError
         else Inr (buffer', consumed_bytes))"

text \<open>
  \<open>begin + expected_bytes\<close> is read as a flat address; an offset that is not a
  non-negative \<open>ptrdiff_t\<close> has no meaning.
\<close>

definition DecodeBody :: "byte list \<Rightarrow> byte list \<Rightarrow> cpp_exn + byte list \<times> nat" where
  "DecodeBody buffer data =
     (let package_length = of_nat kHeaderBytes + msg_Length buffer;
          expected_bytes = package_length - of_nat (length buffer)
      in if 2 ^ 63 \<le> unat expected_bytes then Inl UndefinedBehaviour
         else let n = min (unat expected_bytes) (length data)
              in Inr (buffer @ take n data, n))"

definition Decode :: "byte list \<Rightarrow> byte list \<Rightarrow> cpp_exn + byte list \<times> nat" where
  "Decode buffer data =
     (if IsSatisfied buffer then Inr (buffer, 0)
      else case (if \<not> IsHeaderOut buffer then DecodeHeader buffer data else Inr (buffer, 0)) of
        Inl e \<Rightarrow> Inl e
      | Inr (b, consumed) \<Rightarrow>
          (if IsHeaderOut b \<and> consumed < length data
           then (case DecodeBody b (drop consumed data) of
                   Inl e \<Rightarrow> Inl e
                 | Inr (b', n) \<Rightarrow> Inr (b', consumed + n))
           else Inr (b, consumed)))"

lemmas frame_consts = kHeaderBytes_def kHeaderLengthBytes_def

lemma IsSatisfied_Nil [simp]: "\<not> IsSatisfied []"
  by (simp add: IsSatisfied_def IsHeaderOut_def frame_consts)

lemma DecodeBody_consumed: "DecodeBody b d = Inr (b', n) \<Longrightarrow> n \<le> length d"
  by (auto simp: DecodeBody_def Let_def split: if_splits)

lemma DecodeHeader_consumed:
  "DecodeHeader b d = Inr (b', n) \<Longrightarrow> \<not> IsHeaderOut b \<Longrightarrow> d \<noteq> [] \<Longrightarrow> 0 < n \<and> n \<le> length d"
  by (auto simp: DecodeHeader_def IsHeaderOut_def frame_consts Let_def split: if_splits)

lemma DecodeBody_progress:
  assumes "IsHeaderOut b" and "\<not> IsSatisfied b" and "d \<noteq> []" and "DecodeBody b d = Inr (b', n)"
  shows "0 < n"
proof -
  have "of_nat kHeaderBytes + msg_Length b - of_nat (length b) \<noteq> (0 :: u64)"
    using assms(1,2) by (auto simp: IsSatisfied_def add.commute)
  then have "0 < unat (of_nat kHeaderBytes + msg_Length b - of_nat (length b) :: u64)"
    by (simp add: unat_gt_0)
  then show ?thesis using assms(3,4) by (auto simp: DecodeBody_def Let_def split: if_splits)
qed

text \<open>A call on an unfinished message consumes at least one byte and never more than it got.\<close>

lemma Decode_progress:
  assumes "\<not> IsSatisfied b" and "d \<noteq> []" and "Decode b d = Inr (b', n)"
  shows "0 < n" and "n \<le> length d"
proof -
  have "0 < n \<and> n \<le> length d"
  proof (cases "IsHeaderOut b")
    case True
    then obtain m where "DecodeBody b d = Inr (b', m)" "n = m"
      using assms by (auto simp: Decode_def split: sum.splits prod.splits)
    then show ?thesis using DecodeBody_progress [OF True assms(1,2)] DecodeBody_consumed by blast
  next
    case False
    then show ?thesis
      using assms by (auto simp: Decode_def split: sum.splits prod.splits if_splits
          dest!: DecodeHeader_consumed DecodeBody_consumed)
  qed
  then show "0 < n" and "n \<le> length d" by auto
qed

lemma Decode_satisfied: "IsSatisfied b \<Longrightarrow> Decode b d = Inr (b, 0)"
  by (simp add: Decode_def)

section \<open>The receive loop\<close>

text \<open>
  \<open>for (decoded = 0; decoded < bytes_transferred;)\<close> over one chunk: the complete
  messages handed to \<open>on_receive_\<close> in order, and what is left in \<open>message_\<close>, or the
  exception that leaves the loop. Each iteration consumes a byte or resets a complete
  message, so the loop ends.
\<close>

function receive_chunk :: "byte list \<Rightarrow> byte list \<Rightarrow> byte list list \<times> (cpp_exn + byte list)" where
  "receive_chunk buffer data =
     (if data = [] then ([], Inr buffer)
      else case Decode buffer data of
        Inl e \<Rightarrow> ([], Inl e)
      | Inr (b, decoded) \<Rightarrow>
          (if IsSatisfied b
           then (case receive_chunk (msg_Reset b) (drop decoded data) of (ms, r) \<Rightarrow> (b # ms, r))
           else receive_chunk b (drop decoded data)))"
  by pat_completeness auto
termination
proof (relation "measure (\<lambda>(b, d). 2 * length d + (if IsSatisfied b then 1 else 0))", goal_cases)
  case (2 buffer data p b decoded)
  have "0 < decoded \<or> IsSatisfied buffer"
    using 2 Decode_progress(1) [of buffer data b decoded] by auto
  moreover have "length data > 0" using 2 by simp
  ultimately show ?case by (auto simp: msg_Reset_def)
next
  case (3 buffer data p b decoded)
  then have "\<not> IsSatisfied buffer" using Decode_satisfied [of buffer data] by auto
  then have "0 < decoded" using 3 Decode_progress(1) [of buffer data b decoded] by auto
  moreover have "length data > 0" using 3 by simp
  ultimately show ?case using 3 by auto
qed simp

declare receive_chunk.simps [simp del]

text \<open>What \<open>socket_.async_receive\<close> reports: an error, or the bytes transferred.\<close>

datatype read_result = ReadError | ReadBytes "byte list"

text \<open>
  \<open>Connection::Start\<close> reads until an error is reported; a chunk of no bytes is skipped.
  The list is what the socket reports, in order.
\<close>

fun connection_run :: "byte list \<Rightarrow> read_result list \<Rightarrow> byte list list \<times> (cpp_exn + byte list)" where
  "connection_run buffer [] = ([], Inr buffer)"
| "connection_run buffer (ReadError # rs) = ([], Inr buffer)"
| "connection_run buffer (ReadBytes d # rs) =
     (case (if length d \<noteq> 0 then receive_chunk buffer d else ([], Inr buffer)) of
        (ms, Inl e) \<Rightarrow> (ms, Inl e)
      | (ms, Inr b) \<Rightarrow> (case connection_run b rs of (ms', r) \<Rightarrow> (ms @ ms', r)))"

end
