(* ===== verification/Message_Frame_Laws.thy ===== *)
theory Message_Frame_Laws
  imports Message_Frame
begin

unbundle bit_operations_syntax

text \<open>
  The framing is a faithful transport of message sequences: whatever the chunks in which a
  stream of encoded messages arrives, the receive loop delivers exactly those messages. The
  bound on a payload is 2^31 bytes; from there on the decoder reads a negative length.
\<close>

section \<open>The length field\<close>

lemma upt_4: "[0..<4] = [0, 1, 2, 3 :: nat]"
  by (simp add: upt_rec numeral_eq_Suc)

lemma length_length_bytes [simp]: "length (length_bytes n) = 4"
  by (simp add: length_bytes_def kHeaderLengthBytes_def)

lemma length_make_message [simp]: "length (make_message t p) = 5 + length p"
  by (simp add: make_message_def)

lemma msg_Length_header:
  "msg_Length (b0 # b1 # b2 # b3 # t # p) =
     scast (push_bit 24 (ucast b0 :: u32)) OR scast (push_bit 16 (ucast b1 :: u32))
     OR scast (push_bit 8 (ucast b2 :: u32)) OR scast (ucast b3 :: u32)"
  by (simp add: msg_Length_def upt_4 kHeaderBytes_def kHeaderLengthBytes_def or.assoc)

lemma bit_scast_u32: "bit (scast (x :: u32) :: u64) i \<longleftrightarrow> i < 64 \<and> bit x (min i 31)"
  by (auto simp: bit_simps min_def)

lemma u64_bit_small: "n < 2 ^ 31 \<Longrightarrow> 31 \<le> i \<Longrightarrow> \<not> bit (of_nat n :: u64) i"
  by (metis bit_of_nat_iff bit_take_bit_iff linorder_not_less take_bit_nat_eq_self)

lemma length_bytes_eq:
  "length_bytes n = [ucast (drop_bit 24 n), ucast (drop_bit 16 n), ucast (drop_bit 8 n), ucast n]"
  by (simp add: length_bytes_def upt_4 kHeaderLengthBytes_def)

text \<open>Reading back what the constructor wrote, for lengths below 2^31.\<close>

lemma msg_Length_make:
  assumes "n < 2 ^ 31"
  shows "msg_Length (length_bytes (of_nat n) @ t # p) = of_nat n"
proof (rule bit_word_eqI)
  fix i assume i: "i < LENGTH(64)"
  let ?w = "of_nat n :: u64"
  have hi: "\<not> bit ?w j" if "31 \<le> j" for j using u64_bit_small [OF assms that] .
  have "bit (msg_Length (length_bytes ?w @ t # p)) i \<longleftrightarrow>
     (bit ?w (min i 31) \<and> 24 \<le> min i 31) \<or> (bit ?w i \<and> 16 \<le> i \<and> i < 24) \<or>
     (bit ?w i \<and> 8 \<le> i \<and> i < 16) \<or> (bit ?w i \<and> i < 8)"
    using i
    by (auto simp: length_bytes_eq msg_Length_header bit_or_iff bit_scast_u32 bit_push_bit_iff
        bit_ucast_iff bit_drop_bit_eq min_def)
  also have "\<dots> \<longleftrightarrow> bit ?w i"
    using hi [of i] hi [of 31] by (auto simp: min_def)
  finally show "bit (msg_Length (length_bytes ?w @ t # p)) i \<longleftrightarrow> bit ?w i" .
qed

lemma msg_Length_append:
  "5 \<le> length b \<Longrightarrow> msg_Length (b @ x) = msg_Length b"
  by (auto simp: msg_Length_def upt_4 frame_consts nth_append)

definition small :: "byte list \<Rightarrow> bool" where
  "small p \<longleftrightarrow> length p < 2 ^ 31"

lemma msg_Length_make_message: "small p \<Longrightarrow> msg_Length (make_message t p) = of_nat (length p)"
  by (simp add: make_message_def msg_Length_make small_def)

lemma msg_Length_take:
  assumes "small p" and "5 \<le> k"
  shows "msg_Length (take k (make_message t p)) = of_nat (length p)"
proof -
  have "5 \<le> length (take k (make_message t p))" using assms(2) by simp
  then have "msg_Length (take k (make_message t p)) =
      msg_Length (take k (make_message t p) @ drop k (make_message t p))"
    by (rule msg_Length_append [symmetric])
  then show ?thesis using msg_Length_make_message [OF assms(1)] by simp
qed

lemma u64_of_nat_eq_iff: "a < 2 ^ 64 \<Longrightarrow> b < 2 ^ 64 \<Longrightarrow> (of_nat a :: u64) = of_nat b \<longleftrightarrow> a = b"
  by (auto simp: word_of_nat_eq_iff take_bit_nat_eq_self)

lemma IsSatisfied_take:
  assumes "small p"
  shows "IsSatisfied (take k (make_message t p)) \<longleftrightarrow> 5 + length p \<le> k"
proof (cases "5 \<le> k")
  case True
  have "IsSatisfied (take k (make_message t p)) \<longleftrightarrow>
      (of_nat (min (5 + length p) k) :: u64) = of_nat (length p + 5)"
    using True by (simp add: IsSatisfied_def IsHeaderOut_def frame_consts msg_Length_take [OF assms True])
  also have "\<dots> \<longleftrightarrow> min (5 + length p) k = length p + 5"
    by (rule u64_of_nat_eq_iff) (use assms in \<open>auto simp: small_def min_def\<close>)
  finally show ?thesis by auto
next
  case False
  then show ?thesis by (auto simp: IsSatisfied_def IsHeaderOut_def frame_consts)
qed

lemma IsSatisfied_make_message: "small p \<Longrightarrow> IsSatisfied (make_message t p)"
  using IsSatisfied_take [of p "5 + length p" t] by simp

section \<open>One call of Decode inside a message\<close>

lemma unat_u64_small: "n < 2 ^ 64 \<Longrightarrow> unat (of_nat n :: u64) = n"
  by (simp add: unsigned_of_nat take_bit_nat_eq_self)

lemma DecodeBody_take:
  assumes "small p" and "5 \<le> k" and "k \<le> 5 + length p"
  shows "DecodeBody (take k (make_message t p)) d =
    Inr (take k (make_message t p) @ take (min (5 + length p - k) (length d)) d,
         min (5 + length p - k) (length d))"
proof -
  have "of_nat kHeaderBytes + msg_Length (take k (make_message t p))
        - of_nat (length (take k (make_message t p))) = (of_nat (5 + length p - k) :: u64)"
    using assms by (simp add: msg_Length_take frame_consts min_def of_nat_diff)
  moreover have "unat (of_nat (5 + length p - k) :: u64) = 5 + length p - k"
    by (rule unat_u64_small) (use assms in \<open>auto simp: small_def\<close>)
  moreover have "5 + length p - k < 2 ^ 63" using assms by (auto simp: small_def)
  ultimately show ?thesis by (simp add: DecodeBody_def Let_def)
qed

lemma DecodeHeader_take:
  assumes "small p" and "k < 5" and "take (min (5 - k) (length d)) d = take (min (5 - k) (length d)) (drop k (make_message t p))"
  shows "DecodeHeader (take k (make_message t p)) d =
    Inr (take (k + min (5 - k) (length d)) (make_message t p), min (5 - k) (length d))"
proof -
  let ?m = "min (5 - k) (length d)"
  have c: "(if k + length d < 5 then length d else 5 - k) = ?m" using assms(2) by auto
  have b: "take k (make_message t p) @ take ?m d = take (k + ?m) (make_message t p)"
    using assms(3) by (simp add: take_add)
  have "unat (of_nat 5 + of_nat (length p) :: u64) = 5 + length p"
    using unat_u64_small [of "5 + length p"] assms(1) by (simp add: small_def)
  then have "\<not> vector_max_size < unat (of_nat 5 + msg_Length (take (k + ?m) (make_message t p)))
      \<or> msg_Length (take (k + ?m) (make_message t p)) = 0"
    using assms(1) msg_Length_take [OF assms(1), of "k + ?m" t]
    by (cases "5 \<le> k + ?m") (auto simp: vector_max_size_def small_def msg_Length_def frame_consts)
  then show ?thesis
    using assms(2) c b by (auto simp: DecodeHeader_def frame_consts Let_def min_def split: if_splits)
qed

text \<open>
  The decoder advances through a message by as many bytes as both the message and the chunk
  still hold, wherever the chunk boundary falls.
\<close>

lemma Decode_take:
  assumes sm: "small p" and k: "k < 5 + length p" and d: "d \<noteq> []"
    and m: "m = min (5 + length p - k) (length d)"
    and agree: "take m d = take m (drop k (make_message t p))"
  shows "Decode (take k (make_message t p)) d = Inr (take (k + m) (make_message t p), m)"
proof (cases "5 \<le> k")
  case True
  have "take k (make_message t p) @ take m d = take (k + m) (make_message t p)"
    using agree by (simp add: take_add)
  then show ?thesis
    using True sm k d DecodeBody_take [OF sm True, of t d]
    by (simp add: Decode_def IsSatisfied_take IsHeaderOut_def frame_consts m)
next
  case False
  let ?h = "min (5 - k) (length d)"
  have hm: "?h \<le> m" using False m by auto
  have "take ?h d = take ?h (take m d)" using hm by (simp add: min_def)
  also have "\<dots> = take ?h (drop k (make_message t p))" using hm agree by (simp add: min_def)
  finally have hdr: "DecodeHeader (take k (make_message t p)) d =
      Inr (take (k + ?h) (make_message t p), ?h)"
    using DecodeHeader_take [OF sm, of k d t] False by simp
  show ?thesis
  proof (cases "5 - k < length d")
    case True
    then have h: "?h = 5 - k" and k5: "k + ?h = 5" using False by auto
    have body: "DecodeBody (take 5 (make_message t p)) (drop (5 - k) d) =
        Inr (take 5 (make_message t p) @ take (m - (5 - k)) (drop (5 - k) d), m - (5 - k))"
      using DecodeBody_take [OF sm, of 5 t "drop (5 - k) d"] False True m
      by (simp add: min_def) arith
    have "take (m - (5 - k)) (drop (5 - k) d) = drop (5 - k) (take m d)"
      by (simp add: drop_take)
    also have "\<dots> = take (m - (5 - k)) (drop 5 (make_message t p))"
      using False by (simp add: agree drop_take)
    finally have "take 5 (make_message t p) @ take (m - (5 - k)) (drop (5 - k) d) =
        take (k + m) (make_message t p)"
      using take_add [of 5 "m - (5 - k)" "make_message t p"] hm h False by (simp add: add.commute)
    then show ?thesis
      using hdr body h k5 True False sm k hm
      by (simp add: Decode_def IsSatisfied_take IsHeaderOut_def frame_consts)
  next
    case Short: False
    then have "?h = length d" and "m = length d" using False m by auto
    then show ?thesis
      using hdr False sm k by (simp add: Decode_def IsSatisfied_take IsHeaderOut_def frame_consts)
  qed
qed

section \<open>A stream of messages in any chunks\<close>

text \<open>
  \<open>k\<close> bytes of the next message are in the buffer; the chunk either ends inside that
  message or completes it.
\<close>

lemma receive_chunk_partial:
  assumes "small p" and "k + length d < 5 + length p"
    and "d = take (length d) (drop k (make_message t p))"
  shows "receive_chunk (take k (make_message t p)) d = ([], Inr (take (k + length d) (make_message t p)))"
proof (cases "d = []")
  case True
  then show ?thesis by (simp add: receive_chunk.simps)
next
  case False
  have "Decode (take k (make_message t p)) d = Inr (take (k + length d) (make_message t p), length d)"
    using Decode_take [OF assms(1) _ False, of k "length d" t] assms(2,3) by simp
  moreover have "\<not> IsSatisfied (take (k + length d) (make_message t p))"
    using assms(2) by (simp add: IsSatisfied_take [OF assms(1)])
  ultimately show ?thesis
    using False by (simp add: receive_chunk.simps [of _ d] receive_chunk.simps [of _ "[]"])
qed

lemma receive_chunk_complete:
  assumes "small p" and "k < 5 + length p" and "d = drop k (make_message t p) @ rest"
  shows "receive_chunk (take k (make_message t p)) d =
    (case receive_chunk [] rest of (ms, r) \<Rightarrow> (make_message t p # ms, r))"
proof -
  have d: "d \<noteq> []" using assms(2,3) by auto
  have len: "length d = 5 + length p - k + length rest" using assms(3) by simp
  have "Decode (take k (make_message t p)) d = Inr (make_message t p, 5 + length p - k)"
    using Decode_take [OF assms(1,2) d, of "5 + length p - k" t] assms(2,3) len by simp
  moreover have "drop (5 + length p - k) d = rest" using assms(2,3) by simp
  ultimately show ?thesis
    using d IsSatisfied_make_message [OF assms(1)]
    by (simp add: receive_chunk.simps [of _ d] msg_Reset_def)
qed

definition encode_all :: "(mtype \<times> byte list) list \<Rightarrow> byte list" where
  "encode_all ms = concat (map (\<lambda>(t, p). make_message t p) ms)"

definition within_first :: "nat \<Rightarrow> (mtype \<times> byte list) list \<Rightarrow> bool" where
  "within_first k ms = (case ms of [] \<Rightarrow> k = 0 | (t, p) # _ \<Rightarrow> k < 5 + length p)"

lemma encode_all_Cons: "encode_all ((t, p) # ms) = make_message t p @ encode_all ms"
  by (simp add: encode_all_def)

lemma take_encode_all: "k \<le> 5 + length p \<Longrightarrow> take k (encode_all ((t, p) # ms)) = take k (make_message t p)"
  by (simp add: encode_all_Cons)

lemma within_first_0: "within_first 0 ms"
  by (auto simp: within_first_def split: list.splits)

lemma receive_chunk_stream:
  assumes "\<forall>(t, p)\<in>set ms. small p" and "within_first k ms" and "d @ s = drop k (encode_all ms)"
  shows "\<exists>j k'. receive_chunk (take k (encode_all ms)) d =
      (map (\<lambda>(t, p). make_message t p) (take j ms), Inr (take k' (encode_all (drop j ms))))
    \<and> s = drop k' (encode_all (drop j ms)) \<and> within_first k' (drop j ms)"
  using assms
proof (induction ms arbitrary: k d)
  case Nil
  then show ?case
    by (intro exI [of _ 0]) (auto simp: encode_all_def receive_chunk.simps within_first_0)
next
  case (Cons tp ms)
  obtain t p where tp: "tp = (t, p)" by (cases tp)
  have sm: "small p" and k: "k < 5 + length p"
    using Cons.prems(1,2) by (auto simp: tp within_first_def)
  have ds: "d @ s = drop k (make_message t p) @ encode_all ms"
    using Cons.prems(3) k by (simp add: tp encode_all_Cons)
  show ?case
  proof (cases "k + length d < 5 + length p")
    case True
    have "d = take (length d) (drop k (make_message t p))"
      using arg_cong [OF ds, of "take (length d)"] True by simp
    then have "receive_chunk (take k (encode_all (tp # ms))) d =
        ([], Inr (take (k + length d) (encode_all (tp # ms))))"
      using receive_chunk_partial [OF sm True] k True by (simp add: tp take_encode_all)
    moreover have "s = drop (k + length d) (encode_all (tp # ms))"
      using arg_cong [OF Cons.prems(3), of "drop (length d)"] by (simp add: add.commute)
    moreover have "within_first (k + length d) (tp # ms)"
      using True by (simp add: tp within_first_def)
    ultimately show ?thesis by (intro exI [of _ 0] exI [of _ "k + length d"]) simp
  next
    case False
    define rest where "rest = drop (5 + length p - k) d"
    have n: "5 + length p - k \<le> length d" using False by simp
    have "take (5 + length p - k) d = take (5 + length p - k) (d @ s)" using n by simp
    also have "\<dots> = drop k (make_message t p)" by (simp add: ds)
    finally have d: "d = drop k (make_message t p) @ rest"
      unfolding rest_def by (metis append_take_drop_id)
    have "rest @ s = drop 0 (encode_all ms)" using ds d by simp
    then obtain j k' where jk: "receive_chunk [] rest =
        (map (\<lambda>(t, p). make_message t p) (take j ms), Inr (take k' (encode_all (drop j ms))))"
        "s = drop k' (encode_all (drop j ms))" "within_first k' (drop j ms)"
      using Cons.IH [of 0 rest] Cons.prems(1) within_first_0 by auto
    then show ?thesis
      using receive_chunk_complete [OF sm k d] k
      by (intro exI [of _ "Suc j"] exI [of _ k']) (simp add: tp take_encode_all)
  qed
qed

lemma connection_run_stream:
  assumes "\<forall>(t, p)\<in>set ms. small p" and "within_first k ms"
    and "concat chunks = drop k (encode_all ms)"
  shows "connection_run (take k (encode_all ms)) (map ReadBytes chunks) =
    (map (\<lambda>(t, p). make_message t p) ms, Inr [])"
  using assms
proof (induction chunks arbitrary: k ms)
  case Nil
  then have "ms = []" and "k = 0"
    by (auto simp: within_first_def encode_all_Cons split: list.splits)
  then show ?case by (simp add: encode_all_def)
next
  case (Cons d chunks)
  obtain j k' where r: "receive_chunk (take k (encode_all ms)) d =
      (map (\<lambda>(t, p). make_message t p) (take j ms), Inr (take k' (encode_all (drop j ms))))"
    and s: "concat chunks = drop k' (encode_all (drop j ms))" and w: "within_first k' (drop j ms)"
    using receive_chunk_stream [OF Cons.prems(1,2), of d "concat chunks"] Cons.prems(3) by auto
  have sm: "\<forall>(t, p)\<in>set (drop j ms). small p"
    using Cons.prems(1) set_drop_subset [of j ms] by blast
  have "connection_run (take k' (encode_all (drop j ms))) (map ReadBytes chunks) =
      (map (\<lambda>(t, p). make_message t p) (drop j ms), Inr [])"
    using Cons.IH [OF sm w s] .
  moreover have "(if length d \<noteq> 0 then receive_chunk (take k (encode_all ms)) d
      else ([], Inr (take k (encode_all ms)))) = receive_chunk (take k (encode_all ms)) d"
    by (simp add: receive_chunk.simps [of _ "[]"])
  ultimately show ?case
    using r by (simp add: map_append [symmetric] del: map_append)
qed

lemma msg_Data_make_message: "msg_Data (make_message t p) = p"
  by (simp add: msg_Data_def make_message_def kHeaderBytes_def)

lemma msg_Type_make_message: "msg_Type (make_message t p) = type_code t"
  by (simp add: msg_Type_def make_message_def kHeaderLengthBytes_def nth_append)

section \<open>Lengths the decoder cannot represent\<close>

lemma bit_u64_le: "bit (w :: u64) j \<Longrightarrow> 2 ^ j \<le> unat w"
proof (rule ccontr)
  assume b: "bit w j" and "\<not> 2 ^ j \<le> unat w"
  then have "take_bit j (unat w) = unat w" by (simp add: take_bit_nat_eq_self)
  moreover have "bit (unat w) j" using b by (simp add: bit_unsigned_iff bit_imp_le_length)
  moreover have "\<not> bit (take_bit j (unat w)) j" by (simp add: bit_take_bit_iff)
  ultimately show False by simp
qed

lemma unat_not_u64: "unat (NOT w) = 2 ^ 64 - 1 - unat (w :: u64)"
proof -
  have "NOT w = - 1 - w" by (simp add: not_eq_complement)
  moreover have "unat (- 1 - w) = unat (- 1 :: u64) - unat w"
    by (rule unat_sub) simp
  ultimately show ?thesis by (simp add: unsigned_minus_1_eq_mask mask_eq_exp_minus_1)
qed

lemma bit_msg_Length_high:
  assumes "31 \<le> i" and "i < 64"
  shows "bit (msg_Length (b0 # b1 # b2 # b3 # t # p)) i \<longleftrightarrow> bit b0 7"
  using assms
  by (auto simp: msg_Length_header bit_or_iff bit_scast_u32 bit_push_bit_iff bit_ucast_iff min_def
      dest: bit_imp_le_length)

lemma bit_msg_Length_top:
  assumes "24 \<le> i" and "i < 31"
  shows "bit (msg_Length (b0 # b1 # b2 # b3 # t # p)) i \<longleftrightarrow> bit b0 (i - 24)"
  using assms
  by (auto simp: msg_Length_header bit_or_iff bit_scast_u32 bit_push_bit_iff bit_ucast_iff min_def
      dest: bit_imp_le_length)

text \<open>
  A header whose first length byte has its top bit set (and is not 255) makes \<open>reserve\<close>
  throw as soon as it is complete, whatever follows.
\<close>

lemma oversized_header:
  assumes "bit b0 7" and "b0 \<noteq> - 1"
  shows "DecodeHeader [] (b0 # b1 # b2 # b3 # t # rest) = Inl LengthError"
proof -
  let ?L = "msg_Length [b0, b1, b2, b3, t]"
  have "b0 = - 1" if "\<forall>j<8. bit b0 j"
    by (rule bit_word_eqI) (use that in simp)
  then obtain j where j: "j < 8" "\<not> bit b0 j" using assms(2) by blast
  then have "j < 7" using assms(1) by (cases "j = 7") auto
  then have "\<not> bit ?L (24 + j)" using j bit_msg_Length_top [of "24 + j" b0 b1 b2 b3 t "[]"] by simp
  then have "bit (NOT ?L) (24 + j)" using \<open>j < 7\<close> by (simp add: bit_not_iff)
  then have "2 ^ (24 + j) \<le> unat (NOT ?L)" by (rule bit_u64_le)
  moreover have "(2 :: nat) ^ 24 \<le> 2 ^ (24 + j)" by (intro power_increasing) auto
  ultimately have hi: "2 ^ 24 \<le> 2 ^ 64 - 1 - unat ?L" unfolding unat_not_u64 by linarith
  have "bit ?L 63" using bit_msg_Length_high [of 63 b0 b1 b2 b3 t "[]"] assms(1) by simp
  then have lo: "2 ^ 63 \<le> unat ?L" by (rule bit_u64_le)
  have "unat (of_nat 5 + ?L) = 5 + unat ?L"
    using hi by (subst unat_add_lem [THEN iffD1]) auto
  moreover have "?L \<noteq> 0" using lo by auto
  ultimately show ?thesis
    using lo by (simp add: DecodeHeader_def frame_consts vector_max_size_def Let_def word_gt_0)
qed

end
