(* ===== verification/Pull_Session.thy ===== *)
theory Pull_Session
  imports Message_Frame_Laws Gossip_Types
begin

text \<open>
  The client side of a pull, \<open>node_keeper/src/gossip/pull_session.h\<close>: one request is
  written, then the response is decoded out of the chunks the socket delivers. The socket
  is the list of chunks its reads return; the empty chunk is a read of zero bytes.
\<close>

section \<open>The synchronous session\<close>

text \<open>The inner \<open>for\<close> of \<open>ReadMessage\<close>: stop at the first complete message.\<close>

function scan_message :: "byte list \<Rightarrow> byte list \<Rightarrow> cpp_exn + byte list option \<times> byte list" where
  "scan_message buffer data =
     (if data = [] then Inr (None, buffer)
      else case Decode buffer data of
        Inl e \<Rightarrow> Inl e
      | Inr (b, n) \<Rightarrow>
          (if IsSatisfied b then Inr (Some b, []) else scan_message b (drop n data)))"
  by pat_completeness auto
termination
proof (relation "measure (\<lambda>(b, d). length d)", goal_cases)
  case (2 buffer data p b n)
  then have "\<not> IsSatisfied buffer" using Decode_satisfied [of buffer data] by auto
  then show ?case using 2 Decode_progress(1) [of buffer data b n] by auto
qed simp

declare scan_message.simps [simp del]

text \<open>
  \<open>ReadMessage\<close>. The outer \<open>None\<close>: every chunk so far is consumed and the session is
  still waiting in \<open>read_some\<close>. \<open>Inr None\<close> is \<open>std::nullopt\<close>.
\<close>

fun ReadMessage :: "byte list \<Rightarrow> byte list list \<Rightarrow> (cpp_exn + byte list option) option" where
  "ReadMessage buffer [] = None"
| "ReadMessage buffer (chunk # chunks) =
     (if length chunk = 0 then Some (Inr None)
      else case scan_message buffer chunk of
        Inl e \<Rightarrow> Some (Inl e)
      | Inr (Some m, _) \<Rightarrow> Some (Inr (Some m))
      | Inr (None, b) \<Rightarrow> ReadMessage b chunks)"

text \<open>\<open>sent\<close> is what \<open>write_some\<close> reports for the request.\<close>

definition RequestSync :: "byte list \<Rightarrow> nat \<Rightarrow> byte list list \<Rightarrow> (cpp_exn + pull_result) option" where
  "RequestSync out sent chunks =
     (if sent \<noteq> length out then Some (Inr (kUnknown, []))
      else case ReadMessage [] chunks of
        None \<Rightarrow> None
      | Some (Inl e) \<Rightarrow> Some (Inl e)
      | Some (Inr (Some m)) \<Rightarrow> Some (Inr (kOK, msg_Data m))
      | Some (Inr None) \<Rightarrow> Some (Inr (kUnknown, [])))"

definition request_bytes :: "byte list \<Rightarrow> byte list" where
  "request_bytes data = make_message kPull data"

lemma scan_partial:
  assumes "small p" and "k + length d < 5 + length p"
    and "d = take (length d) (drop k (make_message t p))"
  shows "scan_message (take k (make_message t p)) d = Inr (None, take (k + length d) (make_message t p))"
proof (cases "d = []")
  case True
  then show ?thesis by (simp add: scan_message.simps)
next
  case False
  have "Decode (take k (make_message t p)) d = Inr (take (k + length d) (make_message t p), length d)"
    using Decode_take [OF assms(1) _ False, of k "length d" t] assms(2,3) by simp
  moreover have "\<not> IsSatisfied (take (k + length d) (make_message t p))"
    using assms(2) by (simp add: IsSatisfied_take [OF assms(1)])
  ultimately show ?thesis
    using False by (simp add: scan_message.simps [of _ d] scan_message.simps [of _ "[]"])
qed

lemma scan_complete:
  assumes "small p" and "k < 5 + length p" and "d = drop k (make_message t p) @ rest"
  shows "scan_message (take k (make_message t p)) d = Inr (Some (make_message t p), [])"
proof -
  have d: "d \<noteq> []" using assms(2,3) by auto
  have "Decode (take k (make_message t p)) d = Inr (make_message t p, 5 + length p - k)"
    using Decode_take [OF assms(1,2) d, of "5 + length p - k" t] assms(2,3) by simp
  then show ?thesis
    using d IsSatisfied_make_message [OF assms(1)] by (simp add: scan_message.simps [of _ d])
qed

text \<open>A response is read back whole from any chunks, and what follows it is not looked at.\<close>

lemma ReadMessage_stream:
  assumes "small p" and "k < 5 + length p" and "\<forall>c\<in>set chunks. c \<noteq> []"
    and "concat chunks = drop k (make_message t p) @ rest"
  shows "ReadMessage (take k (make_message t p)) chunks = Some (Inr (Some (make_message t p)))"
  using assms
proof (induction chunks arbitrary: k)
  case (Cons d chunks)
  show ?case
  proof (cases "k + length d < 5 + length p")
    case True
    have ds: "d @ concat chunks = drop k (make_message t p) @ rest" using Cons.prems(4) by simp
    have "d = take (length d) (drop k (make_message t p))"
      using arg_cong [OF ds, of "take (length d)"] True by simp
    then have "scan_message (take k (make_message t p)) d =
        Inr (None, take (k + length d) (make_message t p))"
      using scan_partial [OF Cons.prems(1) True] by blast
    moreover have "concat chunks = drop (k + length d) (make_message t p) @ rest"
      using arg_cong [OF ds, of "drop (length d)"] True by (simp add: add.commute)
    ultimately show ?thesis using Cons True by simp
  next
    case False
    have ds: "d @ concat chunks = drop k (make_message t p) @ rest" using Cons.prems(4) by simp
    have n: "5 + length p - k \<le> length d" using False by simp
    have "take (5 + length p - k) d = take (5 + length p - k) (d @ concat chunks)" using n by simp
    also have "\<dots> = drop k (make_message t p)" by (simp add: ds)
    finally have "d = drop k (make_message t p) @ drop (5 + length p - k) d"
      by (metis append_take_drop_id)
    then have "scan_message (take k (make_message t p)) d = Inr (Some (make_message t p), [])"
      by (rule scan_complete [OF Cons.prems(1,2)])
    moreover have "d \<noteq> []" using Cons.prems(3) by simp
    ultimately show ?thesis by simp
  qed
qed simp

section \<open>The asynchronous session\<close>

text \<open>
  \<open>ReadMessageAsync\<close> decodes one chunk in its completion handler, calling \<open>did_pull_\<close>
  when the message is complete and starting another read when it is not. The message is
  not reset after the call. The fuel bounds the iterations of the handler's \<open>for\<close>:
  \<open>None\<close> means that they have not ended.
\<close>

datatype async_event =
    DidPull gossip_code "byte list"
  | StartRead
  | AsyncThrow cpp_exn

fun async_scan :: "nat \<Rightarrow> byte list \<Rightarrow> byte list \<Rightarrow> (async_event list \<times> byte list) option" where
  "async_scan 0 buffer data = (if data = [] then Some ([], buffer) else None)"
| "async_scan (Suc fuel) buffer data =
     (if data = [] then Some ([], buffer)
      else case Decode buffer data of
        Inl e \<Rightarrow> Some ([AsyncThrow e], buffer)
      | Inr (b, n) \<Rightarrow>
          map_option (\<lambda>(es, b'). ((if IsSatisfied b then DidPull kOK (msg_Data b) else StartRead) # es, b'))
            (async_scan fuel b (drop n data)))"

text \<open>The completion handler for a read of \<open>data\<close>.\<close>

definition on_read_async :: "nat \<Rightarrow> byte list \<Rightarrow> byte list \<Rightarrow> (async_event list \<times> byte list) option" where
  "on_read_async fuel buffer data =
     (if length data = 0 then Some ([DidPull kUnknown []], buffer)
      else async_scan fuel buffer data)"

text \<open>A chunk that ends inside the response or exactly at its end takes one iteration.\<close>

lemma async_scan_inside:
  assumes "small p" and "k + length d \<le> 5 + length p" and "d \<noteq> []"
    and "d = take (length d) (drop k (make_message t p))"
  shows "async_scan (Suc fuel) (take k (make_message t p)) d =
    Some ([if k + length d = 5 + length p then DidPull kOK p else StartRead],
          take (k + length d) (make_message t p))"
proof -
  have "k < 5 + length p" using assms(2,3) by (cases d) auto
  then have "Decode (take k (make_message t p)) d = Inr (take (k + length d) (make_message t p), length d)"
    using Decode_take [OF assms(1) _ assms(3), of k "length d" t] assms(2,4) by simp
  moreover have "async_scan fuel b [] = Some ([], b)" for b by (cases fuel) auto
  ultimately show ?thesis
    using assms by (auto simp: IsSatisfied_take msg_Data_make_message)
qed

text \<open>
  With a complete message in the buffer and a byte left in the chunk the loop makes no
  progress: \<open>Decode\<close> consumes nothing, and \<open>did_pull_\<close> is called again for ever.
\<close>

lemma async_scan_satisfied: "IsSatisfied b \<Longrightarrow> d \<noteq> [] \<Longrightarrow> async_scan fuel b d = None"
  by (induction fuel) (auto simp: Decode_satisfied)

lemma async_scan_overrun:
  assumes "small p" and "k < 5 + length p" and "d = drop k (make_message t p) @ rest" and "rest \<noteq> []"
  shows "async_scan fuel (take k (make_message t p)) d = None"
proof (cases fuel)
  case 0
  then show ?thesis using assms(4) by (simp add: assms(3))
next
  case (Suc n)
  have d: "d \<noteq> []" using assms(3,4) by simp
  have "Decode (take k (make_message t p)) d = Inr (make_message t p, 5 + length p - k)"
    using Decode_take [OF assms(1,2) d, of "5 + length p - k" t] assms(2,3) by simp
  then show ?thesis
    using Suc d assms(2,3,4) async_scan_satisfied [OF IsSatisfied_make_message [OF assms(1)] assms(4)]
    by simp
qed

end
