(* ===== verification/Transport.thy ===== *)
theory Transport
  imports Pull_Session Node_System
begin

text \<open>
  The transport of a node, \<open>node_keeper/src/gossip.h\<close> and \<open>gossip.cc\<close>: gossip over
  UDP, push and pull over TCP, and the io thread that hands what arrives to the
  registered handlers.

  The sockets are the parameter \<open>net\<close>: what the resolver, a connection and a write
  report. A \<open>system_error\<close> is its code. A resolution that succeeds has an endpoint, the one
  \<open>endpoints.begin()\<close> points to.
\<close>

section \<open>The network as the code sees it\<close>

record net =
  net_resolve :: "string \<Rightarrow> string \<Rightarrow> int + address list"
  net_send_to :: "address \<Rightarrow> payload \<Rightarrow> int option"
  net_connect :: "address list \<Rightarrow> int option"
  net_write_some :: "byte list \<Rightarrow> int + nat"

text \<open>The two values of \<open>asio::error::netdb_errors\<close> on Linux that \<open>ExtractError\<close> names.\<close>

definition host_not_found :: int where "host_not_found = 1"

definition host_not_found_try_again :: int where "host_not_found_try_again = 2"

definition ExtractError :: "int \<Rightarrow> gossip_code" where
  "ExtractError e =
     (if e = host_not_found \<or> e = host_not_found_try_again then kHostNotFound else kUnknown)"

section \<open>Sending\<close>

datatype send_action =
    SendSync address payload
  | SendAsync address payload
  | DidGossip gossip_code
  | TcpWrite "byte list"
  | DidPush gossip_code
  | PostDidPush gossip_code
  | PostDidPull gossip_code

text \<open>The loop of \<open>Gossip\<close>: what is sent, and the code of the error that ends it.\<close>

fun gossip_loop :: "net \<Rightarrow> bool \<Rightarrow> payload \<Rightarrow> address list \<Rightarrow> send_action list \<times> int option" where
  "gossip_loop net async p [] = ([], None)"
| "gossip_loop net async p (node # nodes) =
     (case net_resolve net (addr_host node) (to_string (unat (addr_port node))) of
        Inl ec \<Rightarrow> ([], Some ec)
      | Inr endpoints \<Rightarrow>
          let endpoint = hd endpoints in
          (if async then
             (case gossip_loop net async p nodes of (es, r) \<Rightarrow> (SendAsync endpoint p # es, r))
           else case net_send_to net endpoint p of
               Some ec \<Rightarrow> ([], Some ec)
             | None \<Rightarrow> (case gossip_loop net async p nodes of (es, r) \<Rightarrow> (SendSync endpoint p # es, r))))"

text \<open>With a callback every error goes to it and the result is \<open>kOK\<close>.\<close>

definition Gossip :: "net \<Rightarrow> bool \<Rightarrow> address list \<Rightarrow> payload \<Rightarrow> send_action list \<times> gossip_code" where
  "Gossip net did_gossip nodes p =
     (case gossip_loop net did_gossip p nodes of
        (es, None) \<Rightarrow> (es, kOK)
      | (es, Some ec) \<Rightarrow>
          (if did_gossip then (es @ [DidGossip (ExtractError ec)], kOK) else (es, ExtractError ec)))"

text \<open>The completion handler of an asynchronous send.\<close>

definition did_send :: "bool \<Rightarrow> send_action" where
  "did_send failed = DidGossip (if failed then kUnknown else kOK)"

definition push_error :: "bool \<Rightarrow> int \<Rightarrow> send_action list \<times> gossip_code" where
  "push_error did_push ec =
     (if did_push then ([PostDidPush (ExtractError ec)], kOK) else ([], ExtractError ec))"

definition TransportPush :: "net \<Rightarrow> bool \<Rightarrow> address \<Rightarrow> byte list \<Rightarrow> send_action list \<times> gossip_code" where
  "TransportPush net did_push node data =
     (case net_resolve net (addr_host node) (to_string (unat (addr_port node))) of
        Inl ec \<Rightarrow> push_error did_push ec
      | Inr endpoints \<Rightarrow>
          (case net_connect net endpoints of
             Some ec \<Rightarrow> push_error did_push ec
           | None \<Rightarrow>
               let buffer = make_message kPush data in
               (if did_push then ([TcpWrite buffer], kOK)
                else case net_write_some net buffer of
                    Inl ec \<Rightarrow> push_error did_push ec
                  | Inr sent \<Rightarrow> ([TcpWrite (take sent buffer)],
                      if sent = length buffer then kOK else kUnknown))))"

text \<open>The completion handler of an asynchronous push reports success whatever happened.\<close>

definition did_write :: "int option \<Rightarrow> send_action" where
  "did_write error = DidPush kOK"

section \<open>Pulling\<close>

text \<open>
  The sessions in flight, \<open>pull_sessions_\<close>, as identifiers: a session is listed while
  its callback is alive and the destructor of \<open>guard\<close> removes it. The constructor of the
  session resolves and connects.
\<close>

definition open_session :: "net \<Rightarrow> address \<Rightarrow> int option" where
  "open_session net node =
     (case net_resolve net (addr_host node) (to_string (unat (addr_port node))) of
        Inl ec \<Rightarrow> Some ec
      | Inr endpoints \<Rightarrow> net_connect net endpoints)"

definition PullSync :: "net \<Rightarrow> address \<Rightarrow> byte list \<Rightarrow> byte list list \<Rightarrow> (cpp_exn + pull_result) option" where
  "PullSync net node data chunks =
     (case open_session net node of
        Some ec \<Rightarrow> Some (Inr (ExtractError ec, []))
      | None \<Rightarrow>
          (case net_write_some net (request_bytes data) of
             Inl ec \<Rightarrow> Some (Inr (ExtractError ec, []))
           | Inr sent \<Rightarrow> RequestSync (request_bytes data) sent chunks))"

definition PullAsync ::
  "net \<Rightarrow> address \<Rightarrow> byte list \<Rightarrow> nat \<Rightarrow> nat list \<Rightarrow> nat list \<times> send_action list \<times> gossip_code" where
  "PullAsync net node data session sessions =
     (case open_session net node of
        Some ec \<Rightarrow> (sessions, [PostDidPull (ExtractError ec)], kOK)
      | None \<Rightarrow> (sessions @ [session], [TcpWrite (request_bytes data)], kUnknown))"

definition release_session :: "nat \<Rightarrow> nat list \<Rightarrow> nat list" where
  "release_session session sessions = erase_first session sessions"

text \<open>The sessions \<open>CancelAllSessions\<close> closes: those listed that still exist.\<close>

definition CancelAllSessions :: "(nat \<Rightarrow> bool) \<Rightarrow> nat list \<Rightarrow> nat list" where
  "CancelAllSessions alive sessions = filter alive sessions"

section \<open>Receiving\<close>

text \<open>
  The handlers registered with the transport, over a state \<open>'s\<close>. A missing one is an
  empty \<open>std::function\<close>.
\<close>

record 's handlers =
  on_gossip :: "(address \<Rightarrow> payload \<Rightarrow> 's act) option"
  on_push :: "(address \<Rightarrow> byte list \<Rightarrow> 's act) option"
  on_pull :: "(address \<Rightarrow> byte list \<Rightarrow> 's \<Rightarrow> 's \<times> byte list) option"

definition new_handlers :: "'s handlers" where
  "new_handlers = \<lparr>on_gossip = None, on_push = None, on_pull = None\<rparr>"

definition RegisterGossipHandler :: "(address \<Rightarrow> payload \<Rightarrow> 's act) \<Rightarrow> 's handlers \<Rightarrow> 's handlers" where
  "RegisterGossipHandler f h = h\<lparr>on_gossip := Some f\<rparr>"

definition RegisterPushHandler :: "(address \<Rightarrow> byte list \<Rightarrow> 's act) \<Rightarrow> 's handlers \<Rightarrow> 's handlers" where
  "RegisterPushHandler f h = h\<lparr>on_push := Some f\<rparr>"

definition RegisterPullHandler ::
  "(address \<Rightarrow> byte list \<Rightarrow> 's \<Rightarrow> 's \<times> byte list) \<Rightarrow> 's handlers \<Rightarrow> 's handlers" where
  "RegisterPullHandler f h = h\<lparr>on_pull := Some f\<rparr>"

text \<open>
  The completion handler of \<open>StartReceiveGossip\<close>: an error ends the receiving, a datagram
  is cut to the buffer. The result says whether another receive is started.
\<close>

definition received_gossip ::
  "'s handlers \<Rightarrow> bool \<Rightarrow> address \<Rightarrow> byte list \<Rightarrow> 's \<Rightarrow> 's \<times> cpp_exn option \<times> bool" where
  "received_gossip h error remote datagram s =
     (if error then (s, None, False)
      else case on_gossip h of
        None \<Rightarrow> (s, None, True)
      | Some f \<Rightarrow>
          (case mk_payload (take kMaxPayloadSize datagram) of
             Inl e \<Rightarrow> (s, Some e, False)
           | Inr p \<Rightarrow> (case f remote p s of
                 (s', None) \<Rightarrow> (s', None, True)
               | (s', Some e) \<Rightarrow> (s', Some e, False))))"

text \<open>
  \<open>OnPull\<close> and the function \<open>on_receive\<close> of \<open>StartAccept\<close>: the state, the bytes handed
  to \<open>write_some\<close> and the exception, if any.
\<close>

definition OnPull :: "'s handlers \<Rightarrow> address \<Rightarrow> byte list \<Rightarrow> 's \<Rightarrow> 's \<times> byte list \<times> cpp_exn option" where
  "OnPull h remote request s =
     (case on_pull h of
        None \<Rightarrow> (s, [], Some BadFunctionCall)
      | Some f \<Rightarrow> (case f remote request s of (s', response) \<Rightarrow> (s', make_message kPullResponse response, None)))"

definition on_receive :: "'s handlers \<Rightarrow> address \<Rightarrow> byte list \<Rightarrow> 's \<Rightarrow> 's \<times> byte list \<times> cpp_exn option" where
  "on_receive h remote message s =
     (let buffer = msg_Data message in
      if msg_Type message = type_code kPush then
        (case on_push h of
           None \<Rightarrow> (s, [], Some BadFunctionCall)
         | Some f \<Rightarrow> (case f remote buffer s of (s', x) \<Rightarrow> (s', [], x)))
      else if msg_Type message = type_code kPull then OnPull h remote buffer s
      else (s, [], None))"

fun serve_messages :: "'s handlers \<Rightarrow> address \<Rightarrow> byte list list \<Rightarrow> 's \<Rightarrow> 's \<times> byte list \<times> cpp_exn option" where
  "serve_messages h remote [] s = (s, [], None)"
| "serve_messages h remote (m # ms) s =
     (case on_receive h remote m s of
        (s', out, Some e) \<Rightarrow> (s', out, Some e)
      | (s', out, None) \<Rightarrow> (case serve_messages h remote ms s' of (s'', out', x) \<Rightarrow> (s'', out @ out', x)))"

text \<open>
  A connection: the chunks it delivers are decoded and each message is served. An
  exception of the decoder comes after the messages before it are served.
\<close>

definition serve_connection ::
  "'s handlers \<Rightarrow> address \<Rightarrow> read_result list \<Rightarrow> 's \<Rightarrow> 's \<times> byte list \<times> cpp_exn option" where
  "serve_connection h remote reads s =
     (case connection_run [] reads of
        (ms, r) \<Rightarrow>
          (case serve_messages h remote ms s of
             (s', out, None) \<Rightarrow> (s', out, (case r of Inl e \<Rightarrow> Some e | Inr _ \<Rightarrow> None))
           | res \<Rightarrow> res))"

text \<open>
  \<open>IORoutine\<close>: the completion handlers run one after the other; an exception of one
  leaves \<open>run()\<close>, is swallowed, and the thread ends. The flag says whether it still runs.
\<close>

definition IORoutine :: "'s act list \<Rightarrow> 's \<Rightarrow> 's \<times> bool" where
  "IORoutine completions s = (case run_acts completions s of (s', x) \<Rightarrow> (s', x = None))"

section \<open>Laws\<close>

text \<open>Errors of a gossip go to the callback if there is one and to the caller if not.\<close>

lemma gossip_loop_all:
  assumes "\<forall>n\<in>set nodes. net_resolve net (addr_host n) (to_string (unat (addr_port n))) = Inr (f n)"
    and "\<not> async \<Longrightarrow> \<forall>e. net_send_to net e p = None"
  shows "gossip_loop net async p nodes =
    (map (\<lambda>n. (if async then SendAsync else SendSync) (hd (f n)) p) nodes, None)"
  using assms by (induction nodes) (auto simp: Let_def)

lemma Gossip_result_async: "snd (Gossip net True nodes p) = kOK"
  by (cases "gossip_loop net True p nodes") (auto simp: Gossip_def split: option.splits)

lemma Gossip_unresolved:
  assumes "net_resolve net (addr_host a) (to_string (unat (addr_port a))) = Inl host_not_found"
  shows "Gossip net False (a # as) p = ([], kHostNotFound)"
    and "Gossip net True (a # as) p = ([DidGossip kHostNotFound], kOK)"
  using assms by (simp_all add: Gossip_def ExtractError_def)

lemma received_gossip_small:
  assumes "\<And>a p s. length p \<le> kMaxPayloadSize \<Longrightarrow> P s \<Longrightarrow> P (fst (f a p s))"
    and "on_gossip h = Some f" and "P s"
  shows "P (fst (received_gossip h error remote datagram s))"
  using assms(1) [of "take kMaxPayloadSize datagram" s remote] assms(2,3)
  by (cases "f remote (take kMaxPayloadSize datagram) s")
    (auto simp: received_gossip_def mk_payload_def split: option.splits)

lemma received_gossip_no_payload_error:
  "on_gossip h = Some f \<Longrightarrow> received_gossip h False remote datagram s =
    (case f remote (take kMaxPayloadSize datagram) s of
       (s', None) \<Rightarrow> (s', None, True) | (s', Some e) \<Rightarrow> (s', Some e, False))"
  by (simp add: received_gossip_def mk_payload_def)

text \<open>One whole message through a connection, however its bytes are cut.\<close>

lemma serve_connection_one:
  assumes "small p" and "concat chunks = make_message t p"
  shows "serve_connection h remote (map ReadBytes chunks) s =
    (case on_receive h remote (make_message t p) s of
       (s', out, Some e) \<Rightarrow> (s', out, Some e) | (s', out, None) \<Rightarrow> (s', out, None))"
proof -
  have "connection_run (take 0 (encode_all [(t, p)])) (map ReadBytes chunks) =
      (map (\<lambda>(t, p). make_message t p) [(t, p)], Inr [])"
    by (rule connection_run_stream) (use assms in \<open>auto simp: encode_all_def within_first_0\<close>)
  then have run: "connection_run [] (map ReadBytes chunks) = ([make_message t p], Inr [])" by simp
  show ?thesis
    by (cases "on_receive h remote (make_message t p) s")
      (auto simp: serve_connection_def run split: option.splits)
qed

lemma serve_pull:
  assumes "small request" and "concat chunks = request_bytes request"
    and "on_pull h = Some f" and "f remote request s = (s', response)"
  shows "serve_connection h remote (map ReadBytes chunks) s =
    (s', make_message kPullResponse response, None)"
proof -
  have "on_receive h remote (make_message kPull request) s =
      (s', make_message kPullResponse response, None)"
    using assms(3,4)
    by (simp add: on_receive_def OnPull_def msg_Data_make_message msg_Type_make_message Let_def)
  then show ?thesis
    using serve_connection_one [OF assms(1), of chunks kPull h remote s] assms(2)
    by (simp add: request_bytes_def)
qed

lemma serve_push:
  assumes "small data" and "concat chunks = make_message kPush data" and "on_push h = Some f"
  shows "fst (serve_connection h remote (map ReadBytes chunks) s) = fst (f remote data s)"
    and "fst (snd (serve_connection h remote (map ReadBytes chunks) s)) = []"
proof -
  have "on_receive h remote (make_message kPush data) s = (case f remote data s of (s', x) \<Rightarrow> (s', [], x))"
    using assms(3)
    by (simp add: on_receive_def msg_Data_make_message msg_Type_make_message Let_def)
  then have "serve_connection h remote (map ReadBytes chunks) s =
      (fst (f remote data s), [], snd (f remote data s))"
    using serve_connection_one [OF assms(1,2), of h remote s]
    by (cases "f remote data s") (auto split: option.splits)
  then show "fst (serve_connection h remote (map ReadBytes chunks) s) = fst (f remote data s)"
    and "fst (snd (serve_connection h remote (map ReadBytes chunks) s)) = []" by simp_all
qed

text \<open>A pull answered by a server arrives whole at the client.\<close>

lemma PullSync_answered:
  assumes "open_session net node = None"
    and "net_write_some net (request_bytes request) = Inr (length (request_bytes request))"
    and "small response" and "\<forall>c\<in>set chunks. c \<noteq> []"
    and "concat chunks = make_message kPullResponse response"
  shows "PullSync net node request chunks = Some (Inr (kOK, response))"
proof -
  have "ReadMessage (take 0 (make_message kPullResponse response)) chunks =
      Some (Inr (Some (make_message kPullResponse response)))"
    by (rule ReadMessage_stream [where rest = "[]"]) (use assms in auto)
  then show ?thesis
    using assms(1,2) by (simp add: PullSync_def RequestSync_def msg_Data_make_message)
qed

text \<open>Once a completion handler throws, nothing that arrives later is handled.\<close>

lemma run_acts_throw:
  "run_acts before s = (s1, None) \<Longrightarrow> a s1 = (s2, Some e) \<Longrightarrow> run_acts (before @ a # later) s = (s2, Some e)"
proof (induction before arbitrary: s)
  case Nil
  then show ?case by (simp add: then_do_def)
next
  case (Cons b bs)
  then show ?case by (cases "b s") (auto simp: then_do_def split: option.splits)
qed

lemma IORoutine_throw:
  assumes "run_acts before s = (s1, None)" and "a s1 = (s2, Some e)"
  shows "IORoutine (before @ a # later) s = (s2, False)"
  using run_acts_throw [of before s s1 a s2 e later, OF assms] by (simp add: IORoutine_def)

section \<open>The handlers of a node\<close>

text \<open>What \<open>Membership::Init\<close> registers.\<close>

definition node_handlers :: "wire \<Rightarrow> membership handlers" where
  "node_handlers W =
     RegisterPushHandler (HandlePush W)
       (RegisterPullHandler (HandlePull W) (RegisterGossipHandler (HandleGossip W) new_handlers))"

lemma node_handlers_simps [simp]:
  "on_gossip (node_handlers W) = Some (HandleGossip W)"
  "on_push (node_handlers W) = Some (HandlePush W)"
  "on_pull (node_handlers W) = Some (HandlePull W)"
  by (simp_all add: node_handlers_def RegisterPushHandler_def RegisterPullHandler_def
      RegisterGossipHandler_def)

text \<open>A connection whose first header announces 2 GiB or more throws in the decoder.\<close>

lemma serve_connection_oversized:
  assumes "bit b0 7" and "b0 \<noteq> - 1"
  shows "serve_connection h remote [ReadBytes (b0 # b1 # b2 # b3 # t # rest)] s = (s, [], Some LengthError)"
proof -
  have "Decode [] (b0 # b1 # b2 # b3 # t # rest) = Inl LengthError"
    using oversized_header [OF assms, of b1 b2 b3 t rest]
    by (simp add: Decode_def IsHeaderOut_def frame_consts)
  then have "receive_chunk [] (b0 # b1 # b2 # b3 # t # rest) = ([], Inl LengthError)"
    by (subst receive_chunk.simps) simp
  then show ?thesis by (simp add: serve_connection_def)
qed

end
