(* ===== verification/Membership_Properties.thy ===== *)
theory Membership_Properties
  imports Sample_Node Transport "HOL-Library.Multiset"
begin

text \<open>
  The properties of the membership protocol: the invariants of a running node, the effect
  of each kind of gossip, the failure detector and its relayed pings, joining and leaving.
  Each is applied at the sample node after its statement.
\<close>

section \<open>Invariants of a running node\<close>

text \<open>
  C1: a node that has handled a gossip message does nothing when it handles it again: it
  neither changes a table nor queues the message a second time, so no message is spread
  twice and the flood it starts ends. The one exception is a down message about the node
  itself, which is no news and is passed on each time.
\<close>

theorem gossip_handled_once:
  assumes "tables_wf s" and "HandleGossip W a p s = (s', None)"
    and "IsDownMessage (par_update W p) \<longrightarrow> \<not> member_eq (update_GetMember (par_update W p)) (self_member s)"
  shows "HandleGossip W b p s' = (s', None)"
proof (cases "member_eq (update_GetMember (par_update W p)) (self_member s)")
  case False
  then show ?thesis by (rule HandleGossip_again [OF assms(1,2)])
next
  case True
  then have "\<not> IsDownMessage (par_update W p)" using assms(3) by blast
  then show ?thesis
    using assms(1,2) HandleUp_again HandleSuspect_again HandleRecovery_again handle_actor_again
    by (auto simp: HandleGossip_dispatch Let_def update_tests split: member_status.splits if_splits)
qed

theorem gossip_handled_once_witness:
  "\<exists>s'. HandleGossip (update_wire (InitAsDownMessage member_b 4)) address_b [] node_a = (s', None) \<and> s' \<noteq> node_a
     \<and> HandleGossip (update_wire (InitAsDownMessage member_b 4)) address_c [] s' = (s', None)"
proof -
  let ?W = "update_wire (InitAsDownMessage member_b 4)"
  have u: "update_GetMember (InitAsDownMessage member_b 4) = member_b" "IsDownMessage (InitAsDownMessage member_b 4)"
    by (simp_all add: InitAsDownMessage_def update_status_tests [where st = DOWN])
  have "IfBelongsToMembers member_b node_a" by (simp add: IfBelongsToMembers_def mfind_Cons)
  then obtain s' where s': "HandleGossip ?W address_b [] node_a = (s', None)" "mfind member_b (members s') = None"
    using HandleGossip_Down [of node_a ?W "[]" member_b 3 "TimedFunctorQueue 500" address_b] by (auto simp: u)
  have "HandleGossip ?W address_c [] s' = (s', None)"
    by (rule gossip_handled_once [OF _ s'(1)]) (simp_all add: u)
  moreover have "s' \<noteq> node_a" using s'(2) by (auto simp: mfind_Cons)
  ultimately show ?thesis using s'(1) by blast
qed



text \<open>
  C3: in every reachable state of a node whose failure detector is on, letting its worker
  thread run through its queue makes exactly one more round of failure detection: rounds
  are never lost and never pile up.
\<close>

theorem detector_always_armed:
  assumes "reachable W s" and "failure_detector_queue s = Some q"
  shows "snd (worker_run (steps_needed q) q) = [FailureDetect]"
proof -
  have q: "armed_once q"
    using node_inv_reachable [OF assms(1)] assms(2) by (simp add: node_inv_def detector_armed_def)
  then have "owed (fst (worker_run (steps_needed q) q)) = []"
    by (intro worker_run_pays) (simp_all add: armed_once_def)
  then show ?thesis using owed_run [of q "steps_needed q"] q by (simp add: armed_once_def)
qed

theorem detector_always_armed_witness:
  "\<exists>q. failure_detector_queue (initial (update_wire empty_update) 0 config_a) = Some q
     \<and> snd (worker_run (steps_needed q) q) = [FailureDetect]"
proof -
  have "\<not> c_failure_detector_off config_a" by (simp add: config_a_def AddOneSeedMember_def Config_def)
  then obtain q where q: "failure_detector_queue (initial (update_wire empty_update) 0 config_a) = Some q"
    using Init_success(7) [OF Init_config_a] by auto
  then show ?thesis using detector_always_armed [OF reachable_initial q] by blast
qed

text \<open>
  Every call the gossip worker of a reachable node still has to make is the
  dissemination of a payload of at most 65527 bytes, so building the datagram never throws
  on the worker thread.
\<close>

theorem queued_payloads_small:
  assumes "reachable W s" and "gossip_queue s = Some q" and "j \<in> set (owed q)"
  shows "\<exists>p. j = Disseminate p \<and> mk_payload p = Inr p"
proof -
  have "jobs_small q"
    using node_inv_reachable [OF assms(1)] assms(2) by (simp add: node_inv_def payloads_small_def)
  then have "job_small j"
    using assms(3) by (auto simp: jobs_small_def owed_def owed_now_def split: worker_pc.splits)
  then show ?thesis by (auto simp: job_small_def mk_payload_small split: job.splits)
qed

theorem queued_payloads_small_witness:
  "\<exists>q p. gossip_queue joined_node = Some q \<and> Disseminate p \<in> set (owed q) \<and> mk_payload p = Inr p"
proof -
  have "Disseminate [1] \<in> set (owed (Push (Disseminate [1]) 3 (TimedFunctorQueue 500)))"
    by (simp add: joined_node(3))
  from queued_payloads_small [OF joined_node(1,2) this] this show ?thesis
    using joined_node(2) by blast
qed

section \<open>What gossip does\<close>

lemma no_old_entry:
  assumes "\<forall>old i. mentry m t = Some (old, i) \<longrightarrow> m_uid old = m_uid m \<and> i < inc"
  shows "\<not> stale m t" and "mfind m t = Some i \<Longrightarrow> i < inc"
proof -
  show "\<not> stale m t"
  proof (cases "mentry m t")
    case (Some e)
    then show ?thesis using assms by (cases e) (simp add: stale_def)
  qed (simp add: stale_def)
  assume "mfind m t = Some i"
  then obtain old where "mentry m t = Some (old, i)" by (auto simp: map_find_def)
  then show "i < inc" using assms by blast
qed

text \<open>
  C5: an up message that is news, about a member the node does not know or knows under the
  same uid with a smaller incarnation, both among the members and among the suspects,
  makes the member known with the incarnation of the message, changes no other member and
  no other table, and queues the same payload, to be sent as often as the retransmission
  limit says.
\<close>

theorem up_gossip_effect:
  assumes "tables_wf s" and "members s \<noteq> []" and "limits_ok s" and "gossip_queue s = Some q"
    and "par_update W p = InitAsUpMessage m inc" and "\<not> member_eq m (self_member s)"
    and "\<forall>old i. mentry m (members s) = Some (old, i) \<longrightarrow> m_uid old = m_uid m \<and> i < inc"
    and "\<forall>old i. mentry m (suspects s) = Some (old, i) \<longrightarrow> m_uid old = m_uid m \<and> i < inc"
  shows "\<exists>s' n. HandleGossip W a p s = (s', None)
    \<and> (\<forall>k. mfind k (members s') = (if mkey k = mkey m then Some inc else mfind k (members s)))
    \<and> suspects s' = suspects s \<and> actor_systems s' = actor_systems s
    \<and> GetRetransmitLimit s = Inr n \<and> gossip_queue s' = Some (Push (Disseminate p) n q)"
proof -
  obtain n where n: "GetRetransmitLimit s = Inr n" using limit_defined [OF assms(3,2)] by auto
  have u: "IsUpMessage (par_update W p)" "m = update_GetMember (par_update W p)"
    "inc = GetIncarnation (par_update W p)" by (simp_all add: assms(5))
  have old: "IfBelongsToMembers m s \<longrightarrow> GetMemberLocalIncarnation m s < inc"
    "IfBelongsToSuspects m s \<longrightarrow> GetSuspectLocalIncarnation m s < inc"
    using no_old_entry(2) [OF assms(7)] no_old_entry(2) [OF assms(8)]
    by (auto simp: IfBelongsToMembers_def IfBelongsToSuspects_def GetMemberLocalIncarnation_def
        GetSuspectLocalIncarnation_def)
  show ?thesis
    using HandleGossip_Up [OF assms(1) u assms(6) no_old_entry(1) [OF assms(7)]
        no_old_entry(1) [OF assms(8)] old n assms(4), of a] n by blast
qed

lemma limits_node_a [simp]: "limits_ok node_a"
  by (simp add: limits_ok_def ceil_log10.simps)

lemma mentry_node_a: "mentry member_b (members node_a) = Some (member_b, 3)"
  by simp

theorem up_gossip_effect_witness:
  "\<exists>s'. HandleGossip (update_wire (InitAsUpMessage member_b 4)) address_b [9] node_a = (s', None)
    \<and> mfind member_b (members s') = Some 4 \<and> mfind member_c (members s') = Some 7
    \<and> gossip_queue s' = Some (Push (Disseminate [9]) 3 (TimedFunctorQueue 500))"
proof -
  have "par_update (update_wire (InitAsUpMessage member_b 4)) [9] = InitAsUpMessage member_b 4" by simp
  from up_gossip_effect [OF tables_wf_node_a _ limits_node_a node_a_simps(6) this, of address_b]
  obtain s' where s': "HandleGossip (update_wire (InitAsUpMessage member_b 4)) address_b [9] node_a = (s', None)"
    "\<forall>k. mfind k (members s') = (if mkey k = mkey member_b then Some 4 else mfind k (members node_a))"
    "gossip_queue s' = Some (Push (Disseminate [9]) 3 (TimedFunctorQueue 500))"
    by (auto simp: mentry_node_a)
  then show ?thesis by (intro exI [of _ s']) (simp add: mfind_Cons)
qed

definition merge_ups :: "(member \<times> u32) list \<Rightarrow> membership \<Rightarrow> membership" where
  "merge_ups us s = fold (\<lambda>(m, inc). MergeUpUpdate m inc) us s"

definition up_step :: "member \<Rightarrow> member \<times> u32 \<Rightarrow> u32 option \<Rightarrow> u32 option" where
  "up_step k u old = (if mkey k = mkey (fst u) then Some (newer old (snd u)) else old)"

lemma merge_ups_fold:
  "tables_wf s \<Longrightarrow> mfind k (members (merge_ups us s)) = fold (up_step k) us (mfind k (members s))"
proof (induction us arbitrary: s)
  case (Cons u us)
  obtain m inc where u: "u = (m, inc)" by (cases u)
  have "mfind k (members (MergeUpUpdate m inc s)) = up_step k u (mfind k (members s))"
    using MergeUpUpdate_members [OF Cons.prems, of k m inc] mfind_cong [of k m "members s"]
    by (auto simp: up_step_def u)
  then show ?case
    using Cons.IH [OF tables_wf_MergeUpUpdate [OF Cons.prems, of m inc]] by (simp add: merge_ups_def u)
qed (simp add: merge_ups_def)

text \<open>
  C6: up updates commute: whatever order a batch of them arrives in, the node ends with
  the same members at the same incarnations.
\<close>

theorem up_updates_any_order:
  assumes "tables_wf s" and "mset us = mset vs"
  shows "mfind k (members (merge_ups us s)) = mfind k (members (merge_ups vs s))"
proof -
  have "fold (up_step k) us = fold (up_step k) vs"
    by (rule fold_multiset_equiv [OF _ assms(2)])
      (auto simp: up_step_def fun_eq_iff intro: newer_absorb)
  then show ?thesis using assms(1) by (simp add: merge_ups_fold)
qed

theorem up_updates_any_order_witness:
  "mfind member_b (members (merge_ups [(member_b, 9), (member_b, 4), (member_c, 8)] node_a)) =
   mfind member_b (members (merge_ups [(member_b, 4), (member_c, 8), (member_b, 9)] node_a))
   \<and> mfind member_b (members (merge_ups [(member_b, 4), (member_c, 8), (member_b, 9)] node_a)) = Some 9"
  using up_updates_any_order [of node_a "[(member_b, 9), (member_b, 4), (member_c, 8)]"
      "[(member_b, 4), (member_c, 8), (member_b, 9)]" member_b]
  by (simp add: merge_ups_fold up_step_def newer_def mfind_Cons)

text \<open>
  C7: a down message removes its member from the members and the suspects and marks its
  actor system as down, whatever its incarnation, and is passed on; no other member is
  touched.
\<close>

theorem down_gossip_removes:
  assumes "tables_wf s" and "members s \<noteq> []" and "limits_ok s" and "gossip_queue s = Some q"
    and "par_update W p = InitAsDownMessage m inc" and "\<not> member_eq m (self_member s)"
    and "m' \<in> set (GetMembers s) \<union> set (GetSuspects s)" and "member_eq m' m"
  shows "\<exists>s' n. HandleGossip W a p s = (s', None)
    \<and> (\<forall>k. mfind k (members s') = (if mkey k = mkey m then None else mfind k (members s)))
    \<and> (\<forall>k. mfind k (suspects s') = (if mkey k = mkey m then None else mfind k (suspects s)))
    \<and> mfind m (actor_systems s') = Some False
    \<and> GetRetransmitLimit s = Inr n \<and> gossip_queue s' = Some (Push (Disseminate p) n q)"
proof -
  obtain n where n: "GetRetransmitLimit s = Inr n" using limit_defined [OF assms(3,2)] by auto
  have "mkey m \<in> mkey ` fst ` set (members s) \<or> mkey m \<in> mkey ` fst ` set (suspects s)"
    using assms(7,8) by (auto simp: GetMembers_def GetSuspects_def member_eq_key) (metis image_eqI fst_conv)+
  then have "IfBelongsToMembers m s \<or> IfBelongsToSuspects m s"
    by (simp only: IfBelongsToMembers_def IfBelongsToSuspects_def mfind_key)
  moreover have "IsDownMessage (par_update W p)" "m = update_GetMember (par_update W p)"
    by (simp_all add: assms(5))
  ultimately show ?thesis
    using HandleGossip_Down [OF assms(1) _ _ assms(6) _ n assms(4), of W p a] n by blast
qed

theorem down_gossip_removes_witness:
  "\<exists>s'. HandleGossip (update_wire (InitAsDownMessage member_b 0)) address_b [9] node_a = (s', None)
    \<and> mfind member_b (members s') = None \<and> mfind member_c (members s') = Some 7
    \<and> gossip_queue s' = Some (Push (Disseminate [9]) 3 (TimedFunctorQueue 500))"
proof -
  have u: "par_update (update_wire (InitAsDownMessage member_b 0)) [9] = InitAsDownMessage member_b 0"
    and b: "member_b \<in> set (GetMembers node_a) \<union> set (GetSuspects node_a)" by (simp_all add: GetMembers_def)
  obtain s' n where s': "HandleGossip (update_wire (InitAsDownMessage member_b 0)) address_b [9] node_a = (s', None)"
    "\<forall>k. mfind k (members s') = (if mkey k = mkey member_b then None else mfind k (members node_a))"
    "GetRetransmitLimit node_a = Inr n"
    "gossip_queue s' = Some (Push (Disseminate [9]) n (TimedFunctorQueue 500))"
    using down_gossip_removes [OF tables_wf_node_a _ limits_node_a node_a_simps(6) u _ b, of address_b] by auto
  then show ?thesis by (intro exI [of _ s']) (simp add: mfind_Cons)
qed

section \<open>Pings\<close>

lemma mfind_without_uid: "mfind k (map (\<lambda>(m, i). (without_uid m, i)) t) = mfind k t"
  by (induction t) (auto simp: mfind_Cons mfind_Nil)

text \<open>
  C8: a node that is pinged merges the member table of the node that pings it as a
  pointwise join: a member it does not know is taken over, of one both know the larger
  incarnation is kept (compared as signed numbers); it answers that the ping succeeded.
\<close>

theorem ping_merge_is_join:
  assumes "tables_wf s" and "tables_wf peer"
    and "par_request W d = InitAsPingType (members peer) (actor_systems peer) empty_request"
  shows "mfind k (members (fst (HandlePull W a d s))) =
      signed_join (mfind k (members s)) (mfind k (members peer))
    \<and> snd (HandlePull W a d s) = ser_response W (InitAsPingSuccess (self_member s))"
proof -
  have wf: "mwf (members peer)" using assms(2) by (rule tables_wfD)
  have "mwf (GetMembersWithIncarnation (par_request W d))"
    using wf by (simp add: assms(3) ping_members_roundtrip) (simp add: map_wf_def comp_def case_prod_beta)
  then show ?thesis
    using MergeMembers_members [OF assms(1)] wf
    by (simp add: HandlePull_def Let_def assms(3) ping_members_roundtrip mfind_without_uid)
qed

theorem ping_merge_is_join_witness:
  "mfind member_c (members (fst (HandlePull (one_message_wire empty_update empty_full_state
      (InitAsPingType [(member_a, 0), (member_c, 9)] [] empty_request) empty_response) address_b [3] node_a))) = Some 9
   \<and> mfind member_b (members (fst (HandlePull (one_message_wire empty_update empty_full_state
      (InitAsPingType [(member_a, 0), (member_c, 9)] [] empty_request) empty_response) address_b [3] node_a))) = Some 3"
proof -
  let ?peer = "node_a\<lparr>members := [(member_a, 0), (member_c, 9)]\<rparr>"
  have "tables_wf ?peer" by (simp add: tables_wf_def map_wf_def)
  note j = ping_merge_is_join [OF tables_wf_node_a this, of "one_message_wire empty_update empty_full_state
      (InitAsPingType [(member_a, 0), (member_c, 9)] [] empty_request) empty_response" "[3]" _ address_b]
  show ?thesis using j [of member_c] j [of member_b] by (simp add: mfind_Cons signed_join_def)
qed

text \<open>
  C9: when the ping of a member fails and relayed pings are off, the member leaves the
  table of members for that of the suspects with its incarnation, its actor system counts
  as down, and the suspicion is queued as gossip.
\<close>

theorem failed_ping_suspects:
  assumes "suspectable W t i s" and "gossip_queue s = Some q" and "\<not> is_relay_ping_enabled s" and "c \<noteq> kOK"
  shows "\<exists>s' n. did_pull W pick (PingReply t) (c, d) s = (s', None)
    \<and> mfind t (members s') = None \<and> mfind t (suspects s') = Some i
    \<and> mfind t (actor_systems s') = Some False \<and> GetRetransmitLimit s' = Inr n
    \<and> gossip_queue s' = Some (Push (Disseminate (ser_update W (InitAsSuspectMessage t i))) n q)"
proof -
  have b: "IfBelongsToMembers t s" and i: "GetMemberLocalIncarnation t s = i" and wf: "tables_wf s"
    using assms(1) by (simp_all add: suspectable_def IfBelongsToMembers_def GetMemberLocalIncarnation_def)
  obtain s' n where s': "Suspect W t i s = (s', None)" "GetRetransmitLimit s' = Inr n"
    "gossip_queue s' = Some (Push (Disseminate (ser_update W (InitAsSuspectMessage t i))) n q)"
    using Suspect_runs [of t s i q W i] assms(1,2) by (auto simp: suspectable_def)
  moreover have "did_pull W pick (PingReply t) (c, d) s = Suspect W t i s"
    using assms(3,4) b i by simp
  ultimately show ?thesis using Suspect_member(1-3) [OF s'(1) wf b, of t] by auto
qed

lemma suspectable_node_a: "suspectable (update_wire u) member_b 3 node_a"
  by (simp add: suspectable_def mfind_Cons kMaxPayloadSize_def)

theorem failed_ping_suspects_witness:
  "\<exists>s'. did_pull (update_wire empty_update) 0 (PingReply member_b) (kHostNotFound, []) node_a = (s', None)
     \<and> mfind member_b (members s') = None \<and> mfind member_b (suspects s') = Some 3"
  using failed_ping_suspects [OF suspectable_node_a [of empty_update] node_a_simps(6) node_a_simps(8),
      of kHostNotFound 0 "[]"] by blast

text \<open>
  C10: a suspicion is taken back by the next ping that is answered: after a failed and a
  successful ping of a member that was no suspect, members and suspects are what they were
  before; only its actor system still counts as down.
\<close>

theorem suspect_then_recover:
  assumes "suspectable W t i s" and "mfind t (suspects s) = None" and "\<not> is_relay_ping_enabled s"
    and "c \<noteq> kOK" and "length (ser_update W (InitAsRecoveryMessage t i)) \<le> kMaxPayloadSize"
  shows "\<exists>s1 s2. did_pull W pick (PingReply t) (c, d) s = (s1, None)
    \<and> did_pull W pick' (PingReply t) (kOK, d') s1 = (s2, None)
    \<and> (\<forall>k. mfind k (members s2) = mfind k (members s)) \<and> (\<forall>k. mfind k (suspects s2) = mfind k (suspects s))
    \<and> mfind t (actor_systems s2) = Some False"
proof -
  have b: "IfBelongsToMembers t s" and i: "GetMemberLocalIncarnation t s = i" and wf: "tables_wf s"
    and m: "mfind t (members s) = Some i"
    using assms(1) by (simp_all add: suspectable_def IfBelongsToMembers_def GetMemberLocalIncarnation_def)
  obtain q where q: "gossip_queue s = Some q" using assms(1) by (auto simp: suspectable_def)
  obtain s1 q1 where s1: "Suspect W t i s = (s1, None)" "gossip_queue s1 = Some q1"
    "length (members s1) = length (members s) - 1" "retransmit_multiplier s1 = retransmit_multiplier s"
    using Suspect_runs [of t s i q W i] assms(1) q by (auto simp: suspectable_def)
  have sus: "mfind t (suspects s1) = Some i" using Suspect_member(2) [OF s1(1) wf b, of t] by simp
  have "limits_ok s1"
  proof -
    have "int (ceil_log10 (Suc (length (members s1)))) \<le> int (ceil_log10 (Suc (length (members s))))"
      using ceil_log10_mono [of "Suc (length (members s1))" "Suc (length (members s))"] s1(3) by simp
    then have "retransmit_multiplier s * int (ceil_log10 (Suc (length (members s1)))) \<le>
        retransmit_multiplier s * int (ceil_log10 (Suc (length (members s))))"
      using assms(1) by (intro mult_left_mono) (auto simp: suspectable_def limits_ok_def)
    then show ?thesis using assms(1) s1(4) by (simp add: suspectable_def limits_ok_def)
  qed
  from RecoverySuspect_runs [OF this s1(2) sus assms(5)]
  obtain s2 where s2: "RecoverySuspect W t s1 = (s2, None)" by blast
  have "did_pull W pick (PingReply t) (c, d) s = (s1, None)" using assms(3,4) b i s1(1) by simp
  moreover have "did_pull W pick' (PingReply t) (kOK, d') s1 = (s2, None)"
    using s2 sus by (simp add: IfBelongsToSuspects_def)
  ultimately show ?thesis using Suspect_Recovery [OF s1(1) s2 wf m assms(2)] by blast
qed

theorem suspect_then_recover_witness:
  "\<exists>s1 s2. did_pull (update_wire empty_update) 0 (PingReply member_b) (kUnknown, []) node_a = (s1, None)
    \<and> did_pull (update_wire empty_update) 0 (PingReply member_b) (kOK, [4]) s1 = (s2, None)
    \<and> mfind member_b (members s2) = Some 3"
proof -
  have "mfind member_b (suspects node_a) = None"
    "length (ser_update (update_wire empty_update) (InitAsRecoveryMessage member_b 3)) \<le> kMaxPayloadSize"
    "mfind member_b (members node_a) = Some 3"
    by (simp_all add: mfind_Nil mfind_Cons kMaxPayloadSize_def)
  then show ?thesis
    using suspect_then_recover [OF suspectable_node_a [of empty_update] _ node_a_simps(8), of kUnknown 0 "[]" 0 "[4]"]
    by (metis gossip_code.distinct(1))
qed

text \<open>
  C11: a relayed ping ends. When the ping of a member fails and so does every ping through
  another member in turn, the node has asked each member at most once when it gives up and
  suspects the target: after as many rounds as it has members, and one.
\<close>

theorem relay_chain_suspects:
  assumes "suspectable W t i s" and "is_relay_ping_enabled s"
  shows "\<exists>s'. failing_pulls W (Suc (length (members s))) (PingReply t) s = Some (s', None)
    \<and> mfind t (members s') = None \<and> mfind t (suspects s') = Some i"
proof -
  let ?excluded = "mput t () (mput (self_member s) () [])"
  have b: "IfBelongsToMembers t s" using assms(1) by (simp add: suspectable_def IfBelongsToMembers_def)
  have start: "did_pull W 0 (PingReply t) (kUnknown, []) s = RelayPing W t ?excluded s"
    using b assms(2) by simp
  have "mwf ?excluded" by (intro map_wf_put) simp
  then show ?thesis by (rule failing_relays_suspect [OF start _ candidates_le assms(1)])
qed

theorem relay_chain_suspects_witness:
  "\<exists>s'. failing_pulls (update_wire empty_update) 4 (PingReply member_b)
       (node_a\<lparr>is_relay_ping_enabled := True\<rparr>) = Some (s', None)
     \<and> mfind member_b (members s') = None \<and> mfind member_b (suspects s') = Some 3"
proof -
  have "suspectable (update_wire empty_update) member_b 3 (node_a\<lparr>is_relay_ping_enabled := True\<rparr>)"
    using suspectable_node_a [of empty_update] by (simp add: suspectable_def tables_wf_def limits_ok_def)
  from relay_chain_suspects [OF this] show ?thesis by (simp add: eval_nat_numeral del: failing_pulls.simps)
qed

text \<open>
  C12: a node that is asked to relay a ping pings the target, answers at once that it has
  the request, and when the ping fails pushes the failure back to the node that asked. That
  push, in whatever pieces it arrives, makes the node that asked suspect the target.
\<close>

theorem relay_failure_suspects:
  assumes "par_request W d = InitAsPingRelayType (self_member s) t empty_request"
    and "has_transport relay" and "c \<noteq> kOK" and "suspectable W t i s"
    and "par_response W (ser_response W (InitAsPingFailure t)) = InitAsPingFailure t"
    and "small (ser_response W (InitAsPingFailure t))"
    and "concat chunks = make_message kPush (ser_response W (InitAsPingFailure t))"
    and "length (ser_update W (InitAsSuspectMessage (response_GetMember (InitAsPingFailure t)) i)) \<le> kMaxPayloadSize"
  shows "\<exists>relay1 ping target relay2.
      HandlePull W sender d relay = (relay1, ser_response W InitAsPingReceived)
    \<and> effects relay1 = effects relay @ [SendPull (member_address t) ping
        (RelayedPing (member_address (self_member s)) target)]
    \<and> did_pull W pick (RelayedPing (member_address (self_member s)) target) (c, []) relay1 = (relay2, None)
    \<and> effects relay2 = effects relay1 @ [SendPush (member_address (self_member s)) (ser_response W (InitAsPingFailure t))]
    \<and> mfind t (members (fst (serve_connection (node_handlers W) remote (map ReadBytes chunks) s))) = None
    \<and> mfind t (suspects (fst (serve_connection (node_handlers W) remote (map ReadBytes chunks) s))) = Some i"
proof -
  let ?t = "Member (m_node_name t) (m_ip_address t) (m_port t) [] [] []"
  let ?self = "member_address (self_member s)"
  let ?push = "ser_response W (InitAsPingFailure t)"
  have failure: "InitAsPingFailure ?t = InitAsPingFailure t" by (simp add: InitAsPingFailure_def)
  have k: "mkey ?t = mkey t" by (simp add: mkey_def)
  have target: "response_GetMember (InitAsPingFailure t) = ?t" by simp
  have "suspectable W ?t i s"
    using assms(4,8) mfind_cong [OF k, of "members s"] by (simp add: suspectable_def)
  then obtain s' where s': "Suspect W ?t i s = (s', None)" "mfind ?t (members s') = None"
    "mfind ?t (suspects s') = Some i" by (rule suspectable_Suspect)
  have "GetMemberLocalIncarnation ?t s = i"
    using assms(4) mfind_cong [OF k, of "members s"] by (simp add: suspectable_def GetMemberLocalIncarnation_def)
  then have "HandlePush W remote ?push s = (s', None)"
    using s'(1) by (simp add: HandlePush_def Let_def assms(5) target)
  then have served: "fst (serve_connection (node_handlers W) remote (map ReadBytes chunks) s) = s'"
    using serve_push(1) [OF assms(6,7), of "node_handlers W" "HandlePush W" remote s] by simp
  have "mfind t (members s') = None" "mfind t (suspects s') = Some i"
    using s'(2,3) mfind_cong [OF k, of "members s'"] mfind_cong [OF k, of "suspects s'"] by simp_all
  moreover have "HandlePull W sender d relay =
      (emit (SendPull (member_address t) (ser_request W (InitAsPingType_bare empty_request)) (RelayedPing ?self ?t)) relay,
       ser_response W InitAsPingReceived)"
    using assms(2)
    by (simp add: HandlePull_def Let_def assms(1) IsFullStateType_def request_type_def relay_request_fields
        member_address_def InitAsPingRelayType_def [of _ _ empty_request] IsPingType_def IsPingRelayType_def
        request_GetName_def request_GetIpAddress_def request_GetPort_def request_GetSelfIpAddress_def
        request_GetSelfPort_def)
  ultimately show ?thesis
    using assms(2,3) served failure by (intro exI conjI) (assumption | simp)+
qed

theorem relay_failure_suspects_witness:
  "mfind member_b (members (fst (serve_connection (node_handlers (one_message_wire empty_update empty_full_state
      (InitAsPingRelayType member_a member_b empty_request) (InitAsPingFailure member_b)))
      address_c (map ReadBytes [make_message kPush [4]]) node_a))) = None"
proof -
  let ?W = "one_message_wire empty_update empty_full_state
      (InitAsPingRelayType member_a member_b empty_request) (InitAsPingFailure member_b)"
  have "suspectable ?W member_b 3 node_a"
    using suspectable_node_a [of empty_update] by (simp add: suspectable_def)
  moreover have "par_request ?W [3] = InitAsPingRelayType (self_member node_a) member_b empty_request"
    "par_response ?W (ser_response ?W (InitAsPingFailure member_b)) = InitAsPingFailure member_b"
    "small (ser_response ?W (InitAsPingFailure member_b))"
    "concat [make_message kPush [4]] = make_message kPush (ser_response ?W (InitAsPingFailure member_b))"
    "length (ser_update ?W (InitAsSuspectMessage (response_GetMember (InitAsPingFailure member_b)) 3)) \<le> kMaxPayloadSize"
    by (simp_all add: small_def kMaxPayloadSize_def)
  ultimately show ?thesis
    using relay_failure_suspects [of ?W "[3]" node_a member_b node_a kUnknown 3 "[make_message kPush [4]]" _ 0 address_c]
    by (metis node_a_simps(5) gossip_code.distinct(1))
qed

text \<open>
  C13: the failure detector of a reachable node that knows anyone else always has a target:
  the random choice is defined whatever the draw, and it is another member or a suspect.
\<close>

theorem ping_target_defined:
  assumes "reachable W s" and "1 < length (GetMembers s) + length (GetSuspects s)"
  shows "\<exists>m. GetRandomPingTarget pick s = Inr (True, m)
    \<and> (m \<in> set (GetMembers s) \<and> \<not> member_eq m (self_member s) \<or> m \<in> set (GetSuspects s))"
proof -
  have "mwf (members s)"
    using node_inv_reachable [OF assms(1)] by (simp add: node_inv_def tables_wf_def)
  from GetRandomPingTarget_defined [OF this, of pick] show ?thesis
    using assms(2) by (auto simp: others_def GetMembers_def GetSuspects_def)
qed

theorem ping_target_defined_witness:
  "\<exists>m. GetRandomPingTarget 5 joined_node = Inr (True, m)"
proof -
  have "1 < length (GetMembers joined_node) + length (GetSuspects joined_node)"
    by (simp add: joined_node(4) GetMembers_def)
  then show ?thesis using ping_target_defined [OF joined_node(1), of 5] by blast
qed

section \<open>Joining and leaving\<close>

text \<open>
  C14: joining through a seed. The seed's answer to a full state request, read by the node
  that joins, makes every member of the seed a member of the node; members it already has
  keep their incarnation, new ones start at 0, and the actor system of each is up exactly
  when the seed has it up.
\<close>

theorem join_learns_members:
  assumes "tables_wf seed" and "tables_wf s" and "IsFullStateType (par_request W request)"
    and "HandlePull W a request seed = (seed', answer)"
    and "par_full W (ser_full W (full_state_answer seed)) = full_state_answer seed"
    and "did_pull W pick (SeedPull b) (kOK, answer) s = (s', None)"
  shows "seed' = seed \<and> mfind k (members s') = (if mfind k (members s) = None \<and> mfind k (members seed) \<noteq> None
           then Some 0 else mfind k (members s))
    \<and> (m \<in> set (GetMembers seed) \<longrightarrow>
         mfind m (members s') \<noteq> None \<and> mfind m (actor_systems s') = Some (mfind m (actor_systems seed) = Some True))"
proof -
  have ans: "seed' = seed" "answer = ser_full W (full_state_answer seed)"
    using HandlePull_full [OF assms(3), of a seed] assms(4) by simp_all
  then have "par_full W answer = full_state_answer seed" by (simp add: assms(5))
  moreover have "HandleDidPull W (kOK, answer) s = (s', None)" using assms(6) by simp
  ultimately have j: "\<And>k. mfind k (members s') = (if mfind k (members s) = None \<and> mfind k (members seed) \<noteq> None
           then Some 0 else mfind k (members s))"
    "\<And>m. m \<in> set (GetMembers seed) \<Longrightarrow>
       mfind m (actor_systems s') = Some (mfind m (actor_systems seed) = Some True)"
    using join_tables [OF assms(1,2)] by blast+
  have "m \<in> set (GetMembers seed) \<Longrightarrow> mfind m (members seed) \<noteq> None"
    unfolding mfind_key by (auto simp: GetMembers_def)
  then show ?thesis using j ans(1) by auto
qed

theorem join_learns_members_witness:
  "\<exists>answer s'. HandlePull seed_wire address_b [3] node_a = (node_a, answer)
    \<and> did_pull seed_wire 0 (SeedPull address_c) (kOK, answer) (before_pull config_a) = (s', None)
    \<and> mfind member_c (members s') = Some 0 \<and> mfind member_c (actor_systems s') = Some False"
proof -
  have f: "IsFullStateType (par_request seed_wire [3])"
    by (simp add: seed_wire_def IsFullStateType_def request_type_def empty_request_def)
  have rt: "par_full seed_wire (ser_full seed_wire (full_state_answer node_a)) = full_state_answer node_a"
    by (simp add: seed_wire_def)
  have p: "HandlePull seed_wire address_b [3] node_a = (node_a, [2])"
    using HandlePull_full [OF f, of address_b node_a] by (simp add: seed_wire_def)
  have wf: "tables_wf (before_pull config_a)" by (simp add: tables_wf_def map_wf_def)
  obtain s' where d: "did_pull seed_wire 0 (SeedPull address_c) (kOK, [2]) (before_pull config_a) = (s', None)"
    using seed_answer_handled by blast
  have c: "mfind member_c (members (before_pull config_a)) = None"
    by (simp add: config_a_def AddOneSeedMember_def Config_def mfind_Cons mfind_Nil)
  have "member_c \<in> set (GetMembers node_a)" by (simp add: GetMembers_def)
  then show ?thesis
    using join_learns_members [OF tables_wf_node_a wf f p rt d, of member_c member_c] p d c
    by (auto simp: mfind_Cons mfind_Nil)
qed

text \<open>
  C15: leaving. A node that is not alone raises its incarnation and sends a down message
  about itself under that incarnation to every other member, as often as the
  retransmission limit says; a node that is alone sends nothing.
\<close>

theorem leave_notifies_everyone:
  assumes "has_transport s" and "limits_ok s"
    and "length (ser_update W (InitAsDownMessage (self_member s) (incarnation s + 1))) \<le> kMaxPayloadSize"
  shows "\<exists>n s'. NotifyLeave W s = (s', None)
    \<and> (if length (members s) \<le> 1 then s' = s
       else GetRetransmitLimit s = Inr n \<and> incarnation s' = incarnation s + 1
         \<and> effects s' = effects s @ replicate (nat n)
             (SendGossipTo (map member_address (filter (\<lambda>m. \<not> member_eq m (self_member s)) (GetMembers s)))
                (ser_update W (InitAsDownMessage (self_member s) (incarnation s + 1)))))"
proof (cases "1 < length (members s)")
  case True
  then have ne: "members s \<noteq> []" by auto
  obtain n where n: "GetRetransmitLimit s = Inr n" using limit_defined [OF assms(2) ne] by auto
  show ?thesis
    using NotifyLeave_effects [OF True assms(1) n refl assms(3)] True n
    by (simp add: GetAllMemberAddress_def others_def GetMembers_def)
qed (simp add: NotifyLeave_def)

theorem leave_notifies_everyone_witness:
  "\<exists>s'. NotifyLeave (update_wire empty_update) node_a = (s', None)
    \<and> effects s' = replicate 3 (SendGossipTo [member_address member_b, member_address member_c] [1])"
proof -
  have "length (ser_update (update_wire empty_update)
      (InitAsDownMessage (self_member node_a) (incarnation node_a + 1))) \<le> kMaxPayloadSize"
    by (simp add: kMaxPayloadSize_def)
  from leave_notifies_everyone [OF node_a_simps(5) limits_node_a this]
  show ?thesis by (elim exE conjE) (simp add: GetMembers_def)
qed

section \<open>Where the protocol goes wrong\<close>

text \<open>
  A node that is its only member and is told by gossip that it is suspected itself
  removes itself from its members and then computes the logarithm of zero for the
  retransmission limit: converting the infinite result to an int is undefined behaviour.
\<close>

theorem self_suspect_undefined:
  assumes "GetMembers s = [self_member s]" and "suspects s = []"
    and "par_update W p = InitAsSuspectMessage m inc" and "member_eq m (self_member s)"
    and "GetMemberLocalIncarnation m s \<le> inc"
    and "length (ser_update W (InitAsSuspectMessage m inc)) \<le> kMaxPayloadSize"
  shows "snd (HandleGossip W a p s) = Some UndefinedBehaviour"
proof -
  obtain i where ms: "members s = [(self_member s, i)]"
    using assms(1) by (auto simp: GetMembers_def map_eq_Cons_conv)
  have k: "mkey (self_member s) = mkey m" using assms(4) by (simp add: member_eq_key)
  have b: "IfBelongsToMembers m s" "\<not> IfBelongsToSuspects m s"
    by (simp_all add: IfBelongsToMembers_def IfBelongsToSuspects_def ms mfind_Cons mfind_Nil assms(2) k)
  have "merase m (members s) = []" by (simp add: ms k)
  then have "snd (Suspect W m inc s) = Some UndefinedBehaviour"
    using b assms(6)
    by (simp add: Suspect_def Let_def AddOrUpdateSuspect_def with_payload_def mk_payload_small
        then_do_def SendGossip_def GetRetransmitLimit_def)
  then show ?thesis using b assms(3,5) by (simp add: HandleGossip_def Let_def HandleSuspect_def)
qed

theorem self_suspect_undefined_witness:
  "snd (HandleGossip (update_wire (InitAsSuspectMessage member_a 0)) address_b [1]
     (initial (update_wire (InitAsSuspectMessage member_a 0)) 0 config_a)) = Some UndefinedBehaviour"
proof -
  let ?W = "update_wire (InitAsSuspectMessage member_a 0)"
  let ?s = "initial ?W 0 config_a"
  have c: "c_host config_a = member_a" by (simp add: config_a_def AddOneSeedMember_def Config_def)
  note i = Init_success [OF Init_config_a [of ?W], unfolded c]
  have "GetMembers ?s = [self_member ?s]" "GetMemberLocalIncarnation member_a ?s \<le> 0"
    "member_eq member_a (self_member ?s)"
    by (simp_all add: i GetMembers_def GetMemberLocalIncarnation_def mfind_Cons)
  then show ?thesis
    using self_suspect_undefined [of ?s ?W "[1]" member_a 0 address_b] i(2) by (simp add: kMaxPayloadSize_def)
qed

text \<open>
  C38: a member learnt from the full state of a seed is stored without its uid, so its first
  up gossip looks like that of a restarted node: the node drops the member, takes it up
  again, and holds its actor system for down although the seed reported it up.
\<close>

theorem joined_member_loses_actor_system:
  assumes "tables_wf seed" and "tables_wf s" and "par_full W answer = full_state_answer seed"
    and "did_pull W pick (SeedPull b) (kOK, answer) s = (s1, None)"
    and "m \<in> set (GetMembers seed)" and "mfind m (members s) = None" and "mfind m (actor_systems seed) = Some True"
    and "par_update W p = InitAsUpMessage m inc" and "m_uid m \<noteq> []" and "\<not> member_eq m (self_member s1)"
    and "mfind m (suspects s1) = None" and "HandleGossip W a p s1 = (s2, None)"
  shows "mfind m (actor_systems s1) = Some True \<and> mfind m (actor_systems s2) = Some False
    \<and> mfind m (members s2) = Some inc"
proof -
  have h: "HandleDidPull W (kOK, answer) s = (s1, None)" using assms(4) by simp
  note j = join_tables [OF assms(1,2,3) h]
  have up: "mfind m (actor_systems s1) = Some True" using j(2) [OF assms(5)] assms(7) by simp
  have "mfind m (members seed) \<noteq> None" unfolding mfind_key using assms(5) by (auto simp: GetMembers_def)
  then have "mfind m (members s1) = Some 0" using j(1) [of m] assms(6) by simp
  then obtain saved where e: "mentry m (members s1) = Some (saved, 0)" by (auto simp: map_find_def)
  have st: "stale m (members s1)"
    using join_without_uid [OF assms(3) h assms(6) e] e assms(9) by (simp add: stale_def)
  have wf: "tables_wf s1"
    using preservesD [OF tables.keep_did_pull [of W pick "SeedPull b" "(kOK, answer)"] assms(2)] assms(4) by simp
  let ?e = "EraseExpiredMember m s1"
  note t = EraseExpiredMember_tables(1-3) [OF wf, of _ m]
  have wfe: "tables_wf ?e" by (rule tables.keep_EraseExpiredMember [OF wf])
  have "\<not> IfBelongsToMembers m ?e" "\<not> IfBelongsToSuspects m ?e"
    using st t(1,2) [of m] assms(11) by (simp_all add: IfBelongsToMembers_def IfBelongsToSuspects_def)
  then have "then_do (SendGossip p) (pure_act (MergeUpUpdate m inc)) ?e = (s2, None)"
    using assms(12,8,10) by (simp add: HandleGossip_def Let_def HandleUp_def)
  then obtain r where r: "s2 = MergeUpUpdate m inc r" "members r = members ?e" "suspects r = suspects ?e"
    "actor_systems r = actor_systems ?e" by (rule gossip_thenD)
  have "tables_wf r" using wfe r by (simp add: tables_wf_def)
  from MergeUpUpdate_members [OF this, of m m inc] have "mfind m (members s2) = Some inc"
    using st t(1) [of m] r(1,2) by (simp add: newer_def)
  moreover have "mfind m (actor_systems s2) = Some False" using st t(3) [of m] r(1,4) by simp
  ultimately show ?thesis using up by blast
qed

theorem joined_member_loses_actor_system_witness:
  "\<exists>s1 s2. did_pull restart_wire 0 (SeedPull address_c) (kOK, [2]) (before_pull config_a) = (s1, None)
    \<and> HandleGossip restart_wire address_b [1] s1 = (s2, None)
    \<and> mfind member_c (actor_systems s1) = Some True \<and> mfind member_c (actor_systems s2) = Some False"
proof -
  obtain s1 s2 where s1: "did_pull restart_wire 0 (SeedPull address_c) (kOK, [2]) (before_pull config_a) = (s1, None)"
    "suspects s1 = []" "self_member s1 = member_a"
    and s2: "HandleGossip restart_wire address_b [1] s1 = (s2, None)"
    using restart_run [of address_c address_b] by blast
  have wire: "par_full restart_wire [2] = full_state_answer seed_c_up"
    "par_update restart_wire [1] = InitAsUpMessage member_c 8"
    by (simp_all add: restart_wire_def)
  have "mfind member_c (members (before_pull config_a)) = None"
    by (simp add: config_a_def AddOneSeedMember_def Config_def mfind_Cons mfind_Nil)
  moreover have "member_c \<in> set (GetMembers seed_c_up)" "mfind member_c (actor_systems seed_c_up) = Some True"
    "tables_wf seed_c_up" "m_uid member_c \<noteq> []" "tables_wf (before_pull config_a)"
    by (simp_all add: seed_c_up_def GetMembers_def mfind_Cons tables_wf_def map_wf_def member_c_def)
  ultimately show ?thesis
    using joined_member_loses_actor_system [OF _ _ wire(1) s1(1) _ _ _ wire(2) _ _ _ s2] s1 s2
    by (simp add: mfind_Nil)
qed

end
