(* ===== verification/Cluster_Bounds.thy ===== *)
theory Cluster_Bounds
  imports Node_System
begin

text \<open>
  The incarnations a node holds of the other members, against a bound per member: the
  tables, the queued and the sent messages of a node stay below the bound when what it
  receives does. The bound is the incarnation each member's own node has counted to; that
  it is one is shown for a whole cluster in \<open>Cluster_Net\<close>.

  The functions are those of \<open>Membership\<close>; a message is read off the bytes it is sent as,
  so the serialisers must give back what they were given.
\<close>

section \<open>Bounded messages and tables\<close>

text \<open>Documented behaviour of protobuf: parsing what was serialised gives the message.\<close>

definition faithful :: "wire \<Rightarrow> bool" where
  "faithful W \<longleftrightarrow> (\<forall>u. par_update W (ser_update W u) = u) \<and> (\<forall>r. par_request W (ser_request W r) = r)"

definition update_le :: "(member_key \<Rightarrow> u32) \<Rightarrow> member_update \<Rightarrow> bool" where
  "update_le c u \<longleftrightarrow> GetIncarnation u \<le> c (mkey (update_GetMember u))"

definition table_le :: "(member_key \<Rightarrow> u32) \<Rightarrow> (member \<times> u32) list \<Rightarrow> bool" where
  "table_le c t \<longleftrightarrow> (\<forall>(m, i)\<in>set t. i \<le> c (mkey m))"

definition request_le :: "(member_key \<Rightarrow> u32) \<Rightarrow> pull_request \<Rightarrow> bool" where
  "request_le c r \<longleftrightarrow> table_le c (GetMembersWithIncarnation r)"

definition effect_le :: "wire \<Rightarrow> (member_key \<Rightarrow> u32) \<Rightarrow> effect \<Rightarrow> bool" where
  "effect_le W c e \<longleftrightarrow> (case e of
       SendGossipTo addrs p \<Rightarrow> update_le c (par_update W p)
     | SendPull a d k \<Rightarrow> request_le c (par_request W d)
     | _ \<Rightarrow> True)"

definition job_le :: "wire \<Rightarrow> (member_key \<Rightarrow> u32) \<Rightarrow> job \<Rightarrow> bool" where
  "job_le W c j \<longleftrightarrow> (case j of Disseminate p \<Rightarrow> update_le c (par_update W p) | FailureDetect \<Rightarrow> True)"

definition queue_le :: "wire \<Rightarrow> (member_key \<Rightarrow> u32) \<Rightarrow> job fqueue \<Rightarrow> bool" where
  "queue_le W c q \<longleftrightarrow> (\<forall>(j, n)\<in>set (fq_pending q). job_le W c j) \<and>
     (case fq_pc q of Calling j n \<Rightarrow> job_le W c j | _ \<Rightarrow> True)"

definition node_le :: "wire \<Rightarrow> (member_key \<Rightarrow> u32) \<Rightarrow> membership \<Rightarrow> bool" where
  "node_le W c s \<longleftrightarrow> table_le c (members s) \<and> table_le c (suspects s)
     \<and> (\<forall>e\<in>set (effects s). effect_le W c e)
     \<and> (case gossip_queue s of None \<Rightarrow> True | Some q \<Rightarrow> queue_le W c q)"

lemma table_le_simps [simp]:
  "table_le c []" "table_le c (e # t) \<longleftrightarrow> snd e \<le> c (mkey (fst e)) \<and> table_le c t"
  by (auto simp: table_le_def)

lemma table_le_put: "table_le c t \<Longrightarrow> i \<le> c (mkey m) \<Longrightarrow> table_le c (mput m i t)"
  by (induction t) auto

lemma table_le_erase: "table_le c t \<Longrightarrow> table_le c (merase m t)"
  using keys_map_erase_subset [of mkey m t] by (auto simp: table_le_def)

lemma table_le_find: "table_le c t \<Longrightarrow> mfind m t = Some i \<Longrightarrow> i \<le> c (mkey m)"
  using map_entry_in [of mkey m t] map_entry_key [of mkey m t]
  by (fastforce simp: table_le_def map_find_def)

lemma local_incarnation_le:
  assumes "node_le W c s"
  shows "GetMemberLocalIncarnation m s \<le> c (mkey m)" and "GetSuspectLocalIncarnation m s \<le> c (mkey m)"
  using assms table_le_find [of c]
  by (auto simp: GetMemberLocalIncarnation_def GetSuspectLocalIncarnation_def node_le_def split: option.splits)

lemma update_le_InitAs [simp]:
  "update_le c (InitAsUpMessage m i) \<longleftrightarrow> i \<le> c (mkey m)"
  "update_le c (InitAsDownMessage m i) \<longleftrightarrow> i \<le> c (mkey m)"
  "update_le c (InitAsSuspectMessage m i) \<longleftrightarrow> i \<le> c (mkey m)"
  "update_le c (InitAsRecoveryMessage m i) \<longleftrightarrow> i \<le> c (mkey m)"
  "update_le c (InitAsActorSystemDownMessage m i) \<longleftrightarrow> i \<le> c (mkey m)"
  "update_le c (InitAsActorSystemUpMessage m i) \<longleftrightarrow> i \<le> c (mkey m)"
  by (simp_all add: update_le_def)

lemma table_le_mono: "table_le c t \<Longrightarrow> (\<And>k. c k \<le> c' k) \<Longrightarrow> table_le c' t"
  by (induction t) (auto intro: order_trans)

lemma update_le_mono: "update_le c u \<Longrightarrow> (\<And>k. c k \<le> c' k) \<Longrightarrow> update_le c' u"
  by (auto simp: update_le_def intro: order_trans)

lemma node_le_mono:
  assumes "node_le W c s" and "\<And>k. c k \<le> c' k"
  shows "node_le W c' s"
proof -
  note u = update_le_mono [OF _ assms(2)] and t = table_le_mono [OF _ assms(2)]
  have e: "effect_le W c e \<Longrightarrow> effect_le W c' e" for e
    using u t by (auto simp: effect_le_def request_le_def split: effect.splits)
  have j: "job_le W c j \<Longrightarrow> job_le W c' j" for j using u by (auto simp: job_le_def split: job.splits)
  have q: "queue_le W c q \<Longrightarrow> queue_le W c' q" for q
    using j by (auto simp: queue_le_def split: worker_pc.splits)
  show ?thesis using assms(1) t e q by (auto simp: node_le_def split: option.splits)
qed

section \<open>The primitive operations\<close>

lemma node_le_frame:
  assumes "node_le W c s" and "members s' = members s" and "suspects s' = suspects s"
    and "effects s' = effects s" and "gossip_queue s' = gossip_queue s"
  shows "node_le W c s'"
  using assms by (simp add: node_le_def)

lemma node_le_Notify: "node_le W c s \<Longrightarrow> node_le W c (Notify s)"
  by (auto simp: node_le_def Notify_def effect_le_def)

lemma node_le_emit: "node_le W c s \<Longrightarrow> effect_le W c e \<Longrightarrow> node_le W c (emit e s)"
  by (simp add: node_le_def)

lemma node_le_members:
  "node_le W c s \<Longrightarrow> table_le c t \<Longrightarrow> node_le W c (s\<lparr>members := t\<rparr>)"
  "node_le W c s \<Longrightarrow> table_le c t \<Longrightarrow> node_le W c (s\<lparr>suspects := t\<rparr>)"
  "node_le W c s \<Longrightarrow> node_le W c (s\<lparr>actor_systems := a\<rparr>)"
  "node_le W c s \<Longrightarrow> node_le W c (s\<lparr>incarnation := k\<rparr>)"
  "node_le W c s \<Longrightarrow> node_le W c (s\<lparr>subscribers := is\<rparr>)"
  "node_le W c s \<Longrightarrow> node_le W c (s\<lparr>is_self_actor_system_up := b\<rparr>)"
  "node_le W c s \<Longrightarrow> node_le W c (s\<lparr>failure_detector_queue := fq\<rparr>)"
  by (simp_all add: node_le_def)

lemma node_le_tables: "node_le W c s \<Longrightarrow> table_le c (members s) \<and> table_le c (suspects s)"
  by (simp add: node_le_def)

lemma queue_le_Push: "queue_le W c q \<Longrightarrow> job_le W c j \<Longrightarrow> queue_le W c (Push j n q)"
  by (auto simp: queue_le_def Push_def queue_push_def)

lemma queue_le_step:
  assumes "queue_le W c q"
  shows "queue_le W c (fst (worker_step q))"
    and "snd (worker_step q) = Some j \<Longrightarrow> job_le W c j"
  using assms
  by (auto simp: queue_le_def worker_step.simps queue_pop_def
      split: worker_pc.splits list.splits nat.splits option.splits prod.splits if_splits)

lemma node_le_SendGossip:
  "node_le W c s \<Longrightarrow> update_le c (par_update W p) \<Longrightarrow> node_le W c (fst (SendGossip p s))"
  by (cases rule: SendGossip_cases [of s p]) (auto simp: node_le_def queue_le_Push job_le_def)

text \<open>A message is built, and its payload reads back as the message.\<close>

lemma node_le_payload:
  assumes "faithful W" and "node_le W c s"
    and "\<And>p. par_update W p = u \<Longrightarrow> node_le W c (fst (k p s))"
  shows "node_le W c (fst (with_payload (ser_update W u) k s))"
  using assms by (auto simp: with_payload_def mk_payload_def faithful_def)

lemma node_le_then_Notify:
  assumes "node_le W c s" and "update_le c (par_update W p)"
    and "\<And>s. node_le W c s \<Longrightarrow> node_le W c (f s)"
  shows "node_le W c (fst (then_do (SendGossip p) (pure_act f) s))"
  by (rule then_do_fst_cases) (use node_le_SendGossip [OF assms(1,2)] assms(3) in auto)

section \<open>Changes of the tables\<close>

named_theorems bounded \<open>operations that keep a node below a bound\<close>

lemma node_le_dropped [bounded]:
  "node_le W c s \<Longrightarrow> node_le W c (s\<lparr>members := merase m (members s)\<rparr>)"
  "node_le W c s \<Longrightarrow> node_le W c (s\<lparr>suspects := merase m (suspects s)\<rparr>)"
  by (simp_all add: node_le_members table_le_erase node_le_tables)

lemma node_le_put [bounded]:
  "node_le W c s \<Longrightarrow> i \<le> c (mkey m) \<Longrightarrow> node_le W c (s\<lparr>members := mput m i (members s)\<rparr>)"
  "node_le W c s \<Longrightarrow> i \<le> c (mkey m) \<Longrightarrow> node_le W c (s\<lparr>suspects := mput m i (suspects s)\<rparr>)"
  by (simp_all add: node_le_members table_le_put node_le_tables)

lemma node_le_AddOrUpdateSuspect [bounded]:
  "node_le W c s \<Longrightarrow> i \<le> c (mkey m) \<Longrightarrow> node_le W c (AddOrUpdateSuspect m i s)"
  by (simp add: AddOrUpdateSuspect_def bounded)

lemma node_le_drops:
  assumes "node_le W c s"
  shows "node_le W c (s\<lparr>actor_systems := a\<rparr>)"
    and "node_le W c (s\<lparr>members := merase m (members s)\<rparr>)"
    and "node_le W c (s\<lparr>suspects := merase m (suspects s)\<rparr>)"
    and "node_le W c (s\<lparr>members := merase m (members s), actor_systems := a\<rparr>)"
    and "node_le W c (s\<lparr>suspects := merase m (suspects s), actor_systems := a\<rparr>)"
    and "node_le W c (s\<lparr>members := merase m (members s), suspects := merase m (suspects s),
           actor_systems := a\<rparr>)"
    and "node_le W c (s\<lparr>members := merase m (members s), suspects := merase m (suspects s)\<rparr>)"
  using assms by (simp_all add: node_le_def table_le_erase)

lemma node_le_EraseExpiredMember [bounded]: "node_le W c s \<Longrightarrow> node_le W c (EraseExpiredMember m s)"
  unfolding EraseExpiredMember_def Let_def
  by (auto intro!: node_le_Notify node_le_drops)

lemma node_le_MergeUpUpdate [bounded]:
  "node_le W c s \<Longrightarrow> i \<le> c (mkey m) \<Longrightarrow> node_le W c (MergeUpUpdate m i s)"
  by (simp add: MergeUpUpdate_def bounded node_le_Notify split: option.splits)

lemma node_le_put_both:
  assumes "node_le W c s" and "i \<le> c (mkey m)"
  shows "node_le W c (s\<lparr>members := mput m i (members s), actor_systems := a\<rparr>)"
  using node_le_put(1) [OF assms] by (rule node_le_members(3))

lemma node_le_MergeActorSystem [bounded]:
  "node_le W c s \<Longrightarrow> i \<le> c (mkey m) \<Longrightarrow> node_le W c (MergeActorSystemUp m i s)"
  "node_le W c s \<Longrightarrow> i \<le> c (mkey m) \<Longrightarrow> node_le W c (MergeActorSystemDown m i s)"
  by (simp_all add: MergeActorSystemUp_def MergeActorSystemDown_def node_le_put_both node_le_Notify
      split: option.splits)

lemma node_le_MergeDownUpdate [bounded]: "node_le W c s \<Longrightarrow> node_le W c (MergeDownUpdate m i s)"
  unfolding MergeDownUpdate_def Let_def
  by (auto intro!: node_le_Notify node_le_drops)

lemma node_le_update_status_entry: "node_le W c s \<Longrightarrow> node_le W c (update_status_entry w s)"
  by (simp add: update_status_entry_def Let_def node_le_drops(1) node_le_put_both)

lemma node_le_UpdateActorSystemStatus [bounded]:
  "node_le W c s \<Longrightarrow> node_le W c (UpdateActorSystemStatus ws s)"
  unfolding UpdateActorSystemStatus_def
  by (rule node_le_Notify) (induction ws arbitrary: s; simp add: node_le_update_status_entry)

lemma node_le_copy_actor_flag: "node_le W c s \<Longrightarrow> node_le W c (copy_actor_flag flags m s)"
  by (simp add: copy_actor_flag_def node_le_drops(1) split: option.splits)

lemma node_le_merge_member_entry:
  "node_le W c (fst sn) \<Longrightarrow> snd e \<le> c (mkey (fst e)) \<Longrightarrow> node_le W c (fst (merge_member_entry flags e sn))"
  by (auto simp: merge_member_entry_def node_le_copy_actor_flag node_le_put
      split: option.splits prod.splits)

lemma node_le_MergeMembers [bounded]:
  assumes "node_le W c s" and "table_le c ms"
  shows "node_le W c (MergeMembers ms flags s)"
proof -
  have "node_le W c (fst (fold (merge_member_entry flags) ms sn))" if "node_le W c (fst sn)" for sn
    using that assms(2)
    by (induction ms arbitrary: sn) (auto simp: node_le_merge_member_entry)
  from this [of "(s, False)"] show ?thesis
    using assms(1) by (auto simp: MergeMembers_def node_le_Notify split: prod.splits)
qed

section \<open>Suspicion, pulls and handlers\<close>

lemma node_le_Suspect:
  assumes "faithful W" and "node_le W c s" and "i \<le> c (mkey m)"
  shows "node_le W c (fst (Suspect W m i s))"
proof -
  have "node_le W c (fst (then_do (pure_act (\<lambda>s. s\<lparr>members := merase m (members s),
        actor_systems := mput m False (actor_systems s)\<rparr>)) (then_do (SendGossip p) (pure_act Notify)) s'))"
    if "node_le W c s'" and "par_update W p = InitAsSuspectMessage m i" for p s'
    using node_le_then_Notify [of W c _ p Notify] that assms(3)
    by (simp add: node_le_Notify node_le_drops)
  then show ?thesis
    using assms by (auto simp: Suspect_def Let_def bounded intro!: node_le_payload)
qed

lemma map_index_le: "table_le c t \<Longrightarrow> fst (map_index mkey 0 m t) \<le> c (mkey m)"
  using table_le_find [of c t m] by (simp add: map_index_fst split: option.splits)

lemma node_le_RecoverySuspect:
  assumes "faithful W" and "node_le W c s"
  shows "node_le W c (fst (RecoverySuspect W m s))"
proof -
  obtain inc t where i: "map_index mkey 0 m (suspects s) = (inc, t)" by fastforce
  have tab: "table_le c (members s)" "table_le c (suspects s)" using assms(2) by (simp_all add: node_le_def)
  have inc: "inc \<le> c (mkey m)" using map_index_le [OF tab(2), of m] i by simp
  have "table_le c t"
    using i tab(2) by (auto simp: map_index_def table_le_put split: option.splits)
  then have "node_le W c (s\<lparr>members := mput m inc (members s), suspects := merase m t\<rparr>)"
    using assms(2) inc tab by (simp add: node_le_def table_le_put table_le_erase)
  then show ?thesis
    using assms(1) inc
    by (auto simp: RecoverySuspect_def i intro!: node_le_payload node_le_then_Notify node_le_Notify)
qed

lemma request_le_plain [simp]:
  "request_le c (InitAsFullStateType empty_request)" "request_le c (InitAsPingType_bare empty_request)"
  "request_le c (InitAsPingRelayType a b empty_request)"
  by (simp_all add: request_le_def GetMembersWithIncarnation_def InitAsFullStateType_def
      InitAsPingType_bare_def InitAsPingRelayType_def empty_request_def table_le_def)

lemma request_le_ping:
  assumes "table_le c ms"
  shows "request_le c (InitAsPingType ms as empty_request)"
proof -
  have "table_le c (collect_states (\<lambda>u. pb_int (u_incarnation u)) (map (\<lambda>(m, inc). ping_state m inc as) ms) t)"
    if "table_le c t" for t
    using assms that
    by (induction ms arbitrary: t) (auto simp: table_le_put)
  from this [of "[]"] show ?thesis
    by (simp add: request_le_def GetMembersWithIncarnation_def InitAsPingType_def empty_request_def table_le_def)
qed

lemma effect_le_sent [simp]:
  "faithful W \<Longrightarrow> effect_le W c (SendPull a (ser_request W r) k) \<longleftrightarrow> request_le c r"
  "effect_le W c (SendPush a d)" "effect_le W c (SleepSeconds n)" "effect_le W c (SubscriberUpdate i)"
  by (simp_all add: effect_le_def faithful_def)

lemma node_le_PullFromSeedMember:
  "faithful W \<Longrightarrow> node_le W c s \<Longrightarrow> node_le W c (fst (PullFromSeedMember W pick s))"
  by (simp add: PullFromSeedMember_def node_le_emit split: sum.splits)

lemma node_le_RelayPing:
  "faithful W \<Longrightarrow> node_le W c s \<Longrightarrow> node_le W c (fst (RelayPing W target excluded s))"
  by (auto simp: RelayPing_def node_le_emit node_le_Suspect local_incarnation_le
      split: prod.splits bool.splits)

lemma node_le_HandleGossip:
  assumes "faithful W" and "node_le W c s" and "update_le c (par_update W p)"
  shows "node_le W c (fst (HandleGossip W a p s))"
proof -
  have i: "GetIncarnation (par_update W p) \<le> c (mkey (update_GetMember (par_update W p)))"
    using assms(3) by (simp add: update_le_def)
  show ?thesis
    unfolding HandleGossip_def HandleUp_def HandleDown_def HandleSuspect_def HandleRecovery_def
      HandleActorSystemDown_def HandleActorSystemUp_def Let_def
    using assms i
    by (simp add: bounded node_le_then_Notify node_le_Suspect node_le_RecoverySuspect)
qed

lemma node_le_HandlePull:
  "faithful W \<Longrightarrow> node_le W c s \<Longrightarrow> request_le c (par_request W d) \<Longrightarrow> node_le W c (fst (HandlePull W a d s))"
  by (simp add: HandlePull_def Let_def bounded node_le_emit request_le_def [symmetric])

lemma node_le_HandlePush:
  "faithful W \<Longrightarrow> node_le W c s \<Longrightarrow> node_le W c (fst (HandlePush W a d s))"
  by (simp add: HandlePush_def Let_def node_le_Suspect local_incarnation_le)

section \<open>The node's own incarnation\<close>

text \<open>Only an announcement of the node itself counts, so everything else keeps the incarnation.\<close>

lemma incarnation_then [simp]:
  "(\<And>s. incarnation (f s) = incarnation s) \<Longrightarrow>
    incarnation (fst (then_do (SendGossip p) (pure_act f) s)) = incarnation s"
  using SendGossip_frame(6) [of p s]
  by (cases "SendGossip p s") (auto simp: then_do_def split: option.splits)

lemma incarnation_payload:
  "(\<And>p. incarnation (fst (k p s)) = i) \<Longrightarrow> incarnation s = i \<Longrightarrow>
    incarnation (fst (with_payload bytes k s)) = i"
  by (simp add: with_payload_def split: sum.splits)

lemma incarnation_tables [simp]:
  "incarnation (AddOrUpdateSuspect m i s) = incarnation s"
  "incarnation (EraseExpiredMember m s) = incarnation s"
  "incarnation (MergeUpUpdate m i s) = incarnation s"
  "incarnation (MergeDownUpdate m i s) = incarnation s"
  "incarnation (MergeActorSystemUp m i s) = incarnation s"
  "incarnation (MergeActorSystemDown m i s) = incarnation s"
  "incarnation (update_status_entry w s) = incarnation s"
  "incarnation (copy_actor_flag flags m s) = incarnation s"
  by (simp_all add: AddOrUpdateSuspect_def EraseExpiredMember_def MergeUpUpdate_def MergeDownUpdate_def
      MergeActorSystemUp_def MergeActorSystemDown_def update_status_entry_def copy_actor_flag_def Let_def
      split: option.splits)

lemma incarnation_UpdateActorSystemStatus [simp]:
  "incarnation (UpdateActorSystemStatus ws s) = incarnation s"
proof -
  have "incarnation (fold update_status_entry ws s) = incarnation s"
    by (induction ws arbitrary: s) simp_all
  then show ?thesis by (simp add: UpdateActorSystemStatus_def)
qed

lemma incarnation_MergeMembers [simp]: "incarnation (MergeMembers ms flags s) = incarnation s"
proof -
  have e: "incarnation (fst (merge_member_entry flags e sn)) = incarnation (fst sn)" for e sn
    by (simp add: merge_member_entry_def split: prod.splits option.splits)
  have "incarnation (fst (fold (merge_member_entry flags) ms sn)) = incarnation (fst sn)" for sn
    by (induction ms arbitrary: sn) (simp_all add: e)
  from this [of "(s, False)"] show ?thesis by (auto simp: MergeMembers_def split: prod.splits)
qed

lemma incarnation_Suspect [simp]: "incarnation (fst (Suspect W m i s)) = incarnation s"
  by (auto simp: Suspect_def Let_def intro!: incarnation_payload)

lemma incarnation_RecoverySuspect [simp]: "incarnation (fst (RecoverySuspect W m s)) = incarnation s"
  by (auto simp: RecoverySuspect_def split: prod.splits intro!: incarnation_payload)

lemma incarnation_handlers [simp]:
  "incarnation (fst (HandleGossip W a p s)) = incarnation s"
  "incarnation (fst (HandlePull W a d s)) = incarnation s"
  "incarnation (fst (HandlePush W a d s)) = incarnation s"
  by (simp_all add: HandleGossip_def HandleUp_def HandleDown_def HandleSuspect_def HandleRecovery_def
      HandleActorSystemDown_def HandleActorSystemUp_def HandlePull_def HandlePush_def Let_def)

lemma incarnation_pulls [simp]:
  "incarnation (fst (PullFromSeedMember W pick s)) = incarnation s"
  "incarnation (fst (RelayPing W target excluded s)) = incarnation s"
  "incarnation (fst (DisseminateGossip pick p s)) = incarnation s"
  "incarnation (gossip_repeatedly n addrs p s) = incarnation s"
proof -
  show "incarnation (fst (PullFromSeedMember W pick s)) = incarnation s"
    by (simp add: PullFromSeedMember_def split: sum.splits)
  show "incarnation (fst (RelayPing W target excluded s)) = incarnation s"
    by (auto simp: RelayPing_def split: prod.splits bool.splits)
  show "incarnation (fst (DisseminateGossip pick p s)) = incarnation s"
    by (auto simp: DisseminateGossip_def split: sum.splits prod.splits bool.splits)
  show "incarnation (gossip_repeatedly n addrs p s) = incarnation s"
    by (induction n addrs p s rule: gossip_repeatedly.induct) simp_all
qed

lemma incarnation_SendSelf [simp]:
  "incarnation (fst (SendSelfActorSystemUpGossip W s)) = incarnation s + 1"
  by (auto simp: SendSelfActorSystemUpGossip_def Let_def IncreaseIncarnation_def intro!: incarnation_payload)

lemma incarnation_announcements [simp]:
  "incarnation (fst (NotifyActorSystemDown W s)) = incarnation s + 1"
  "incarnation (fst (NotifyLeave W s)) = (if 1 < length (members s) then incarnation s + 1 else incarnation s)"
  by (auto simp: NotifyActorSystemDown_def NotifyLeave_def Let_def IncreaseIncarnation_def
      split: sum.splits intro!: incarnation_payload)

text \<open>Room to count: an event announces the node at most twice.\<close>

definition room :: "membership \<Rightarrow> bool" where
  "room s \<longleftrightarrow> unat (incarnation s) + 2 < 2 ^ 32"

lemma room_less:
  assumes "room s"
  shows "incarnation s < incarnation s + 1" and "incarnation s + 1 < incarnation s + 2"
proof -
  have "unat (incarnation s + 1) = unat (incarnation s) + 1"
    "unat (incarnation s + 2) = unat (incarnation s) + 2"
    using assms by (simp_all add: room_def unat_word_ariths(1) take_bit_nat_def)
  then show "incarnation s < incarnation s + 1" "incarnation s + 1 < incarnation s + 2"
    by (simp_all add: word_less_nat_alt)
qed

lemma node_le_Increase: "node_le W c (IncreaseIncarnation s) \<longleftrightarrow> node_le W c s"
  by (simp add: IncreaseIncarnation_def node_le_def)

lemma IncreaseIncarnation_fields [simp]:
  "incarnation (IncreaseIncarnation s) = incarnation s + 1"
  "self_member (IncreaseIncarnation s) = self_member s"
  "members (IncreaseIncarnation s) = members s"
  "is_self_actor_system_up (IncreaseIncarnation s) = is_self_actor_system_up s"
  by (simp_all add: IncreaseIncarnation_def)

text \<open>An announcement: the incarnation is counted up and a message with it is queued.\<close>

lemma node_le_announce:
  assumes "faithful W" and "node_le W c s" and "incarnation s + 1 \<le> c (mkey (self_member s))"
    and "update_le c (msg (self_member s) (incarnation s + 1)) \<longleftrightarrow> incarnation s + 1 \<le> c (mkey (self_member s))"
  shows "node_le W c (fst (with_payload (ser_update W (msg (self_member s) (incarnation s + 1))) SendGossip
      (IncreaseIncarnation s)))"
  by (rule node_le_payload [OF assms(1)])
    (use assms in \<open>auto simp: node_le_Increase intro!: node_le_SendGossip\<close>)

lemma node_le_SendSelf:
  assumes "faithful W" and "node_le W c s" and "incarnation s + 1 \<le> c (mkey (self_member s))"
  shows "node_le W c (fst (SendSelfActorSystemUpGossip W s))"
  using node_le_announce [OF assms, of InitAsActorSystemUpMessage]
  by (simp add: SendSelfActorSystemUpGossip_def Let_def)

lemma node_le_ActorDown:
  assumes "faithful W" and "node_le W c s" and "incarnation s + 1 \<le> c (mkey (self_member s))"
  shows "node_le W c (fst (NotifyActorSystemDown W s))"
proof -
  let ?s = "s\<lparr>is_self_actor_system_up := False, actor_systems := merase (self_member s) (actor_systems s)\<rparr>"
  have "node_le W c ?s" using assms(2) by (simp add: node_le_def)
  from node_le_announce [OF assms(1) this, of InitAsActorSystemDownMessage] show ?thesis
    using assms(3) by (simp add: NotifyActorSystemDown_def Let_def)
qed

lemma node_le_gossip_repeatedly:
  "node_le W c s \<Longrightarrow> update_le c (par_update W p) \<Longrightarrow> node_le W c (gossip_repeatedly n addrs p s)"
  by (induction n addrs p s rule: gossip_repeatedly.induct) (simp_all add: node_le_emit effect_le_def)

lemma node_le_Leave:
  assumes "faithful W" and "node_le W c s" and "1 < length (members s) \<longrightarrow> incarnation s + 1 \<le> c (mkey (self_member s))"
  shows "node_le W c (fst (NotifyLeave W s))"
  using assms
  by (auto simp: NotifyLeave_def Let_def node_le_Increase node_le_gossip_repeatedly
      split: sum.splits intro!: node_le_payload)

lemma self_UpdateActorSystemStatus [simp]: "self_member (UpdateActorSystemStatus ws s) = self_member s"
proof -
  have "self_member (fold update_status_entry ws s) = self_member s"
    by (induction ws arbitrary: s) (simp_all add: update_status_entry_def Let_def)
  then show ?thesis by (simp add: UpdateActorSystemStatus_def)
qed

text \<open>The answer of a seed: one announcement of the node and one of its actor system.\<close>

lemma HandleDidPull_eq:
  assumes "s1 = UpdateActorSystemStatus (full_GetMembersWithStatus (par_full W (snd r))) s"
    and "fst r = kOK" and "full_IsSuccess (par_full W (snd r))"
  shows "HandleDidPull W r s = with_payload (ser_update W (InitAsUpMessage (self_member s) (incarnation s + 1)))
      (\<lambda>p. then_do (SendGossip p) (\<lambda>s. if is_self_actor_system_up s then SendSelfActorSystemUpGossip W s else (s, None)))
      (IncreaseIncarnation s1)"
  using assms by (simp add: HandleDidPull_def Let_def)

lemma HandleDidPull_bounds:
  assumes "room s"
  shows "incarnation s \<le> incarnation (fst (HandleDidPull W r s))"
    and "faithful W \<Longrightarrow> node_le W c s \<Longrightarrow>
      incarnation (fst (HandleDidPull W r s)) \<le> c (mkey (self_member s)) \<Longrightarrow> node_le W c (fst (HandleDidPull W r s))"
proof -
  let ?s1 = "UpdateActorSystemStatus (full_GetMembersWithStatus (par_full W (snd r))) s"
  let ?k = "\<lambda>s. if is_self_actor_system_up s then SendSelfActorSystemUpGossip W s else (s, None)"
  let ?s' = "\<lambda>p. fst (then_do (SendGossip p) ?k (IncreaseIncarnation ?s1))"
  let ?i = "incarnation s"
  note less = room_less [OF assms]
  have inc: "incarnation (?s' p) = ?i + 1 \<or> incarnation (?s' p) = ?i + 2" for p
    by (rule then_do_fst_cases) (use SendGossip_frame(6) [of p "IncreaseIncarnation ?s1"] in auto)
  have up: "?i \<le> incarnation (?s' p)" "?i + 1 \<le> incarnation (?s' p)" for p
    using inc [of p] less by auto
  have le: "node_le W c (?s' p)" if "faithful W" "node_le W c s" "par_update W p = InitAsUpMessage (self_member s) (?i + 1)"
    "incarnation (?s' p) \<le> c (mkey (self_member s))" for p
  proof -
    obtain s2 x where s2: "SendGossip p (IncreaseIncarnation ?s1) = (s2, x)" by fastforce
    have f: "self_member s2 = self_member s" "incarnation s2 = ?i + 1"
      using SendGossip_frame(4,6) [of p "IncreaseIncarnation ?s1"] by (simp_all add: s2)
    have "?i + 1 \<le> c (mkey (self_member s))" using order_trans [OF up(2) that(4)] .
    then have n2: "node_le W c s2"
      using node_le_SendGossip [of W c "IncreaseIncarnation ?s1" p] that(2,3)
      by (simp add: s2 node_le_Increase bounded)
    show ?thesis
      using n2 node_le_SendSelf [OF that(1) n2] that(4) f by (cases x) (auto simp: then_do_def s2)
  qed
  show "?i \<le> incarnation (fst (HandleDidPull W r s))"
  proof (cases "fst r = kOK \<and> full_IsSuccess (par_full W (snd r))")
    case True
    then show ?thesis
      using up(1) less(1) by (simp add: HandleDidPull_eq [OF refl] with_payload_def less_imp_le split: sum.split)
  qed (auto simp: HandleDidPull_def Let_def)
  assume a: "faithful W" "node_le W c s" "incarnation (fst (HandleDidPull W r s)) \<le> c (mkey (self_member s))"
  show "node_le W c (fst (HandleDidPull W r s))"
  proof (cases "fst r = kOK \<and> full_IsSuccess (par_full W (snd r))")
    case True
    then show ?thesis
      using a le by (auto simp: HandleDidPull_eq [OF refl] with_payload_def node_le_Increase bounded
          mk_payload_def faithful_def split: sum.splits if_splits)
  qed (use a(2) in \<open>auto simp: HandleDidPull_def Let_def\<close>)
qed

end
