(* ===== verification/Cluster_Net.thy ===== *)
theory Cluster_Net
  imports Cluster_Bounds
begin

text \<open>
  Nodes together. A cluster is a node for each address in use and the answers that pulls
  have brought so far; the datagrams, pushes and pull requests under way are those the
  nodes' \<open>effects\<close> list. Whatever was sent may arrive late, more than once or never, in any
  order; a pull may fail at any time. A node joins once under its address, and may stop for
  good at any time.
\<close>

section \<open>The network\<close>

record cluster_net =
  cn_nodes :: "member_key \<Rightarrow> membership option"
  cn_answers :: "(member_key \<times> pull_cont \<times> byte list) set"

definition empty_net :: cluster_net where
  "empty_net = \<lparr>cn_nodes = Map.empty, cn_answers = {}\<rparr>"

text \<open>The events of a node that are its own, or that something sent can cause.\<close>

fun deliverable :: "cluster_net \<Rightarrow> member_key \<Rightarrow> membership \<Rightarrow> node_event \<Rightarrow> bool" where
  "deliverable C k s (Gossip_in a p) \<longleftrightarrow> (\<exists>t\<in>ran (cn_nodes C). a = member_address (self_member t) \<and>
     (\<exists>addrs. SendGossipTo addrs p \<in> set (effects t) \<and> member_address (self_member s) \<in> set addrs))"
| "deliverable C k s (Push_in a d) \<longleftrightarrow> (\<exists>t\<in>ran (cn_nodes C). a = member_address (self_member t) \<and>
     SendPush (member_address (self_member s)) d \<in> set (effects t))"
| "deliverable C k s (Pull_done cont r) \<longleftrightarrow> (\<exists>a d. SendPull a d cont \<in> set (effects s)) \<and>
     (fst r = kOK \<longrightarrow> (k, cont, snd r) \<in> cn_answers C)"
| "deliverable C k s (Pull_in a d) \<longleftrightarrow> False"
| "deliverable C k s _ \<longleftrightarrow> True"

inductive net_step :: "wire \<Rightarrow> cluster_net \<Rightarrow> cluster_net \<Rightarrow> bool" for W where
  join: "cn_nodes C (mkey (c_host cfg)) = None \<Longrightarrow>
    Init W pick True cfg new_membership = (s, Inr MEMBERSHIP_SUCCESS) \<Longrightarrow>
    net_step W C (C\<lparr>cn_nodes := (cn_nodes C)(mkey (c_host cfg) \<mapsto> s)\<rparr>)"
| event: "cn_nodes C k = Some s \<Longrightarrow> deliverable C k s e \<Longrightarrow> room s \<Longrightarrow> node_step W s e s' \<Longrightarrow>
    net_step W C (C\<lparr>cn_nodes := (cn_nodes C)(k \<mapsto> s')\<rparr>)"
| serve: "cn_nodes C k = Some s \<Longrightarrow> cn_nodes C k' = Some t \<Longrightarrow>
    SendPull (member_address (self_member s)) d cont \<in> set (effects t) \<Longrightarrow> room s \<Longrightarrow>
    HandlePull W (member_address (self_member t)) d s = (s', answer) \<Longrightarrow>
    net_step W C (C\<lparr>cn_nodes := (cn_nodes C)(k \<mapsto> s'), cn_answers := insert (k', cont, answer) (cn_answers C)\<rparr>)"

inductive net_reachable :: "wire \<Rightarrow> cluster_net \<Rightarrow> bool" for W where
  empty: "net_reachable W empty_net"
| step: "net_reachable W C \<Longrightarrow> net_step W C C' \<Longrightarrow> net_reachable W C'"

section \<open>One event under a bound\<close>

lemma self_run_job [simp]: "self_member (fst (run_job W pick j s)) = self_member s"
  by (cases j) (auto simp: DisseminateGossip_def split: sum.splits prod.splits bool.splits)

lemma self_run_called [simp]: "self_member (fst (run_called W pick called s)) = self_member s"
  by (simp add: run_called_def split: option.splits)

interpretation self_kept: node_contract "\<lambda>s. self_member s = m" for m
  by unfold_locales (simp_all add: detector_worker_def split: option.splits)

lemma self_event: "event_ok e \<Longrightarrow> self_member (fst (run_event W pick e s)) = self_member s"
  by (rule self_kept.keep_event) simp_all

text \<open>What an event brings in from outside is below the bound.\<close>

fun event_le :: "wire \<Rightarrow> (member_key \<Rightarrow> u32) \<Rightarrow> node_event \<Rightarrow> bool" where
  "event_le W c (Gossip_in a p) \<longleftrightarrow> update_le c (par_update W p)"
| "event_le W c (Pull_in a d) \<longleftrightarrow> request_le c (par_request W d)"
| "event_le W c _ \<longleftrightarrow> True"

lemma incarnation_run_job [simp]: "incarnation (fst (run_job W pick j s)) = incarnation s"
  by (cases j) simp_all

lemma incarnation_workers [simp]:
  "incarnation (fst (gossip_worker W pick s)) = incarnation s"
  "incarnation (fst (detector_worker W pick s)) = incarnation s"
  by (simp_all add: gossip_worker_def detector_worker_def run_called_def split: option.splits)

lemma incarnation_did_pull:
  assumes "room s"
  shows "incarnation s \<le> incarnation (fst (did_pull W pick cont r s))"
  using HandleDidPull_bounds(1) [OF assms, of W r] by (cases cont) simp_all

lemma incarnation_event:
  assumes "room s"
  shows "incarnation s \<le> incarnation (fst (run_event W pick e s))"
  using room_less(1) [OF assms] incarnation_did_pull [OF assms]
  by (cases e) (simp_all add: SetSelfActorSystemUp_def Subscribe_def less_imp_le)

lemma node_le_functor:
  assumes "faithful W" and "node_le W c s"
  shows "node_le W c (fst (failure_detector_functor W pick s))"
proof -
  have p: "node_le W c (Ping s')" if "node_le W c s'" for s'
    using that by (simp add: node_le_def)
  have "request_le c (InitAsPingType (members s) (actor_systems s) empty_request)"
    using assms(2) by (simp add: request_le_ping node_le_def)
  then show ?thesis
    using assms p
    by (auto simp: failure_detector_functor_def Let_def node_le_emit split: sum.splits prod.splits bool.splits)
qed

lemma node_le_run_job:
  assumes "faithful W" and "node_le W c s" and "job_le W c j"
  shows "node_le W c (fst (run_job W pick j s))"
  using assms
  by (cases j) (auto simp: node_le_functor job_le_def DisseminateGossip_def effect_le_def node_le_emit
      split: sum.splits prod.splits bool.splits)

lemma node_le_gossip_worker:
  assumes "faithful W" and "node_le W c s"
  shows "node_le W c (fst (gossip_worker W pick s))"
proof (cases "gossip_queue s")
  case (Some q)
  then have q: "queue_le W c q" using assms(2) by (simp add: node_le_def)
  have "node_le W c (s\<lparr>gossip_queue := Some (fst (worker_step q))\<rparr>)"
    using assms(2) queue_le_step(1) [OF q] by (simp add: node_le_def)
  then show ?thesis
    using Some node_le_run_job [OF assms(1)] queue_le_step(2) [OF q]
    by (simp add: gossip_worker_def run_called_def split: option.splits)
qed (use assms(2) in \<open>simp add: gossip_worker_def\<close>)

lemma node_le_detector_worker:
  assumes "faithful W" and "node_le W c s" and "detector_armed s"
  shows "node_le W c (fst (detector_worker W pick s))"
proof (cases "failure_detector_queue s")
  case (Some q)
  obtain q' called where w: "worker_step q = (q', called)" by fastforce
  have "called = None \<or> called = Some FailureDetect"
    using armed_once_step [OF _ w] assms(3) Some by (auto simp: detector_armed_def)
  moreover have "node_le W c (s\<lparr>failure_detector_queue := Some q'\<rparr>)"
    using assms(2) by (rule node_le_members(7))
  ultimately show ?thesis
    using Some w node_le_functor [OF assms(1)] by (auto simp: detector_worker_def run_called_def)
qed (use assms(2) in \<open>simp add: detector_worker_def\<close>)

lemma node_le_did_pull:
  assumes "faithful W" and "node_le W c s" and "room s"
    and "incarnation (fst (did_pull W pick cont r s)) \<le> c (mkey (self_member s))"
  shows "node_le W c (fst (did_pull W pick cont r s))"
  using assms HandleDidPull_bounds(2) [OF assms(3,1,2)]
  by (cases cont)
    (auto simp: node_le_emit node_le_PullFromSeedMember node_le_RecoverySuspect node_le_RelayPing
      node_le_Suspect local_incarnation_le split: if_splits)

lemma node_le_event:
  assumes "faithful W" and "node_le W c s" and "detector_armed s" and "room s" and "event_le W c e"
    and "incarnation (fst (run_event W pick e s)) \<le> c (mkey (self_member s))"
  shows "node_le W c (fst (run_event W pick e s))"
proof (cases e)
  case Actor_up
  have "node_le W c (SetSelfActorSystemUp s)" using assms(2) by (simp add: SetSelfActorSystemUp_def node_le_def)
  then show ?thesis
    using node_le_SendSelf [OF assms(1)] assms(6) by (simp add: Actor_up SetSelfActorSystemUp_def)
next
  case Leave
  then show ?thesis using node_le_Leave [OF assms(1,2)] assms(6) by (simp split: if_splits)
next
  case Actor_down
  then show ?thesis using node_le_ActorDown [OF assms(1,2)] assms(6) by simp
next
  case (Pull_done cont r)
  then show ?thesis using node_le_did_pull [OF assms(1,2,4)] assms(6) by simp
qed (use assms in \<open>simp_all add: node_le_HandleGossip node_le_HandlePull node_le_HandlePush
      node_le_gossip_worker node_le_detector_worker Subscribe_def node_le_members\<close>)

section \<open>The invariant of the cluster\<close>

definition clock :: "cluster_net \<Rightarrow> member_key \<Rightarrow> u32" where
  "clock C k = (case cn_nodes C k of None \<Rightarrow> 0 | Some s \<Rightarrow> incarnation s)"

definition net_inv :: "wire \<Rightarrow> cluster_net \<Rightarrow> bool" where
  "net_inv W C \<longleftrightarrow> (\<forall>k s. cn_nodes C k = Some s \<longrightarrow>
     mkey (self_member s) = k \<and> reachable W s \<and> node_le W (clock C) s)"

lemma net_inv_node:
  assumes "net_inv W C" and "cn_nodes C k = Some s"
  shows "mkey (self_member s) = k" and "reachable W s" and "node_le W (clock C) s"
  using assms by (auto simp: net_inv_def)

text \<open>A node moves on: its clock does not go back, so the others stay below the bound.\<close>

lemma net_inv_move:
  assumes "net_inv W C" and "cn_nodes C k = Some s" and "cn_nodes C' = (cn_nodes C)(k \<mapsto> s')"
    and "mkey (self_member s') = k" and "reachable W s'" and "incarnation s \<le> incarnation s'"
    and "node_le W ((clock C)(k := incarnation s')) s'"
  shows "net_inv W C'"
proof -
  have clock': "clock C' = (clock C)(k := incarnation s')"
    using assms(3) by (auto simp: clock_def fun_eq_iff)
  then have mono: "clock C j \<le> clock C' j" for j using assms(2,6) by (simp add: clock_def)
  show ?thesis
    unfolding net_inv_def
  proof (intro allI impI)
    fix j t assume t: "cn_nodes C' j = Some t"
    show "mkey (self_member t) = j \<and> reachable W t \<and> node_le W (clock C') t"
    proof (cases "j = k")
      case True
      then show ?thesis using t assms(3-5,7) clock' by simp
    next
      case False
      then have "cn_nodes C j = Some t" using t assms(3) by simp
      then show ?thesis using net_inv_node [OF assms(1)] node_le_mono [OF _ mono] by simp
    qed
  qed
qed

lemma node_le_Init:
  assumes "faithful W" and "Init W pick True cfg new_membership = (s, Inr MEMBERSHIP_SUCCESS)"
  shows "node_le W c s"
proof -
  have b: "node_le W c (before_pull cfg)"
    by (simp add: node_le_def queue_le_def TimedFunctorQueue_def)
  have d: "node_le W c t \<Longrightarrow> node_le W c (start_detector cfg t)" for t
    by (simp add: start_detector_def Let_def node_le_def)
  show ?thesis
    using assms(2) d b node_le_PullFromSeedMember [OF assms(1) b, of pick]
    by (elim Init_success_start) auto
qed

lemma net_inv_join:
  assumes "faithful W" and "net_inv W C" and "cn_nodes C (mkey (c_host cfg)) = None"
    and "Init W pick True cfg new_membership = (s, Inr MEMBERSHIP_SUCCESS)"
  shows "net_inv W (C\<lparr>cn_nodes := (cn_nodes C)(mkey (c_host cfg) \<mapsto> s)\<rparr>)" (is "net_inv W ?C'")
proof -
  have "clock ?C' = clock C"
    using assms(3) Init_success(9) [OF assms(4)] by (auto simp: clock_def fun_eq_iff)
  moreover have "mkey (self_member s) = mkey (c_host cfg)" using Init_success(4) [OF assms(4)] by simp
  ultimately show ?thesis
    using assms(2) node_le_Init [OF assms(1,4)] reachable.start [OF assms(4)] by (simp add: net_inv_def)
qed

lemma delivered_le:
  assumes "net_inv W C" and "deliverable C k s e"
  shows "event_le W (clock C) e"
proof (cases e)
  case (Gossip_in a p)
  then obtain t addrs where t: "t \<in> ran (cn_nodes C)" "SendGossipTo addrs p \<in> set (effects t)"
    using assms(2) by auto
  then have "node_le W (clock C) t" using assms(1) by (auto simp: ran_def net_inv_def)
  then show ?thesis using t(2) by (auto simp: Gossip_in node_le_def effect_le_def split: effect.splits)
qed (use assms in auto)

lemma event_le_mono: "event_le W c e \<Longrightarrow> (\<And>k. c k \<le> c' k) \<Longrightarrow> event_le W c' e"
  by (cases e) (auto simp: request_le_def intro: update_le_mono table_le_mono)

lemma net_inv_run:
  assumes "faithful W" and "net_inv W C" and "cn_nodes C k = Some s" and "event_le W (clock C) e"
    and "room s" and "event_ok e" and "run_event W pick e s = (s', x)" and "x \<noteq> Some UndefinedBehaviour"
    and "cn_nodes C' = (cn_nodes C)(k \<mapsto> s')"
  shows "net_inv W C'"
proof -
  note node = net_inv_node [OF assms(2,3)]
  let ?c = "(clock C)(k := incarnation s')"
  have up: "incarnation s \<le> incarnation s'" using incarnation_event [OF assms(5), of W pick e] assms(7) by simp
  have self: "self_member s' = self_member s" using self_event [OF assms(6), of W pick s] assms(7) by simp
  have c: "clock C j \<le> ?c j" for j using up assms(3) by (simp add: clock_def)
  have "detector_armed s" using node_inv_reachable [OF node(2)] by (simp add: node_inv_def)
  then have "node_le W ?c (fst (run_event W pick e s))"
    by (rule node_le_event [OF assms(1) node_le_mono [OF node(3) c] _ assms(5) event_le_mono [OF assms(4) c]])
      (simp add: assms(7) node(1))
  then have "node_le W ?c s'" by (simp add: assms(7))
  moreover have "reachable W s'"
    using node(2) node_step.run [OF assms(6,7,8)] by (rule reachable.step)
  ultimately show ?thesis
    using net_inv_move [OF assms(2,3,9)] self node(1) up by simp
qed

lemma net_inv_step:
  assumes "faithful W" and "net_step W C C'" and "net_inv W C"
  shows "net_inv W C'"
  using assms(2)
proof cases
  case (join cfg pick s)
  then show ?thesis using net_inv_join [OF assms(1,3)] by simp
next
  case (event k s e s')
  from event(5) obtain pick x where "event_ok e" "run_event W pick e s = (s', x)" "x \<noteq> Some UndefinedBehaviour"
    by (auto elim: node_stepE)
  then show ?thesis
    using net_inv_run [OF assms(1,3) event(2) delivered_le [OF assms(3) event(3)] event(4)] event(1) by simp
next
  case (serve k s k' t d cont s' answer)
  have "node_le W (clock C) t" using net_inv_node(3) [OF assms(3) serve(3)] .
  then have "request_le (clock C) (par_request W d)"
    using serve(4) by (auto simp: node_le_def effect_le_def split: effect.splits)
  then show ?thesis
    using net_inv_run [OF assms(1,3) serve(2), of "Pull_in (member_address (self_member t)) d" 0 s' None]
      serve(1,5,6) by simp
qed

lemma net_inv_reachable:
  assumes "faithful W" and "net_reachable W C"
  shows "net_inv W C"
  using assms(2)
proof induction
  case empty
  then show ?case by (simp add: net_inv_def empty_net_def)
next
  case (step C C')
  then show ?case using net_inv_step [OF assms(1)] by blast
qed

lemma cluster_incarnations:
  assumes "faithful W" and "net_reachable W C" and "cn_nodes C k = Some s"
  shows "table_le (clock C) (members s)" and "table_le (clock C) (suspects s)"
  using net_inv_node(3) [OF net_inv_reachable [OF assms(1,2)] assms(3)] by (simp_all add: node_le_def)

end
