(* ===== verification/Plain_Wire.thy ===== *)
theory Plain_Wire
  imports Cluster_Bounds
begin

text \<open>
  A concrete wire: a serialiser and a parser for each of the four messages, built from codecs
  for their parts, that give back every message. It shows that what the theorems ask of
  protobuf can be had, and is the wire of the witnesses about several nodes.
\<close>

unbundle bit_operations_syntax

section \<open>Codecs\<close>

text \<open>A decoder reads one value off the front of the bytes and leaves the rest.\<close>

definition codec :: "('a \<Rightarrow> byte list) \<Rightarrow> (byte list \<Rightarrow> ('a \<times> byte list) option) \<Rightarrow> bool" where
  "codec e d \<longleftrightarrow> (\<forall>x r. d (e x @ r) = Some (x, r))"

lemma codecD: "codec e d \<Longrightarrow> d (e x @ r) = Some (x, r)"
  by (simp add: codec_def)

named_theorems codecs \<open>codecs of the parts of a message\<close>

fun enc_string :: "string \<Rightarrow> byte list" where
  "enc_string [] = [0]"
| "enc_string (c # cs) = 1 # of_nat (of_char c) # enc_string cs"

fun dec_string :: "byte list \<Rightarrow> (string \<times> byte list) option" where
  "dec_string [] = None"
| "dec_string [b] = (if b = 0 then Some ([], []) else None)"
| "dec_string (b # c # r) =
     (if b = 0 then Some ([], c # r)
      else map_option (\<lambda>(s, t). (char_of (unat c) # s, t)) (dec_string r))"

lemma char_of_byte [simp]: "char_of (unat (of_nat (of_char c) :: byte)) = c"
proof -
  have "(of_char c :: nat) < 256" by (rule nat_of_char_less_256)
  then have "unat (of_nat (of_char c) :: byte) = of_char c" by (simp add: unat_of_nat)
  then show ?thesis by simp
qed

lemma codec_string [codecs]: "codec enc_string dec_string"
proof -
  have "dec_string (enc_string s @ r) = Some (s, r)" for s r
  proof (induction s)
    case Nil
    then show ?case by (cases r) simp_all
  qed simp
  then show ?thesis by (simp add: codec_def)
qed

definition enc_u32 :: "u32 \<Rightarrow> byte list" where
  "enc_u32 w = [ucast w, ucast (drop_bit 8 w), ucast (drop_bit 16 w), ucast (drop_bit 24 w)]"

fun dec_u32 :: "byte list \<Rightarrow> (u32 \<times> byte list) option" where
  "dec_u32 (a # b # c # d # r) =
     Some (ucast a OR push_bit 8 (ucast b) OR push_bit 16 (ucast c) OR push_bit 24 (ucast d), r)"
| "dec_u32 _ = None"

lemma codec_u32 [codecs]: "codec enc_u32 dec_u32"
proof -
  have "ucast (ucast w :: byte) OR push_bit 8 (ucast (ucast (drop_bit 8 w) :: byte)) OR
      push_bit 16 (ucast (ucast (drop_bit 16 w) :: byte)) OR push_bit 24 (ucast (ucast (drop_bit 24 w) :: byte)) = w"
    for w :: u32
  proof (rule bit_word_eqI)
    fix n assume n: "n < LENGTH(32)"
    consider "n < 8" | "8 \<le> n" "n < 16" | "16 \<le> n" "n < 24" | "24 \<le> n" by linarith
    moreover have "n - 8 < 8 \<longleftrightarrow> n < 16" "n - 16 < 8 \<longleftrightarrow> n < 24" "n - 24 < 8 \<longleftrightarrow> n < 32"
      "n - 8 < 32 \<longleftrightarrow> n < 40" "n - 16 < 32 \<longleftrightarrow> n < 48" "n - 24 < 32 \<longleftrightarrow> n < 56"
      by linarith+
    ultimately show "bit (ucast (ucast w :: byte) OR push_bit 8 (ucast (ucast (drop_bit 8 w) :: byte)) OR
        push_bit 16 (ucast (ucast (drop_bit 16 w) :: byte)) OR
        push_bit 24 (ucast (ucast (drop_bit 24 w) :: byte)) :: u32) n = bit w n"
      using n by cases (simp_all add: bit_simps)
  qed
  then show ?thesis by (simp add: codec_def enc_u32_def)
qed

fun enc_option :: "('a \<Rightarrow> byte list) \<Rightarrow> 'a option \<Rightarrow> byte list" where
  "enc_option e None = [0]"
| "enc_option e (Some x) = 1 # e x"

definition dec_option ::
  "(byte list \<Rightarrow> ('a \<times> byte list) option) \<Rightarrow> byte list \<Rightarrow> ('a option \<times> byte list) option" where
  "dec_option d bs = (case bs of [] \<Rightarrow> None
     | b # r \<Rightarrow> if b = 0 then Some (None, r) else map_option (\<lambda>(x, t). (Some x, t)) (d r))"

lemma codec_option [codecs]:
  assumes "codec e d"
  shows "codec (enc_option e) (dec_option d)"
proof -
  have "dec_option d (enc_option e x @ r) = Some (x, r)" for x r
    using codecD [OF assms] by (cases x) (simp_all add: dec_option_def)
  then show ?thesis by (simp add: codec_def)
qed

fun enc_list :: "('a \<Rightarrow> byte list) \<Rightarrow> 'a list \<Rightarrow> byte list" where
  "enc_list e [] = [0]"
| "enc_list e (x # xs) = 1 # e x @ enc_list e xs"

text \<open>The first argument bounds the elements; the length of the bytes is enough.\<close>

fun dec_elements ::
  "nat \<Rightarrow> (byte list \<Rightarrow> ('a \<times> byte list) option) \<Rightarrow> byte list \<Rightarrow> ('a list \<times> byte list) option" where
  "dec_elements 0 d bs = None"
| "dec_elements (Suc n) d bs = (case bs of [] \<Rightarrow> None
     | b # r \<Rightarrow> if b = 0 then Some ([], r)
         else case d r of None \<Rightarrow> None
           | Some (x, t) \<Rightarrow> map_option (\<lambda>(xs, u). (x # xs, u)) (dec_elements n d t))"

definition dec_list :: "(byte list \<Rightarrow> ('a \<times> byte list) option) \<Rightarrow> byte list \<Rightarrow> ('a list \<times> byte list) option" where
  "dec_list d bs = dec_elements (length bs) d bs"

lemma codec_list [codecs]:
  assumes "codec e d"
  shows "codec (enc_list e) (dec_list d)"
proof -
  have el: "dec_elements n d (enc_list e xs @ r) = Some (xs, r)" if "length xs < n" for n xs r
    using that
  proof (induction xs arbitrary: n)
    case Nil
    then show ?case by (cases n) simp_all
  next
    case (Cons x xs)
    then show ?case using codecD [OF assms] by (cases n) simp_all
  qed
  have len: "length xs < length (enc_list e xs)" for xs by (induction xs) simp_all
  have "dec_list d (enc_list e xs @ r) = Some (xs, r)" for xs r
    unfolding dec_list_def using len [of xs] by (intro el) simp
  then show ?thesis by (simp add: codec_def)
qed

definition enc_pair :: "('a \<Rightarrow> byte list) \<Rightarrow> ('b \<Rightarrow> byte list) \<Rightarrow> 'a \<times> 'b \<Rightarrow> byte list" where
  "enc_pair e f p = e (fst p) @ f (snd p)"

definition dec_pair ::
  "(byte list \<Rightarrow> ('a \<times> byte list) option) \<Rightarrow> (byte list \<Rightarrow> ('b \<times> byte list) option)
     \<Rightarrow> byte list \<Rightarrow> (('a \<times> 'b) \<times> byte list) option" where
  "dec_pair d g bs = (case d bs of None \<Rightarrow> None | Some (x, r) \<Rightarrow> map_option (\<lambda>(y, t). ((x, y), t)) (g r))"

lemma codec_pair [codecs]: "codec e d \<Longrightarrow> codec f g \<Longrightarrow> codec (enc_pair e f) (dec_pair d g)"
  by (simp add: codec_def enc_pair_def dec_pair_def)

text \<open>A type that maps into one with a codec and back has one.\<close>

definition enc_map :: "('a \<Rightarrow> 'b) \<Rightarrow> ('b \<Rightarrow> byte list) \<Rightarrow> 'a \<Rightarrow> byte list" where
  "enc_map f e x = e (f x)"

definition dec_map ::
  "('b \<Rightarrow> 'a) \<Rightarrow> (byte list \<Rightarrow> ('b \<times> byte list) option) \<Rightarrow> byte list \<Rightarrow> ('a \<times> byte list) option" where
  "dec_map g d bs = map_option (\<lambda>(y, r). (g y, r)) (d bs)"

lemma codec_map: "codec e d \<Longrightarrow> (\<And>x. g (f x) = x) \<Longrightarrow> codec (enc_map f e) (dec_map g d)"
  by (simp add: codec_def enc_map_def dec_map_def)

section \<open>The messages\<close>

definition enc_bool :: "bool \<Rightarrow> byte list" where
  "enc_bool b = [if b then 1 else 0]"

fun dec_bool :: "byte list \<Rightarrow> (bool \<times> byte list) option" where
  "dec_bool [] = None"
| "dec_bool (b # r) = Some (b \<noteq> 0, r)"

lemma codec_bool [codecs]: "codec enc_bool dec_bool"
  by (simp add: codec_def enc_bool_def)

fun status_code :: "member_status \<Rightarrow> u32" where
  "status_code UP = 0" | "status_code DOWN = 1" | "status_code SUSPECT = 2" | "status_code RECOVERY = 3"
| "status_code ACTOR_SYSTEM_DOWN = 4" | "status_code ACTOR_SYSTEM_UP = 5"

definition code_status :: "u32 \<Rightarrow> member_status" where
  "code_status n = (if n = 0 then UP else if n = 1 then DOWN else if n = 2 then SUSPECT
     else if n = 3 then RECOVERY else if n = 4 then ACTOR_SYSTEM_DOWN else ACTOR_SYSTEM_UP)"

fun full_code :: "full_state_code \<Rightarrow> u32" where
  "full_code FULL_SUCCESS = 0" | "full_code FULL_FAILURE = 1" | "full_code REENTRY_REJECTED = 2"

definition code_full :: "u32 \<Rightarrow> full_state_code" where
  "code_full n = (if n = 0 then FULL_SUCCESS else if n = 1 then FULL_FAILURE else REENTRY_REJECTED)"

fun request_code :: "pull_request_type \<Rightarrow> u32" where
  "request_code FULL_STATE = 0" | "request_code PING = 1" | "request_code PING_RELAY = 2"

definition code_request :: "u32 \<Rightarrow> pull_request_type" where
  "code_request n = (if n = 0 then FULL_STATE else if n = 1 then PING else PING_RELAY)"

fun response_code :: "pull_response_type \<Rightarrow> u32" where
  "response_code PING_SUSCESS = 0" | "response_code PING_FAILURE = 1" | "response_code PING_REQUEST_RECEIVED = 2"

definition code_response :: "u32 \<Rightarrow> pull_response_type" where
  "code_response n = (if n = 0 then PING_SUSCESS else if n = 1 then PING_FAILURE else PING_REQUEST_RECEIVED)"

lemma codes [simp]:
  "code_status (status_code st) = st" "code_full (full_code f) = f"
  "code_request (request_code r) = r" "code_response (response_code p) = p"
  by ((cases st; simp add: code_status_def), (cases f; simp add: code_full_def),
      (cases r; simp add: code_request_def), (cases p; simp add: code_response_def))

type_synonym update_fields = "string option \<times> string option \<times> string option \<times> u32 option \<times>
  string option \<times> u32 option \<times> u32 option \<times> string option \<times> bool option"

definition update_tuple :: "member_update \<Rightarrow> update_fields" where
  "update_tuple u = (u_name u, u_hostname u, u_ip u, u_port u, u_role u,
     map_option status_code (u_status u), u_incarnation u, u_member_id u, u_actor_system_up u)"

fun tuple_update :: "update_fields \<Rightarrow> member_update" where
  "tuple_update (n, h, ip, p, r, st, i, m, a) = \<lparr>u_name = n, u_hostname = h, u_ip = ip, u_port = p,
     u_role = r, u_status = map_option code_status st, u_incarnation = i, u_member_id = m,
     u_actor_system_up = a\<rparr>"

lemma tuple_update [simp]: "tuple_update (update_tuple u) = u"
  by (simp add: update_tuple_def option.map_comp comp_def option.map_ident)

abbreviation "e_string \<equiv> enc_option enc_string"
abbreviation "d_string \<equiv> dec_option dec_string"
abbreviation "e_u32 \<equiv> enc_option enc_u32"
abbreviation "d_u32 \<equiv> dec_option dec_u32"

definition enc_update :: "member_update \<Rightarrow> byte list" where
  "enc_update = enc_map update_tuple (enc_pair e_string (enc_pair e_string (enc_pair e_string (enc_pair e_u32
     (enc_pair e_string (enc_pair e_u32 (enc_pair e_u32 (enc_pair e_string (enc_option enc_bool)))))))))"

definition dec_update :: "byte list \<Rightarrow> (member_update \<times> byte list) option" where
  "dec_update = dec_map tuple_update (dec_pair d_string (dec_pair d_string (dec_pair d_string (dec_pair d_u32
     (dec_pair d_string (dec_pair d_u32 (dec_pair d_u32 (dec_pair d_string (dec_option dec_bool)))))))))"

lemma codec_update [codecs]: "codec enc_update dec_update"
  unfolding enc_update_def dec_update_def by (intro codec_map codecs) simp

definition enc_full :: "full_state \<Rightarrow> byte list" where
  "enc_full = enc_map (\<lambda>f. (map_option full_code (fs_error f), fs_states f)) (enc_pair e_u32 (enc_list enc_update))"

definition dec_full :: "byte list \<Rightarrow> (full_state \<times> byte list) option" where
  "dec_full = dec_map (\<lambda>(e, us). \<lparr>fs_error = map_option code_full e, fs_states = us\<rparr>)
     (dec_pair d_u32 (dec_list dec_update))"

lemma codec_full [codecs]: "codec enc_full dec_full"
  unfolding enc_full_def dec_full_def
  by (intro codec_map codecs) (simp add: option.map_comp comp_def option.map_ident)

definition enc_request :: "pull_request \<Rightarrow> byte list" where
  "enc_request = enc_map (\<lambda>r. (map_option request_code (pr_type r), pr_name r, pr_ip r, pr_port r,
      pr_self_name r, pr_self_ip r, pr_self_port r, pr_states r))
     (enc_pair e_u32 (enc_pair e_string (enc_pair e_string (enc_pair e_u32 (enc_pair e_string
       (enc_pair e_string (enc_pair e_u32 (enc_list enc_update))))))))"

definition dec_request :: "byte list \<Rightarrow> (pull_request \<times> byte list) option" where
  "dec_request = dec_map (\<lambda>(t, n, ip, p, sn, sip, sp, us). \<lparr>pr_type = map_option code_request t, pr_name = n,
      pr_ip = ip, pr_port = p, pr_self_name = sn, pr_self_ip = sip, pr_self_port = sp, pr_states = us\<rparr>)
     (dec_pair d_u32 (dec_pair d_string (dec_pair d_string (dec_pair d_u32 (dec_pair d_string
       (dec_pair d_string (dec_pair d_u32 (dec_list dec_update))))))))"

lemma codec_request [codecs]: "codec enc_request dec_request"
  unfolding enc_request_def dec_request_def
  by (intro codec_map codecs) (simp add: option.map_comp comp_def option.map_ident)

definition enc_response :: "pull_response \<Rightarrow> byte list" where
  "enc_response = enc_map (\<lambda>p. (map_option response_code (ps_type p), ps_name p, ps_ip p, ps_port p))
     (enc_pair e_u32 (enc_pair e_string (enc_pair e_string e_u32)))"

definition dec_response :: "byte list \<Rightarrow> (pull_response \<times> byte list) option" where
  "dec_response = dec_map (\<lambda>(t, n, ip, p). \<lparr>ps_type = map_option code_response t, ps_name = n, ps_ip = ip, ps_port = p\<rparr>)
     (dec_pair d_u32 (dec_pair d_string (dec_pair d_string d_u32)))"

lemma codec_response [codecs]: "codec enc_response dec_response"
  unfolding enc_response_def dec_response_def
  by (intro codec_map codecs) (simp add: option.map_comp comp_def option.map_ident)

definition parsed :: "'a \<Rightarrow> ('a \<times> byte list) option \<Rightarrow> 'a" where
  "parsed x r = (case r of None \<Rightarrow> x | Some (y, _) \<Rightarrow> y)"

lemma parsed_codec: "codec e d \<Longrightarrow> parsed z (d (e x)) = x"
  using codecD [of e d x "[]"] by (simp add: parsed_def)

definition plain_wire :: wire where
  "plain_wire = \<lparr>ser_update = enc_update, par_update = (\<lambda>b. parsed empty_update (dec_update b)),
     ser_full = enc_full, par_full = (\<lambda>b. parsed empty_full_state (dec_full b)),
     ser_request = enc_request, par_request = (\<lambda>b. parsed empty_request (dec_request b)),
     ser_response = enc_response, par_response = (\<lambda>b. parsed empty_response (dec_response b))\<rparr>"

lemma plain_wire_roundtrip [simp]:
  "par_update plain_wire (ser_update plain_wire u) = u" "par_full plain_wire (ser_full plain_wire f) = f"
  "par_request plain_wire (ser_request plain_wire r) = r" "par_response plain_wire (ser_response plain_wire p) = p"
  by (simp_all add: plain_wire_def parsed_codec codecs)

lemma faithful_plain_wire [simp]: "faithful plain_wire"
  by (simp add: faithful_def)

text \<open>The length of an announcement, for the limit on payloads.\<close>

lemma length_enc_string [simp]: "length (enc_string s) = 2 * length s + 1"
  by (induction s) simp_all

lemma length_enc_u32 [simp]: "length (enc_u32 w) = 4"
  by (simp add: enc_u32_def)

lemma length_update:
  "length (ser_update plain_wire ((SetUpdate m i empty_update)\<lparr>u_status := Some st\<rparr>)) =
     2 * (length (m_node_name m) + length (m_host_name m) + length (m_ip_address m) + length (m_role m)
       + length (m_uid m)) + 26"
  by (simp add: plain_wire_def enc_update_def enc_map_def enc_pair_def update_tuple_def SetUpdate_def empty_update_def)

end
