(* ===== verification/Sample_Cluster.thy ===== *)
theory Sample_Cluster
  imports Cluster_Net Plain_Wire Sample_Node
begin

text \<open>
  Two concrete nodes on the concrete wire: \<open>b\<close> starts without seeds, \<open>a\<close> starts with \<open>b\<close> as
  its seed, pulls the full state from it, and announces itself to it by gossip.
\<close>

section \<open>The nodes\<close>

definition config_b :: config where
  "config_b = Config\<lparr>c_host := member_b\<rparr>"

definition full_state_request :: "byte list" where
  "full_state_request = ser_request plain_wire (InitAsFullStateType empty_request)"

definition a_is_up :: payload where
  "a_is_up = ser_update plain_wire (InitAsUpMessage member_a 1)"

lemma a_is_up [simp]: "length a_is_up \<le> kMaxPayloadSize" "par_update plain_wire a_is_up = InitAsUpMessage member_a 1"
  "mk_payload (ser_update plain_wire (InitAsUpMessage member_a 1)) = Inr a_is_up"
proof -
  show l: "length a_is_up \<le> kMaxPayloadSize"
    by (simp add: a_is_up_def InitAsUpMessage_def length_update member_a_def kMaxPayloadSize_def)
  show "par_update plain_wire a_is_up = InitAsUpMessage member_a 1" by (simp add: a_is_up_def)
  show "mk_payload (ser_update plain_wire (InitAsUpMessage member_a 1)) = Inr a_is_up"
    using l by (simp add: mk_payload_def flip: a_is_up_def)
qed

lemma Init_config_b:
  "Init plain_wire 0 True config_b new_membership = (initial plain_wire 0 config_b, Inr MEMBERSHIP_SUCCESS)"
proof -
  have h: "c_host config_b = member_b" "c_seed_members config_b = []" by (simp_all add: config_b_def Config_def)
  have "\<not> IsEmptyMember member_b" by (simp add: IsEmptyMember_def member_b_def)
  then have "snd (Init plain_wire 0 True config_b new_membership) = Inr MEMBERSHIP_SUCCESS"
    by (simp add: Init_eq h)
  then show ?thesis by (simp add: initial_def prod_eq_iff)
qed

definition a_start :: membership where
  "a_start = initial plain_wire 0 config_a"

definition b_start :: membership where
  "b_start = initial plain_wire 0 config_b"

definition b_answer :: "byte list" where
  "b_answer = ser_full plain_wire (full_state_answer b_start)"

definition a_joined :: membership where
  "a_joined = fst (run_event plain_wire 0 (Pull_done (SeedPull address_b) (kOK, b_answer)) a_start)"

definition a_calling :: membership where
  "a_calling = fst (run_event plain_wire 0 Gossip_tick a_joined)"

definition a_announced :: membership where
  "a_announced = fst (run_event plain_wire 0 Gossip_tick a_calling)"

definition b_told :: membership where
  "b_told = fst (run_event plain_wire 0 (Gossip_in (member_address member_a) a_is_up) b_start)"

lemma configs_simps [simp]: "c_host config_a = member_a" "c_retransmit_multiplier config_a = 3" 
  "c_host config_b = member_b" "c_retransmit_multiplier config_b = 3" "c_gossip_interval config_a = 500" "c_gossip_interval config_b = 500"
  by (simp_all add: config_a_def config_b_def AddOneSeedMember_def Config_def)

lemmas a_start_simps [simp] = Init_success [OF Init_config_a [of plain_wire], folded a_start_def, simplified]
lemmas b_start_simps [simp] = Init_success [OF Init_config_b, folded b_start_def, simplified]

lemma a_start_more [simp]: "\<not> is_self_actor_system_up a_start" "effects a_start = [SendPull address_b full_state_request (SeedPull address_b)]"
  "subscribers a_start = []"
  by code_simp+

lemma answer: "HandlePull plain_wire a full_state_request b_start = (b_start, b_answer)"
  unfolding b_answer_def by (rule HandlePull_full) (simp add: full_state_request_def)

lemma a_joined: "run_event plain_wire 0 (Pull_done (SeedPull address_b) (kOK, b_answer)) a_start = (a_joined, None)
   \<and> members a_joined = [(member_a, 0), (without_uid member_b, 0)] \<and> incarnation a_joined = 1
   \<and> gossip_queue a_joined = Some (Push (Disseminate a_is_up) 3 (TimedFunctorQueue 500))
   \<and> has_transport a_joined \<and> self_member a_joined = member_a"
proof -
  have f: "full_IsSuccess (full_state_answer b_start)" by (simp add: full_state_answer_def full_state_success)
  have g: "full_GetMembersWithStatus (full_state_answer b_start) = [\<lparr>ws_member = without_uid member_b, ws_status = UP\<rparr>]"
    unfolding full_state_answer_def full_state_roundtrip by (simp add: GetMembersWithStatus_def mfind_Nil)
  have p: "par_full plain_wire b_answer = full_state_answer b_start" by (simp add: b_answer_def)
  show ?thesis using f g
    by (simp add: a_joined_def p HandleDidPull_def Let_def UpdateActorSystemStatus_def
        update_status_entry_def mfind_Cons mfind_Nil with_payload_def
        IncreaseIncarnation_def SendGossip_def GetRetransmitLimit_def ceil_log10.simps then_do_def Notify_def)
qed

lemma a_calling: "run_event plain_wire 0 Gossip_tick a_joined = (a_calling, None)
   \<and> members a_calling = [(member_a, 0), (without_uid member_b, 0)] \<and> incarnation a_calling = 1
   \<and> gossip_queue a_calling = Some ((TimedFunctorQueue 500)\<lparr>fq_pc := Calling (Disseminate a_is_up) 3\<rparr>)
   \<and> has_transport a_calling \<and> self_member a_calling = member_a"
  using a_joined by (simp add: a_calling_def gossip_worker_def run_called_def worker_step.simps Push_def TimedFunctorQueue_def
     queue_push_def queue_pop_def skip_act_def)

lemma address_without_uid: "member_address (without_uid m) = member_address m"
  by (cases m) (simp add: without_uid_def member_address_def)

lemma a_announced: "run_event plain_wire 0 Gossip_tick a_calling = (a_announced, None)
   \<and> SendGossipTo [address_b] a_is_up \<in> set (effects a_announced) \<and> incarnation a_announced = 1 \<and> self_member a_announced = member_a"
  using a_calling by (simp add: a_announced_def gossip_worker_def run_called_def worker_step.simps  TimedFunctorQueue_def
     DisseminateGossip_def GetRandomMember_def others_def GetMembers_def random_element_def address_b_def numeral_3_eq_3 emit_def member_eq_key address_without_uid)

lemma b_told: "run_event plain_wire 0 (Gossip_in (member_address member_a) a_is_up) b_start = (b_told, None)
   \<and> members b_told = [(member_a, 1), (member_b, 0)]"
  by (simp add: b_told_def HandleGossip_def HandleUp_def Let_def EraseExpiredMember_def stale_def MergeUpUpdate_def
    with_payload_def mfind_Cons mfind_Nil SendGossip_def GetRetransmitLimit_def then_do_def Notify_def IfBelongsToMembers_def
    IfBelongsToSuspects_def member_eq_key ceil_log10.simps)

section \<open>The cluster they form\<close>

definition key_a :: member_key where
  "key_a = mkey member_a"

definition key_b :: member_key where
  "key_b = mkey member_b"

definition before_answer :: cluster_net where
  "before_answer = \<lparr>cn_nodes = [key_a \<mapsto> a_start, key_b \<mapsto> b_start], cn_answers = {(key_a, SeedPull address_b, b_answer)}\<rparr>"

definition after_gossip :: cluster_net where
  "after_gossip = \<lparr>cn_nodes = [key_a \<mapsto> a_announced, key_b \<mapsto> b_told], cn_answers = {(key_a, SeedPull address_b, b_answer)}\<rparr>"

lemma keys_differ: "key_a \<noteq> key_b" by (simp add: key_a_def key_b_def)

lemma before_answer_reachable: "net_reachable plain_wire before_answer"
proof -
  let ?one = "\<lparr>cn_nodes = [key_a \<mapsto> a_start], cn_answers = {}\<rparr>" and ?two = "\<lparr>cn_nodes = [key_a \<mapsto> a_start, key_b \<mapsto> b_start], cn_answers = {}\<rparr>"
  have "net_step plain_wire empty_net ?one"
    using net_step.join [OF _ Init_config_a [of plain_wire], of empty_net]
    by (simp add: empty_net_def key_a_def a_start_def)
  moreover have "net_step plain_wire ?one ?two"
    using net_step.join [OF _ Init_config_b, of ?one] by (simp add: key_a_def key_b_def b_start_def)
  moreover have "net_step plain_wire ?two before_answer"
    using net_step.serve [of ?two key_b b_start key_a a_start full_state_request "SeedPull address_b" plain_wire b_start b_answer] answer keys_differ
    by (simp add: before_answer_def address_b_def room_def fun_upd_twist)
  ultimately show ?thesis by (meson net_reachable.intros)
qed

lemma after_gossip_reachable: "net_reachable plain_wire after_gossip"
proof -
  let ?net = "\<lambda>a b. \<lparr>cn_nodes = [key_a \<mapsto> a, key_b \<mapsto> b], cn_answers = {(key_a, SeedPull address_b, b_answer)}\<rparr>"
  have move: "net_step plain_wire (?net a b) (?net a' b)"
    if "deliverable (?net a b) key_a a e" "room a" "event_ok e" "run_event plain_wire 0 e a = (a', None)" for a a' b e
    using net_step.event [OF _ that(1,2) node_step.run [OF that(3,4)]] keys_differ by (simp add: fun_upd_twist)
  have "net_step plain_wire (?net a_start b_start) (?net a_joined b_start)"
    using a_joined by (intro move [where e = "Pull_done (SeedPull address_b) (kOK, b_answer)"]) (auto simp: room_def)
  moreover have "net_step plain_wire (?net a_joined b_start) (?net a_calling b_start)"
    using a_joined a_calling by (intro move [where e = Gossip_tick]) (auto simp: room_def)
  moreover have "net_step plain_wire (?net a_calling b_start) (?net a_announced b_start)"
    using a_calling a_announced by (intro move [where e = Gossip_tick]) (auto simp: room_def)
  moreover have "net_step plain_wire (?net a_announced b_start) (?net a_announced b_told)"
  proof -
    have "a_announced \<in> ran [key_a \<mapsto> a_announced, key_b \<mapsto> b_start]" using keys_differ by (auto simp: ran_def)
    moreover have "SendGossipTo [address_b] a_is_up \<in> set (effects a_announced)" "self_member a_announced = member_a"
      using a_announced by blast+
    ultimately have "deliverable (?net a_announced b_start) key_b b_start (Gossip_in (member_address member_a) a_is_up)"
      unfolding deliverable.simps by (intro bexI [where x = a_announced]) (auto simp: address_b_def)
    moreover have "node_step plain_wire b_start (Gossip_in (member_address member_a) a_is_up) b_told"
      using b_told by (intro node_step.run [where x = None]) auto
    ultimately show ?thesis
      using net_step.event [of "?net a_announced b_start" key_b b_start "Gossip_in (member_address member_a) a_is_up" plain_wire b_told]
      by (simp add: room_def)
  qed
  ultimately show ?thesis
    using before_answer_reachable unfolding before_answer_def after_gossip_def by (meson net_reachable.step)
qed

end
