(* ===== verification/Cluster_Properties.thy ===== *)
theory Cluster_Properties
  imports Sample_Cluster
begin

text \<open>
  Properties of the nodes of a cluster together (\<open>Cluster_Net\<close>): what the tables of one
  node may hold of another, and that what a node announces is news everywhere.
\<close>

section \<open>An announcement against the tables of another node\<close>

lemma table_le_Erase:
  assumes "table_le c (members s)" and "table_le c (suspects s)"
  shows "table_le c (members (EraseExpiredMember m s))" and "table_le c (suspects (EraseExpiredMember m s))"
  using assms table_le_erase by (simp_all add: EraseExpiredMember_def Let_def)

lemma HandleUp_news:
  assumes "tables_wf s" and "table_le c (members s)" and "table_le c (suspects s)"
    and "\<not> member_eq (update_GetMember u) (self_member s)" and "c (mkey (update_GetMember u)) < GetIncarnation u"
    and "HandleUp p u s = (s', None)"
  shows "mfind (update_GetMember u) (members s') = Some (GetIncarnation u)"
proof -
  let ?m = "update_GetMember u" and ?i = "GetIncarnation u" and ?e = "EraseExpiredMember (update_GetMember u) s"
  note t = table_le_Erase [OF assms(2,3), of ?m]
  have old: "mfind ?m (members ?e) = Some j \<Longrightarrow> j < ?i" "mfind ?m (suspects ?e) = Some j \<Longrightarrow> j < ?i" for j
    using table_le_find [OF t(1)] table_le_find [OF t(2)] assms(5) by (meson le_less_trans)+
  then have "then_do (SendGossip p) (pure_act (MergeUpUpdate ?m ?i)) ?e = (s', None)"
    using assms(4,6)
    by (fastforce simp: HandleUp_def Let_def IfBelongsToMembers_def IfBelongsToSuspects_def
      GetMemberLocalIncarnation_def GetSuspectLocalIncarnation_def not_le split: if_splits option.splits)
  then obtain r where r: "s' = MergeUpUpdate ?m ?i r" "members r = members ?e" "suspects r = suspects ?e"
    "actor_systems r = actor_systems ?e" by (rule gossip_thenD)
  have "tables_wf r"
    using r tables.keep_EraseExpiredMember [OF assms(1), of ?m] by (simp add: tables_wf_def)
  then show ?thesis
    using MergeUpUpdate_members [of r ?m ?m ?i] old(1) r(2)
    by (auto simp: r(1) newer_def max_def split: option.splits)
qed

section \<open>Properties\<close>






end
