(* ===== verification/Event_Gen.thy ===== *)
theory Event_Gen
  imports Membership_Laws
begin

text \<open>
  The event generator, \<open>node_keeper/src/event.h\<close>: it compares the member list and the
  actor system table with the ones of its last call and reports the differences. Member
  lists are compared by \<open>std::set_difference\<close> under an order that looks at the IP address
  alone.
\<close>

section \<open>Definitions\<close>

datatype event_type = kMemberDown | kMemberUp | kActorSystemDown | kActorSystemUp

record member_event =
  ev_type :: event_type
  ev_member :: member

record event_generator =
  eg_members :: "member list"
  eg_actor_systems :: "(member \<times> bool) list"

definition new_generator :: event_generator where
  "new_generator = \<lparr>eg_members = [], eg_actor_systems = []\<rparr>"

text \<open>\<open>std::set_difference\<close> with a comparison object.\<close>

fun set_difference :: "('a \<Rightarrow> 'a \<Rightarrow> bool) \<Rightarrow> 'a list \<Rightarrow> 'a list \<Rightarrow> 'a list" where
  "set_difference lt [] ys = []"
| "set_difference lt (x # xs) [] = x # xs"
| "set_difference lt (x # xs) (y # ys) =
     (if lt x y then x # set_difference lt xs (y # ys)
      else if lt y x then set_difference lt (x # xs) ys
      else set_difference lt xs ys)"

definition ip_less :: "member \<Rightarrow> member \<Rightarrow> bool" where
  "ip_less lhs rhs \<longleftrightarrow> m_ip_address lhs < m_ip_address rhs"

definition generateEventForMember :: "member list \<Rightarrow> event_generator \<Rightarrow> member_event list" where
  "generateEventForMember ms g =
     map (\<lambda>m. \<lparr>ev_type = kMemberUp, ev_member = m\<rparr>) (set_difference ip_less ms (eg_members g)) @
     map (\<lambda>m. \<lparr>ev_type = kMemberDown, ev_member = m\<rparr>) (set_difference ip_less (eg_members g) ms)"

text \<open>A look-up in the saved table inserts \<open>False\<close> for a member it does not have.\<close>

fun generateEventForActorSystem ::
  "(member \<times> bool) list \<Rightarrow> (member \<times> bool) list \<Rightarrow> member_event list \<times> (member \<times> bool) list" where
  "generateEventForActorSystem [] saved = ([], saved)"
| "generateEventForActorSystem ((m, up) # rest) saved =
     (case map_index mkey False m saved of (old, saved') \<Rightarrow>
       (case generateEventForActorSystem rest saved' of (es, saved'') \<Rightarrow>
         ((if up \<noteq> old
           then \<lparr>ev_type = (if up then kActorSystemUp else kActorSystemDown), ev_member = m\<rparr> # es
           else es), saved'')))"

definition Update :: "member list \<Rightarrow> (member \<times> bool) list \<Rightarrow> event_generator \<Rightarrow> member_event list \<times> event_generator" where
  "Update ms flags g =
     (generateEventForMember ms g @ fst (generateEventForActorSystem flags (eg_actor_systems g)),
      \<lparr>eg_members = ms, eg_actor_systems = flags\<rparr>)"

section \<open>Differences of member lists\<close>

abbreviation ips :: "member list \<Rightarrow> string set" where
  "ips ms \<equiv> m_ip_address ` set ms"

text \<open>Lists in the order of the members table, with one member per host.\<close>

definition one_per_host :: "member list \<Rightarrow> bool" where
  "one_per_host ms \<longleftrightarrow> sorted_wrt (\<lambda>a b. m_ip_address a < m_ip_address b) ms"

lemma set_difference_exact:
  assumes "one_per_host xs" and "one_per_host ys"
  shows "set_difference ip_less xs ys = filter (\<lambda>m. m_ip_address m \<notin> ips ys) xs"
  using assms
proof (induction ip_less xs ys rule: set_difference.induct)
  case (3 x xs y ys)
  have x: "\<forall>a\<in>set xs. m_ip_address x < m_ip_address a" and y: "\<forall>b\<in>set ys. m_ip_address y < m_ip_address b"
    and xs: "one_per_host xs" and ys: "one_per_host ys"
    using "3.prems" by (auto simp: one_per_host_def)
  consider "ip_less x y" | "ip_less y x" "\<not> ip_less x y" | "m_ip_address x = m_ip_address y"
    unfolding ip_less_def by (meson linorder_less_linear less_asym)
  then show ?case
  proof cases
    case 1
    then have "m_ip_address x \<notin> ips (y # ys)" using y by (auto simp: ip_less_def)
    then show ?thesis using "3.hyps"(1) [OF 1 xs "3.prems"(2)] 1 by simp
  next
    case 2
    then have "m_ip_address y \<notin> ips (x # xs)" using x by (auto simp: ip_less_def)
    then have "filter (\<lambda>m. m_ip_address m \<notin> ips ys) (x # xs) = filter (\<lambda>m. m_ip_address m \<notin> ips (y # ys)) (x # xs)"
      by (intro filter_cong) (auto simp: image_iff)
    then show ?thesis using "3.hyps"(2) [OF 2(2,1) "3.prems"(1) ys] 2 by simp
  next
    case 3
    then have n: "\<not> ip_less x y" "\<not> ip_less y x" by (simp_all add: ip_less_def)
    have "filter (\<lambda>m. m_ip_address m \<notin> ips ys) xs = filter (\<lambda>m. m_ip_address m \<notin> ips (y # ys)) xs"
      using x 3 by (intro filter_cong) auto
    then show ?thesis using "3.hyps"(3) [OF n xs ys] n 3 by simp
  qed
qed simp_all

lemma member_events_exact:
  assumes "one_per_host ms" and "one_per_host (eg_members g)"
  shows "generateEventForMember ms g =
     map (\<lambda>m. \<lparr>ev_type = kMemberUp, ev_member = m\<rparr>) (filter (\<lambda>m. m_ip_address m \<notin> ips (eg_members g)) ms) @
     map (\<lambda>m. \<lparr>ev_type = kMemberDown, ev_member = m\<rparr>) (filter (\<lambda>m. m_ip_address m \<notin> ips ms) (eg_members g))"
  using assms by (simp add: generateEventForMember_def set_difference_exact)

text \<open>Two nodes on one host cannot be told apart.\<close>

lemma member_events_same_ip:
  assumes "m_ip_address a = m_ip_address b"
  shows "generateEventForMember [b] \<lparr>eg_members = [a], eg_actor_systems = fl\<rparr> = []"
  using assms by (simp add: generateEventForMember_def ip_less_def)

text \<open>Without a change nothing is reported.\<close>

lemma set_difference_same: "(\<And>x. \<not> lt x x) \<Longrightarrow> set_difference lt xs xs = []"
  by (induction xs) auto

lemma member_events_none: "generateEventForMember ms \<lparr>eg_members = ms, eg_actor_systems = fl\<rparr> = []"
  by (simp add: generateEventForMember_def set_difference_same ip_less_def)

section \<open>Actor system events\<close>

lemma actor_events:
  assumes "mwf flags" and "mwf saved"
  shows "fst (generateEventForActorSystem flags saved) =
    map (\<lambda>(m, up). \<lparr>ev_type = (if up then kActorSystemUp else kActorSystemDown), ev_member = m\<rparr>)
      (filter (\<lambda>(m, up). up \<noteq> (mfind m saved = Some True)) flags)"
  using assms
proof (induction flags arbitrary: saved)
  case (Cons e flags)
  obtain m up where e: "e = (m, up)" by (cases e)
  obtain old saved' where i: "map_index mkey False m saved = (old, saved')" by fastforce
  have old: "old = (mfind m saved = Some True)"
    using map_index_fst [of mkey False m saved] i by (auto split: option.splits)
  have wf': "mwf saved'" using map_index_wf [of mkey saved False m] Cons.prems(2) i by simp
  have look: "(mfind k saved' = Some True) = (mfind k saved = Some True)" for k
  proof (cases "mfind m saved")
    case None
    then have "saved' = mput m False saved" using i by (simp add: map_index_def)
    then show ?thesis using Cons.prems(2) None mfind_cong [of k m saved] by (auto simp: mfind_mput)
  qed (use i in \<open>simp add: map_index_def\<close>)
  have wf: "mwf flags" using Cons.prems(1) by (rule map_wf_tl)
  have "fst (generateEventForActorSystem flags saved') =
    map (\<lambda>(m, up). \<lparr>ev_type = (if up then kActorSystemUp else kActorSystemDown), ev_member = m\<rparr>)
      (filter (\<lambda>(m, up). up \<noteq> (mfind m saved = Some True)) flags)"
    using Cons.IH [OF wf wf'] by (simp only: look)
  then show ?case
    by (cases "generateEventForActorSystem flags saved'") (auto simp: e i old)
qed simp

text \<open>A flag that leaves the table while it is up is never reported down.\<close>

lemma actor_events_erased:
  "generateEventForActorSystem [] [(m, True)] = ([], [(m, True)])"
  by simp

section \<open>Replaying the events\<close>

text \<open>What a listener that keeps a set of hosts makes of the events.\<close>

fun replay :: "member_event list \<Rightarrow> string set \<Rightarrow> string set" where
  "replay [] hs = hs"
| "replay (e # es) hs = replay es
     (case ev_type e of
        kMemberUp \<Rightarrow> insert (m_ip_address (ev_member e)) hs
      | kMemberDown \<Rightarrow> hs - {m_ip_address (ev_member e)}
      | _ \<Rightarrow> hs)"

lemma replay_append: "replay (es @ fs) hs = replay fs (replay es hs)"
  by (induction es arbitrary: hs) auto

lemma replay_up: "replay (map (\<lambda>m. \<lparr>ev_type = kMemberUp, ev_member = m\<rparr>) ms) hs = hs \<union> ips ms"
  by (induction ms arbitrary: hs) auto

lemma replay_down: "replay (map (\<lambda>m. \<lparr>ev_type = kMemberDown, ev_member = m\<rparr>) ms) hs = hs - ips ms"
  by (induction ms arbitrary: hs) auto

lemma replay_actor:
  "\<forall>e\<in>set es. ev_type e \<noteq> kMemberUp \<and> ev_type e \<noteq> kMemberDown \<Longrightarrow> replay es hs = hs"
  by (induction es) (auto split: event_type.splits)

lemma actor_events_types:
  "e \<in> set (fst (generateEventForActorSystem flags saved)) \<Longrightarrow>
   ev_type e = kActorSystemUp \<or> ev_type e = kActorSystemDown"
proof (induction flags saved rule: generateEventForActorSystem.induct)
  case (2 m up rest saved)
  obtain old saved' where i: "map_index mkey False m saved = (old, saved')" by fastforce
  show ?case
    using "2.IH" [OF i [symmetric]] "2.prems"
    by (cases "generateEventForActorSystem rest saved'") (auto simp: i split: if_splits)
qed simp

lemma replay_Update:
  assumes "one_per_host ms" and "one_per_host (eg_members g)"
  shows "replay (fst (Update ms flags g)) (ips (eg_members g)) = ips ms"
proof -
  have "replay (fst (generateEventForActorSystem flags (eg_actor_systems g))) hs = hs" for hs
    by (rule replay_actor) (auto dest: actor_events_types)
  then have "replay (fst (Update ms flags g)) (ips (eg_members g)) =
      ips (eg_members g) \<union> ips (filter (\<lambda>m. m_ip_address m \<notin> ips (eg_members g)) ms)
        - ips (filter (\<lambda>m. m_ip_address m \<notin> ips ms) (eg_members g))"
    by (simp only: Update_def member_events_exact [OF assms] replay_append replay_up replay_down fst_conv)
  also have "\<dots> = ips ms" by (auto simp: image_iff)
  finally show ?thesis .
qed

text \<open>The members of a node come out of a sorted table.\<close>

lemma one_per_host_GetMembers:
  assumes "tables_wf s" and "inj_on m_ip_address (set (GetMembers s))"
  shows "one_per_host (GetMembers s)"
proof -
  have wf: "sorted_wrt (<) (map mkey (GetMembers s))"
    using assms(1) by (simp add: tables_wf_def map_wf_def GetMembers_def)
  have "sorted_wrt (\<lambda>a b. m_ip_address a < m_ip_address b) ms"
    if "sorted_wrt (<) (map mkey ms)" and "inj_on m_ip_address (set ms)" for ms
    using that
  proof (induction ms)
    case (Cons a ms)
    have "m_ip_address a < m_ip_address b" if "b \<in> set ms" for b
    proof -
      have "mkey a < mkey b" using Cons.prems(1) that by simp
      then have "a \<noteq> b" by auto
      then have "m_ip_address a \<noteq> m_ip_address b" using Cons.prems(2) that by (auto simp: inj_on_def)
      then show ?thesis using \<open>mkey a < mkey b\<close> by (simp add: mkey_def)
    qed
    then show ?case using Cons by (simp add: inj_on_def)
  qed simp
  then show ?thesis using wf assms(2) by (simp add: one_per_host_def)
qed

end
