(* ===== verification/Channel.thy ===== *)
theory Channel
  imports Fifo_Spec
begin

text \<open>
  The channel of \<open>node_keeper/src/channel.h\<close>: an unbounded queue between threads that
  can be closed. Putting into a closed channel throws; getting blocks while the channel is
  open and empty, and yields no item once it is closed and drained.
\<close>

record 'a channel =
  ch_queue :: "'a list"
  ch_closed :: bool

definition new_channel :: "'a channel" where
  "new_channel = \<lparr>ch_queue = [], ch_closed = False\<rparr>"

definition ch_Close :: "'a channel \<Rightarrow> 'a channel" where
  "ch_Close c = c\<lparr>ch_closed := True\<rparr>"

definition ch_IsClosed :: "'a channel \<Rightarrow> bool" where
  "ch_IsClosed c = ch_closed c"

definition ch_Put :: "'a \<Rightarrow> 'a channel act" where
  "ch_Put item c =
     (if ch_closed c then (c, Some LogicError)
      else (c\<lparr>ch_queue := queue_push item (ch_queue c)\<rparr>, None))"

text \<open>
  \<open>None\<close>: the caller is blocked on the condition variable. Otherwise the pair
  \<open>result\<close>, its flag and item as an option, and the channel after the call.
\<close>

definition ch_Get :: "bool \<Rightarrow> 'a channel \<Rightarrow> ('a option \<times> 'a channel) option" where
  "ch_Get wait c =
     (if wait \<and> \<not> (ch_closed c \<or> ch_queue c \<noteq> []) then None
      else case queue_pop (ch_queue c) of
             None \<Rightarrow> Some (None, c)
           | Some (x, r) \<Rightarrow> Some (Some x, c\<lparr>ch_queue := r\<rparr>))"

section \<open>The channel is a FIFO buffer while it is open\<close>

definition ch_deq :: "'a channel \<Rightarrow> ('a \<times> 'a channel) option" where
  "ch_deq c = (case ch_Get False c of Some (Some x, c') \<Rightarrow> Some (x, c') | _ \<Rightarrow> None)"

interpretation chan: fifo "\<lambda>x c. fst (ch_Put x c)" ch_deq ch_queue "\<lambda>_. True" "\<lambda>c. \<not> ch_closed c"
  by unfold_locales
    (auto simp: ch_Put_def ch_deq_def ch_Get_def queue_push_def queue_pop_def split: list.splits)

text \<open>
  The reader loop every subscriber runs, \<open>for (item = Get(); item.first; item = Get())\<close>:
  the items it sees before it blocks (\<open>False\<close>) or ends (\<open>True\<close>).
\<close>

function read_all :: "'a channel \<Rightarrow> 'a list \<times> bool \<times> 'a channel" where
  "read_all c =
     (case ch_Get True c of
        None \<Rightarrow> ([], False, c)
      | Some (None, c') \<Rightarrow> ([], True, c')
      | Some (Some x, c') \<Rightarrow> (case read_all c' of (xs, e, c'') \<Rightarrow> (x # xs, e, c'')))"
  by pat_completeness auto
termination
  by (relation "measure (length \<circ> ch_queue)")
    (auto simp: ch_Get_def queue_pop_def split: if_splits list.splits)

declare read_all.simps [simp del]

lemma read_all_eq: "read_all c = (ch_queue c, ch_closed c, c\<lparr>ch_queue := []\<rparr>)"
proof (induction c rule: read_all.induct)
  case (1 c)
  show ?case
  proof (cases "ch_queue c")
    case Nil
    then show ?thesis by (subst read_all.simps) (auto simp: ch_Get_def queue_pop_def)
  next
    case (Cons x xs)
    then have g: "ch_Get True c = Some (Some x, c\<lparr>ch_queue := xs\<rparr>)"
      by (simp add: ch_Get_def queue_pop_def)
    have "read_all (c\<lparr>ch_queue := xs\<rparr>) = (xs, ch_closed c, c\<lparr>ch_queue := []\<rparr>)"
      using 1 [OF g refl refl] by simp
    then show ?thesis using Cons g by (subst read_all.simps) simp
  qed
qed

lemma Put_closed: "ch_closed c \<Longrightarrow> ch_Put x c = (c, Some LogicError)"
  by (simp add: ch_Put_def)

lemma Get_blocks_iff: "ch_Get True c = None \<longleftrightarrow> \<not> ch_closed c \<and> ch_queue c = []"
  by (auto simp: ch_Get_def queue_pop_def split: list.splits)

end
