(* ===== verification/Node_Grpc.thy ===== *)
theory Node_Grpc
  imports Event_Gen Channel
begin

text \<open>
  The gRPC service of a node, \<open>node_keeper/src/grpc.h\<close> and \<open>grpc.cc\<close>: the member set it
  answers queries from, and one channel per subscriber into which \<open>Notify\<close> puts the
  events that are not about the node itself.
\<close>

section \<open>Messages\<close>

record pb_member =
  pm_name :: string
  pm_hostname :: string
  pm_role :: string
  pm_host :: string
  pm_port :: u32

definition UpdateMember :: "member \<Rightarrow> pb_member" where
  "UpdateMember from = \<lparr>pm_name = m_node_name from, pm_hostname = m_host_name from,
     pm_role = m_role from, pm_host = m_ip_address from, pm_port = ucast (m_port from)\<rparr>"

datatype pb_status = PB_UP | PB_DOWN | PB_ACTOR_SYSTEM_DOWN | PB_ACTOR_SYSTEM_UP

fun pb_event_status :: "event_type \<Rightarrow> pb_status" where
  "pb_event_status kMemberUp = PB_UP"
| "pb_event_status kMemberDown = PB_DOWN"
| "pb_event_status kActorSystemDown = PB_ACTOR_SYSTEM_DOWN"
| "pb_event_status kActorSystemUp = PB_ACTOR_SYSTEM_UP"

definition pb_event :: "member_event \<Rightarrow> pb_member \<times> pb_status" where
  "pb_event e = (UpdateMember (ev_member e), pb_event_status (ev_type e))"

section \<open>State\<close>

text \<open>The channels are a \<open>std::list\<close>; the number beside each stands for its iterator.\<close>

record grpc_service =
  gs_members :: member_set
  gs_channels :: "(nat \<times> member_event channel) list"
  gs_host :: string

definition GRPCImpl :: grpc_service where
  "GRPCImpl = \<lparr>gs_members = [], gs_channels = [], gs_host = []\<rparr>"

definition SetHost :: "string \<Rightarrow> grpc_service \<Rightarrow> grpc_service" where
  "SetHost host g = g\<lparr>gs_host := host\<rparr>"

definition GetSubscribersCount :: "grpc_service \<Rightarrow> nat" where
  "GetSubscribersCount g = length (gs_channels g)"

definition AddChannel :: "nat \<Rightarrow> grpc_service \<Rightarrow> grpc_service" where
  "AddChannel it g = g\<lparr>gs_channels := gs_channels g @ [(it, new_channel)]\<rparr>"

definition RemoveChannel :: "nat \<Rightarrow> grpc_service \<Rightarrow> grpc_service" where
  "RemoveChannel it g = g\<lparr>gs_channels := filter (\<lambda>(i, c). i \<noteq> it) (gs_channels g)\<rparr>"

definition CloseService :: "grpc_service \<Rightarrow> grpc_service" where
  "CloseService g = g\<lparr>gs_channels := map (\<lambda>(i, c). (i, ch_Close c)) (gs_channels g)\<rparr>"

section \<open>Operations\<close>

definition GetMembersReply :: "grpc_service \<Rightarrow> pb_member list" where
  "GetMembersReply g = map (UpdateMember \<circ> fst) (gs_members g)"

definition ActorSystemUp :: "wire \<Rightarrow> membership act" where
  "ActorSystemUp W = then_do (pure_act SetSelfActorSystemUp) (SendSelfActorSystemUpGossip W)"

definition is_local_event :: "string \<Rightarrow> member_event \<Rightarrow> bool" where
  "is_local_event host e \<longleftrightarrow>
     m_ip_address (ev_member e) = host \<or> m_host_name (ev_member e) = host"

text \<open>The first loop of \<open>Notify\<close>; \<open>insert\<close> keeps an equal member that is there.\<close>

fun notify_members :: "member_event list \<Rightarrow> member_set \<Rightarrow> member_set" where
  "notify_members [] ms = ms"
| "notify_members (e # es) ms = notify_members es
     (case ev_type e of
        kMemberUp \<Rightarrow> mput (ev_member e) () ms
      | kMemberDown \<Rightarrow> merase (ev_member e) ms
      | _ \<Rightarrow> ms)"

fun put_events :: "string \<Rightarrow> member_event list \<Rightarrow> member_event channel act" where
  "put_events host [] c = (c, None)"
| "put_events host (e # es) c =
     (if is_local_event host e then put_events host es c
      else case ch_Put e c of
        (c', Some x) \<Rightarrow> (c', Some x)
      | (c', None) \<Rightarrow> put_events host es c')"

fun put_all :: "string \<Rightarrow> member_event list \<Rightarrow> (nat \<times> member_event channel) list act" where
  "put_all host es [] = ([], None)"
| "put_all host es ((i, c) # cs) =
     (case put_events host es c of
        (c', Some x) \<Rightarrow> ((i, c') # cs, Some x)
      | (c', None) \<Rightarrow> (case put_all host es cs of (cs', x) \<Rightarrow> ((i, c') # cs', x)))"

definition service_Notify :: "member_event list \<Rightarrow> grpc_service act" where
  "service_Notify es g =
     (case put_all (gs_host g) es (gs_channels g) of
        (cs, x) \<Rightarrow> (g\<lparr>gs_members := notify_members es (gs_members g), gs_channels := cs\<rparr>, x))"

text \<open>
  \<open>Subscribe\<close> after \<open>AddChannel\<close>: the events written to the stream until the channel
  blocks the loop (\<open>False\<close>) or is closed and drained (\<open>True\<close>).
\<close>

definition service_Subscribe :: "member_event channel \<Rightarrow> (pb_member \<times> pb_status) list \<times> bool" where
  "service_Subscribe c = (case read_all c of (es, ended, c') \<Rightarrow> (map pb_event es, ended))"

section \<open>Laws\<close>

lemma put_events_open:
  "\<not> ch_closed c \<Longrightarrow> put_events host es c =
     (c\<lparr>ch_queue := ch_queue c @ filter (\<lambda>e. \<not> is_local_event host e) es\<rparr>, None)"
  by (induction host es c rule: put_events.induct) (simp_all add: ch_Put_def queue_push_def)

lemma put_events_closed:
  "ch_closed c \<Longrightarrow> put_events host es c =
     (c, if \<forall>e\<in>set es. is_local_event host e then None else Some LogicError)"
  by (induction es) (auto simp: ch_Put_def)

lemma put_all_open:
  "\<forall>(i, c)\<in>set cs. \<not> ch_closed c \<Longrightarrow> put_all host es cs =
     (map (\<lambda>(i, c). (i, c\<lparr>ch_queue := ch_queue c @ filter (\<lambda>e. \<not> is_local_event host e) es\<rparr>)) cs, None)"
  by (induction host es cs rule: put_all.induct) (auto simp: put_events_open)

lemma service_Notify_open:
  assumes "\<forall>(i, c)\<in>set (gs_channels g). \<not> ch_closed c"
  shows "service_Notify es g =
    (g\<lparr>gs_members := notify_members es (gs_members g),
       gs_channels := map (\<lambda>(i, c). (i, c\<lparr>ch_queue := ch_queue c @
         filter (\<lambda>e. \<not> is_local_event (gs_host g) e) es\<rparr>)) (gs_channels g)\<rparr>, None)"
  using assms by (simp add: service_Notify_def put_all_open)

text \<open>A sequence of notifications is one notification of their concatenation.\<close>

definition channels_open :: "grpc_service \<Rightarrow> bool" where
  "channels_open g \<longleftrightarrow> (\<forall>(i, c)\<in>set (gs_channels g). \<not> ch_closed c)"

lemma channels_open_Notify: "channels_open g \<Longrightarrow> channels_open (fst (service_Notify es g))"
  by (auto simp: channels_open_def service_Notify_open)

lemma notify_members_append:
  "notify_members (es @ fs) ms = notify_members fs (notify_members es ms)"
  by (induction es arbitrary: ms) auto

lemma service_Notify_append:
  assumes "channels_open g"
  shows "service_Notify (es @ fs) g = service_Notify fs (fst (service_Notify es g))"
  using assms channels_open_Notify [OF assms, of es]
  by (auto simp: channels_open_def service_Notify_open notify_members_append comp_def case_prod_beta)

text \<open>A subscriber's stream is what was put into its channel since it was opened.\<close>

lemma service_Subscribe_eq: "service_Subscribe c = (map pb_event (ch_queue c), ch_closed c)"
  by (simp add: service_Subscribe_def read_all_eq)

text \<open>The keys of the member set follow the events.\<close>

definition keys_of :: "member_set \<Rightarrow> member_key set" where
  "keys_of ms = mkey ` fst ` set ms"

lemma keys_of_mput: "keys_of (mput m () ms) = insert (mkey m) (keys_of ms)"
  by (simp add: keys_of_def keys_map_put)

lemma keys_of_dom: "keys_of ms = dom (map_abs mkey ms)"
  by (simp add: keys_of_def dom_map_abs)

lemma keys_of_merase: "mwf ms \<Longrightarrow> keys_of (merase m ms) = keys_of ms - {mkey m}"
  by (simp add: keys_of_dom map_abs_erase)

lemma mwf_notify_members: "mwf ms \<Longrightarrow> mwf (notify_members es ms)"
  by (induction es arbitrary: ms) (auto simp: map_wf_put map_wf_erase split: event_type.splits)

lemma keys_notify_up:
  "keys_of (notify_members (map (\<lambda>m. \<lparr>ev_type = kMemberUp, ev_member = m\<rparr>) ms) s) = keys_of s \<union> mkey ` set ms"
  by (induction ms arbitrary: s) (auto simp: keys_of_mput)

lemma keys_notify_down:
  "mwf s \<Longrightarrow> keys_of (notify_members (map (\<lambda>m. \<lparr>ev_type = kMemberDown, ev_member = m\<rparr>) ms) s) =
     keys_of s - mkey ` set ms"
  by (induction ms arbitrary: s) (auto simp: keys_of_merase map_wf_erase)

lemma notify_members_actor:
  "\<forall>e\<in>set es. ev_type e = kActorSystemUp \<or> ev_type e = kActorSystemDown \<Longrightarrow> notify_members es s = s"
  by (induction es) auto

text \<open>Leaving out events about actor systems changes nothing for the member set.\<close>

lemma notify_members_filter:
  "\<forall>e\<in>set es. \<not> P e \<longrightarrow> ev_type e = kActorSystemUp \<or> ev_type e = kActorSystemDown \<Longrightarrow>
   notify_members (filter P es) s = notify_members es s"
  by (induction es arbitrary: s) auto

text \<open>The members a member event is about.\<close>

lemma Update_member_events:
  assumes "one_per_host ms" and "one_per_host (eg_members g)" and "e \<in> set (fst (Update ms flags g))"
  shows "ev_type e = kActorSystemUp \<or> ev_type e = kActorSystemDown
    \<or> ev_member e \<in> set ms \<and> m_ip_address (ev_member e) \<notin> ips (eg_members g)
    \<or> ev_member e \<in> set (eg_members g) \<and> m_ip_address (ev_member e) \<notin> ips ms"
proof -
  have "e \<in> set (generateEventForMember ms g) \<or>
      e \<in> set (fst (generateEventForActorSystem flags (eg_actor_systems g)))"
    using assms(3) by (simp add: Update_def)
  then show ?thesis
  proof
    assume "e \<in> set (generateEventForMember ms g)"
    then have "e \<in> (\<lambda>m. \<lparr>ev_type = kMemberUp, ev_member = m\<rparr>) ` {m \<in> set ms. m_ip_address m \<notin> ips (eg_members g)}
        \<or> e \<in> (\<lambda>m. \<lparr>ev_type = kMemberDown, ev_member = m\<rparr>) ` {m \<in> set (eg_members g). m_ip_address m \<notin> ips ms}"
      unfolding member_events_exact [OF assms(1,2)] by (simp only: set_append set_map set_filter Un_iff)
    then show ?thesis by (elim disjE imageE CollectE conjE) (simp_all only: member_event.simps simp_thms)
  qed (use actor_events_types in blast)
qed

text \<open>
  Hosts that keep their port: then the service's set holds exactly the members the
  generator was last told of.
\<close>

definition ports_stable :: "member list \<Rightarrow> member list \<Rightarrow> bool" where
  "ports_stable old new \<longleftrightarrow>
     (\<forall>a\<in>set old. \<forall>b\<in>set new. m_ip_address a = m_ip_address b \<longrightarrow> m_port a = m_port b)"

lemma notify_mirrors:
  assumes "one_per_host ms" and "one_per_host (eg_members g)" and "ports_stable (eg_members g) ms"
    and "mwf s" and "keys_of s = mkey ` set (eg_members g)"
  shows "keys_of (notify_members (fst (Update ms flags g)) s) = mkey ` set ms"
proof -
  let ?old = "eg_members g"
  let ?up = "filter (\<lambda>m. m_ip_address m \<notin> ips ?old) ms"
  let ?down = "filter (\<lambda>m. m_ip_address m \<notin> ips ms) ?old"
  have act: "notify_members (fst (generateEventForActorSystem flags fl)) r = r" for fl r
    by (rule notify_members_actor) (auto dest: actor_events_types)
  have "keys_of (notify_members (fst (Update ms flags g)) s) =
      (mkey ` set ?old \<union> mkey ` set ?up) - mkey ` set ?down"
    using member_events_exact [OF assms(1,2)] assms(4,5)
    by (simp add: Update_def notify_members_append act keys_notify_down keys_notify_up mwf_notify_members)
  also have "\<dots> = mkey ` set ms"
  proof (rule set_eqI, rule iffI)
    fix k assume k: "k \<in> (mkey ` set ?old \<union> mkey ` set ?up) - mkey ` set ?down"
    show "k \<in> mkey ` set ms"
    proof (cases "k \<in> mkey ` set ?up")
      case False
      then have "k \<in> mkey ` set ?old" using k by blast
      then obtain a where a: "a \<in> set ?old" "k = mkey a" by blast
      then have "a \<notin> set ?down" using k by blast
      then obtain b where "b \<in> set ms" "m_ip_address a = m_ip_address b" using a(1) by auto
      then show ?thesis using a assms(3) by (force simp: ports_stable_def mkey_def)
    qed auto
  next
    fix k assume "k \<in> mkey ` set ms"
    then obtain b where b: "b \<in> set ms" "k = mkey b" by auto
    have "k \<in> mkey ` set ?old \<union> mkey ` set ?up"
    proof (cases "m_ip_address b \<in> ips ?old")
      case True
      then obtain a where "a \<in> set ?old" "m_ip_address a = m_ip_address b" by auto
      then show ?thesis using b assms(3) by (force simp: ports_stable_def mkey_def)
    qed (use b in auto)
    moreover have "k \<notin> mkey ` set ?down"
    proof
      assume "k \<in> mkey ` set ?down"
      then obtain a where "mkey b = mkey a" "m_ip_address a \<notin> ips ms" using b(2) by auto
      moreover have "m_ip_address b \<in> ips ms" using b(1) by (rule imageI)
      ultimately show False by (simp add: mkey_def)
    qed
    ultimately show "k \<in> (mkey ` set ?old \<union> mkey ` set ?up) - mkey ` set ?down" by blast
  qed
  finally show ?thesis .
qed

end
