(* ===== verification/Transport_Life.thy ===== *)
theory Transport_Life
  imports Transport
begin

text \<open>
  The life of a transport, \<open>node_keeper/src/gossip.cc\<close>: opening its two sockets, the
  operations its io thread has under way, and its end. What an operation does when it
  completes is the handler of \<open>Transport\<close>; here it is seen with the operations it starts
  again, and with the sessions whose callbacks are alive.
\<close>

section \<open>Opening\<close>

text \<open>
  A port is bound by the operating system: \<open>bind True\<close> says whether the UDP port is free,
  \<open>bind False\<close> the TCP port. Sockets that were opened are closed when a later member of
  the object throws.
\<close>

datatype port_action = Bind bool u16 | Unbind bool u16

text \<open>
  An operation of the io context: the receive on the UDP socket, the accept, the read of a
  connection, and the write or read of a pull session.
\<close>

datatype io_op = OpReceive | OpAccept | OpConn nat | OpPull nat

record transport =
  tr_udp :: u16
  tr_tcp :: u16
  tr_ops :: "io_op list"
  tr_sessions :: "nat list"
  tr_buffers :: "nat \<Rightarrow> byte list"
  tr_joinable :: bool   \<comment> \<open>\<open>io_thread_\<close> has been started\<close>
  tr_looping :: bool    \<comment> \<open>and is still in \<open>run()\<close>\<close>

definition new_transport :: "u16 \<Rightarrow> u16 \<Rightarrow> transport" where
  "new_transport udp tcp = \<lparr>tr_udp = udp, tr_tcp = tcp, tr_ops = [], tr_sessions = [], tr_buffers = (\<lambda>_. []),
     tr_joinable = False, tr_looping = False\<rparr>"

text \<open>The constructor; every exception of its initialisers becomes \<open>PortOccupied\<close>.\<close>

definition CreateTransport ::
  "(bool \<Rightarrow> u16 \<Rightarrow> bool) \<Rightarrow> address \<Rightarrow> address \<Rightarrow> port_action list \<times> (cpp_exn + transport)" where
  "CreateTransport bind udp tcp =
     (let u = addr_port udp; t = addr_port tcp in
      if \<not> bind True u then ([], Inl PortOccupied)
      else if \<not> bind False t then ([Bind True u, Unbind True u], Inl PortOccupied)
      else ([Bind True u, Bind False t], Inr (new_transport u t)))"

text \<open>\<open>Run\<close>; None where it assigns to a thread that was started before: \<open>std::terminate\<close>.\<close>

definition Transport_Run :: "transport \<Rightarrow> transport option" where
  "Transport_Run t =
     (if tr_joinable t then None
      else Some (t\<lparr>tr_ops := tr_ops t @ [OpReceive, OpAccept], tr_joinable := True, tr_looping := True\<rparr>))"

section \<open>Connections\<close>

text \<open>
  The messages of one read: before each the address of the peer is asked for, which
  throws when the connection is gone by then.
\<close>

fun serve_each :: "'s handlers \<Rightarrow> address option list \<Rightarrow> byte list list \<Rightarrow> 's \<Rightarrow> 's \<times> cpp_exn option" where
  "serve_each h remotes [] s = (s, None)"
| "serve_each h [] (m # ms) s = (s, Some AsioError)"
| "serve_each h (None # remotes) (m # ms) s = (s, Some AsioError)"
| "serve_each h (Some a # remotes) (m # ms) s =
     (case on_receive h a m s of
        (s', out, Some e) \<Rightarrow> (s', Some e)
      | (s', out, None) \<Rightarrow> serve_each h remotes ms s')"

text \<open>The handler of a read of a connection, with what its buffer holds afterwards if it reads on.\<close>

definition connection_read ::
  "'s handlers \<Rightarrow> address option list \<Rightarrow> byte list \<Rightarrow> read_result \<Rightarrow> 's \<Rightarrow> 's \<times> (cpp_exn option + byte list)" where
  "connection_read h remotes buffer r s =
     (case r of
        ReadError \<Rightarrow> (s, Inl None)
      | ReadBytes d \<Rightarrow>
          (case (if length d \<noteq> 0 then receive_chunk buffer d else ([], Inr buffer)) of
             (ms, rest) \<Rightarrow>
               (case serve_each h remotes ms s of
                  (s', Some e) \<Rightarrow> (s', Inl (Some e))
                | (s', None) \<Rightarrow> (s', (case rest of Inl e \<Rightarrow> Inl (Some e) | Inr b \<Rightarrow> Inr b)))))"

section \<open>The io thread\<close>

text \<open>
  An operation ends and starts others. A session stays listed while one of its operations
  is left: they hold the session, it holds the callback, and that holds the guard which
  erases it. An exception ends the thread.
\<close>

definition finish_op :: "io_op \<Rightarrow> io_op list \<Rightarrow> bool \<Rightarrow> transport \<Rightarrow> transport" where
  "finish_op op started threw t =
     (let ops = remove1 op (tr_ops t) @ started in
      t\<lparr>tr_ops := ops, tr_looping := \<not> threw,
        tr_sessions := (case op of OpPull i \<Rightarrow>
            (if OpPull i \<in> set ops then tr_sessions t else release_session i (tr_sessions t))
          | _ \<Rightarrow> tr_sessions t)\<rparr>)"

definition begin_pull :: "net \<Rightarrow> address \<Rightarrow> byte list \<Rightarrow> nat \<Rightarrow> transport \<Rightarrow> transport" where
  "begin_pull net node data i t =
     (case PullAsync net node data i (tr_sessions t) of
        (sessions, es, code) \<Rightarrow> t\<lparr>tr_sessions := sessions,
          tr_ops := tr_ops t @ (if open_session net node = None then [OpPull i] else [])\<rparr>)"

text \<open>
  The steps of a node with its transport: another thread starts a pull, or the io thread
  completes an operation. What the callback of a pull does to the node is any \<open>'s act\<close>, and its
  handler may start any number of reads.
\<close>

inductive io_step :: "net \<Rightarrow> 's handlers \<Rightarrow> 's \<times> transport \<Rightarrow> 's \<times> transport \<Rightarrow> bool" for net h where
  pull: "i \<notin> set (tr_sessions t) \<Longrightarrow> io_step net h (s, t) (s, begin_pull net node data i t)"
| received: "tr_looping t \<Longrightarrow> OpReceive \<in> set (tr_ops t) \<Longrightarrow> received_gossip h error remote datagram s = (s', x, again) \<Longrightarrow>
    io_step net h (s, t) (s', finish_op OpReceive (if again then [OpReceive] else []) (x \<noteq> None) t)"
| accepted: "tr_looping t \<Longrightarrow> OpAccept \<in> set (tr_ops t) \<Longrightarrow> OpConn c \<notin> set (tr_ops t) \<Longrightarrow>
    io_step net h (s, t)
      (s, (finish_op OpAccept [OpConn c, OpAccept] False t)\<lparr>tr_buffers := (tr_buffers t)(c := [])\<rparr>)"
| accept_failed: "tr_looping t \<Longrightarrow> OpAccept \<in> set (tr_ops t) \<Longrightarrow>
    io_step net h (s, t) (s, finish_op OpAccept [OpAccept] False t)"
| read_on: "tr_looping t \<Longrightarrow> OpConn c \<in> set (tr_ops t) \<Longrightarrow>
    connection_read h remotes (tr_buffers t c) r s = (s', Inr b) \<Longrightarrow>
    io_step net h (s, t) (s', (finish_op (OpConn c) [OpConn c] False t)\<lparr>tr_buffers := (tr_buffers t)(c := b)\<rparr>)"
| read_end: "tr_looping t \<Longrightarrow> OpConn c \<in> set (tr_ops t) \<Longrightarrow>
    connection_read h remotes (tr_buffers t c) r s = (s', Inl x) \<Longrightarrow>
    io_step net h (s, t) (s', finish_op (OpConn c) [] (x \<noteq> None) t)"
| pulled: "tr_looping t \<Longrightarrow> OpPull i \<in> set (tr_ops t) \<Longrightarrow> callback s = (s', x :: cpp_exn option) \<Longrightarrow>
    io_step net h (s, t) (s', finish_op (OpPull i) (replicate n (OpPull i)) (x \<noteq> None) t)"

inductive_cases io_stepE: "io_step net h (s, t) (s', t')"

section \<open>The end\<close>

text \<open>
  The destructor: the listed sessions that still exist are closed, the io context is stopped and the thread
  joined; then the operations that are left are destroyed without a call of their handlers, which releases
  their sessions, and the two sockets are closed.
\<close>

definition release_all :: "io_op list \<Rightarrow> nat list \<Rightarrow> nat list" where
  "release_all ops sessions = fold (\<lambda>op ss. case op of OpPull i \<Rightarrow> release_session i ss | _ \<Rightarrow> ss) ops sessions"

definition destroy_transport :: "transport \<Rightarrow> port_action list \<times> transport" where
  "destroy_transport t =
     ([Unbind False (tr_tcp t), Unbind True (tr_udp t)],
      t\<lparr>tr_ops := [], tr_sessions := release_all (remdups (tr_ops t)) (tr_sessions t),
        tr_joinable := False, tr_looping := False\<rparr>)"

section \<open>Laws\<close>

text \<open>The ports that stay bound after some actions.\<close>

definition ports_left :: "port_action list \<Rightarrow> (bool \<times> u16) list" where
  "ports_left as = fold (\<lambda>a ps. case a of Bind k p \<Rightarrow> ps @ [(k, p)] | Unbind k p \<Rightarrow> remove1 (k, p) ps) as []"

lemma CreateTransport_failed:
  "CreateTransport bind udp tcp = (as, Inl e) \<Longrightarrow> e = PortOccupied \<and> ports_left as = []"
  by (auto simp: CreateTransport_def Let_def ports_left_def split: if_splits)

lemma CreateTransport_ok:
  "snd (CreateTransport bind udp tcp) = Inr t \<longleftrightarrow>
     bind True (addr_port udp) \<and> bind False (addr_port tcp) \<and> t = new_transport (addr_port udp) (addr_port tcp)"
  by (auto simp: CreateTransport_def Let_def)

text \<open>The hosts of the two addresses are not looked at: a node listens on all its addresses.\<close>

lemma CreateTransport_any_host:
  "CreateTransport bind (udp\<lparr>addr_host := x\<rparr>) (tcp\<lparr>addr_host := y\<rparr>) = CreateTransport bind udp tcp"
  by (simp add: CreateTransport_def)

text \<open>
  What holds of a transport from its construction on: a session is listed exactly while an
  operation of it is left, and there is at most one receive and one accept; the accept stays.
\<close>

definition transport_inv :: "transport \<Rightarrow> bool" where
  "transport_inv t \<longleftrightarrow>
     distinct (tr_sessions t) \<and> (\<forall>i. i \<in> set (tr_sessions t) \<longleftrightarrow> OpPull i \<in> set (tr_ops t)) \<and>
     count_list (tr_ops t) OpReceive \<le> (if tr_joinable t then 1 else 0) \<and>
     count_list (tr_ops t) OpAccept = (if tr_joinable t then 1 else 0) \<and>
     (tr_looping t \<longrightarrow> tr_joinable t)"

lemma transport_inv_new [simp]: "transport_inv (new_transport u t)"
  by (simp add: transport_inv_def new_transport_def)

lemma transport_inv_Run: "transport_inv t \<Longrightarrow> Transport_Run t = Some t' \<Longrightarrow> transport_inv t'"
  by (auto simp: transport_inv_def Transport_Run_def split: if_splits)

lemma count_list_remove1: "count_list (remove1 x xs) y = count_list xs y - (if x = y then 1 else 0)"
proof (induction xs)
  case (Cons a xs)
  have "x = a \<Longrightarrow> x \<in> set xs \<or> count_list xs x = 0" by (simp add: count_list_0_iff)
  then show ?case using Cons by (cases "a = y"; cases "x = a") (auto simp: count_list_0_iff Suc_diff_le
        dest!: count_list_0_iff [THEN iffD2])
qed simp

definition starts_ok :: "io_op \<Rightarrow> io_op list \<Rightarrow> bool" where
  "starts_ok op started \<longleftrightarrow> (\<forall>i. OpPull i \<in> set started \<longrightarrow> op = OpPull i) \<and>
     count_list started OpReceive \<le> (if op = OpReceive then 1 else 0) \<and>
     count_list started OpAccept = (if op = OpAccept then 1 else 0)"

lemma starts_ok_ops:
  "starts_ok OpReceive []" "starts_ok OpReceive [OpReceive]" "starts_ok OpAccept [OpAccept]"
  "starts_ok OpAccept [OpConn c, OpAccept]" "starts_ok (OpConn c) []" "starts_ok (OpConn c) [OpConn c]"
  by (simp_all add: starts_ok_def)

lemma starts_ok_pull: "starts_ok (OpPull i) (replicate n (OpPull i))"
  by (induction n) (auto simp: starts_ok_def)

lemma finish_pull_sessions:
  assumes "distinct (tr_sessions t)" and "\<forall>i. i \<in> set (tr_sessions t) \<longleftrightarrow> OpPull i \<in> set (tr_ops t)"
    and "starts_ok op started" and "op \<in> set (tr_ops t)"
  shows "distinct (tr_sessions (finish_op op started threw t)) \<and>
    (i \<in> set (tr_sessions (finish_op op started threw t)) \<longleftrightarrow> OpPull i \<in> set (tr_ops (finish_op op started threw t)))"
proof (cases op)
  case (OpPull j)
  let ?ops = "remove1 op (tr_ops t) @ started"
  have other: "k \<noteq> j \<Longrightarrow> OpPull k \<in> set ?ops \<longleftrightarrow> OpPull k \<in> set (tr_ops t)" for k
    using assms(3) OpPull by (auto simp: starts_ok_def in_set_remove1)
  show ?thesis
  proof (cases "OpPull j \<in> set ?ops")
    case True
    show ?thesis
    proof (cases "i = j")
      case True
      then show ?thesis using assms(1,2,4) \<open>OpPull j \<in> set ?ops\<close> OpPull by (simp add: finish_op_def Let_def)
    next
      case False
      then show ?thesis using other [of i] assms(1,2) True OpPull by (simp add: finish_op_def Let_def)
    qed
  next
    case False
    then show ?thesis using other [of i] assms(1,2) OpPull
      by (cases "i = j") (simp_all add: finish_op_def Let_def release_session_def erase_first_remove1 in_set_remove1)
  qed
qed (use assms in \<open>auto simp: finish_op_def Let_def starts_ok_def in_set_remove1\<close>)

lemma count_list_remove1_other: "x \<noteq> y \<Longrightarrow> count_list (remove1 x xs) y = count_list xs y"
  by (simp add: count_list_remove1)

lemma transport_inv_finish:
  assumes "transport_inv t" and "tr_looping t" and "op \<in> set (tr_ops t)" and "starts_ok op started"
  shows "transport_inv (finish_op op started threw t)"
proof -
  have j: "tr_joinable t" and one: "count_list (tr_ops t) OpReceive \<le> 1" "count_list (tr_ops t) OpAccept = 1"
    using assms(1,2) by (auto simp: transport_inv_def split: if_splits)
  have pos: "0 < count_list (tr_ops t) op" using assms(3) by (metis count_list_0_iff gr0I)
  have "count_list (remove1 op (tr_ops t) @ started) OpReceive \<le> 1"
    using one(1) pos assms(4) by (cases "op = OpReceive") (auto simp: starts_ok_def count_list_remove1)
  moreover have "count_list (remove1 op (tr_ops t) @ started) OpAccept = 1"
    using one(2) pos assms(4) by (cases "op = OpAccept") (auto simp: starts_ok_def count_list_remove1)
  moreover have "distinct (tr_sessions t)" "\<forall>i. i \<in> set (tr_sessions t) \<longleftrightarrow> OpPull i \<in> set (tr_ops t)"
    using assms(1) by (auto simp: transport_inv_def)
  note finish_pull_sessions [OF this assms(4,3)]
  ultimately show ?thesis using j by (simp add: transport_inv_def) (simp add: finish_op_def Let_def)
qed

lemma transport_inv_buffers: "transport_inv (t\<lparr>tr_buffers := b\<rparr>) \<longleftrightarrow> transport_inv t"
  by (simp add: transport_inv_def)

lemma transport_inv_pull:
  assumes "transport_inv t" and "i \<notin> set (tr_sessions t)"
  shows "transport_inv (begin_pull net node data i t)"
  using assms by (cases "open_session net node") (auto simp: transport_inv_def begin_pull_def PullAsync_def)

text \<open>Every step keeps the invariant, and so does every run.\<close>

theorem io_step_inv:
  "io_step net h st st' \<Longrightarrow> transport_inv (snd st) \<Longrightarrow> transport_inv (snd st')"
proof (induction rule: io_step.induct)
  case (received t error remote datagram s s' x again)
  then show ?case using transport_inv_finish [of t OpReceive] starts_ok_ops(1,2) by simp
qed (simp_all add: transport_inv_pull transport_inv_buffers transport_inv_finish starts_ok_ops starts_ok_pull)

lemma io_steps_inv: "(io_step net h)\<^sup>*\<^sup>* st st' \<Longrightarrow> transport_inv (snd st) \<Longrightarrow> transport_inv (snd st')"
  by (induction rule: rtranclp_induct) (auto intro: io_step_inv)

text \<open>
  A thread that has ended stays ended and the node hears nothing any more: no step changes
  it, whatever the peers send.
\<close>

lemma io_step_dead: "io_step net h st st' \<Longrightarrow> \<not> tr_looping (snd st) \<Longrightarrow> fst st' = fst st \<and> \<not> tr_looping (snd st')"
  by (induction rule: io_step.induct) (auto simp: begin_pull_def split: prod.splits)

lemma io_steps_dead:
  "(io_step net h)\<^sup>*\<^sup>* st st' \<Longrightarrow> \<not> tr_looping (snd st) \<Longrightarrow> fst st' = fst st \<and> \<not> tr_looping (snd st')"
  by (induction rule: rtranclp_induct) (auto dest: io_step_dead)

text \<open>An error of one receive ends the reception of gossip for good.\<close>

lemma io_step_deaf:
  "io_step net h st st' \<Longrightarrow> OpReceive \<notin> set (tr_ops (snd st)) \<Longrightarrow> OpReceive \<notin> set (tr_ops (snd st'))"
  by (induction rule: io_step.induct)
    (auto simp: begin_pull_def PullAsync_def finish_op_def Let_def dest: notin_set_remove1 split: prod.splits option.splits)

lemma receive_error_deafens:
  assumes "transport_inv t" and "tr_looping t"
    and "received_gossip h True remote datagram s = (s', x, again)"
    and "(io_step net h)\<^sup>*\<^sup>* (s', finish_op OpReceive (if again then [OpReceive] else []) (x \<noteq> None) t) st"
  shows "OpReceive \<notin> set (tr_ops (snd st))"
proof -
  have again: "\<not> again" using assms(3) by (simp add: received_gossip_def)
  have "count_list (tr_ops t) OpReceive \<le> 1" using assms(1) by (simp add: transport_inv_def split: if_splits)
  then have "count_list (remove1 OpReceive (tr_ops t)) OpReceive = 0" unfolding count_list_remove1 if_P [OF refl] by linarith
  then have "OpReceive \<notin> set (tr_ops (finish_op OpReceive [] (x \<noteq> None) t))"
    unfolding count_list_0_iff by (simp add: finish_op_def Let_def)
  with assms(4) show ?thesis using again
    by (induction rule: rtranclp_induct) (auto dest: io_step_deaf)
qed

text \<open>
  A peer that closes its connection once a whole message has arrived: asking for its address
  throws, which ends the io thread and with it the reception of everything.
\<close>

lemma reset_peer_ends_io:
  assumes "tr_looping t" and "OpConn c \<in> set (tr_ops t)" and "length d \<noteq> 0"
    and "receive_chunk (tr_buffers t c) d = (m # ms, rest)"
  shows "\<exists>t'. io_step net h (s, t) (s, t') \<and> \<not> tr_looping t'"
proof -
  have "connection_read h [None] (tr_buffers t c) (ReadBytes d) s = (s, Inl (Some AsioError))"
    using assms(3,4) by (simp add: connection_read_def)
  from io_step.read_end [OF assms(1,2) this] show ?thesis
    by (intro exI conjI) (assumption, simp add: finish_op_def Let_def)
qed

text \<open>With a peer that stays, a read does what \<open>serve_messages\<close> does.\<close>

lemma serve_each_connected:
  "length ms \<le> length as \<Longrightarrow> \<forall>a\<in>set as. a = Some remote \<Longrightarrow>
   serve_each h as ms s = (fst (serve_messages h remote ms s), snd (snd (serve_messages h remote ms s)))"
proof (induction ms arbitrary: as s)
  case (Cons m ms)
  obtain a as' where as: "as = a # as'" using Cons.prems(1) by (cases as) simp_all
  have a: "a = Some remote" and rest: "length ms \<le> length as'" "\<forall>a\<in>set as'. a = Some remote"
    using Cons.prems by (simp_all add: as)
  obtain s' out x where r: "on_receive h remote m s = (s', out, x)" by (rule prod_cases3)
  show ?case
  proof (cases x)
    case None
    then show ?thesis using Cons.IH [OF rest, of s']
      by (cases "serve_messages h remote ms s'") (simp add: as a r)
  qed (simp add: as a r)
qed simp

text \<open>The destructor leaves no session listed and no port bound, and calls no callback.\<close>

lemma release_all_simps:
  "release_all [] ss = ss"
  "release_all (OpPull i # ops) ss = release_all ops (remove1 i ss)"
  "release_all (OpReceive # ops) ss = release_all ops ss"
  "release_all (OpAccept # ops) ss = release_all ops ss"
  "release_all (OpConn c # ops) ss = release_all ops ss"
  by (simp_all add: release_all_def release_session_def erase_first_remove1)

lemma release_all_set: "distinct ss \<Longrightarrow> set (release_all ops ss) = set ss - {i. OpPull i \<in> set ops}"
proof (induction ops arbitrary: ss)
  case (Cons op ops)
  show ?case
  proof (cases op)
    case (OpPull i)
    then show ?thesis using Cons.IH [of "remove1 i ss"] Cons.prems by (auto simp: release_all_simps)
  qed (use Cons in \<open>simp_all add: release_all_simps\<close>)
qed (simp add: release_all_simps)

lemma destroy_transport_releases:
  assumes "transport_inv t"
  shows "tr_sessions (snd (destroy_transport t)) = []"
proof -
  have "set (tr_sessions (snd (destroy_transport t))) = {}"
    using assms release_all_set [of "tr_sessions t" "remdups (tr_ops t)"]
    by (auto simp: destroy_transport_def transport_inv_def)
  then show ?thesis by simp
qed

lemma destroy_transport_ports:
  assumes "snd (CreateTransport bind udp tcp) = Inr t0" and "tr_udp t = tr_udp t0" and "tr_tcp t = tr_tcp t0"
  shows "ports_left (fst (CreateTransport bind udp tcp) @ fst (destroy_transport t)) = []"
  using assms by (auto simp: CreateTransport_def Let_def ports_left_def destroy_transport_def new_transport_def
      split: if_splits)

end
