(* ===== verification/Node_Keeper.thy ===== *)
theory Node_Keeper
  imports Node_Grpc Transport_Life
begin

text \<open>
  The node keeper process: the seeds of \<open>node_keeper/src/config.h\<close>, the constructor and
  the main loop of \<open>node_keeper.cc\<close>, and the arguments \<open>main.cc\<close> gives to the
  guarded application.
\<close>

section \<open>Configuration\<close>

text \<open>The options the process reads, with the fields it inherits from \<open>CDCFConfig\<close>.\<close>

record keeper_config =
  kc_name :: string
  kc_host :: string
  kc_role :: string
  kc_port :: u16
  kc_seeds :: string
  kc_app :: string
  kc_app_args :: string
  kc_print_ping_log :: bool

text \<open>
  The loop of \<open>GetSeeds\<close>. A port is what \<open>stoi\<close> reads, cast to 16 bits; an entry
  without exactly one colon is skipped.
\<close>

fun seed_addresses :: "string list \<Rightarrow> cpp_exn + address list" where
  "seed_addresses [] = Inr []"
| "seed_addresses (a # as) =
     (case split a (CHR '':'') of
        [host, port] \<Rightarrow>
          (case stoi port of
             Inl e \<Rightarrow> Inl e
           | Inr p \<Rightarrow> map_sum id (Cons \<lparr>addr_host = host, addr_port = of_int p\<rparr>) (seed_addresses as))
      | _ \<Rightarrow> seed_addresses as)"

definition GetSeeds :: "string \<Rightarrow> cpp_exn + address list" where
  "GetSeeds seeds = seed_addresses (split seeds (CHR '',''))"

definition ConstructAppArgs :: "keeper_config \<Rightarrow> string list" where
  "ConstructAppArgs c =
     [''--host='' @ kc_host c, ''--name='' @ kc_name c] @
     (if kc_role c \<noteq> [] then [''--role='' @ kc_role c] else []) @
     split (kc_app_args c) (CHR '' '')"

section \<open>Construction\<close>

text \<open>The loop that fills the seeds of the membership configuration.\<close>

fun add_seeds :: "address \<Rightarrow> address list \<Rightarrow> config \<Rightarrow> config" where
  "add_seeds self [] c = c"
| "add_seeds self (a # as) c = add_seeds self as
     (if \<not> address_eq self a then snd (AddOneSeedMember [] (addr_host a) (addr_port a) c) else c)"

definition membership_config ::
  "(string \<Rightarrow> int + resolver_entry list) \<Rightarrow> string \<Rightarrow> keeper_config \<Rightarrow> address list \<Rightarrow> config" where
  "membership_config resolver uuid kc seeds =
     (let self = \<lparr>addr_host = kc_host kc, addr_port = kc_port kc\<rparr>;
          c = snd (SetHostMember resolver uuid (kc_name kc) (kc_host kc) (kc_port kc) (kc_role kc) Config);
          c = (if kc_print_ping_log kc then EnablePrintPingLog c else c);
          is_primary_seed = (seeds = [] \<or> address_eq (hd seeds) self) in
      if is_primary_seed then c else add_seeds self seeds c)"

text \<open>
  The constructor: the address is that of both sockets, and neither the code of
  \<open>SetHostMember\<close> nor that of \<open>Init\<close> is looked at. The transport runs when the object is
  complete; what it does then is \<open>io_step\<close>.
\<close>

definition NodeKeeper ::
  "wire \<Rightarrow> nat \<Rightarrow> (bool \<Rightarrow> u16 \<Rightarrow> bool) \<Rightarrow> (string \<Rightarrow> int + resolver_entry list) \<Rightarrow> string \<Rightarrow> keeper_config
     \<Rightarrow> cpp_exn + membership" where
  "NodeKeeper W pick bind resolver uuid kc =
     (let address = \<lparr>addr_host = kc_host kc, addr_port = kc_port kc\<rparr> in
      case GetSeeds (kc_seeds kc) of
        Inl e \<Rightarrow> Inl e
      | Inr seeds \<Rightarrow>
          (case snd (CreateTransport bind address address) of
             Inl e \<Rightarrow> Inl e
           | Inr transport \<Rightarrow>
               (case Init W pick True (membership_config resolver uuid kc seeds) new_membership of
                  (s, Inl e) \<Rightarrow> Inl e
                | (s, Inr code) \<Rightarrow> Inr s)))"

section \<open>The main loop\<close>

text \<open>
  \<open>Run\<close> interleaves with the subscriber \<open>Membership\<close> notifies. The thread takes a
  snapshot and delivers its events, then waits on a condition variable without a
  predicate; a notification wakes it only while it waits. \<open>RunDeliver\<close> is the thread
  between its \<open>for\<close> over the events and \<open>Wait()\<close>.
\<close>

datatype keeper_pc = RunTop | RunDeliver | RunWaiting

record keeper =
  k_pc :: keeper_pc
  k_generator :: event_generator
  k_service :: grpc_service

definition start_keeper :: "string \<Rightarrow> keeper" where
  "start_keeper host = \<lparr>k_pc = RunTop, k_generator = new_generator, k_service = SetHost host GRPCImpl\<rparr>"

text \<open>The body of the loop up to \<open>Wait()\<close>: one \<open>Notify\<close> per event.\<close>

fun notify_each :: "member_event list \<Rightarrow> grpc_service act" where
  "notify_each [] = skip_act"
| "notify_each (e # es) = then_do (service_Notify [e]) (notify_each es)"

definition keeper_round :: "membership \<Rightarrow> keeper act" where
  "keeper_round s k =
     (case Update (GetMembers s) (GetActorSystems s) (k_generator k) of
        (es, g) \<Rightarrow>
          (case notify_each es (k_service k) of
             (service, x) \<Rightarrow> (k\<lparr>k_pc := RunDeliver, k_generator := g, k_service := service\<rparr>, x)))"

definition keeper_wait :: "keeper \<Rightarrow> keeper" where
  "keeper_wait k = k\<lparr>k_pc := RunWaiting\<rparr>"

text \<open>\<open>Subscriber::Update\<close>: \<open>notify_all\<close> on the condition variable.\<close>

definition subscriber_Update :: "keeper \<Rightarrow> keeper" where
  "subscriber_Update k = (if k_pc k = RunWaiting then k\<lparr>k_pc := RunTop\<rparr> else k)"

text \<open>The process: the main thread, and the node changing under it with a notification.\<close>

inductive keeper_step :: "membership \<times> keeper \<Rightarrow> membership \<times> keeper \<Rightarrow> bool" where
  round: "k_pc k = RunTop \<Longrightarrow> keeper_round s k = (k', None) \<Longrightarrow> keeper_step (s, k) (s, k')"
| wait: "k_pc k = RunDeliver \<Longrightarrow> keeper_step (s, k) (s, keeper_wait k)"
| changed: "keeper_step (s, k) (s', subscriber_Update k)"

inductive_cases keeper_stepE: "keeper_step (s, k) (s', k')"

section \<open>Laws\<close>

text \<open>A seed string written in the documented format is read back.\<close>

definition seed_string :: "address \<Rightarrow> string" where
  "seed_string a = addr_host a @ CHR '':'' # to_string (unat (addr_port a))"

definition plain_host :: "string \<Rightarrow> bool" where
  "plain_host h \<longleftrightarrow> h \<noteq> [] \<and> CHR '':'' \<notin> set h \<and> CHR '','' \<notin> set h"

lemma port_string:
  "CHR '':'' \<notin> set (to_string n)" "CHR '','' \<notin> set (to_string n)"
proof -
  have "\<not> is_digit (CHR '':'')" "\<not> is_digit (CHR '','')" by (simp_all add: is_digit_def)
  then show "CHR '':'' \<notin> set (to_string n)" "CHR '','' \<notin> set (to_string n)"
    using to_string_digits by blast+
qed

lemma split_seed_string:
  "plain_host (addr_host a) \<Longrightarrow> split (seed_string a) (CHR '':'') = [addr_host a, to_string (unat (addr_port a))]"
  by (simp add: seed_string_def plain_host_def split_token split_last port_string to_string_nonempty)

lemma stoi_port: "stoi (to_string (unat (p :: u16))) = Inr (int (unat p))"
  by (rule stoi_to_string, rule less_trans [OF unsigned_less]) simp

lemma seed_addresses_strings:
  "\<forall>a\<in>set as. plain_host (addr_host a) \<Longrightarrow> seed_addresses (map seed_string as) = Inr as"
  by (induction as) (simp_all add: split_seed_string stoi_port)

lemma GetSeeds_join:
  assumes "\<forall>a\<in>set as. plain_host (addr_host a)"
  shows "GetSeeds (join (CHR '','') (map seed_string as)) = Inr as"
proof -
  have "split (join (CHR '','') (map seed_string as)) (CHR '','') = map seed_string as"
    by (rule split_join) (use assms port_string in \<open>auto simp: seed_string_def plain_host_def\<close>)
  then show ?thesis using assms by (simp add: GetSeeds_def seed_addresses_strings)
qed

text \<open>The node is never among its own seeds, and the seeds are pairwise different.\<close>

lemma add_seeds_distinct: "seeds_distinct c \<Longrightarrow> seeds_distinct (add_seeds self as c)"
  by (induction self as c rule: add_seeds.induct) (simp add: AddOneSeedMember_distinct)+

lemma AddOneSeedMember_host: "c_host (snd (AddOneSeedMember n ip p c)) = c_host c"
  by (cases "\<exists>m\<in>set (c_seed_members c). member_eq m (Member n ip p [] [] [])")
    (simp_all add: AddOneSeedMember_def)

lemma AddOneSeedMember_keys:
  "mkey ` set (c_seed_members (snd (AddOneSeedMember n ip p c))) = insert (MKey ip p) (mkey ` set (c_seed_members c))"
proof (cases "\<exists>m\<in>set (c_seed_members c). member_eq m (Member n ip p [] [] [])")
  case True
  then have "MKey ip p \<in> mkey ` set (c_seed_members c)" by (force simp: member_eq_key)
  then show ?thesis using True by (simp add: AddOneSeedMember_def insert_absorb)
qed (simp add: AddOneSeedMember_def)

definition address_key :: "address \<Rightarrow> member_key" where
  "address_key a = MKey (addr_host a) (addr_port a)"

lemma address_key_eq: "address_key a = address_key b \<longleftrightarrow> a = b"
  by (cases a; cases b) (simp add: address_key_def)

lemma add_seeds_keys:
  "mkey ` set (c_seed_members (add_seeds self as c)) =
     mkey ` set (c_seed_members c) \<union> address_key ` (set as - {self})"
  by (induction self as c rule: add_seeds.induct)
    (auto simp: AddOneSeedMember_keys address_eq_iff address_key_def)

lemma membership_config_base:
  "c_seed_members (if b then EnablePrintPingLog (snd (SetHostMember resolver uuid n ip p r Config))
     else snd (SetHostMember resolver uuid n ip p r Config)) = []"
  by (simp add: SetHostMember_def EnablePrintPingLog_def Config_def split: prod.splits)

lemma membership_config_seeds:
  assumes "seeds \<noteq> []" and "hd seeds \<noteq> \<lparr>addr_host = kc_host kc, addr_port = kc_port kc\<rparr>"
  shows "mkey ` set (c_seed_members (membership_config resolver uuid kc seeds)) =
    address_key ` (set seeds - {\<lparr>addr_host = kc_host kc, addr_port = kc_port kc\<rparr>})"
  using assms
  by (simp add: membership_config_def Let_def address_eq_iff add_seeds_keys
      membership_config_base [simplified] del: if_image_distrib)

lemma membership_config_primary:
  assumes "seeds = [] \<or> hd seeds = \<lparr>addr_host = kc_host kc, addr_port = kc_port kc\<rparr>"
  shows "c_seed_members (membership_config resolver uuid kc seeds) = []"
  using assms by (auto simp: membership_config_def Let_def address_eq_iff membership_config_base [simplified])

lemma membership_config_name: "m_node_name (c_host (membership_config resolver uuid kc seeds)) = kc_name kc"
proof -
  have "c_host (add_seeds self as c) = c_host c" for self as c
    by (induction self as c rule: add_seeds.induct) (simp_all add: AddOneSeedMember_host)
  then show ?thesis
    by (simp add: membership_config_def Let_def SetHostMember_def EnablePrintPingLog_def split: prod.splits)
qed

text \<open>A round delivers all events of the difference and leaves the service up to date.\<close>

lemma notify_each_eq:
  assumes "channels_open g"
  shows "notify_each es g = service_Notify es g"
  using assms
proof (induction es arbitrary: g)
  case Nil
  then show ?case by (simp add: service_Notify_open channels_open_def case_prod_beta)
next
  case (Cons e es)
  have n: "snd (service_Notify [e] g) = None"
    using Cons.prems by (simp add: channels_open_def service_Notify_open)
  have "notify_each (e # es) g = notify_each es (fst (service_Notify [e] g))"
    using n by (cases "service_Notify [e] g") (simp add: then_do_def)
  also have "\<dots> = service_Notify es (fst (service_Notify [e] g))"
    by (rule Cons.IH) (rule channels_open_Notify [OF Cons.prems])
  also have "\<dots> = service_Notify ([e] @ es) g"
    by (rule service_Notify_append [OF Cons.prems, symmetric])
  finally show ?case by simp
qed

lemma keeper_round_open:
  assumes "channels_open (k_service k)"
  shows "keeper_round s k =
    (k\<lparr>k_pc := RunDeliver,
       k_generator := \<lparr>eg_members = GetMembers s, eg_actor_systems = GetActorSystems s\<rparr>,
       k_service := fst (service_Notify (fst (Update (GetMembers s) (GetActorSystems s) (k_generator k))) (k_service k))\<rparr>,
     None)"
proof -
  have "snd (service_Notify es (k_service k)) = None" for es
    using assms by (simp add: channels_open_def service_Notify_open)
  then show ?thesis
    using notify_each_eq [OF assms]
    by (simp add: keeper_round_def Update_def split: prod.splits) (metis fst_conv snd_conv)
qed

definition mirrors :: "membership \<Rightarrow> grpc_service \<Rightarrow> bool" where
  "mirrors s g \<longleftrightarrow> keys_of (gs_members g) = mkey ` set (GetMembers s)"

lemma keeper_round_mirrors:
  assumes "channels_open (k_service k)" and "mwf (gs_members (k_service k))"
    and "keys_of (gs_members (k_service k)) = mkey ` set (eg_members (k_generator k))"
    and "one_per_host (GetMembers s)" and "one_per_host (eg_members (k_generator k))"
    and "ports_stable (eg_members (k_generator k)) (GetMembers s)"
  shows "mirrors s (k_service (fst (keeper_round s k)))"
  using notify_mirrors [OF assms(4,5,6,2,3), of "GetActorSystems s"] assms(1)
  by (simp add: keeper_round_open mirrors_def service_Notify_open channels_open_def)

text \<open>
  A change notified before the thread waits is lost: the thread then waits with an
  outdated service, for any two nodes the rounds can tell apart.
\<close>

lemma keeper_lost_wakeup:
  assumes "k_pc k = RunTop" and "keeper_round s k = (k', None)"
  shows "keeper_step\<^sup>*\<^sup>* (s, k) (s', keeper_wait k')"
proof -
  have pc: "k_pc k' = RunDeliver"
    using assms(2) by (auto simp: keeper_round_def split: prod.splits)
  have "keeper_step (s, k) (s, k')" using assms by (rule keeper_step.round)
  moreover have "keeper_step (s, k') (s', k')"
    using keeper_step.changed [of s k' s'] pc by (simp add: subscriber_Update_def)
  moreover have "keeper_step (s', k') (s', keeper_wait k')" using pc by (rule keeper_step.wait)
  ultimately show ?thesis by (meson converse_rtranclp_into_rtranclp r_into_rtranclp)
qed

end
