(* ===== verification/Daemon.thy ===== *)
theory Daemon
  imports CDCF_Prelude
begin

text \<open>
  The daemon that guards the application next to a node keeper,
  \<open>node_keeper/src/daemon/daemon.cc\<close>, over the process primitives of
  \<open>process_manager.cc\<close>. The system calls are inputs: the result of a fork, the
  statuses \<open>waitpid\<close> reports, how long a run lasted and whether a signal came.
\<close>

section \<open>Process primitives\<close>

datatype process_action =
    SigIgn string                       \<comment> \<open>\<open>sigaction\<close> with \<open>SIG_IGN\<close> in the child\<close>
  | Exec string "string list"           \<comment> \<open>\<open>execv\<close> with its argv\<close>
  | PrintErrno string
  | ChildExit nat                       \<comment> \<open>\<open>_exit\<close> of the child\<close>
  | ExitProcess nat                     \<comment> \<open>\<open>ProcessManager::Exit\<close>, which does not return\<close>
  | SetPid int
  | Kill int string

text \<open>
  \<open>CreateProcess\<close>: what the process that returns from \<open>fork\<close> with \<open>pid\<close> does. An
  \<open>execv\<close> that succeeds does not return; the two actions after it are those of a failure.
\<close>

definition CreateProcess :: "string \<Rightarrow> string list \<Rightarrow> int \<Rightarrow> bool \<Rightarrow> process_action list" where
  "CreateProcess path args pid exec_fails =
     (let argv = path # args in
      if pid < 0 then [PrintErrno ''fork'', ExitProcess 1]
      else if pid = 0 then
        [SigIgn ''SIGINT'', SigIgn ''SIGQUIT'', Exec path argv] @
        (if exec_fails then [PrintErrno ''exec'', ChildExit 1] else [])
      else [SetPid pid])"

datatype wait_status = Exited | Signaled | OtherStatus

text \<open>\<open>WaitProcessExit\<close>: the number of \<open>waitpid\<close> calls, or None while it still waits.\<close>

fun WaitProcessExit :: "wait_status list \<Rightarrow> nat option" where
  "WaitProcessExit [] = None"
| "WaitProcessExit (st # sts) =
     (if st = Exited \<or> st = Signaled then Some 1 else map_option Suc (WaitProcessExit sts))"

text \<open>The signal handler, on the pid the process info holds (0 before the first fork).\<close>

definition signal_handler :: "int \<Rightarrow> bool \<Rightarrow> bool \<times> process_action list" where
  "signal_handler pid guard =
     (if pid \<noteq> 0 then (False, [Kill pid ''SIGTERM'']) else (guard, []))"

section \<open>The guard loop\<close>

record daemon =
  d_guard :: bool
  d_restart :: u64
  d_stable_time :: int
  d_has_app_down_handle :: bool
  d_has_clean_up :: bool

definition new_daemon :: "bool \<Rightarrow> bool \<Rightarrow> int \<Rightarrow> daemon" where
  "new_daemon app_down clean_up stable_time =
     \<lparr>d_guard = True, d_restart = 0, d_stable_time = stable_time,
      d_has_app_down_handle = app_down, d_has_clean_up = clean_up\<rparr>"

definition StopGuard :: "daemon \<Rightarrow> daemon" where
  "StopGuard d = d\<lparr>d_guard := False\<rparr>"

datatype daemon_action =
    NewProcessInfo
  | InstallSignalHandlersForQuit
  | Spawn
  | WaitExit
  | AppDownHandle
  | CleanUp
  | Exit nat

text \<open>One run of the application: how many milliseconds it lasted, and whether the guard was stopped meanwhile.\<close>

record app_run =
  run_time :: int
  run_stopped :: bool

definition ExitIfProcessNotStable :: "daemon \<Rightarrow> int \<Rightarrow> daemon_action list" where
  "ExitIfProcessNotStable d diff = (if diff < d_stable_time d then [Exit 1] else [])"

text \<open>
  The \<open>while\<close> of \<open>Run\<close> and what follows it, for the runs given. The second component is
  the exit code, or None when the daemon is waiting for the application to end.
\<close>

fun guard_loop :: "daemon \<Rightarrow> app_run list \<Rightarrow> daemon_action list \<times> nat option" where
  "guard_loop d runs =
     (if \<not> d_guard d then
        ((if d_has_clean_up d then [CleanUp] else []) @ [Exit 0], Some 0)
      else case runs of
        [] \<Rightarrow> ([Spawn, WaitExit], None)
      | r # rs \<Rightarrow>
          let d1 = (if run_stopped r then StopGuard d else d);
              down = (if d_has_app_down_handle d then [AppDownHandle] else []);
              check = (if d_restart d = 0 then ExitIfProcessNotStable d (run_time r) else []) in
          if check \<noteq> [] then ([Spawn, WaitExit] @ down @ check, Some 1)
          else case guard_loop (d1\<lparr>d_restart := d_restart d1 + 1\<rparr>) rs of
                 (es, code) \<Rightarrow> ([Spawn, WaitExit] @ down @ es, code))"

declare guard_loop.simps [simp del]

definition Daemon_Run :: "daemon \<Rightarrow> app_run list \<Rightarrow> daemon_action list \<times> nat option" where
  "Daemon_Run d runs =
     (case guard_loop d runs of (es, code) \<Rightarrow> ([NewProcessInfo, InstallSignalHandlersForQuit] @ es, code))"

section \<open>Laws\<close>

lemma guard_loop_stopped:
  "\<not> d_guard d \<Longrightarrow> guard_loop d runs = ((if d_has_clean_up d then [CleanUp] else []) @ [Exit 0], Some 0)"
  by (simp add: guard_loop.simps)

lemma guard_loop_wait: "d_guard d \<Longrightarrow> guard_loop d [] = ([Spawn, WaitExit], None)"
  by (simp add: guard_loop.simps)

text \<open>An application whose first run is too short ends the process with code 1.\<close>

lemma guard_loop_unstable:
  assumes "d_guard d" and "d_restart d = 0" and "run_time r < d_stable_time d"
  shows "snd (guard_loop d (r # rs)) = Some 1"
    and "count_list (fst (guard_loop d (r # rs))) Spawn = 1"
  using assms by (simp_all add: guard_loop.simps [of d] ExitIfProcessNotStable_def)

text \<open>Later runs are restarted however short they are, as long as the counter does not wrap.\<close>

definition down_actions :: "daemon \<Rightarrow> daemon_action list" where
  "down_actions d = (if d_has_app_down_handle d then [AppDownHandle] else [])"

lemma guard_loop_restarts:
  assumes "d_guard d" and "0 < unat (d_restart d)"
    and "unat (d_restart d) + length runs < 2 ^ 64" and "\<forall>r\<in>set runs. \<not> run_stopped r"
  shows "guard_loop d runs =
    (concat (replicate (length runs) ([Spawn, WaitExit] @ down_actions d)) @ [Spawn, WaitExit], None)"
  using assms
proof (induction runs arbitrary: d)
  case Nil
  then show ?case by (simp add: guard_loop_wait)
next
  case (Cons r rs)
  let ?d = "d\<lparr>d_restart := d_restart d + 1\<rparr>"
  have u: "unat (d_restart d + 1) = unat (d_restart d) + 1"
    using Cons.prems(3) by (simp add: unat_word_ariths(1) take_bit_nat_def)
  have nz: "d_restart d \<noteq> 0" using Cons.prems(2) by (auto simp: unat_gt_0)
  have "guard_loop ?d rs =
    (concat (replicate (length rs) ([Spawn, WaitExit] @ down_actions ?d)) @ [Spawn, WaitExit], None)"
    using Cons.prems u by (intro Cons.IH) simp_all
  then show ?case
    using Cons.prems nz by (simp add: guard_loop.simps [of d] down_actions_def)
qed

text \<open>The first stable run followed by restarts, and the end by a signal.\<close>

lemma guard_loop_step:
  assumes "d_guard d" and "d_restart d = 0 \<longrightarrow> \<not> run_time r < d_stable_time d"
  shows "guard_loop d (r # rs) =
    (case guard_loop ((if run_stopped r then StopGuard d else d)\<lparr>d_restart := d_restart d + 1\<rparr>) rs of
       (es, code) \<Rightarrow> ([Spawn, WaitExit] @ down_actions d @ es, code))"
  using assms
  by (auto simp: guard_loop.simps [of d] ExitIfProcessNotStable_def down_actions_def StopGuard_def
      split: prod.splits)

lemma guard_loop_last:
  assumes "d_guard d" and "d_restart d = 0 \<longrightarrow> \<not> run_time r < d_stable_time d" and "run_stopped r"
  shows "guard_loop d (r # rs) =
    ([Spawn, WaitExit] @ down_actions d @ (if d_has_clean_up d then [CleanUp] else []) @ [Exit 0], Some 0)"
  using assms by (simp add: guard_loop_step guard_loop_stopped StopGuard_def)

lemma guard_loop_until:
  assumes "d_guard d" and "0 < unat (d_restart d)" and "unat (d_restart d) + length runs < 2 ^ 64"
    and "\<forall>r\<in>set runs. \<not> run_stopped r" and "run_stopped last_run"
  shows "guard_loop d (runs @ [last_run]) =
    (concat (replicate (Suc (length runs)) ([Spawn, WaitExit] @ down_actions d)) @
       (if d_has_clean_up d then [CleanUp] else []) @ [Exit 0], Some 0)"
  using assms
proof (induction runs arbitrary: d)
  case Nil
  then have "d_restart d \<noteq> 0" by (auto simp: unat_gt_0)
  then show ?case using guard_loop_last [OF Nil(1) _ Nil(5), of "[]"] by simp
next
  case (Cons r rs)
  let ?d = "d\<lparr>d_restart := d_restart d + 1\<rparr>"
  have u: "unat (d_restart d + 1) = unat (d_restart d) + 1"
    using Cons.prems(3) by (simp add: unat_word_ariths(1) take_bit_nat_def)
  have nz: "d_restart d \<noteq> 0" using Cons.prems(2) by (auto simp: unat_gt_0)
  have "guard_loop ?d (rs @ [last_run]) =
    (concat (replicate (Suc (length rs)) ([Spawn, WaitExit] @ down_actions ?d)) @
       (if d_has_clean_up ?d then [CleanUp] else []) @ [Exit 0], Some 0)"
    using Cons.prems u by (intro Cons.IH) simp_all
  then show ?case
    using Cons.prems(1,4) nz guard_loop_step [OF Cons.prems(1), of r "rs @ [last_run]"]
    by (simp add: down_actions_def)
qed

text \<open>Every run the daemon sees the end of is followed by the notification that the application is down.\<close>

lemma guard_loop_notifies:
  assumes "d_has_app_down_handle d" and "guard_loop d runs = (es, code)"
  shows "count_list es AppDownHandle = count_list es Spawn - (if code = None then 1 else 0)"
    and "count_list es Spawn \<le> Suc (length runs)"
    and "code = None \<longrightarrow> 0 < count_list es Spawn"
proof -
  have "count_list es AppDownHandle = count_list es Spawn - (if code = None then 1 else 0) \<and>
      count_list es Spawn \<le> Suc (length runs) \<and> (code = None \<longrightarrow> 0 < count_list es Spawn)"
    using assms
  proof (induction runs arbitrary: d es)
    case Nil
    then show ?case by (auto simp: guard_loop.simps split: if_splits)
  next
    case (Cons r rs)
    show ?case
    proof (cases "d_guard d")
      case False
      then show ?thesis using Cons.prems by (auto simp: guard_loop_stopped)
    next
      case True
      show ?thesis
      proof (cases "d_restart d = 0 \<longrightarrow> \<not> run_time r < d_stable_time d")
        case ok: True
        let ?d = "(if run_stopped r then StopGuard d else d)\<lparr>d_restart := d_restart d + 1\<rparr>"
        obtain es' code' where rec: "guard_loop ?d rs = (es', code')" by fastforce
        have h: "d_has_app_down_handle ?d" using Cons.prems(1) by (simp add: StopGuard_def)
        have es: "es = [Spawn, WaitExit, AppDownHandle] @ es'" "code = code'"
          using Cons.prems(2) guard_loop_step [OF True ok, of rs] rec Cons.prems(1)
          by (simp_all add: down_actions_def)
        show ?thesis using Cons.IH [OF h rec [folded es(2)]] es by auto
      next
        case False
        then show ?thesis using Cons.prems True
          by (auto simp: guard_loop.simps [of d] ExitIfProcessNotStable_def)
      qed
    qed
  qed
  then show "count_list es AppDownHandle = count_list es Spawn - (if code = None then 1 else 0)"
    and "count_list es Spawn \<le> Suc (length runs)" and "code = None \<longrightarrow> 0 < count_list es Spawn"
    by blast+
qed

text \<open>A wait ends with the first status of an application that is gone, and not before.\<close>

lemma WaitProcessExit_first:
  "st = Exited \<or> st = Signaled \<Longrightarrow>
   WaitProcessExit (replicate k OtherStatus @ st # sts) = Some (Suc k)"
  by (induction k) auto

lemma WaitProcessExit_waits: "WaitProcessExit (replicate k OtherStatus) = None"
  by (induction k) auto

end
