(* ===== verification/Keeper_Main.thy ===== *)
theory Keeper_Main
  imports Node_Keeper Daemon Node_Behaviour
begin

text \<open>
  The process of a node keeper, \<open>node_keeper/src/main.cc\<close>: the node, its main loop and the
  thread of the daemon together, from the parsed options to the exit code; and the parts of
  \<open>daemon.cc\<close>, \<open>process_manager.cc\<close> and \<open>grpc.h\<close> that start and end threads and servers.
\<close>

section \<open>Signals\<close>

text \<open>
  What \<open>InstallSignalHandlersForQuit\<close> leaves in the static variables, and the signals that
  lead to \<open>handler\<close>. \<open>NewProcessInfo\<close> makes a pid of 0.
\<close>

record signal_state =
  sg_pid :: int
  sg_guard :: bool
  sg_handled :: "string list"

definition NewProcessInfo_pid :: int where "NewProcessInfo_pid = 0"

definition install_handlers :: "int \<Rightarrow> bool \<Rightarrow> signal_state" where
  "install_handlers pid guard = \<lparr>sg_pid = pid, sg_guard = guard, sg_handled = [''SIGINT'', ''SIGTERM'', ''SIGQUIT'']\<rparr>"

text \<open>A signal that arrives: the handler, or the end of the process where none is installed.\<close>

definition deliver_signal :: "string \<Rightarrow> signal_state \<Rightarrow> signal_state \<times> process_action list" where
  "deliver_signal sig st =
     (if sig \<in> set (sg_handled st) then
        (case signal_handler (sg_pid st) (sg_guard st) of (g, as) \<Rightarrow> (st\<lparr>sg_guard := g\<rparr>, as))
      else (st, [Kill 0 sig]))"

section \<open>The gRPC server\<close>

datatype server_call = AddListeningPort string | RegisterService nat | BuildAndStart | Shutdown

text \<open>\<open>GRPCServer\<close>: whether \<open>BuildAndStart\<close> gave a server; it gives none when the port is taken.\<close>

definition GRPCServer :: "string \<Rightarrow> nat list \<Rightarrow> bool \<Rightarrow> server_call list \<times> bool" where
  "GRPCServer address services started =
     (AddListeningPort address # map RegisterService services @ [BuildAndStart], started)"

definition destroy_server :: "bool \<Rightarrow> cpp_exn + server_call list" where
  "destroy_server server = (if server then Inr [Shutdown] else Inl UndefinedBehaviour)"

section \<open>The daemon's thread\<close>

text \<open>
  \<open>Start\<close> runs \<open>Run\<close> in a thread; the destructor returns when none was started or when
  \<open>Run\<close> has come to an end.
\<close>

definition Daemon_Start :: "daemon \<Rightarrow> app_run list \<Rightarrow> (daemon_action list \<times> nat option) option" where
  "Daemon_Start d runs = Some (Daemon_Run d runs)"

definition destroy_daemon_returns :: "(daemon_action list \<times> nat option) option \<Rightarrow> bool" where
  "destroy_daemon_returns thread = (case thread of None \<Rightarrow> True | Some (es, code) \<Rightarrow> code \<noteq> None)"

text \<open>The two functions \<open>main\<close> gives the daemon.\<close>

fun daemon_callback :: "wire \<Rightarrow> daemon_action \<Rightarrow> membership act" where
  "daemon_callback W AppDownHandle = NotifyActorSystemDown W"
| "daemon_callback W CleanUp = NotifyLeave W"
| "daemon_callback W _ = skip_act"

section \<open>The process\<close>

datatype process_end = ExitCode nat | Terminated cpp_exn

record process =
  pr_node :: membership
  pr_keeper :: keeper
  pr_daemon :: "daemon_action list"   \<comment> \<open>what the daemon's thread does from here on\<close>
  pr_exit :: "process_end option"

datatype main_result = MainReturns nat | MainThrows cpp_exn | MainRuns "string list" process

definition seed_lines :: "address list \<Rightarrow> string list" where
  "seed_lines seeds =
     (if seeds = [] then []
      else ''seeding with: '' #
        map (\<lambda>a. char_of (9 :: nat) # addr_host a @ '':'' @ to_string (unat (addr_port a))) seeds)"

text \<open>
  \<open>main\<close> up to the main loop. \<open>parsed\<close> is None when \<open>parse_config\<close> failed; the runs of the
  application are what the daemon will see of it.
\<close>

definition keeper_main ::
  "wire \<Rightarrow> nat \<Rightarrow> (bool \<Rightarrow> u16 \<Rightarrow> bool) \<Rightarrow> (string \<Rightarrow> int + resolver_entry list) \<Rightarrow> string \<Rightarrow>
     keeper_config option \<Rightarrow> app_run list \<Rightarrow> main_result" where
  "keeper_main W pick bind resolver uuid parsed runs =
     (case parsed of
        None \<Rightarrow> MainReturns 1
      | Some kc \<Rightarrow>
          (case GetSeeds (kc_seeds kc) of
             Inl e \<Rightarrow> MainThrows e
           | Inr seeds \<Rightarrow>
               (case NodeKeeper W pick bind resolver uuid kc of
                  Inl e \<Rightarrow> MainThrows e
                | Inr s \<Rightarrow> MainRuns (seed_lines seeds)
                    \<lparr>pr_node = Subscribe 0 s, pr_keeper = start_keeper (kc_host kc),
                     pr_daemon = (if kc_app kc \<noteq> []
                        then (case Daemon_Start (new_daemon True True 3000) runs of Some (es, code) \<Rightarrow> es | None \<Rightarrow> [])
                        else []),
                     pr_exit = None\<rparr>)))"

text \<open>
  The threads of the process: an event of the node, with or without a notification of the main
  loop; a round or a wait of the main loop; an action of the daemon. An exception in the daemon's
  thread ends the process.
\<close>

definition own_event :: "node_event \<Rightarrow> bool" where
  "own_event e \<longleftrightarrow> e = Actor_down \<or> e = Leave"

inductive process_step :: "wire \<Rightarrow> process \<Rightarrow> process \<Rightarrow> bool" for W where
  node: "pr_exit p = None \<Longrightarrow> node_step W (pr_node p) e s \<Longrightarrow> \<not> own_event e \<Longrightarrow>
    k = pr_keeper p \<or> k = subscriber_Update (pr_keeper p) \<Longrightarrow>
    process_step W p (p\<lparr>pr_node := s, pr_keeper := k\<rparr>)"
| round: "pr_exit p = None \<Longrightarrow> k_pc (pr_keeper p) = RunTop \<Longrightarrow> keeper_round (pr_node p) (pr_keeper p) = (k, None) \<Longrightarrow>
    process_step W p (p\<lparr>pr_keeper := k\<rparr>)"
| wait: "pr_exit p = None \<Longrightarrow> k_pc (pr_keeper p) = RunDeliver \<Longrightarrow>
    process_step W p (p\<lparr>pr_keeper := keeper_wait (pr_keeper p)\<rparr>)"
| daemon: "pr_exit p = None \<Longrightarrow> pr_daemon p = a # as \<Longrightarrow> (\<forall>n. a \<noteq> Exit n) \<Longrightarrow>
    daemon_callback W a (pr_node p) = (s, None) \<Longrightarrow> k = pr_keeper p \<or> k = subscriber_Update (pr_keeper p) \<Longrightarrow>
    process_step W p (p\<lparr>pr_node := s, pr_keeper := k, pr_daemon := as\<rparr>)"
| throw: "pr_exit p = None \<Longrightarrow> pr_daemon p = a # as \<Longrightarrow> daemon_callback W a (pr_node p) = (s, Some e) \<Longrightarrow>
    e \<noteq> UndefinedBehaviour \<Longrightarrow>
    process_step W p (p\<lparr>pr_node := s, pr_daemon := [], pr_exit := Some (Terminated e)\<rparr>)"
| exit: "pr_exit p = None \<Longrightarrow> pr_daemon p = Exit n # as \<Longrightarrow>
    process_step W p (p\<lparr>pr_daemon := [], pr_exit := Some (ExitCode n)\<rparr>)"

inductive_cases process_stepE: "process_step W p p'"

section \<open>Laws\<close>

text \<open>A signal that comes while the application runs stops the guard and ends the application.\<close>

lemma signal_while_running:
  assumes "pid \<noteq> 0" and "sig \<in> {''SIGINT'', ''SIGTERM'', ''SIGQUIT''}"
  shows "deliver_signal sig ((install_handlers NewProcessInfo_pid True)\<lparr>sg_pid := pid\<rparr>) =
    ((install_handlers pid False), [Kill pid ''SIGTERM''])"
  using assms by (auto simp: deliver_signal_def install_handlers_def signal_handler_def)

text \<open>Before the first fork the handler does nothing: such a signal is lost.\<close>

lemma signal_before_fork:
  "sig \<in> {''SIGINT'', ''SIGTERM'', ''SIGQUIT''} \<Longrightarrow>
   deliver_signal sig (install_handlers NewProcessInfo_pid True) = (install_handlers NewProcessInfo_pid True, [])"
  by (auto simp: deliver_signal_def install_handlers_def signal_handler_def NewProcessInfo_pid_def)

text \<open>A server whose port is taken is not noticed until it is destroyed, which is undefined.\<close>

lemma destroy_server_taken: "destroy_server (snd (GRPCServer address services False)) = Inl UndefinedBehaviour"
  by (simp add: GRPCServer_def destroy_server_def)

text \<open>How \<open>main\<close> ends early.\<close>

lemma keeper_main_unparsed: "keeper_main W pick bind resolver uuid None runs = MainReturns 1"
  by (simp add: keeper_main_def)

lemma keeper_main_port_taken:
  assumes "GetSeeds (kc_seeds kc) = Inr seeds" and "\<not> bind True (kc_port kc) \<or> \<not> bind False (kc_port kc)"
  shows "keeper_main W pick bind resolver uuid (Some kc) runs = MainThrows PortOccupied"
  using assms by (auto simp: keeper_main_def NodeKeeper_def CreateTransport_def Let_def)

text \<open>The node of a process is a node in the sense of the invariants, whatever its threads do.\<close>

lemma node_step_event:
  "event_ok e \<Longrightarrow> run_event W pick e s = (s', x) \<Longrightarrow> x \<noteq> Some UndefinedBehaviour \<Longrightarrow> reachable W s \<Longrightarrow> reachable W s'"
  using reachable.step node_step.run by metis

lemma reachable_callback:
  assumes "daemon_callback W a s = (s', x)" and "x \<noteq> Some UndefinedBehaviour" and "reachable W s"
  shows "reachable W s'"
  using assms
proof (cases a)
  case AppDownHandle
  then show ?thesis using node_step_event [of Actor_down W 0 s s' x] assms by simp
next
  case CleanUp
  then show ?thesis using node_step_event [of Leave W 0 s s' x] assms by simp
qed simp_all

lemma process_step_reachable:
  "process_step W p p' \<Longrightarrow> reachable W (pr_node p) \<Longrightarrow> reachable W (pr_node p')"
proof (induction rule: process_step.induct)
  case (node p e s k)
  then show ?case using reachable.step by simp
next
  case (daemon p a as s k)
  then show ?case using reachable_callback [of W a "pr_node p" s None] by simp
next
  case (throw p a as s e)
  then show ?case using reachable_callback [of W a "pr_node p" s "Some e"] by simp
qed simp_all

lemma process_reachable:
  "(process_step W)\<^sup>*\<^sup>* p p' \<Longrightarrow> reachable W (pr_node p) \<Longrightarrow> reachable W (pr_node p')"
  by (induction rule: rtranclp_induct) (auto intro: process_step_reachable)

text \<open>
  What the daemon's thread has done: an action that was ahead is ahead still, the process has
  been ended by an exception, or the action was run at some point, with \<open>ys\<close> to be done then.
\<close>

definition performed :: "wire \<Rightarrow> process \<Rightarrow> daemon_action \<Rightarrow> daemon_action list \<Rightarrow> process \<Rightarrow> bool" where
  "performed W p a ys p' \<longleftrightarrow> (\<exists>q q'. (process_step W)\<^sup>*\<^sup>* p q \<and> pr_daemon q = a # ys \<and> pr_daemon q' = ys \<and>
     daemon_callback W a (pr_node q) = (pr_node q', None) \<and> (process_step W)\<^sup>*\<^sup>* q' p')"

definition no_exit :: "daemon_action list \<Rightarrow> bool" where
  "no_exit as \<longleftrightarrow> (\<forall>n. Exit n \<notin> set as)"

definition terminated :: "process \<Rightarrow> bool" where
  "terminated p \<longleftrightarrow> (\<exists>e. pr_exit p = Some (Terminated e))"

lemma no_exit_simps [simp]:
  "no_exit []" "no_exit (a # as) \<longleftrightarrow> (\<forall>n. a \<noteq> Exit n) \<and> no_exit as" "no_exit (as @ bs) \<longleftrightarrow> no_exit as \<and> no_exit bs"
  by (auto simp: no_exit_def)

lemma performed_step: "performed W p a ys p' \<Longrightarrow> process_step W p' p'' \<Longrightarrow> performed W p a ys p''"
  unfolding performed_def by (elim exE conjE, intro exI conjI, assumption+, rule rtranclp.rtrancl_into_rtrancl)

lemma terminated_step: "process_step W p p' \<Longrightarrow> \<not> terminated p"
  by (induction rule: process_step.induct) (simp_all add: terminated_def)

definition ahead :: "daemon_action \<Rightarrow> daemon_action list \<Rightarrow> process \<Rightarrow> bool" where
  "ahead a ys p \<longleftrightarrow> pr_exit p = None \<and> (\<exists>zs. pr_daemon p = zs @ a # ys \<and> no_exit zs)"

lemma ahead_step:
  assumes "(process_step W)\<^sup>*\<^sup>* p q" and "process_step W q q'" and "ahead a ys q" and "\<forall>n. a \<noteq> Exit n"
  shows "ahead a ys q' \<or> terminated q' \<or> performed W p a ys q'"
proof -
  obtain zs where zs: "pr_daemon q = zs @ a # ys" "no_exit zs" and run: "pr_exit q = None"
    using assms(3) by (auto simp: ahead_def)
  from assms(2) show ?thesis
  proof (cases rule: process_step.cases)
    case (daemon b bs s k)
    show ?thesis
    proof (cases zs)
      case Nil
      have "daemon_callback W a (pr_node q) = (pr_node q', None)" using daemon Nil zs(1) by simp
      moreover have "pr_daemon q' = ys" "pr_daemon q = a # ys" using daemon Nil zs(1) by simp_all
      ultimately show ?thesis using assms(1) unfolding performed_def by blast
    next
      case (Cons z zs')
      then have "ahead a ys q'" using daemon zs run by (auto simp: ahead_def)
      then show ?thesis by blast
    qed
  next
    case (exit n as)
    then show ?thesis using zs assms(4) by (cases zs) auto
  qed (use zs run in \<open>auto simp: ahead_def terminated_def\<close>)
qed

lemma daemon_progress:
  assumes "(process_step W)\<^sup>*\<^sup>* p p'" and "ahead a ys p" and "\<forall>n. a \<noteq> Exit n"
  shows "ahead a ys p' \<or> terminated p' \<or> performed W p a ys p'"
  using assms(1)
proof (induction rule: rtranclp_induct)
  case (step q q')
  show ?case
    using step.IH ahead_step [OF step.hyps(1,2) _ assms(3)] performed_step [OF _ step.hyps(2)]
      terminated_step [OF step.hyps(2)] by blast
qed (use assms(2) in blast)

text \<open>The exit code of a process whose daemon has \<open>as @ [Exit n]\<close> to do is \<open>n\<close>.\<close>

definition exits_with :: "nat \<Rightarrow> process \<Rightarrow> bool" where
  "exits_with n p \<longleftrightarrow> (\<exists>zs. pr_daemon p = zs @ [Exit n] \<and> no_exit zs \<and> pr_exit p = None) \<or>
     pr_exit p = Some (ExitCode n) \<or> terminated p"

lemma exits_with_step: "process_step W p p' \<Longrightarrow> exits_with n p \<Longrightarrow> exits_with n p'"
proof (induction rule: process_step.induct)
  case (daemon p a as s k)
  then obtain zs where "pr_daemon p = zs @ [Exit n]" "no_exit zs" by (auto simp: exits_with_def terminated_def)
  then show ?case using daemon by (cases zs) (auto simp: exits_with_def)
next
  case (exit p m as)
  then obtain zs where "pr_daemon p = zs @ [Exit n]" "no_exit zs" by (auto simp: exits_with_def terminated_def)
  then show ?case using exit by (cases zs) (auto simp: exits_with_def)
qed (auto simp: exits_with_def terminated_def)

lemma exits_with_steps: "(process_step W)\<^sup>*\<^sup>* p p' \<Longrightarrow> exits_with n p \<Longrightarrow> exits_with n p'"
  by (induction rule: rtranclp_induct) (auto intro: exits_with_step)

text \<open>
  Without an application the daemon has nothing to do: the process never exits by itself and none of
  its threads says that it leaves.
\<close>

lemma unguarded_step: "process_step W p p' \<Longrightarrow> pr_daemon p = [] \<Longrightarrow> pr_daemon p' = [] \<and> pr_exit p' = pr_exit p"
  by (induction rule: process_step.induct) simp_all

lemma unguarded_never_leaves:
  assumes "keeper_main W pick bind resolver uuid (Some kc) runs = MainRuns lines p" and "kc_app kc = []"
    and "(process_step W)\<^sup>*\<^sup>* p p'"
  shows "pr_exit p' = None"
proof -
  have "pr_daemon p = [] \<and> pr_exit p = None"
    using assms(1,2) by (auto simp: keeper_main_def split: sum.splits)
  with assms(3) have "pr_daemon p' = [] \<and> pr_exit p' = None"
    by (induction rule: rtranclp_induct) (auto dest: unguarded_step)
  then show ?thesis by simp
qed

text \<open>A process that is running is one of a reachable node.\<close>

lemma keeper_main_node:
  assumes "keeper_main W pick bind resolver uuid (Some kc) runs = MainRuns lines p" and "kc_name kc \<noteq> []"
  shows "reachable W (pr_node p)" and "pr_exit p = None"
    and "kc_app kc \<noteq> [] \<Longrightarrow> pr_daemon p = fst (Daemon_Run (new_daemon True True 3000) runs)"
proof -
  obtain s seeds where s: "NodeKeeper W pick bind resolver uuid kc = Inr s" "GetSeeds (kc_seeds kc) = Inr seeds"
    and p: "pr_node p = Subscribe 0 s" "pr_exit p = None"
    "pr_daemon p = (if kc_app kc \<noteq> [] then (case Daemon_Run (new_daemon True True 3000) runs of (es, code) \<Rightarrow> es) else [])"
    using assms(1) by (auto simp: keeper_main_def Daemon_Start_def split: sum.splits)
  let ?c = "membership_config resolver uuid kc seeds"
  have "IsEmptyMember (c_host ?c) \<longleftrightarrow> False"
    using membership_config_name [of resolver uuid kc seeds] assms(2) by (simp add: IsEmptyMember_def)
  then obtain s0 where s0: "Init W pick True ?c new_membership = (s0, Inr MEMBERSHIP_SUCCESS)"
    using Init_returns by blast
  then have "s = s0" using s by (auto simp: NodeKeeper_def Let_def split: sum.splits)
  then have "reachable W s" using reachable.start [OF s0] by simp
  then show "reachable W (pr_node p)"
    using node_step_event [of "Subscribed 0" W 0 s "Subscribe 0 s" None] p(1) by simp
  show "pr_exit p = None" by (rule p(2))
  show "kc_app kc \<noteq> [] \<Longrightarrow> pr_daemon p = fst (Daemon_Run (new_daemon True True 3000) runs)"
    using p(3) by (simp add: case_prod_beta)
qed

text \<open>
  The daemon's actions end when nothing throws: a node with a transport, a queue and a limit in
  range can always say what the daemon asks it to say.
\<close>

definition can_gossip :: "membership \<Rightarrow> bool" where
  "can_gossip s \<longleftrightarrow> limits_ok s \<and> members s \<noteq> [] \<and> gossip_queue s \<noteq> None \<and> has_transport s"

definition updates_fit :: "wire \<Rightarrow> bool" where
  "updates_fit W \<longleftrightarrow> (\<forall>u. length (ser_update W u) \<le> kMaxPayloadSize)"

lemma limit_of_can_gossip: "can_gossip s \<Longrightarrow> \<exists>n. GetRetransmitLimit s = Inr n"
  using limit_defined [of s s] by (simp add: can_gossip_def)

lemma NotifyLeave_can_gossip:
  assumes "can_gossip s" and "updates_fit W"
  shows "\<exists>s'. NotifyLeave W s = (s', None) \<and> can_gossip s'"
proof (cases "1 < length (members s)")
  case True
  obtain n where n: "GetRetransmitLimit s = Inr n" using limit_of_can_gossip [OF assms(1)] by blast
  have "has_transport s" "length (ser_update W (InitAsDownMessage (self_member s) (incarnation s + 1))) \<le> kMaxPayloadSize"
    using assms by (simp_all add: can_gossip_def updates_fit_def)
  from NotifyLeave_effects [OF True this(1) n refl this(2)] show ?thesis
    using assms(1) by (simp add: can_gossip_def limits_ok_def)
qed (use assms(1) in \<open>simp add: NotifyLeave_def\<close>)

lemma NotifyActorSystemDown_can_gossip:
  assumes "can_gossip s" and "updates_fit W"
  shows "\<exists>s'. NotifyActorSystemDown W s = (s', None) \<and> can_gossip s'"
proof -
  let ?s = "IncreaseIncarnation (s\<lparr>is_self_actor_system_up := False,
                actor_systems := merase (self_member s) (actor_systems s)\<rparr>)"
  have ok: "can_gossip ?s" using assms(1) by (simp add: can_gossip_def limits_ok_def IncreaseIncarnation_def)
  obtain n where n: "GetRetransmitLimit ?s = Inr n" using limit_of_can_gossip [OF ok] by blast
  obtain q where q: "gossip_queue ?s = Some q" using ok by (auto simp: can_gossip_def)
  let ?p = "ser_update W (InitAsActorSystemDownMessage (self_member ?s) (incarnation ?s))"
  have "mk_payload ?p = Inr ?p" using assms(2) by (intro mk_payload_small) (simp add: updates_fit_def)
  then have "NotifyActorSystemDown W s = (?s\<lparr>gossip_queue := Some (Push (Disseminate ?p) n q)\<rparr>, None)"
    unfolding NotifyActorSystemDown_def Let_def with_payload_def using n q by (simp add: SendGossip_def)
  then show ?thesis using ok by (simp add: can_gossip_def limits_ok_def)
qed

lemma callback_can_gossip:
  "can_gossip s \<Longrightarrow> updates_fit W \<Longrightarrow> \<exists>s'. daemon_callback W a s = (s', None) \<and> can_gossip s'"
  by (cases a) (simp_all add: NotifyLeave_can_gossip NotifyActorSystemDown_can_gossip)

lemma daemon_exits:
  assumes "pr_daemon p = as @ [Exit n]" and "no_exit as" and "pr_exit p = None"
    and "can_gossip (pr_node p)" and "updates_fit W"
  shows "\<exists>p'. (process_step W)\<^sup>*\<^sup>* p p' \<and> pr_exit p' = Some (ExitCode n)"
  using assms
proof (induction as arbitrary: p)
  case Nil
  let ?p = "p\<lparr>pr_daemon := [], pr_exit := Some (ExitCode n)\<rparr>"
  have "process_step W p ?p" using Nil by (intro process_step.exit) simp_all
  then have "(process_step W)\<^sup>*\<^sup>* p ?p" by (rule r_into_rtranclp)
  moreover have "pr_exit ?p = Some (ExitCode n)" by simp
  ultimately show ?case by (intro exI conjI)
next
  case (Cons a as)
  obtain s where s: "daemon_callback W a (pr_node p) = (s, None)" "can_gossip s"
    using callback_can_gossip [OF Cons.prems(4,5)] by blast
  let ?p = "p\<lparr>pr_node := s, pr_keeper := pr_keeper p, pr_daemon := as @ [Exit n]\<rparr>"
  have step: "process_step W p ?p"
    by (rule process_step.daemon [OF Cons.prems(3) _ _ s(1)]) (use Cons.prems(1,2) in simp_all)
  have "\<exists>p'. (process_step W)\<^sup>*\<^sup>* ?p p' \<and> pr_exit p' = Some (ExitCode n)"
    by (rule Cons.IH) (use Cons.prems s(2) in simp_all)
  then show ?case using step by (meson converse_rtranclp_into_rtranclp)
qed

end
