(* ===== verification/Node_Status.thy ===== *)
theory Node_Status
  imports Complex_Main Membership
begin

text \<open>
  The load a node reports, \<open>node_keeper/src/node_run_status.cc\<close>, out of the text of
  \<open>/proc/stat\<close> and \<open>/proc/meminfo\<close>, and the monitoring service of
  \<open>node_status_grpc_impl.cc\<close>.

  A ratio of two counters converted to double is the exact rational here, and None where
  the divisor is zero and the double is not a number.
\<close>

section \<open>Reading lines and numbers\<close>

definition newline :: char where "newline = char_of (10 :: nat)"

text \<open>\<open>fgets\<close> with a buffer of \<open>n\<close> bytes: the line with its newline, cut to \<open>n - 1\<close> bytes.\<close>

definition fgets :: "nat \<Rightarrow> string \<Rightarrow> (string \<times> string) option" where
  "fgets n s =
     (if s = [] then None
      else let line = takeWhile (\<lambda>c. c \<noteq> newline) s;
               k = min (n - 1) (length line + 1) in Some (take k s, drop k s))"

text \<open>A read at the end of the file leaves the buffer as it is.\<close>

definition read_line :: "string \<Rightarrow> string \<Rightarrow> string \<times> string" where
  "read_line buff file = (case fgets 256 file of None \<Rightarrow> (buff, file) | Some (l, r) \<Rightarrow> (l, r))"

text \<open>The words white space separates, and the decimal numbers a \<open>%llu\<close> reads from them.\<close>

function words :: "string \<Rightarrow> string list" where
  "words s =
     (let t = dropWhile is_space s in
      if t = [] then [] else takeWhile (\<lambda>c. \<not> is_space c) t # words (dropWhile (\<lambda>c. \<not> is_space c) t))"
  by pat_completeness auto
termination
proof (relation "measure length", goal_cases)
  case (2 s t)
  then have "t \<noteq> []" by blast
  then obtain c r where t: "t = c # r" by (cases t) simp_all
  have "\<not> is_space (hd t)" using \<open>t \<noteq> []\<close> 2(1) hd_dropWhile by metis
  then have "\<not> is_space c" by (simp add: t)
  then have "length (dropWhile (\<lambda>c. \<not> is_space c) t) \<le> length r"
    using length_dropWhile_le [of "\<lambda>c. \<not> is_space c" r] t by simp
  moreover have "length t \<le> length s" using length_dropWhile_le [of is_space s] 2 by simp
  ultimately show ?case using t by simp
qed simp

declare words.simps [simp del]

fun scan_numbers :: "string list \<Rightarrow> u64 list" where
  "scan_numbers [] = []"
| "scan_numbers (w # ws) =
     (let ds = takeWhile is_digit w; n = of_nat (min (digits_value ds) (2 ^ 64 - 1)) in
      if ds = [] then [] else if ds = w then n # scan_numbers ws else [n])"

section \<open>CPU\<close>

record cpu_info =
  ci_user :: u64
  ci_nice :: u64
  ci_system :: u64
  ci_idle :: u64
  ci_io_wait :: u64
  ci_irq :: u64
  ci_soft_irq :: u64

text \<open>The seven fields of the first line; a field \<open>sscanf\<close> does not reach stays 0.\<close>

definition nth_number :: "u64 list \<Rightarrow> nat \<Rightarrow> u64" where
  "nth_number ns i = (if i < length ns then ns ! i else 0)"

definition GetCpuInfo :: "string \<Rightarrow> cpu_info" where
  "GetCpuInfo file =
     (let ns = scan_numbers (tl (words (fst (read_line [] file)))) in
      \<lparr>ci_user = nth_number ns 0, ci_nice = nth_number ns 1, ci_system = nth_number ns 2,
       ci_idle = nth_number ns 3, ci_io_wait = nth_number ns 4, ci_irq = nth_number ns 5,
       ci_soft_irq = nth_number ns 6\<rparr>)"

definition cpu_total :: "cpu_info \<Rightarrow> u64" where
  "cpu_total c = ci_user c + ci_nice c + ci_idle c + ci_io_wait c + ci_irq c + ci_soft_irq c"

definition GetCpuRate :: "cpu_info \<Rightarrow> cpu_info \<Rightarrow> rat option" where
  "GetCpuRate c1 c2 =
     (let sum = cpu_total c2 - cpu_total c1; idle = ci_idle c2 - ci_idle c1 in
      if sum = 0 then None
      else Some (of_nat (unat (sum - idle)) / of_nat (unat sum)))"

section \<open>Memory\<close>

record memory_status =
  max_memory :: u64
  use_memory :: u64
  useRate :: "rat option"

definition kMemoryTotal :: string where "kMemoryTotal = ''MemTotal:''"

definition kMemoryAvailable :: string where "kMemoryAvailable = ''MemAvailable:''"

text \<open>
  \<open>sscanf(buff, "%s %llu ", ...)\<close>: the head of the line and the number, each only if it
  is there.
\<close>

definition head_number :: "string \<Rightarrow> string option \<times> u64 option" where
  "head_number buff =
     (case words buff of
        [] \<Rightarrow> (None, None)
      | w # ws \<Rightarrow> (Some w, (case scan_numbers ws of [] \<Rightarrow> None | n # _ \<Rightarrow> Some n)))"

text \<open>
  \<open>GetMemoryState\<close>: the code -1 or 0 with the state written. The variables are not
  initialised, so a line without a head or a number is undefined behaviour where its
  value is used.
\<close>

definition GetMemoryState :: "string \<Rightarrow> cpp_exn + memory_status option" where
  "GetMemoryState file =
     (let (buff1, f1) = read_line [] file in
      case head_number buff1 of
        (None, _) \<Rightarrow> Inl UndefinedBehaviour
      | (Some h1, number1) \<Rightarrow>
          if h1 \<noteq> kMemoryTotal then Inr None
          else
            let (buff2, f2) = read_line buff1 f1; (buff3, f3) = read_line buff2 f2;
                (h3, available) = head_number buff3;
                h = (case h3 of None \<Rightarrow> h1 | Some w \<Rightarrow> w) in
            if h \<noteq> kMemoryAvailable then Inr None
            else case (number1, available) of
              (Some t, Some a) \<Rightarrow>
                Inr (Some \<lparr>max_memory = t, use_memory = t - a,
                  useRate = (if t = 0 then None else Some (of_nat (unat (t - a)) / of_nat (unat t)))\<rparr>)
            | _ \<Rightarrow> Inl UndefinedBehaviour)"

section \<open>The monitoring service\<close>

record node_status =
  ns_cpu_use_rate :: "rat option"
  ns_mem_use_rate :: "rat option"
  ns_max_memory :: u64
  ns_use_memory :: u64
  ns_ip :: string
  ns_node_name :: string
  ns_node_role :: string
  ns_error_message :: string

definition empty_status :: node_status where
  "empty_status = \<lparr>ns_cpu_use_rate = Some 0, ns_mem_use_rate = Some 0, ns_max_memory = 0,
     ns_use_memory = 0, ns_ip = [], ns_node_name = [], ns_node_role = [], ns_error_message = []\<rparr>"

text \<open>
  \<open>GetStatus\<close>: \<open>memory\<close> is what \<open>GetMemoryState\<close> gave, None when the singleton could
  not open the two files. A failure is its message.
\<close>

definition GetStatus :: "memory_status option option \<Rightarrow> rat option \<Rightarrow> string + node_status" where
  "GetStatus memory cpu_rate =
     (case memory of
        None \<Rightarrow> Inl ''Can't get node status, os not match.''
      | Some None \<Rightarrow> Inl ''Can't get memory status, please connect the administrator.''
      | Some (Some m) \<Rightarrow>
          Inr (empty_status\<lparr>ns_max_memory := max_memory m, ns_use_memory := use_memory m,
                 ns_mem_use_rate := useRate m, ns_cpu_use_rate := cpu_rate\<rparr>))"

section \<open>The singleton over the two files\<close>

text \<open>
  \<open>NodeRunStatus::GetInstance\<close>: what \<open>fopen\<close> gives for the two files, and the instance there is.
  The result has the new instance, with its memory and its cpu file, the line printed and the files opened.
\<close>

definition NodeRunStatus_GetInstance ::
  "nat option \<Rightarrow> nat option \<Rightarrow> (nat \<times> nat) option \<Rightarrow> (nat \<times> nat) option \<times> string list \<times> nat list" where
  "NodeRunStatus_GetInstance cpu memory inst =
     (case inst of
        Some i \<Rightarrow> (Some i, [], [])
      | None \<Rightarrow>
          (case (cpu, memory) of
             (Some c, Some m) \<Rightarrow> (Some (m, c), [], [c, m])
           | (None, m) \<Rightarrow>
               (None, [''init NodeRunStatus singleton failed. cpu info read form /proc/stat failed.''],
                case m of None \<Rightarrow> [] | Some f \<Rightarrow> [f])
           | (Some c, None) \<Rightarrow>
               (None, [''init NodeRunStatus singleton failed. memory info read form /proc/meminfo failed.''], [c])))"

text \<open>Calls one after the other: the last instance and the files opened on the way; none is ever closed.\<close>

fun instance_calls :: "(nat option \<times> nat option) list \<Rightarrow> (nat \<times> nat) option \<Rightarrow> (nat \<times> nat) option \<times> nat list" where
  "instance_calls [] inst = (inst, [])"
| "instance_calls ((cpu, memory) # calls) inst =
     (case NodeRunStatus_GetInstance cpu memory inst of
        (inst', out, files) \<Rightarrow> (case instance_calls calls inst' of (r, rest) \<Rightarrow> (r, files @ rest)))"

text \<open>A whole status request over the texts the files have when they are read.\<close>

definition status_request ::
  "(nat \<times> nat) option \<Rightarrow> string \<Rightarrow> string \<Rightarrow> string \<Rightarrow> cpp_exn + (string + node_status)" where
  "status_request inst memory_text cpu_text1 cpu_text2 =
     (if inst = None then Inr (GetStatus None None)
      else case GetMemoryState memory_text of
        Inl e \<Rightarrow> Inl e
      | Inr m \<Rightarrow> Inr (GetStatus (Some m) (GetCpuRate (GetCpuInfo cpu_text1) (GetCpuInfo cpu_text2))))"

section \<open>The status of all nodes\<close>

text \<open>\<open>query\<close> is the remote \<open>GetStatus\<close> of the node at an address.\<close>

definition member_status_entry :: "(string \<Rightarrow> string + node_status) \<Rightarrow> member \<Rightarrow> node_status" where
  "member_status_entry query m =
     (case query (m_ip_address m @ '':50051'') of
        Inr resp \<Rightarrow>
          empty_status\<lparr>ns_node_name := m_node_name m, ns_node_role := m_role m,
            ns_max_memory := ns_max_memory resp, ns_use_memory := ns_use_memory resp,
            ns_mem_use_rate := ns_mem_use_rate resp, ns_cpu_use_rate := ns_cpu_use_rate resp,
            ns_ip := m_ip_address m\<rparr>
      | Inl message \<Rightarrow> empty_status\<lparr>ns_ip := m_ip_address m, ns_error_message := message\<rparr>)"

definition GetAllNodeStatus :: "(string \<Rightarrow> string + node_status) \<Rightarrow> membership \<Rightarrow> node_status list" where
  "GetAllNodeStatus query s = map (member_status_entry query) (GetMembers s)"

section \<open>Laws\<close>

lemma unat_diff_le: "b \<le> a \<Longrightarrow> unat (a - b) = unat a - unat b" for a b :: u64
  by (rule unat_sub)

text \<open>Memory in use is never above the total when no more is available than there is.\<close>

lemma memory_rate_bounds:
  assumes "a \<le> (t :: u64)" and "0 < t"
  shows "(0 :: rat) \<le> of_nat (unat (t - a)) / of_nat (unat t)"
    and "of_nat (unat (t - a)) / of_nat (unat t) \<le> (1 :: rat)"
proof -
  have "unat (t - a) \<le> unat t" using unat_sub [OF assms(1)] by simp
  moreover have "0 < unat t" using assms(2) by (simp add: unat_gt_0)
  moreover have "(0 :: rat) \<le> of_nat x / of_nat y" "x \<le> y \<Longrightarrow> 0 < y \<Longrightarrow> of_nat x / of_nat y \<le> (1 :: rat)"
    for x y :: nat
    by (simp_all add: divide_le_eq)
  ultimately show "(0 :: rat) \<le> of_nat (unat (t - a)) / of_nat (unat t)"
    and "of_nat (unat (t - a)) / of_nat (unat t) \<le> (1 :: rat)"
    by blast+
qed

text \<open>The part of a difference that is idle time is at most the difference, so the rate is one.\<close>

lemma GetCpuRate_bounds:
  assumes "ci_idle c2 - ci_idle c1 \<le> cpu_total c2 - cpu_total c1" and "GetCpuRate c1 c2 = Some r"
  shows "0 \<le> r \<and> r \<le> 1"
proof -
  let ?t = "cpu_total c2 - cpu_total c1"
  have "0 < ?t" using assms(2) by (simp add: GetCpuRate_def Let_def word_gt_0 split: if_splits)
  then show ?thesis
    using memory_rate_bounds [OF assms(1)] assms(2) by (auto simp: GetCpuRate_def Let_def split: if_splits)
qed

text \<open>Time spent in the kernel is read but counts for nothing.\<close>

lemma GetCpuRate_ignores_system:
  "GetCpuRate (c1\<lparr>ci_system := x\<rparr>) (c2\<lparr>ci_system := y\<rparr>) = GetCpuRate c1 c2"
  by (simp add: GetCpuRate_def cpu_total_def)

lemma GetAllNodeStatus_ips: "map ns_ip (GetAllNodeStatus query s) = map m_ip_address (GetMembers s)"
  by (simp add: GetAllNodeStatus_def member_status_entry_def comp_def sum.case_distrib split: sum.splits)

text \<open>The instance is made once; later calls open nothing and give the same.\<close>

lemma instance_calls_made: "instance_calls calls (Some i) = (Some i, [])"
  by (induction calls) (auto simp: NodeRunStatus_GetInstance_def)

lemma instance_calls_first:
  "instance_calls ((Some c, Some m) # calls) None = (Some (m, c), [c, m])"
  by (simp add: NodeRunStatus_GetInstance_def instance_calls_made)

text \<open>While one file is missing every request opens the other one again.\<close>

lemma instance_calls_leak:
  "instance_calls (map (\<lambda>f. (Some f, None)) files) None = (None, files)"
  "instance_calls (map (\<lambda>f. (None, Some f)) files) None = (None, files)"
  by (induction files) (simp_all add: NodeRunStatus_GetInstance_def)

text \<open>A request without an instance fails before it reads anything, whatever the files hold.\<close>

lemma status_request_no_instance:
  "status_request None m c1 c2 = Inr (Inl ''Can't get node status, os not match.'')"
  by (simp add: status_request_def GetStatus_def)

end
