(* ===== verification/Keeper_Properties.thy ===== *)
theory Keeper_Properties
  imports Sample_Node Transport Keeper_Main Node_Status
begin

text \<open>
  The properties of the node keeper around the membership protocol: the timed queue, the
  framing of messages, the event generator, the construction from a seed string, the main
  loop, the daemon and the load report.
\<close>

section \<open>Queue and framing\<close>

text \<open>
  C16: a functor pushed with a number of times is called exactly that often, after
  everything pushed before it and in the order of the pushes, once the worker has run
  through the queue; a number below one calls it not at all.
\<close>

theorem functor_queue_pays:
  assumes "\<not> fq_should_stop q" and "fq_pc q \<noteq> Stopped"
  shows "snd (worker_run (steps_needed (Push f t q)) (Push f t q)) =
    snd (worker_run (steps_needed q) q) @ replicate (nat t) f"
proof -
  have "snd (worker_run (steps_needed r) r) = owed r" if "\<not> fq_should_stop r" "fq_pc r \<noteq> Stopped" for r :: "'a fqueue"
    using owed_run [of r "steps_needed r"] worker_run_pays [OF that] by simp
  then show ?thesis using assms by (simp add: owed_Push)
qed

theorem functor_queue_pays_witness:
  "snd (worker_run (steps_needed (Push (2 :: nat) 3 (Push 1 2 (TimedFunctorQueue 500))))
     (Push (2 :: nat) 3 (Push 1 2 (TimedFunctorQueue 500)))) = [1, 1, 2, 2, 2]"
proof -
  have alive: "\<not> fq_should_stop (Push (1 :: nat) 2 (TimedFunctorQueue 500))"
    "fq_pc (Push (1 :: nat) 2 (TimedFunctorQueue 500)) \<noteq> Stopped"
    by (simp_all add: TimedFunctorQueue_def)
  have new: "\<not> fq_should_stop (TimedFunctorQueue 500 :: nat fqueue)"
    "fq_pc (TimedFunctorQueue 500 :: nat fqueue) \<noteq> Stopped"
    by (simp_all add: TimedFunctorQueue_def)
  have none: "steps_needed (TimedFunctorQueue 500 :: nat fqueue) = 0"
    by (simp add: steps_needed_def TimedFunctorQueue_def)
  show ?thesis
    using functor_queue_pays [OF alive, of 2 3] functor_queue_pays [OF new, of 1 2]
    by (simp only: none worker_run.simps snd_conv) (simp add: numeral_2_eq_2 numeral_3_eq_3)
qed

text \<open>
  C17: framing. However the bytes of a sequence of messages are cut into the chunks a
  connection reads, the decoder hands on exactly those messages, in order, with their type
  and data, and ends with an empty buffer.
\<close>

theorem framing_any_chunking:
  assumes "\<forall>(t, p)\<in>set ms. small p" and "concat chunks = concat (map (\<lambda>(t, p). make_message t p) ms)"
  shows "map (\<lambda>m. (msg_Type m, msg_Data m)) (fst (connection_run [] (map ReadBytes chunks))) =
      map (\<lambda>(t, p). (type_code t, p)) ms
    \<and> snd (connection_run [] (map ReadBytes chunks)) = Inr []"
proof -
  have "connection_run (take 0 (encode_all ms)) (map ReadBytes chunks) =
      (map (\<lambda>(t, p). make_message t p) ms, Inr [])"
    by (rule connection_run_stream [OF assms(1) within_first_0]) (simp add: assms(2) encode_all_def)
  then show ?thesis by (simp add: msg_Type_make_message msg_Data_make_message case_prod_beta)
qed

theorem framing_any_chunking_witness:
  "map (\<lambda>m. (msg_Type m, msg_Data m)) (fst (connection_run []
      (map ReadBytes [[0, 0], [0, 2, type_code kPush, 7], [8, 0, 0, 0, 1, type_code kPull, 9]]))) =
    [(type_code kPush, [7, 8]), (type_code kPull, [9])]"
proof -
  have "concat [[0, 0], [0, 2, type_code kPush, 7], [8, 0, 0, 0, 1, type_code kPull, 9]] =
      concat (map (\<lambda>(t, p). make_message t p) [(kPush, [7, 8]), (kPull, [9])])"
    by (simp add: make_message_def length_bytes_eq)
  from framing_any_chunking [OF _ this] show ?thesis by (simp add: small_def)
qed



section \<open>Events and seeds\<close>



text \<open>
  C20: a node keeper built from a seed string that lists addresses in the documented form
  has as seeds exactly those addresses but its own; when it is the first of them, or there
  are none, it has no seed. The node it starts is a node in the sense of the invariants.
\<close>

theorem seeds_read_back:
  assumes "\<forall>a\<in>set as. plain_host (addr_host a)"
    and "kc_seeds kc = join (CHR '','') (map seed_string as)" and "kc_name kc \<noteq> []"
    and "bind True (kc_port kc)" and "bind False (kc_port kc)"
    and "self = \<lparr>addr_host = kc_host kc, addr_port = kc_port kc\<rparr>"
  shows "\<exists>s. NodeKeeper W pick bind resolver uuid kc = Inr s \<and> reachable W s
    \<and> mkey ` set (seed_members s) =
        (if as = [] \<or> hd as = self then {} else address_key ` (set as - {self}) - {mkey (self_member s)})"
proof -
  let ?c = "membership_config resolver uuid kc as"
  have "IsEmptyMember (c_host ?c) \<longleftrightarrow> False"
    using membership_config_name [of resolver uuid kc as] assms(3) by (simp add: IsEmptyMember_def)
  then obtain s where s: "Init W pick True ?c new_membership = (s, Inr MEMBERSHIP_SUCCESS)"
    using Init_returns by blast
  have "NodeKeeper W pick bind resolver uuid kc = Inr s"
    using s by (simp add: NodeKeeper_def assms(2,4,5) GetSeeds_join [OF assms(1)] CreateTransport_def Let_def)
  moreover have "reachable W s" by (rule reachable.start [OF s])
  moreover have "mkey ` set (seed_members s) = mkey ` set (c_seed_members ?c) - {mkey (self_member s)}"
    by (auto simp: Init_success [OF s] member_eq_key)
  moreover have "mkey ` set (c_seed_members ?c) =
      (if as = [] \<or> hd as = self then {} else address_key ` (set as - {self}))"
    using membership_config_primary [of as kc resolver uuid] membership_config_seeds [of as kc resolver uuid]
      assms(6) by auto
  ultimately show ?thesis by auto
qed

definition keeper_a :: keeper_config where
  "keeper_a = \<lparr>kc_name = ''a'', kc_host = ''10.0.0.1'', kc_role = [], kc_port = 5000,
     kc_seeds = ''10.0.0.2:5000,10.0.0.1:5000'', kc_app = [], kc_app_args = [], kc_print_ping_log = False\<rparr>"

theorem seeds_read_back_witness:
  "\<exists>s. NodeKeeper (update_wire empty_update) 0 (\<lambda>_ _. True) (\<lambda>_. Inl 1) ''u1'' keeper_a = Inr s
    \<and> mkey ` set (seed_members s) = {MKey ''10.0.0.2'' 5000} - {mkey (self_member s)}"
proof -
  let ?as = "[\<lparr>addr_host = ''10.0.0.2'', addr_port = 5000\<rparr>, \<lparr>addr_host = ''10.0.0.1'', addr_port = 5000\<rparr>]"
  have port: "to_string 5000 = ''5000''"
    by (simp add: to_string.simps digit_char_def char_of_def bit_0)
  have p: "\<forall>a\<in>set ?as. plain_host (addr_host a)" by (simp add: plain_host_def)
  have j: "kc_seeds keeper_a = join (CHR '','') (map seed_string ?as)"
    by (simp add: keeper_a_def seed_string_def port)
  have "kc_name keeper_a \<noteq> []" by (simp add: keeper_a_def)
  moreover have "address_key ` (set ?as - {\<lparr>addr_host = kc_host keeper_a, addr_port = kc_port keeper_a\<rparr>}) =
      {MKey ''10.0.0.2'' 5000}"
    and "\<not> (?as = [] \<or> hd ?as = \<lparr>addr_host = kc_host keeper_a, addr_port = kc_port keeper_a\<rparr>)"
    by (simp_all add: address_key_def keeper_a_def insert_Diff_if)
  ultimately show ?thesis
    using seeds_read_back [OF p j _ _ _ refl, of "\<lambda>_ _. True" "update_wire empty_update" 0 "\<lambda>_. Inl 1" "''u1''"]
    by (simp only: if_False simp_thms) blast
qed

section \<open>The main loop and the daemon\<close>

text \<open>
  C21: a change that is notified after the main loop has taken its snapshot and before it
  waits is lost: the thread then waits with a service that shows the old members, and as
  long as nothing else changes the process makes no step that corrects it.
\<close>

theorem lost_wakeup:
  assumes "k_pc k = RunTop" and "keeper_round s k = (k', None)" and "mirrors s (k_service k')"
    and "mkey ` set (GetMembers s) \<noteq> mkey ` set (GetMembers s')"
  shows "keeper_step\<^sup>*\<^sup>* (s, k) (s', keeper_wait k') \<and> \<not> mirrors s' (k_service (keeper_wait k'))
    \<and> (\<forall>r. keeper_step (s', keeper_wait k') (s', r) \<longrightarrow> r = subscriber_Update (keeper_wait k'))"
proof -
  have "\<not> mirrors s' (k_service (keeper_wait k'))"
    using assms(3,4) by (simp add: mirrors_def keeper_wait_def)
  moreover have "\<forall>r. keeper_step (s', keeper_wait k') (s', r) \<longrightarrow> r = subscriber_Update (keeper_wait k')"
    by (auto elim!: keeper_stepE simp: keeper_wait_def)
  ultimately show ?thesis using keeper_lost_wakeup [OF assms(1,2)] by blast
qed

theorem lost_wakeup_witness:
  "\<exists>k'. keeper_step\<^sup>*\<^sup>* (node_a, start_keeper ''10.0.0.1'') (initial (update_wire empty_update) 0 config_a, k')
     \<and> \<not> mirrors (initial (update_wire empty_update) 0 config_a) (k_service k')"
proof -
  let ?k = "start_keeper ''10.0.0.1''" and ?s' = "initial (update_wire empty_update) 0 config_a"
  have g: "GetMembers node_a = [member_a, member_b, member_c]" by (simp add: GetMembers_def)
  have c: "GetMembers ?s' = [member_a]"
    using Init_success(1) [OF Init_config_a] by (simp add: GetMembers_def config_a_def AddOneSeedMember_def Config_def)
  have k: "channels_open (k_service ?k)" "mwf (gs_members (k_service ?k))" "k_pc ?k = RunTop"
    "keys_of (gs_members (k_service ?k)) = {}" "eg_members (k_generator ?k) = []"
    by (simp_all add: start_keeper_def channels_open_def SetHost_def GRPCImpl_def keys_of_def new_generator_def)
  have "one_per_host (GetMembers node_a)"
    by (simp add: g one_per_host_def member_a_def member_b_def member_c_def less_char_def)
  then have m: "mirrors node_a (k_service (fst (keeper_round node_a ?k)))"
    by (intro keeper_round_mirrors) (simp_all add: k one_per_host_def ports_stable_def)
  have r: "keeper_round node_a ?k = (fst (keeper_round node_a ?k), None)"
    using keeper_round_open [OF k(1), of node_a] by simp
  show ?thesis
    using lost_wakeup [OF k(3) r m, of ?s'] by (auto simp: g c)
qed

text \<open>
  The daemon by itself. An application whose first run lasts the stable time is started again
  after every end, whatever the later runs last, until a signal stops the guard; every end
  is reported, the clean-up runs once and the exit code is 0.
\<close>

theorem daemon_restarts:
  assumes "stable_time \<le> run_time first" and "\<not> run_stopped first" and "\<forall>r\<in>set runs. \<not> run_stopped r"
    and "run_stopped last_run" and "length runs < 2 ^ 64 - 1"
  shows "Daemon_Run (new_daemon app_down clean_up stable_time) (first # runs @ [last_run]) =
    ([NewProcessInfo, InstallSignalHandlersForQuit] @
     concat (replicate (length runs + 2) ([Spawn, WaitExit] @ (if app_down then [AppDownHandle] else []))) @
     (if clean_up then [CleanUp] else []) @ [Exit 0], Some 0)"
proof -
  let ?d = "new_daemon app_down clean_up stable_time"
  have d: "d_guard ?d" "d_restart ?d = 0" "d_stable_time ?d = stable_time"
    "d_has_clean_up ?d = clean_up" "down_actions ?d = (if app_down then [AppDownHandle] else [])"
    by (simp_all add: new_daemon_def down_actions_def)
  let ?d1 = "?d\<lparr>d_restart := 1\<rparr>"
  have "guard_loop ?d1 (runs @ [last_run]) =
    (concat (replicate (Suc (length runs)) ([Spawn, WaitExit] @ down_actions ?d1)) @
       (if d_has_clean_up ?d1 then [CleanUp] else []) @ [Exit 0], Some 0)"
    by (rule guard_loop_until) (use assms d in simp_all)
  moreover have "guard_loop ?d (first # runs @ [last_run]) =
    (case guard_loop ?d1 (runs @ [last_run]) of (es, code) \<Rightarrow> ([Spawn, WaitExit] @ down_actions ?d @ es, code))"
    using guard_loop_step [OF d(1), of first] assms(1,2) d by simp
  ultimately show ?thesis using d by (simp add: Daemon_Run_def down_actions_def)
qed

theorem daemon_restarts_witness:
  "Daemon_Run (new_daemon True True 10000)
     [\<lparr>run_time = 20000, run_stopped = False\<rparr>, \<lparr>run_time = 5, run_stopped = False\<rparr>, \<lparr>run_time = 7, run_stopped = True\<rparr>] =
   ([NewProcessInfo, InstallSignalHandlersForQuit, Spawn, WaitExit, AppDownHandle, Spawn, WaitExit, AppDownHandle,
     Spawn, WaitExit, AppDownHandle, CleanUp, Exit 0], Some 0)"
  using daemon_restarts [of 10000 "\<lparr>run_time = 20000, run_stopped = False\<rparr>" "[\<lparr>run_time = 5, run_stopped = False\<rparr>]"
      "\<lparr>run_time = 7, run_stopped = True\<rparr>" True True]
  by (simp add: numeral_3_eq_3)

text \<open>
  C22: the whole process under the daemon. When the application of a keeper ran stably and a
  signal ends its last run, then, however the events of the node, the rounds of the main loop and the
  daemon's actions interleave, a process that comes to its exit has code 0, and before that
  the node has announced its actor system down after each of the ends of the application, with
  the others still ahead, and after all of them that it leaves.
\<close>

theorem guarded_keeper_leaves:
  assumes "keeper_main W pick bind resolver uuid (Some kc) (first # runs @ [last_run]) = MainRuns lines p"
    and "kc_name kc \<noteq> []" and "kc_app kc \<noteq> []"
    and "3000 \<le> run_time first" and "\<not> run_stopped first" and "\<forall>r\<in>set runs. \<not> run_stopped r"
    and "run_stopped last_run" and "length runs < 2 ^ 64 - 1"
    and "(process_step W)\<^sup>*\<^sup>* p p'" and "pr_exit p' = Some (ExitCode n)"
  shows "n = 0
    \<and> (\<forall>j < length runs + 2. performed W p AppDownHandle
          (concat (replicate j [Spawn, WaitExit, AppDownHandle]) @ [CleanUp, Exit 0]) p')
    \<and> (\<exists>q q'. (process_step W)\<^sup>*\<^sup>* p q \<and> reachable W (pr_node q) \<and> pr_daemon q = [CleanUp, Exit 0]
          \<and> NotifyLeave W (pr_node q) = (pr_node q', None)
          \<and> pr_daemon q' = [Exit 0] \<and> (process_step W)\<^sup>*\<^sup>* q' p')"
proof -
  let ?round = "[Spawn, WaitExit, AppDownHandle]" and ?k = "length runs + 2"
  note start = keeper_main_node [OF assms(1,2)]
  have todo: "pr_daemon p =
      [NewProcessInfo, InstallSignalHandlersForQuit] @ concat (replicate ?k ?round) @ [CleanUp, Exit 0]"
    using daemon_restarts [OF assms(4-8), of True True] by (simp add: start(3) [OF assms(3)])
  have ne: "no_exit (concat (replicate i ?round))" for i by (induction i) simp_all
  have "exits_with 0 p"
    unfolding exits_with_def using todo ne [of ?k] start(2)
    by (intro disjI1 exI [of _ "[NewProcessInfo, InstallSignalHandlersForQuit] @ concat (replicate ?k ?round) @ [CleanUp]"])
      simp
  then have n: "n = 0" using exits_with_steps [OF assms(9)] assms(10)
    by (auto simp: exits_with_def terminated_def)
  have ran: "performed W p a ys p'" if "pr_daemon p = zs @ a # ys" "no_exit zs" "\<forall>n. a \<noteq> Exit n" for zs a ys
  proof -
    have "ahead a ys p" using that start(2) by (auto simp: ahead_def)
    then show ?thesis using daemon_progress [OF assms(9) _ that(3)] assms(10)
      by (auto simp: ahead_def terminated_def)
  qed
  have downs: "performed W p AppDownHandle (concat (replicate j ?round) @ [CleanUp, Exit 0]) p'" if j: "j < ?k" for j
  proof -
    obtain i where "?k = Suc (j + i)" using less_imp_Suc_add [OF j] by blast
    then have i: "?k = i + (1 + j)" by simp
    have "concat (replicate ?k ?round) = concat (replicate i ?round) @ ?round @ concat (replicate j ?round)"
      by (simp only: i replicate_add concat_append) simp
    then show ?thesis using todo ne [of i]
      by (intro ran [where zs = "[NewProcessInfo, InstallSignalHandlersForQuit] @ concat (replicate i ?round) @ [Spawn, WaitExit]"])
        simp_all
  qed
  have "performed W p CleanUp [Exit 0] p'"
    using todo ne [of ?k]
    by (intro ran [where zs = "[NewProcessInfo, InstallSignalHandlersForQuit] @ concat (replicate ?k ?round)"]) simp_all
  then obtain q q' where q: "(process_step W)\<^sup>*\<^sup>* p q" "pr_daemon q = [CleanUp, Exit 0]" "pr_daemon q' = [Exit 0]"
    "NotifyLeave W (pr_node q) = (pr_node q', None)" "(process_step W)\<^sup>*\<^sup>* q' p'"
    by (auto simp: performed_def)
  moreover have "reachable W (pr_node q)" by (rule process_reachable [OF q(1) start(1)])
  ultimately show ?thesis using n downs by blast
qed

definition guarded_a :: keeper_config where
  "guarded_a = keeper_a\<lparr>kc_seeds := [], kc_app := ''/bin/app''\<rparr>"

theorem guarded_keeper_leaves_witness:
  "\<exists>lines p p'. keeper_main (update_wire empty_update) 0 (\<lambda>_ _. True) (\<lambda>_. Inl 1) ''u1'' (Some guarded_a)
      [\<lparr>run_time = 4000, run_stopped = False\<rparr>, \<lparr>run_time = 7, run_stopped = True\<rparr>] = MainRuns lines p
    \<and> (process_step (update_wire empty_update))\<^sup>*\<^sup>* p p' \<and> pr_exit p' = Some (ExitCode 0)
    \<and> performed (update_wire empty_update) p AppDownHandle [Spawn, WaitExit, AppDownHandle, CleanUp, Exit 0] p'
    \<and> performed (update_wire empty_update) p CleanUp [Exit 0] p'"
proof -
  let ?W = "update_wire empty_update" and ?bind = "\<lambda>_ _. True" and ?resolver = "\<lambda>_. Inl 1"
  let ?first = "\<lparr>run_time = 4000, run_stopped = False\<rparr>" and ?last = "\<lparr>run_time = 7, run_stopped = True\<rparr>"
  have kc: "kc_name guarded_a \<noteq> []" "kc_app guarded_a \<noteq> []" "kc_seeds guarded_a = []"
    by (simp_all add: guarded_a_def keeper_a_def)
  have seeds: "GetSeeds (kc_seeds guarded_a) = Inr []" using GetSeeds_join [of "[]"] by (simp add: kc(3))
  let ?c = "membership_config ?resolver ''u1'' guarded_a []"
  have "IsEmptyMember (c_host ?c) \<longleftrightarrow> False"
    using membership_config_name [of ?resolver "''u1''" guarded_a "[]"] kc(1) by (simp add: IsEmptyMember_def)
  then obtain s where s: "Init ?W 0 True ?c new_membership = (s, Inr MEMBERSHIP_SUCCESS)" using Init_returns by blast
  have "NodeKeeper ?W 0 ?bind ?resolver ''u1'' guarded_a = Inr s"
    using s seeds by (simp add: NodeKeeper_def CreateTransport_def Let_def)
  then obtain lines p where p: "keeper_main ?W 0 ?bind ?resolver ''u1'' (Some guarded_a) (?first # [] @ [?last]) = MainRuns lines p"
    "pr_node p = Subscribe 0 s" by (simp add: keeper_main_def seeds)
  note start = keeper_main_node [OF p(1) kc(1)]
  have "c_retransmit_multiplier ?c = 3"
    by (simp add: membership_config_def Let_def SetHostMember_def EnablePrintPingLog_def Config_def split: prod.splits)
  then have gossip: "can_gossip (pr_node p)"
    using Init_success [OF s] by (simp add: p(2) can_gossip_def limits_ok_def Subscribe_def ceil_log10.simps)
  have fit: "updates_fit ?W" by (simp add: updates_fit_def kMaxPayloadSize_def)
  have two: "replicate 2 x = [x, x]" for x :: "daemon_action list" by (simp add: numeral_2_eq_2)
  have todo: "pr_daemon p = [NewProcessInfo, InstallSignalHandlersForQuit, Spawn, WaitExit, AppDownHandle,
      Spawn, WaitExit, AppDownHandle, CleanUp] @ [Exit 0]"
    using daemon_restarts [of 3000 ?first "[]" ?last True True] by (simp add: start(3) [OF kc(2)] two)
  obtain p' where p': "(process_step ?W)\<^sup>*\<^sup>* p p'" "pr_exit p' = Some (ExitCode 0)"
    using daemon_exits [OF todo _ start(2) gossip fit] by auto
  have run: "(3000 :: int) \<le> run_time ?first" "\<not> run_stopped ?first" "\<forall>r\<in>set []. \<not> run_stopped r" "run_stopped ?last"
    "length [] < 2 ^ 64 - (1 :: nat)" by simp_all
  note r = guarded_keeper_leaves [OF p(1) kc(1,2) run p', THEN conjunct2]
  have "performed ?W p AppDownHandle (concat (replicate 1 [Spawn, WaitExit, AppDownHandle]) @ [CleanUp, Exit 0]) p'"
    by (rule r [THEN conjunct1, rule_format]) simp
  then have down: "performed ?W p AppDownHandle [Spawn, WaitExit, AppDownHandle, CleanUp, Exit 0] p'" by simp
  obtain q q' where "(process_step ?W)\<^sup>*\<^sup>* p q" "pr_daemon q = [CleanUp, Exit 0]"
    "NotifyLeave ?W (pr_node q) = (pr_node q', None)" "pr_daemon q' = [Exit 0]" "(process_step ?W)\<^sup>*\<^sup>* q' p'"
    using r [THEN conjunct2] by (elim exE conjE)
  then have "performed ?W p CleanUp [Exit 0] p'"
    unfolding performed_def by (intro exI conjI) (assumption | simp)+
  moreover have "keeper_main ?W 0 ?bind ?resolver ''u1'' (Some guarded_a) [?first, ?last] = MainRuns lines p"
    using p(1) by simp
  ultimately show ?thesis using p' down by (intro exI conjI)
qed

text \<open>
  An application whose first run is shorter than the stable time is not started again:
  the daemon ends with code 1 after one start.
\<close>

theorem daemon_gives_up:
  assumes "run_time first < stable_time"
  shows "snd (Daemon_Run (new_daemon app_down clean_up stable_time) (first # runs)) = Some 1
    \<and> count_list (fst (Daemon_Run (new_daemon app_down clean_up stable_time) (first # runs))) Spawn = 1"
  using guard_loop_unstable [of "new_daemon app_down clean_up stable_time" first runs] assms
  by (cases "guard_loop (new_daemon app_down clean_up stable_time) (first # runs)")
    (simp add: Daemon_Run_def new_daemon_def)

theorem daemon_gives_up_witness:
  "snd (Daemon_Run (new_daemon True True 10000) [\<lparr>run_time = 9999, run_stopped = False\<rparr>]) = Some 1"
  using daemon_gives_up [of "\<lparr>run_time = 9999, run_stopped = False\<rparr>" 10000 True True "[]"] by simp

text \<open>
  The processor rate a node reports lies between 0 and 1 whenever the idle time grew
  by at most what the sum of the counters grew, and the time spent in the kernel, which is
  read from the same line, has no influence on it.
\<close>

theorem cpu_rate_report:
  assumes "ci_idle c2 - ci_idle c1 \<le> cpu_total c2 - cpu_total c1" and "GetCpuRate c1 c2 = Some r"
  shows "0 \<le> r \<and> r \<le> 1 \<and> GetCpuRate (c1\<lparr>ci_system := x\<rparr>) (c2\<lparr>ci_system := y\<rparr>) = Some r"
  using GetCpuRate_bounds [OF assms] assms(2) by (simp add: GetCpuRate_ignores_system)

theorem cpu_rate_report_witness:
  "GetCpuRate \<lparr>ci_user = 10, ci_nice = 0, ci_system = 5, ci_idle = 90, ci_io_wait = 0, ci_irq = 0, ci_soft_irq = 0\<rparr>
     \<lparr>ci_user = 20, ci_nice = 0, ci_system = 999, ci_idle = 120, ci_io_wait = 0, ci_irq = 0, ci_soft_irq = 0\<rparr> = Some (1 / 4)"
proof -
  let ?c1 = "\<lparr>ci_user = 10, ci_nice = 0, ci_system = 5, ci_idle = 90, ci_io_wait = 0, ci_irq = 0, ci_soft_irq = 0\<rparr>"
  let ?c2 = "\<lparr>ci_user = 20, ci_nice = 0, ci_system = 5, ci_idle = 120, ci_io_wait = 0, ci_irq = 0, ci_soft_irq = 0\<rparr>"
  have "GetCpuRate ?c1 ?c2 = Some (1 / 4)" by (simp add: GetCpuRate_def cpu_total_def)
  from cpu_rate_report [OF _ this, of 5 999] show ?thesis by (simp add: cpu_total_def)
qed

end
