(* ===== verification/Balancer_Policy.thy ===== *)
theory Balancer_Policy
  imports Fifo_Spec
begin

text \<open>
  The policy of the load balancer, \<open>actor_system/src/load_balancer/policy.cc\<close>: the
  least loaded worker gets the next mail, ties going round, and mails are held back while
  every worker is at the threshold.
\<close>

section \<open>State\<close>

type_synonym actor = nat

record 'm min_load =
  ml_rotated :: u64
  ml_mails :: "'m list"
  ml_threshold :: u64

definition MinLoad :: "u64 \<Rightarrow> 'm min_load" where
  "MinLoad load_threshold_to_hold =
     \<lparr>ml_rotated = - 1, ml_mails = [], ml_threshold = load_threshold_to_hold\<rparr>"

definition kDefaultLoadThreshold :: u64 where "kDefaultLoadThreshold = 10"

section \<open>Operations\<close>

definition rotate_copy :: "nat \<Rightarrow> 'a list \<Rightarrow> 'a list" where
  "rotate_copy n xs = drop n xs @ take n xs"

text \<open>\<open>std::min_element\<close>: the position of the first least element, for a non-empty range.\<close>

fun min_from :: "nat \<Rightarrow> nat \<Rightarrow> 'a::linorder \<Rightarrow> 'a list \<Rightarrow> nat" where
  "min_from i best v [] = best"
| "min_from i best v (x # xs) = (if x < v then min_from (Suc i) i x xs else min_from (Suc i) best v xs)"

definition min_element :: "'a::linorder list \<Rightarrow> nat" where
  "min_element xs = (case xs of [] \<Rightarrow> 0 | x # r \<Rightarrow> min_from 1 0 x r)"

definition Hold :: "'m option \<Rightarrow> 'm min_load \<Rightarrow> 'm min_load" where
  "Hold mail p = (case mail of None \<Rightarrow> p | Some m \<Rightarrow> p\<lparr>ml_mails := queue_push m (ml_mails p)\<rparr>)"

definition Release :: "'m option \<Rightarrow> 'm min_load \<Rightarrow> 'm option \<times> 'm min_load" where
  "Release mail p =
     (if ml_mails p = [] then (mail, p)
      else
        let q = (case mail of None \<Rightarrow> ml_mails p | Some m \<Rightarrow> queue_push m (ml_mails p)) in
        case queue_pop q of
          None \<Rightarrow> (mail, p)
        | Some (m, r) \<Rightarrow> (Some m, p\<lparr>ml_mails := r\<rparr>))"

text \<open>
  \<open>operator()\<close>: the worker chosen with the mail it gets, if any. With a mail to place
  and no worker, \<open>Rotate\<close> computes a remainder by zero.
\<close>

definition MinLoad_call ::
  "actor list \<Rightarrow> u64 list \<Rightarrow> 'm option \<Rightarrow> 'm min_load \<Rightarrow> cpp_exn + ((actor \<times> 'm) option \<times> 'm min_load)" where
  "MinLoad_call actors metrics mail p =
     (if mail = None \<and> ml_mails p = [] then Inr (None, p)
      else if metrics = [] then Inl UndefinedBehaviour
      else
        let r = (ml_rotated p + 1) mod of_nat (length metrics);
            p = p\<lparr>ml_rotated := r\<rparr>;
            rotated = rotate_copy (unat r) metrics;
            offset = min_element rotated in
        if rotated ! offset \<ge> ml_threshold p then Inr (None, Hold mail p)
        else (case Release mail p of
                (None, p) \<Rightarrow> Inr (None, p)
              | (Some m, p) \<Rightarrow> Inr (Some (actors ! ((unat r + offset) mod length actors), m), p)))"

section \<open>Laws\<close>

lemma min_from_correct:
  assumes "min_from i best v xs = b"
  shows "b = best \<and> (\<forall>x\<in>set xs. v \<le> x) \<or>
     (\<exists>k<length xs. b = i + k \<and> xs ! k < v \<and> (\<forall>x\<in>set xs. xs ! k \<le> x) \<and> (\<forall>j<k. xs ! k < xs ! j))"
  using assms
proof (induction i best v xs rule: min_from.induct)
  case (2 i best v x xs)
  show ?case
  proof (cases "x < v")
    case True
    from "2.IH"(1) [OF True] "2.prems" True
    consider "b = i" "\<forall>y\<in>set xs. x \<le> y"
      | k where "k < length xs" "b = Suc i + k" "xs ! k < x" "\<forall>y\<in>set xs. xs ! k \<le> y" "\<forall>j<k. xs ! k < xs ! j"
      by auto
    then show ?thesis
    proof cases
      case 1
      then show ?thesis using True by (intro disjI2 exI [of _ 0]) auto
    next
      case 2
      then show ?thesis using True
        by (intro disjI2 exI [of _ "Suc k"]) (auto simp: less_Suc_eq_0_disj)
    qed
  next
    case False
    from "2.IH"(2) [OF False] "2.prems" False
    consider "b = best" "\<forall>y\<in>set xs. v \<le> y"
      | k where "k < length xs" "b = Suc i + k" "xs ! k < v" "\<forall>y\<in>set xs. xs ! k \<le> y" "\<forall>j<k. xs ! k < xs ! j"
      by auto
    then show ?thesis
    proof cases
      case 1
      then show ?thesis using False by auto
    next
      case 2
      then show ?thesis using False
        by (intro disjI2 exI [of _ "Suc k"]) (auto simp: less_Suc_eq_0_disj)
    qed
  qed
qed simp

lemma min_element_correct:
  assumes "xs \<noteq> []"
  shows "min_element xs < length xs" and "x \<in> set xs \<Longrightarrow> xs ! min_element xs \<le> x"
    and "j < min_element xs \<Longrightarrow> xs ! min_element xs < xs ! j"
proof -
  obtain a r where xs: "xs = a # r" using assms by (cases xs) auto
  have m: "min_element xs = min_from 1 0 a r" by (simp add: xs min_element_def)
  from min_from_correct [OF m [symmetric]]
  consider "min_element xs = 0" "\<forall>y\<in>set r. a \<le> y"
    | k where "k < length r" "min_element xs = Suc k" "r ! k < a" "\<forall>y\<in>set r. r ! k \<le> y" "\<forall>j<k. r ! k < r ! j"
    by auto
  then have "min_element xs < length xs \<and> (\<forall>x\<in>set xs. xs ! min_element xs \<le> x) \<and>
      (\<forall>j<min_element xs. xs ! min_element xs < xs ! j)"
    by cases (auto simp: xs less_Suc_eq_0_disj)
  then show "min_element xs < length xs" and "x \<in> set xs \<Longrightarrow> xs ! min_element xs \<le> x"
    and "j < min_element xs \<Longrightarrow> xs ! min_element xs < xs ! j" by blast+
qed

lemma nth_rotate_copy:
  assumes "n < length xs" and "i < length xs"
  shows "rotate_copy n xs ! i = xs ! ((n + i) mod length xs)"
proof (cases "n + i < length xs")
  case False
  then have "(n + i) mod length xs = n + i - length xs"
    using assms by (simp add: mod_if)
  then show ?thesis using False assms by (auto simp: rotate_copy_def nth_append add.commute)
qed (use assms in \<open>auto simp: rotate_copy_def nth_append\<close>)

lemma set_rotate_copy: "set (rotate_copy n xs) = set xs"
  by (metis Un_commute append_take_drop_id rotate_copy_def set_append)

lemma length_rotate_copy [simp]: "length (rotate_copy n xs) = length xs"
  by (simp add: rotate_copy_def)

text \<open>The worker chosen has the least load of all, and it is below the threshold.\<close>

lemma MinLoad_call_chosen:
  assumes "MinLoad_call actors metrics mail p = Inr (Some (a, m), p')"
    and "length actors = length metrics" and "length metrics < 2 ^ 64"
  shows "\<exists>i<length actors. a = actors ! i \<and> (\<forall>l\<in>set metrics. metrics ! i \<le> l) \<and> metrics ! i < ml_threshold p"
proof -
  let ?r = "(ml_rotated p + 1) mod of_nat (length metrics)"
  let ?rot = "rotate_copy (unat ?r) metrics"
  let ?o = "min_element ?rot"
  have ne: "metrics \<noteq> []" using assms(1) by (auto simp: MinLoad_call_def split: if_splits)
  have u: "unat (of_nat (length metrics) :: u64) = length metrics"
    using assms(3) by (simp add: unat_of_nat take_bit_nat_eq_self)
  have r: "unat ?r < length metrics" using ne u by (simp add: unat_mod)
  have o: "?o < length metrics" using min_element_correct(1) [of ?rot] ne
    by (metis length_0_conv length_rotate_copy)
  let ?i = "(unat ?r + ?o) mod length actors"
  have i: "?i < length actors" using ne assms(2) by simp
  have nth: "?rot ! ?o = metrics ! ?i" using nth_rotate_copy [OF r o] assms(2) by simp
  have a: "a = actors ! ?i" and th: "?rot ! ?o < ml_threshold p"
    using assms(1) ne
    by (auto simp: MinLoad_call_def Let_def split: if_splits option.splits prod.splits)
  have "\<forall>l\<in>set metrics. metrics ! ?i \<le> l"
    using min_element_correct(2) [of ?rot] ne nth by (metis length_0_conv length_rotate_copy set_rotate_copy)
  then show ?thesis using i a th nth by auto
qed

text \<open>
  Mails leave in the order they came: what is held before the call with the new mail at
  its end is the mail handed out, if any, followed by what is held after it.
\<close>

lemma MinLoad_call_order:
  assumes "MinLoad_call actors metrics mail p = Inr (out, p')"
  shows "ml_mails p @ (case mail of None \<Rightarrow> [] | Some m \<Rightarrow> [m]) =
    (case out of None \<Rightarrow> [] | Some (a, m) \<Rightarrow> [m]) @ ml_mails p'"
  using assms
  by (auto simp: MinLoad_call_def Hold_def Release_def Let_def queue_push_def queue_pop_def
      split: if_splits option.splits list.splits)

lemma MinLoad_call_threshold:
  "MinLoad_call actors metrics mail p = Inr (out, p') \<Longrightarrow> ml_threshold p' = ml_threshold p"
  by (auto simp: MinLoad_call_def Hold_def Release_def Let_def queue_push_def queue_pop_def
      split: if_splits option.splits list.splits)

text \<open>A mail with a worker below the threshold is never held back alone.\<close>

lemma MinLoad_call_places:
  assumes "metrics \<noteq> []" and "length metrics < 2 ^ 64" and "l \<in> set metrics" and "l < ml_threshold p"
    and "mail \<noteq> None \<or> ml_mails p \<noteq> []"
  shows "\<exists>a m p'. MinLoad_call actors metrics mail p = Inr (Some (a, m), p')"
proof -
  let ?r = "(ml_rotated p + 1) mod of_nat (length metrics)"
  let ?rot = "rotate_copy (unat ?r) metrics"
  have ne: "?rot \<noteq> []" using assms(1) by (metis length_0_conv length_rotate_copy)
  have "?rot ! min_element ?rot \<le> l" using min_element_correct(2) [OF ne] assms(3) by (simp add: set_rotate_copy)
  then have below: "\<not> ml_threshold p \<le> ?rot ! min_element ?rot" using assms(4) by simp
  obtain m p' where rel: "Release mail (p\<lparr>ml_rotated := ?r\<rparr>) = (Some m, p')"
    using assms(5) by (cases "ml_mails p"; cases mail)
      (auto simp: Release_def Let_def queue_pop_def queue_push_def)
  show ?thesis using assms(1,5) below rel by (auto simp: MinLoad_call_def Let_def)
qed

text \<open>Round robin: with equal loads the workers are chosen one after the other.\<close>

lemma min_element_equal: "\<forall>x\<in>set xs. x = v \<Longrightarrow> min_element xs = 0"
proof -
  have "min_from i b v ys = b" if "\<forall>x\<in>set ys. x = v" for i b ys
    using that by (induction ys arbitrary: i) auto
  then show "\<forall>x\<in>set xs. x = v \<Longrightarrow> ?thesis" by (cases xs) (auto simp: min_element_def)
qed

lemma MinLoad_call_round_robin:
  assumes "metrics = replicate n v" and "0 < n" and "n < 2 ^ 64" and "length actors = n"
    and "v < ml_threshold p" and "ml_mails p = []"
  shows "MinLoad_call actors metrics (Some m) p =
    Inr (Some (actors ! unat ((ml_rotated p + 1) mod of_nat n), m),
         p\<lparr>ml_rotated := (ml_rotated p + 1) mod of_nat n\<rparr>)"
proof -
  let ?r = "(ml_rotated p + 1) mod of_nat n"
  have u: "unat (of_nat n :: u64) = n" using assms(3) by (simp add: unat_of_nat take_bit_nat_eq_self)
  have r: "unat ?r < n" using assms(2) u by (simp add: unat_mod)
  have all: "\<forall>x\<in>set (rotate_copy (unat ?r) metrics). x = v" by (simp add: set_rotate_copy assms(1))
  have m0: "min_element (rotate_copy (unat ?r) metrics) = 0" by (rule min_element_equal [OF all])
  have "rotate_copy (unat ?r) metrics \<noteq> []"
    using assms(1,2) by (metis length_0_conv length_replicate length_rotate_copy less_numeral_extra(3))
  then have v: "rotate_copy (unat ?r) metrics ! 0 = v" using all nth_mem by blast
  have len: "length metrics = n" and ne: "metrics \<noteq> []" using assms(1,2) by auto
  show ?thesis
    using assms(2-6) r len ne by (simp add: MinLoad_call_def Let_def m0 v Release_def)
qed

end
