(* ===== verification/Load_Balancer.thy ===== *)
theory Load_Balancer
  imports Balancer_Policy
begin

text \<open>
  The load balancing router, \<open>actor_system/src/load_balancer.cc\<close> with
  \<open>load_balancer/proxy.h\<close> and \<open>load_balancer/ticket.h\<close>: it relays mails to its workers
  under request ids of its own, keeps a ticket for each so that the worker's response
  goes back to the one who asked, and counts the requests each worker has in flight.

  Message ids belong to CAF: their operations are the parameter \<open>mid_ops\<close>. Actors are
  numbers, 0 the null actor.
\<close>

section \<open>Interface of CAF\<close>

record 'i mid_ops =
  response_id :: "'i \<Rightarrow> 'i"
  is_request :: "'i \<Rightarrow> bool"
  is_response :: "'i \<Rightarrow> bool"
  is_normal :: "'i \<Rightarrow> bool"
  with_high_priority :: "'i \<Rightarrow> 'i"
  next_id :: "'i \<Rightarrow> 'i"
  integer_value :: "'i \<Rightarrow> nat"

definition null_actor :: actor where "null_actor = 0"

datatype 'c content =
    ExitMsg nat
  | DownMsg actor
  | PutWorker actor
  | DeleteWorkerMsg actor
  | ClearMsg
  | GetMsg
  | UserMsg 'c
  | WorkersMsg "actor list"
  | EmptyMsg

record ('i, 'c) mail =
  mb_sender :: actor
  mb_mid :: 'i
  mb_content :: "'c content"

record 'i ticket =
  tk_response_id :: 'i
  tk_response_to :: actor

datatype ('i, 'c) router_effect =
    Enqueue actor "('i, 'c) mail"         \<comment> \<open>an actor is sent a message\<close>
  | Monitor actor
  | Demonitor actor
  | Unregister

record ('i, 'c) router =
  ro_self :: actor
  ro_cleaned_up :: bool
  ro_planned_reason :: nat
  ro_workers :: "actor list"
  ro_metrics :: "actor \<rightharpoonup> u64"
  ro_last_request_id :: 'i
  ro_tickets :: "nat \<rightharpoonup> 'i ticket"      \<comment> \<open>by the integer value of the id\<close>
  ro_policy :: "('i, 'c) mail min_load"
  ro_effects :: "('i, 'c) router_effect list"

definition out_of_workers :: nat where "out_of_workers = 6"

definition Make :: "actor \<Rightarrow> 'i \<Rightarrow> u64 \<Rightarrow> ('i, 'c) router" where
  "Make self first_id threshold =
     \<lparr>ro_self = self, ro_cleaned_up = False, ro_planned_reason = 0, ro_workers = [],
      ro_metrics = Map.empty, ro_last_request_id = first_id, ro_tickets = Map.empty,
      ro_policy = MinLoad threshold, ro_effects = []\<rparr>"

definition ro_emit :: "('i, 'c) router_effect list \<Rightarrow> ('i, 'c) router \<Rightarrow> ('i, 'c) router" where
  "ro_emit es r = r\<lparr>ro_effects := ro_effects r @ es\<rparr>"

section \<open>Tickets\<close>

definition ReplyTo :: "'i mid_ops \<Rightarrow> ('i, 'c) mail \<Rightarrow> 'i ticket option" where
  "ReplyTo I what =
     (if mb_mid what \<noteq> response_id I (mb_mid what)
      then Some \<lparr>tk_response_id = response_id I (mb_mid what), tk_response_to = mb_sender what\<rparr>
      else None)"

definition AllocateRequestID :: "'i mid_ops \<Rightarrow> ('i, 'c) mail \<Rightarrow> ('i, 'c) router \<Rightarrow> 'i \<times> ('i, 'c) router" where
  "AllocateRequestID I what r =
     (let result = next_id I (ro_last_request_id r) in
      (if is_normal I (mb_mid what) then result else with_high_priority I result,
       r\<lparr>ro_last_request_id := result\<rparr>))"

text \<open>
  \<open>emplace\<close> keeps an entry that is there. A mail that needs no reply gets the default
  ticket, whose \<open>response_to\<close> is the null actor; it is stored like any other.
\<close>

definition ticket_of :: "'i mid_ops \<Rightarrow> ('i, 'c) mail \<Rightarrow> 'i ticket" where
  "ticket_of I what = (case ReplyTo I what of Some t \<Rightarrow> t
     | None \<Rightarrow> \<lparr>tk_response_id = mb_mid what, tk_response_to = null_actor\<rparr>)"

definition PlaceTicket :: "'i mid_ops \<Rightarrow> ('i, 'c) mail \<Rightarrow> ('i, 'c) router \<Rightarrow> 'i \<times> ('i, 'c) router" where
  "PlaceTicket I what r =
     (case AllocateRequestID I what r of
        (new_id, r1) \<Rightarrow>
          let k = integer_value I (response_id I new_id) in
          (new_id, if ro_tickets r1 k = None
                   then r1\<lparr>ro_tickets := (ro_tickets r1)(k \<mapsto> ticket_of I what)\<rparr> else r1))"

definition ExtractTicket :: "'i mid_ops \<Rightarrow> ('i, 'c) mail \<Rightarrow> ('i, 'c) router \<Rightarrow> 'i ticket option \<times> ('i, 'c) router" where
  "ExtractTicket I what r =
     (let k = integer_value I (mb_mid what) in
      case ro_tickets r k of
        None \<Rightarrow> (None, r)
      | Some t \<Rightarrow>
          (if mb_sender what \<notin> set (ro_workers r) then None else Some t,
           r\<lparr>ro_tickets := (ro_tickets r)(k := None)\<rparr>))"

definition ticket_Reply :: "actor \<Rightarrow> 'c content \<Rightarrow> 'i ticket option \<Rightarrow> ('i, 'c) router_effect list" where
  "ticket_Reply self c ticket =
     (case ticket of
        None \<Rightarrow> []
      | Some t \<Rightarrow>
          if tk_response_to t \<noteq> null_actor
          then [Enqueue (tk_response_to t) \<lparr>mb_sender = self, mb_mid = tk_response_id t, mb_content = c\<rparr>]
          else [])"

definition Relay :: "'i mid_ops \<Rightarrow> ('i, 'c) mail \<Rightarrow> actor \<Rightarrow> ('i, 'c) router \<Rightarrow> ('i, 'c) router" where
  "Relay I what worker r =
     (case PlaceTicket I what r of
        (new_id, r1) \<Rightarrow>
          ro_emit [Enqueue worker \<lparr>mb_sender = ro_self r1, mb_mid = new_id, mb_content = mb_content what\<rparr>] r1)"

definition Reply :: "'i mid_ops \<Rightarrow> ('i, 'c) mail \<Rightarrow> ('i, 'c) router \<Rightarrow> ('i, 'c) router" where
  "Reply I what r =
     (case ExtractTicket I what r of
        (ticket, r1) \<Rightarrow> ro_emit (ticket_Reply (ro_self r1) (mb_content what) ticket) r1)"

section \<open>Control messages\<close>

definition AddWorker :: "actor \<Rightarrow> ('i, 'c) router \<Rightarrow> ('i, 'c) router" where
  "AddWorker w r =
     (if w \<in> set (ro_workers r) then r
      else ro_emit [Monitor w]
        (r\<lparr>ro_workers := ro_workers r @ [w],
           ro_metrics := (if ro_metrics r w = None then (ro_metrics r)(w \<mapsto> 0) else ro_metrics r)\<rparr>))"

definition DeleteWorker :: "actor \<Rightarrow> ('i, 'c) router \<Rightarrow> ('i, 'c) router" where
  "DeleteWorker w r =
     (if w \<in> set (ro_workers r) then
        ro_emit [Demonitor w]
          (r\<lparr>ro_workers := erase_first w (ro_workers r), ro_metrics := (ro_metrics r)(w := None)\<rparr>)
      else r)"

definition ClearWorker :: "('i, 'c) router \<Rightarrow> ('i, 'c) router" where
  "ClearWorker r =
     ro_emit (map Demonitor (ro_workers r)) (r\<lparr>ro_workers := [], ro_metrics := Map.empty\<rparr>)"

text \<open>\<open>cleanup\<close> succeeds once.\<close>

definition Router_Exit :: "'i \<Rightarrow> nat \<Rightarrow> ('i, 'c) router \<Rightarrow> ('i, 'c) router" where
  "Router_Exit async_id reason r =
     (if ro_cleaned_up r then r
      else ro_emit
        (map (\<lambda>w. Enqueue w \<lparr>mb_sender = null_actor, mb_mid = async_id, mb_content = ExitMsg reason\<rparr>)
           (ro_workers r) @ [Unregister])
        (r\<lparr>ro_cleaned_up := True, ro_workers := [], ro_metrics := Map.empty\<rparr>))"

definition Down :: "actor \<Rightarrow> ('i, 'c) router \<Rightarrow> ('i, 'c) router" where
  "Down source r =
     (let r1 = (if source \<in> set (ro_workers r)
                then r\<lparr>ro_metrics := (ro_metrics r)(source := None),
                       ro_workers := erase_first source (ro_workers r)\<rparr>
                else r) in
      if ro_workers r1 = [] then
        (let r2 = r1\<lparr>ro_planned_reason := out_of_workers\<rparr> in
         if ro_cleaned_up r2 then r2 else ro_emit [Unregister] (r2\<lparr>ro_cleaned_up := True\<rparr>))
      else r1)"

definition on_destroy :: "('i, 'c) router \<Rightarrow> ('i, 'c) router" where
  "on_destroy r =
     (if \<not> ro_cleaned_up r then ro_emit [Unregister] (r\<lparr>ro_cleaned_up := True\<rparr>) else r)"

text \<open>\<open>Filter\<close>: the message is dealt with here when the result is true.\<close>

definition Filter :: "'i mid_ops \<Rightarrow> 'i \<Rightarrow> ('i, 'c) mail \<Rightarrow> ('i, 'c) router \<Rightarrow> bool \<times> ('i, 'c) router" where
  "Filter I async_id what r =
     (case mb_content what of
        ExitMsg reason \<Rightarrow> (True, Router_Exit async_id reason r)
      | DownMsg source \<Rightarrow> (True, Down source r)
      | PutWorker w \<Rightarrow> (True, AddWorker w r)
      | DeleteWorkerMsg w \<Rightarrow> (True, DeleteWorker w r)
      | ClearMsg \<Rightarrow> (True, ClearWorker r)
      | GetMsg \<Rightarrow> (True, ro_emit [Enqueue (mb_sender what)
            \<lparr>mb_sender = null_actor, mb_mid = response_id I (mb_mid what),
             mb_content = WorkersMsg (ro_workers r)\<rparr>] r)
      | _ \<Rightarrow>
          if is_request I (mb_mid what) \<and> mb_sender what \<noteq> null_actor \<and> ro_workers r = []
          then (True, ro_emit [Enqueue (mb_sender what)
                 \<lparr>mb_sender = null_actor, mb_mid = response_id I (mb_mid what), mb_content = EmptyMsg\<rparr>] r)
          else (False, r))"

text \<open>\<open>GetMetrics\<close>: a worker without an entry would be read through \<open>end()\<close>.\<close>

definition GetMetrics :: "('i, 'c) router \<Rightarrow> u64 list option" where
  "GetMetrics r =
     (if \<forall>w\<in>set (ro_workers r). ro_metrics r w \<noteq> None
      then Some (map (\<lambda>w. the (ro_metrics r w)) (ro_workers r)) else None)"

definition load_of :: "actor \<Rightarrow> ('i, 'c) router \<Rightarrow> u64" where
  "load_of w r = (case ro_metrics r w of None \<Rightarrow> 0 | Some l \<Rightarrow> l)"

text \<open>The part of \<open>enqueue\<close> for a response: the load of the sender, read through \<open>operator[]\<close>.\<close>

definition settle :: "'i mid_ops \<Rightarrow> ('i, 'c) mail \<Rightarrow> ('i, 'c) router \<Rightarrow> ('i, 'c) router" where
  "settle I what r =
     Reply I what (r\<lparr>ro_metrics := (ro_metrics r)(mb_sender what \<mapsto> load_of (mb_sender what) r - 1)\<rparr>)"

definition place :: "'i mid_ops \<Rightarrow> ('i, 'c) mail option \<Rightarrow> ('i, 'c) router act" where
  "place I this_mail r =
     (case GetMetrics r of
        None \<Rightarrow> (r, Some UndefinedBehaviour)
      | Some metrics \<Rightarrow>
          (case MinLoad_call (ro_workers r) metrics this_mail (ro_policy r) of
             Inl e \<Rightarrow> (r, Some e)
           | Inr (None, p) \<Rightarrow> (r\<lparr>ro_policy := p\<rparr>, None)
           | Inr (Some (to, next_mail), p) \<Rightarrow>
               (if to \<noteq> null_actor then
                  (Relay I next_mail to
                     (r\<lparr>ro_policy := p, ro_metrics := (ro_metrics r)(to \<mapsto> load_of to r + 1)\<rparr>), None)
                else (r\<lparr>ro_policy := p\<rparr>, None))))"

definition router_enqueue :: "'i mid_ops \<Rightarrow> 'i \<Rightarrow> ('i, 'c) mail \<Rightarrow> ('i, 'c) router act" where
  "router_enqueue I async_id what r =
     (case Filter I async_id what r of
        (True, r1) \<Rightarrow> (r1, None)
      | (False, r1) \<Rightarrow>
          if is_response I (mb_mid what) then place I None (settle I what r1)
          else place I (Some what) r1)"

section \<open>Invariant\<close>

text \<open>The workers are different from each other and each has a load counter.\<close>

definition router_wf :: "('i, 'c) router \<Rightarrow> bool" where
  "router_wf r \<longleftrightarrow> distinct (ro_workers r) \<and> (\<forall>w\<in>set (ro_workers r). ro_metrics r w \<noteq> None)"

lemma ro_emit_frame [simp]:
  "ro_workers (ro_emit es r) = ro_workers r" "ro_metrics (ro_emit es r) = ro_metrics r"
  "ro_policy (ro_emit es r) = ro_policy r" "ro_tickets (ro_emit es r) = ro_tickets r"
  "ro_self (ro_emit es r) = ro_self r" "ro_effects (ro_emit es r) = ro_effects r @ es"
  "ro_last_request_id (ro_emit es r) = ro_last_request_id r"
  by (simp_all add: ro_emit_def)

lemma router_wf_emit [simp]: "router_wf (ro_emit es r) = router_wf r"
  by (simp add: router_wf_def)

lemma router_wf_AddWorker: "router_wf r \<Longrightarrow> router_wf (AddWorker w r)"
  by (auto simp: router_wf_def AddWorker_def)

lemma router_wf_DeleteWorker: "router_wf r \<Longrightarrow> router_wf (DeleteWorker w r)"
  by (auto simp: router_wf_def DeleteWorker_def erase_first_remove1)

lemma router_wf_ClearWorker: "router_wf (ClearWorker r)"
  by (simp add: router_wf_def ClearWorker_def)

lemma router_wf_Exit: "router_wf r \<Longrightarrow> router_wf (Router_Exit i reason r)"
  by (simp add: router_wf_def Router_Exit_def)

lemma router_wf_Down: "router_wf r \<Longrightarrow> router_wf (Down s r)"
  by (auto simp: router_wf_def Down_def Let_def erase_first_remove1)

lemma router_wf_Filter: "router_wf r \<Longrightarrow> router_wf (snd (Filter I i what r))"
  by (auto simp: Filter_def router_wf_AddWorker router_wf_DeleteWorker router_wf_ClearWorker
      router_wf_Exit router_wf_Down split: content.splits)

lemma PlaceTicket_frame [simp]:
  "ro_workers (snd (PlaceTicket I what r)) = ro_workers r"
  "ro_metrics (snd (PlaceTicket I what r)) = ro_metrics r"
  "ro_effects (snd (PlaceTicket I what r)) = ro_effects r"
  "ro_policy (snd (PlaceTicket I what r)) = ro_policy r"
  "ro_self (snd (PlaceTicket I what r)) = ro_self r"
  by (simp_all add: PlaceTicket_def AllocateRequestID_def Let_def)

lemma ExtractTicket_frame [simp]:
  "ro_workers (snd (ExtractTicket I what r)) = ro_workers r"
  "ro_metrics (snd (ExtractTicket I what r)) = ro_metrics r"
  "ro_effects (snd (ExtractTicket I what r)) = ro_effects r"
  "ro_policy (snd (ExtractTicket I what r)) = ro_policy r"
  "ro_self (snd (ExtractTicket I what r)) = ro_self r"
  by (auto simp: ExtractTicket_def Let_def split: option.splits)

lemma Relay_frame [simp]:
  "ro_workers (Relay I what w r) = ro_workers r" "ro_metrics (Relay I what w r) = ro_metrics r"
  "ro_policy (Relay I what w r) = ro_policy r"
  using PlaceTicket_frame [of I what r]
  by (cases "PlaceTicket I what r"; simp add: Relay_def)+

lemma Reply_frame [simp]:
  "ro_workers (Reply I what r) = ro_workers r" "ro_metrics (Reply I what r) = ro_metrics r"
  "ro_policy (Reply I what r) = ro_policy r"
  using ExtractTicket_frame [of I what r]
  by (cases "ExtractTicket I what r"; simp add: Reply_def)+

lemma router_wf_place: "router_wf r \<Longrightarrow> router_wf (fst (place I m r))"
  by (auto simp: place_def router_wf_def split: option.splits sum.splits prod.splits)

lemma router_wf_settle: "router_wf r \<Longrightarrow> router_wf (settle I what r)"
  by (simp add: settle_def router_wf_def)

lemma router_wf_enqueue: "router_wf r \<Longrightarrow> router_wf (fst (router_enqueue I i what r))"
  using router_wf_Filter [of r I i what]
  by (auto simp: router_enqueue_def router_wf_place router_wf_settle split: prod.splits bool.splits)

lemma router_wf_Make: "router_wf (Make self i t)"
  by (simp add: router_wf_def Make_def)

lemma GetMetrics_wf: "router_wf r \<Longrightarrow> GetMetrics r = Some (map (\<lambda>w. load_of w r) (ro_workers r))"
  by (auto simp: router_wf_def GetMetrics_def load_of_def split: option.splits)

section \<open>Placing mails\<close>

text \<open>With a worker below the threshold a mail goes to one with the least load of all.\<close>

lemma place_chosen:
  assumes "router_wf r" and "place I (Some m) r = (r', None)" and "length (ro_workers r) < 2 ^ 64"
    and "w0 \<in> set (ro_workers r)" and "load_of w0 r < ml_threshold (ro_policy r)"
    and "null_actor \<notin> set (ro_workers r)"
  shows "\<exists>w\<in>set (ro_workers r). (\<forall>v\<in>set (ro_workers r). load_of w r \<le> load_of v r)
    \<and> load_of w r' = load_of w r + 1 \<and> (\<forall>v. v \<noteq> w \<longrightarrow> load_of v r' = load_of v r)"
proof -
  let ?ms = "map (\<lambda>w. load_of w r) (ro_workers r)"
  have ne: "?ms \<noteq> []" using assms(4) by auto
  obtain a k p' where c: "MinLoad_call (ro_workers r) ?ms (Some m) (ro_policy r) = Inr (Some (a, k), p')"
    using MinLoad_call_places [OF ne, of "load_of w0 r" "ro_policy r" "Some m" "ro_workers r"] assms(3,4,5)
    by auto
  from MinLoad_call_chosen [OF c] assms(3) obtain i
    where i: "i < length (ro_workers r)" "a = ro_workers r ! i" "\<forall>l\<in>set ?ms. ?ms ! i \<le> l" by auto
  have a: "a \<in> set (ro_workers r)" using i by simp
  have "a \<noteq> null_actor" using a assms(6) by auto
  then have r': "r' = Relay I k a (r\<lparr>ro_policy := p', ro_metrics := (ro_metrics r)(a \<mapsto> load_of a r + 1)\<rparr>)"
    using assms(2) by (simp add: place_def GetMetrics_wf [OF assms(1)] c)
  have "\<forall>v\<in>set (ro_workers r). load_of a r \<le> load_of v r" using i by auto
  moreover have "load_of a r' = load_of a r + 1" by (simp add: r' load_of_def)
  moreover have "load_of v r' = load_of v r" if "v \<noteq> a" for v using that by (simp add: r' load_of_def)
  ultimately show ?thesis using a by blast
qed

section \<open>Requests and their responses\<close>

text \<open>The documented behaviour of ids the router relies on.\<close>

definition ids_ok :: "'i mid_ops \<Rightarrow> bool" where
  "ids_ok I \<longleftrightarrow> (\<forall>i. is_request I i \<longrightarrow> response_id I i \<noteq> i)"

text \<open>
  A relayed request: the worker sees it from the router under a new id, and the
  response to that id goes to the one who asked, under the id they expect.
\<close>

lemma Relay_effect:
  "ro_effects (Relay I what w r) = ro_effects r @
     [Enqueue w \<lparr>mb_sender = ro_self r, mb_mid = fst (PlaceTicket I what r), mb_content = mb_content what\<rparr>]"
  using PlaceTicket_frame [of I what r] by (cases "PlaceTicket I what r") (simp add: Relay_def)

lemma Relay_ticket:
  assumes "ro_tickets r (integer_value I (response_id I (fst (PlaceTicket I what r)))) = None"
  shows "ro_tickets (Relay I what w r) =
    (ro_tickets r)(integer_value I (response_id I (fst (PlaceTicket I what r))) \<mapsto> ticket_of I what)"
  using assms
  by (auto simp: Relay_def PlaceTicket_def AllocateRequestID_def Let_def split: prod.splits)

lemma Reply_ticket:
  assumes "ro_tickets r (integer_value I (mb_mid answer)) = Some t" and "mb_sender answer \<in> set (ro_workers r)"
    and "tk_response_to t \<noteq> null_actor"
  shows "ro_effects (Reply I answer r) = ro_effects r @ [Enqueue (tk_response_to t)
      \<lparr>mb_sender = ro_self r, mb_mid = tk_response_id t, mb_content = mb_content answer\<rparr>]"
    and "ro_tickets (Reply I answer r) (integer_value I (mb_mid answer)) = None"
  using assms by (simp_all add: Reply_def ExtractTicket_def Let_def ticket_Reply_def)

lemma relay_reply:
  assumes "ids_ok I" and "is_request I (mb_mid what)" and "mb_sender what \<noteq> null_actor"
    and "ro_tickets r (integer_value I (response_id I (fst (PlaceTicket I what r)))) = None"
    and "w \<in> set (ro_workers r)" and "mb_sender answer = w"
    and "mb_mid answer = response_id I (fst (PlaceTicket I what r))"
  shows "ro_effects (Reply I answer (Relay I what w r)) = ro_effects (Relay I what w r) @
    [Enqueue (mb_sender what) \<lparr>mb_sender = ro_self r, mb_mid = response_id I (mb_mid what),
       mb_content = mb_content answer\<rparr>]"
proof -
  let ?r = "Relay I what w r"
  have t: "ro_tickets ?r (integer_value I (mb_mid answer)) =
      Some \<lparr>tk_response_id = response_id I (mb_mid what), tk_response_to = mb_sender what\<rparr>"
    using Relay_ticket [OF assms(4), of w] assms(1,2,7)
    by (auto simp: ticket_of_def ReplyTo_def ids_ok_def)
  have "ro_self ?r = ro_self r"
    using PlaceTicket_frame(5) [of I what r] by (cases "PlaceTicket I what r") (simp add: Relay_def)
  then show ?thesis using Reply_ticket(1) [OF t] assms(3,5,6) by simp
qed

section \<open>What goes wrong\<close>

text \<open>
  The response of a worker that was deleted in the meantime leaves a counter of -1 for
  it, which \<open>AddWorker\<close> keeps when it comes back.
\<close>

lemma settle_deleted:
  assumes "ro_metrics r w = None" and "mb_sender answer = w"
  shows "ro_metrics (settle I answer r) w = Some (- 1)"
  using assms by (simp add: settle_def load_of_def)

lemma AddWorker_keeps_counter:
  assumes "w \<notin> set (ro_workers r)" and "ro_metrics r w = Some l"
  shows "w \<in> set (ro_workers (AddWorker w r))" and "load_of w (AddWorker w r) = l"
  using assms by (simp_all add: AddWorker_def load_of_def)

end
