(* ===== verification/Router_Pool.thy ===== *)
theory Router_Pool
  imports Std_Map Std_String
begin

text \<open>
  The router pool, \<open>actor_system/src/router_pool.cc\<close>: an actor that keeps a number of
  workers on each node it is told of, spawned locally (the node with the empty key) or
  through the gateway of a remote node, and passes every other message to CAF's actor
  pool.

  \<open>nodes_\<close> is an unordered map of unordered sets; here the nodes are in the order of
  their keys and a set is the list of its actors in iteration order. \<open>env\<close> is the
  outside: the gateway of a node, if it can be reached, and the outcome of the n-th
  attempt to spawn.
\<close>

section \<open>State\<close>

record env =
  env_remote_actor :: "string \<Rightarrow> u16 \<Rightarrow> nat option"
  env_spawn :: "nat \<Rightarrow> nat option"

datatype pool_effect =
    PoolPut nat                \<comment> \<open>\<open>sys_atom, put_atom\<close> to the pool\<close>
  | PoolDown nat               \<comment> \<open>a down message passed to the pool\<close>
  | PoolExit
  | PoolForward                \<comment> \<open>any other message, enqueued at the pool\<close>
  | ExitActor nat              \<comment> \<open>\<open>user_shutdown\<close> sent to a worker\<close>
  | MonitorActor nat
  | DemonitorActor nat
  | SpawnLocal
  | SpawnRemote nat

record router_pool =
  rp_default_actor_num :: nat
  rp_nodes :: "(string \<times> nat list) list"
  rp_spawns :: nat
  rp_effects :: "pool_effect list"

definition new_pool :: "nat \<Rightarrow> router_pool" where
  "new_pool n = \<lparr>rp_default_actor_num = n, rp_nodes = [], rp_spawns = 0, rp_effects = []\<rparr>"

definition rp_emit :: "pool_effect list \<Rightarrow> router_pool \<Rightarrow> router_pool" where
  "rp_emit es p = p\<lparr>rp_effects := rp_effects p @ es\<rparr>"

abbreviation node_find :: "string \<Rightarrow> (string \<times> nat list) list \<Rightarrow> nat list option" where
  "node_find \<equiv> map_find id"

abbreviation node_put :: "string \<Rightarrow> nat list \<Rightarrow> (string \<times> nat list) list \<Rightarrow> (string \<times> nat list) list" where
  "node_put \<equiv> map_put id"

section \<open>Keys\<close>

definition BuildNodeKey :: "string \<Rightarrow> u16 \<Rightarrow> string" where
  "BuildNodeKey host port = (if host = [] then [] else host @ '':'' @ to_string (unat port))"

definition ParserNodeKey :: "string \<Rightarrow> cpp_exn + string \<times> u16" where
  "ParserNodeKey key =
     (if key = [] then Inr ([], 0)
      else
        let (host, rest) = (case find_last_of (CHR '':'') key of
               None \<Rightarrow> (key, key) | Some i \<Rightarrow> (take i key, drop (i + 1) key)) in
        map_sum id (\<lambda>n. (host, of_int n)) (stoi rest))"

section \<open>Operations\<close>

definition GetSpawnActor :: "env \<Rightarrow> string \<Rightarrow> u16 \<Rightarrow> nat option" where
  "GetSpawnActor E host port = (if host = [] then None else env_remote_actor E host port)"

definition insert_actor :: "nat \<Rightarrow> nat list \<Rightarrow> nat list" where
  "insert_actor a as = (if a \<in> set as then as else as @ [a])"

definition AddActor :: "env \<Rightarrow> nat option \<Rightarrow> string \<Rightarrow> router_pool \<Rightarrow> bool \<times> router_pool" where
  "AddActor E gateway key p =
     (case node_find key (rp_nodes p) of
        None \<Rightarrow> (False, p)
      | Some actors \<Rightarrow>
          let how = (if gateway = None \<and> key = [] then SpawnLocal
                     else SpawnRemote (case gateway of None \<Rightarrow> 0 | Some g \<Rightarrow> g));
              p1 = rp_emit [how] (p\<lparr>rp_spawns := Suc (rp_spawns p)\<rparr>) in
          case env_spawn E (rp_spawns p) of
            None \<Rightarrow> (False, p1)
          | Some a \<Rightarrow>
              (True, rp_emit [PoolPut a, MonitorActor a]
                 (p1\<lparr>rp_nodes := node_put key (insert_actor a actors) (rp_nodes p1)\<rparr>)))"

text \<open>\<open>for (i = 0; i < n; i++) if (!AddActor(...)) return false;\<close>\<close>

fun add_actors :: "env \<Rightarrow> nat option \<Rightarrow> string \<Rightarrow> nat \<Rightarrow> router_pool \<Rightarrow> bool \<times> router_pool" where
  "add_actors E gateway key 0 p = (True, p)"
| "add_actors E gateway key (Suc n) p =
     (case AddActor E gateway key p of
        (False, p') \<Rightarrow> (False, p')
      | (True, p') \<Rightarrow> add_actors E gateway key n p')"

definition AddNode :: "env \<Rightarrow> string \<Rightarrow> u16 \<Rightarrow> router_pool \<Rightarrow> bool \<times> router_pool" where
  "AddNode E host port p =
     (let gateway = GetSpawnActor E host port; key = BuildNodeKey host port in
      if host \<noteq> [] \<and> gateway = None then (False, p)
      else if node_find key (rp_nodes p) \<noteq> None then (False, p)
      else add_actors E gateway key (rp_default_actor_num p)
             (p\<lparr>rp_nodes := node_put key [] (rp_nodes p)\<rparr>))"

definition DeleteNode :: "string \<Rightarrow> u16 \<Rightarrow> router_pool \<Rightarrow> bool \<times> router_pool" where
  "DeleteNode host port p =
     (let key = BuildNodeKey host port in
      case node_find key (rp_nodes p) of
        None \<Rightarrow> (False, p)
      | Some actors \<Rightarrow>
          (True, rp_emit (map ExitActor actors) (p\<lparr>rp_nodes := map_erase id key (rp_nodes p)\<rparr>)))"

definition GetNode :: "router_pool \<Rightarrow> string list" where
  "GetNode p = map fst (rp_nodes p)"

definition GetActors :: "router_pool \<Rightarrow> nat list" where
  "GetActors p = concat (map snd (rp_nodes p))"

definition GetActorsOf :: "string \<Rightarrow> u16 \<Rightarrow> router_pool \<Rightarrow> nat list" where
  "GetActorsOf host port p =
     (case node_find (BuildNodeKey host port) (rp_nodes p) of None \<Rightarrow> [] | Some actors \<Rightarrow> actors)"

text \<open>\<open>DeleteActor(key, num)\<close> asks actors to end; they leave the set with their down message.\<close>

definition DeleteActors :: "string \<Rightarrow> nat \<Rightarrow> router_pool \<Rightarrow> bool \<times> router_pool" where
  "DeleteActors key num p =
     (case node_find key (rp_nodes p) of
        None \<Rightarrow> (False, p)
      | Some actors \<Rightarrow> (True, rp_emit (map ExitActor (take num actors)) p))"

text \<open>\<open>DeleteActor(address)\<close>: the first node that has the actor loses it.\<close>

fun drop_actor :: "nat \<Rightarrow> (string \<times> nat list) list \<Rightarrow> (string \<times> nat list) list option" where
  "drop_actor a [] = None"
| "drop_actor a ((k, actors) # ns) =
     (if a \<in> set actors then Some ((k, erase_first a actors) # ns)
      else map_option (Cons (k, actors)) (drop_actor a ns))"

definition DeleteActor :: "nat \<Rightarrow> router_pool \<Rightarrow> bool \<times> router_pool" where
  "DeleteActor a p =
     (case drop_actor a (rp_nodes p) of
        None \<Rightarrow> (False, p)
      | Some ns \<Rightarrow> (True, rp_emit [DemonitorActor a] (p\<lparr>rp_nodes := ns\<rparr>)))"

definition pool_Down :: "nat \<Rightarrow> router_pool \<Rightarrow> router_pool" where
  "pool_Down a p = rp_emit [PoolDown a] (snd (DeleteActor a p))"

definition ModifyMaxPerNode :: "env \<Rightarrow> nat \<Rightarrow> string \<Rightarrow> u16 \<Rightarrow> router_pool \<Rightarrow> bool \<times> router_pool" where
  "ModifyMaxPerNode E n host port p =
     (let key = BuildNodeKey host port in
      case node_find key (rp_nodes p) of
        None \<Rightarrow> (False, p)
      | Some actors \<Rightarrow>
          let pre_size = length actors in
          if pre_size > n then DeleteActors key (pre_size - n) p
          else if pre_size < n then
            (if key \<noteq> [] \<and> GetSpawnActor E host port = None then (False, p)
             else add_actors E (if key = [] then None else GetSpawnActor E host port) key (n - pre_size) p)
          else (True, p))"

text \<open>The overload for all nodes; a key that does not parse throws.\<close>

fun modify_keys :: "env \<Rightarrow> nat \<Rightarrow> string list \<Rightarrow> router_pool act" where
  "modify_keys E n [] p = (p, None)"
| "modify_keys E n (k # ks) p =
     (case ParserNodeKey k of
        Inl e \<Rightarrow> (p, Some e)
      | Inr (host, port) \<Rightarrow> modify_keys E n ks (snd (ModifyMaxPerNode E n host port p)))"

definition ModifyMaxAll :: "env \<Rightarrow> nat \<Rightarrow> router_pool act" where
  "ModifyMaxAll E n p = modify_keys E n (GetNode p) (p\<lparr>rp_default_actor_num := n\<rparr>)"

section \<open>The mailbox\<close>

datatype pool_message =
    MsgExit
  | MsgDown nat
  | MsgAddNode string u16
  | MsgDeleteNode string u16
  | MsgGetNode
  | MsgGetActors
  | MsgGetActorsOf string u16
  | MsgUpdateSize nat
  | MsgUpdateSizeOf nat string u16
  | MsgOther

datatype pool_reply = NoReply | ReplyBool bool | ReplyNodes "string list" | ReplyActors "nat list"

definition pool_enqueue ::
  "env \<Rightarrow> pool_message \<Rightarrow> router_pool \<Rightarrow> router_pool \<times> (cpp_exn + pool_reply)" where
  "pool_enqueue E msg p =
     (case msg of
        MsgExit \<Rightarrow> (rp_emit [PoolExit] p, Inr NoReply)
      | MsgDown a \<Rightarrow> (pool_Down a p, Inr NoReply)
      | MsgAddNode host port \<Rightarrow> (case AddNode E host port p of (b, p') \<Rightarrow> (p', Inr (ReplyBool b)))
      | MsgDeleteNode host port \<Rightarrow> (case DeleteNode host port p of (b, p') \<Rightarrow> (p', Inr (ReplyBool b)))
      | MsgGetNode \<Rightarrow> (p, Inr (ReplyNodes (GetNode p)))
      | MsgGetActors \<Rightarrow> (p, Inr (ReplyActors (GetActors p)))
      | MsgGetActorsOf host port \<Rightarrow> (p, Inr (ReplyActors (GetActorsOf host port p)))
      | MsgUpdateSize n \<Rightarrow>
          (case ModifyMaxAll E n p of
             (p', None) \<Rightarrow> (p', Inr (ReplyBool True))
           | (p', Some e) \<Rightarrow> (p', Inl e))
      | MsgUpdateSizeOf n host port \<Rightarrow>
          (case ModifyMaxPerNode E n host port p of (b, p') \<Rightarrow> (p', Inr (ReplyBool b)))
      | MsgOther \<Rightarrow> (rp_emit [PoolForward] p, Inr NoReply))"

section \<open>Laws\<close>

lemma rp_emit_frame [simp]:
  "rp_nodes (rp_emit es p) = rp_nodes p" "rp_spawns (rp_emit es p) = rp_spawns p"
  "rp_default_actor_num (rp_emit es p) = rp_default_actor_num p"
  "rp_effects (rp_emit es p) = rp_effects p @ es"
  by (simp_all add: rp_emit_def)

lemma no_colon_port: "CHR '':'' \<notin> set (to_string n)"
proof
  assume "CHR '':'' \<in> set (to_string n)"
  then have "is_digit (CHR '':'')" by (rule to_string_digits)
  then show False by (simp add: is_digit_def)
qed

text \<open>A key gives back the host and the port it was built from, whatever the host is.\<close>

lemma parse_key:
  assumes "CHR '':'' \<notin> set ds" and "stoi ds = Inr n"
  shows "ParserNodeKey (host @ CHR '':'' # ds) = Inr (host, of_int n)"
  using find_last_of_append [OF assms(1), of host] assms(2) by (simp add: ParserNodeKey_def)

lemma ParserNodeKey_BuildNodeKey:
  "ParserNodeKey (BuildNodeKey host port) = Inr (host, if host = [] then 0 else port)"
proof (cases "host = []")
  case True
  then show ?thesis by (simp only: BuildNodeKey_def ParserNodeKey_def if_True simp_thms)
next
  case False
  have s: "stoi (to_string (unat port)) = Inr (int (unat port))"
    by (rule stoi_to_string, rule less_trans [OF unsigned_less]) simp
  have b: "BuildNodeKey host port = host @ CHR '':'' # to_string (unat port)"
    using False by (simp only: BuildNodeKey_def if_False append_Cons append_Nil)
  show ?thesis
    using False parse_key [OF no_colon_port s, of host] by (simp only: b if_False) simp
qed

lemma BuildNodeKey_inj:
  assumes "h1 \<noteq> []" and "BuildNodeKey h1 p1 = BuildNodeKey h2 p2"
  shows "h1 = h2 \<and> p1 = p2"
proof -
  have 1: "ParserNodeKey (BuildNodeKey h1 p1) = Inr (h1, p1)"
    using assms(1) by (simp only: ParserNodeKey_BuildNodeKey if_False)
  have 2: "ParserNodeKey (BuildNodeKey h1 p1) = Inr (h2, if h2 = [] then 0 else p2)"
    by (simp only: assms(2) ParserNodeKey_BuildNodeKey)
  have "(Inr (h1, p1) :: cpp_exn + string \<times> u16) = Inr (h2, if h2 = [] then 0 else p2)"
    by (rule trans [OF 1 [symmetric] 2])
  then have "h1 = h2" "p1 = (if h2 = [] then 0 else p2)" by simp_all
  then show ?thesis using assms(1) by simp
qed

text \<open>Every node is under a well-formed key; the operations keep the nodes a sorted map.\<close>

definition node_key :: "string \<Rightarrow> bool" where
  "node_key k \<longleftrightarrow> (\<exists>h q. k = BuildNodeKey h q)"

definition pool_wf :: "router_pool \<Rightarrow> bool" where
  "pool_wf p \<longleftrightarrow> map_wf id (rp_nodes p) \<and> (\<forall>k\<in>set (GetNode p). node_key k)"

lemma node_key_Build [simp]: "node_key (BuildNodeKey h q)"
  unfolding node_key_def by blast

lemma node_key_parses: "node_key k \<Longrightarrow> \<exists>h q. ParserNodeKey k = Inr (h, q)"
  unfolding node_key_def using ParserNodeKey_BuildNodeKey by metis

lemma fst_set_map_put: "fst ` set (map_put id k v m) = insert k (fst ` set m)"
  using keys_map_put [of id k v m] by simp

lemma pool_wf_put:
  "pool_wf p \<Longrightarrow> node_key k \<Longrightarrow> pool_wf (p\<lparr>rp_nodes := node_put k v (rp_nodes p)\<rparr>)"
  by (simp add: pool_wf_def GetNode_def map_wf_put fst_set_map_put)

lemma pool_wf_nodes: "rp_nodes p = rp_nodes p' \<Longrightarrow> pool_wf p = pool_wf p'"
  by (simp add: pool_wf_def GetNode_def)

lemma pool_wf_frame [simp]:
  "pool_wf (rp_emit es p) = pool_wf p" "pool_wf (p\<lparr>rp_spawns := n\<rparr>) = pool_wf p"
  "pool_wf (p\<lparr>rp_default_actor_num := n\<rparr>) = pool_wf p"
  by (rule pool_wf_nodes; simp)+

lemma node_find_key:
  assumes "node_find k (rp_nodes p) = Some v"
  shows "k \<in> set (GetNode p)" and "pool_wf p \<Longrightarrow> node_key k"
proof -
  obtain e where e: "map_entry id k (rp_nodes p) = Some e"
    using assms by (auto simp: map_find_def)
  then have "fst e = k" using map_entry_key [of id k "rp_nodes p" "fst e" "snd e"] by simp
  then show "k \<in> set (GetNode p)" using map_entry_in [OF e] by (auto simp: GetNode_def)
  then show "pool_wf p \<Longrightarrow> node_key k" by (simp add: pool_wf_def)
qed

text \<open>What \<open>AddActor\<close> does to the nodes.\<close>

lemma AddActor_nodes:
  "rp_nodes (snd (AddActor E g k p)) = rp_nodes p \<or>
   (\<exists>a as. node_find k (rp_nodes p) = Some as \<and> env_spawn E (rp_spawns p) = Some a \<and>
      rp_nodes (snd (AddActor E g k p)) = node_put k (insert_actor a as) (rp_nodes p))"
  by (cases "node_find k (rp_nodes p)"; cases "env_spawn E (rp_spawns p)")
    (simp_all add: AddActor_def Let_def rp_emit_def)

lemma pool_wf_AddActor:
  assumes "pool_wf p"
  shows "pool_wf (snd (AddActor E g k p))"
  using AddActor_nodes [of E g k p]
proof
  assume "rp_nodes (snd (AddActor E g k p)) = rp_nodes p"
  then show ?thesis using pool_wf_nodes assms by blast
next
  assume "\<exists>a as. node_find k (rp_nodes p) = Some as \<and> env_spawn E (rp_spawns p) = Some a \<and>
      rp_nodes (snd (AddActor E g k p)) = node_put k (insert_actor a as) (rp_nodes p)"
  then obtain a as where f: "node_find k (rp_nodes p) = Some as"
    and n: "rp_nodes (snd (AddActor E g k p)) = node_put k (insert_actor a as) (rp_nodes p)" by blast
  have "pool_wf (p\<lparr>rp_nodes := node_put k (insert_actor a as) (rp_nodes p)\<rparr>)"
    by (rule pool_wf_put [OF assms node_find_key(2) [OF f assms]])
  moreover have "pool_wf (snd (AddActor E g k p)) =
      pool_wf (p\<lparr>rp_nodes := node_put k (insert_actor a as) (rp_nodes p)\<rparr>)"
    by (rule pool_wf_nodes) (simp add: n)
  ultimately show ?thesis by simp
qed

lemma pool_wf_add_actors: "pool_wf p \<Longrightarrow> pool_wf (snd (add_actors E g k n p))"
proof (induction n arbitrary: p)
  case (Suc n)
  obtain b p' where a: "AddActor E g k p = (b, p')" by fastforce
  then have "pool_wf p'" using pool_wf_AddActor [OF Suc.prems, of E g k] by simp
  then show ?case using Suc.IH by (cases b) (simp_all add: a)
qed simp

lemma pool_wf_AddNode: "pool_wf p \<Longrightarrow> pool_wf (snd (AddNode E h q p))"
  by (simp add: AddNode_def Let_def pool_wf_add_actors pool_wf_put)

lemma pool_wf_erase:
  assumes "pool_wf p"
  shows "pool_wf (p\<lparr>rp_nodes := map_erase id k (rp_nodes p)\<rparr>)"
  using assms keys_map_erase_subset [of id k "rp_nodes p"]
  by (auto simp: pool_wf_def GetNode_def map_wf_erase)

lemma pool_wf_DeleteNode: "pool_wf p \<Longrightarrow> pool_wf (snd (DeleteNode h q p))"
  by (simp add: DeleteNode_def Let_def pool_wf_erase split: option.splits)

lemma drop_actor_keys: "drop_actor a ns = Some ns' \<Longrightarrow> map fst ns' = map fst ns"
  by (induction a ns arbitrary: ns' rule: drop_actor.induct) (auto split: if_splits)

lemma pool_wf_keys:
  assumes "map fst ns = GetNode p"
  shows "pool_wf (p\<lparr>rp_nodes := ns\<rparr>) = pool_wf p"
  using assms unfolding pool_wf_def map_wf_def GetNode_def by simp

lemma pool_wf_DeleteActor: "pool_wf p \<Longrightarrow> pool_wf (snd (DeleteActor a p))"
  by (cases "drop_actor a (rp_nodes p)")
    (simp_all add: DeleteActor_def pool_wf_keys drop_actor_keys GetNode_def)

lemma pool_wf_DeleteActors: "pool_wf p \<Longrightarrow> pool_wf (snd (DeleteActors k n p))"
  by (simp add: DeleteActors_def split: option.splits)

lemma pool_wf_ModifyMaxPerNode: "pool_wf p \<Longrightarrow> pool_wf (snd (ModifyMaxPerNode E n h q p))"
  by (simp add: ModifyMaxPerNode_def Let_def pool_wf_add_actors pool_wf_DeleteActors split: option.splits)

lemma modify_keys_wf:
  assumes "pool_wf p" and "\<forall>k\<in>set ks. node_key k"
  shows "pool_wf (fst (modify_keys E n ks p)) \<and> snd (modify_keys E n ks p) = None"
  using assms
proof (induction ks arbitrary: p)
  case (Cons k ks)
  obtain h q where "ParserNodeKey k = Inr (h, q)" using Cons.prems(2) node_key_parses [of k] by auto
  then show ?case
    using Cons pool_wf_ModifyMaxPerNode [OF Cons.prems(1), of E n h q] by simp
qed simp

lemma ModifyMaxAll_wf:
  assumes "pool_wf p"
  shows "pool_wf (fst (ModifyMaxAll E n p)) \<and> snd (ModifyMaxAll E n p) = None"
  unfolding ModifyMaxAll_def
  by (rule modify_keys_wf) (use assms in \<open>simp_all add: pool_wf_def [of p]\<close>)

lemma pool_enqueue_wf:
  assumes "pool_wf p"
  shows "pool_wf (fst (pool_enqueue E msg p)) \<and> (\<exists>reply. snd (pool_enqueue E msg p) = Inr reply)"
proof (cases msg)
  case (MsgAddNode h q)
  then show ?thesis using pool_wf_AddNode [OF assms, of E h q]
    by (cases "AddNode E h q p") (simp add: pool_enqueue_def)
next
  case (MsgDeleteNode h q)
  then show ?thesis using pool_wf_DeleteNode [OF assms, of h q]
    by (cases "DeleteNode h q p") (simp add: pool_enqueue_def)
next
  case (MsgUpdateSizeOf n h q)
  then show ?thesis using pool_wf_ModifyMaxPerNode [OF assms, of E n h q]
    by (cases "ModifyMaxPerNode E n h q p") (simp add: pool_enqueue_def)
next
  case (MsgUpdateSize n)
  then show ?thesis using ModifyMaxAll_wf [OF assms, of E n]
    by (cases "ModifyMaxAll E n p") (auto simp: pool_enqueue_def)
qed (simp_all add: assms pool_enqueue_def pool_Down_def pool_wf_DeleteActor)

section \<open>How many actors a node has\<close>

text \<open>Spawning gives a new actor every time.\<close>

definition fresh_spawns :: "env \<Rightarrow> router_pool \<Rightarrow> bool" where
  "fresh_spawns E p \<longleftrightarrow>
     (\<forall>i\<ge>rp_spawns p. \<exists>a. env_spawn E i = Some a \<and> a \<notin> set (GetActors p) \<and>
        (\<forall>j\<ge>rp_spawns p. env_spawn E j = Some a \<longrightarrow> j = i))"

lemma actors_in_node:
  assumes "node_find k (rp_nodes p) = Some as"
  shows "set as \<subseteq> set (GetActors p)"
proof -
  obtain k' where "map_entry id k (rp_nodes p) = Some (k', as)"
    using assms by (auto simp: map_find_def)
  then have "(k', as) \<in> set (rp_nodes p)" by (rule map_entry_in)
  then show ?thesis by (auto simp: GetActors_def)
qed

lemma set_map_put: "set (map_put key k v m) \<subseteq> insert (k, v) (set m) \<union> {(k', v) |k'. True}"
proof (induction m)
  case (Cons e m)
  then show ?case by (cases e) auto
qed simp

lemma actors_put: "set (concat (map snd (node_put k v m))) \<subseteq> set v \<union> set (concat (map snd m))"
  using set_map_put [of id k v m] by fastforce

lemma AddActor_fresh:
  assumes "pool_wf p" and "fresh_spawns E p" and "node_find k (rp_nodes p) = Some as"
  shows "\<exists>a p'. AddActor E g k p = (True, p') \<and> node_find k (rp_nodes p') = Some (as @ [a])
    \<and> fresh_spawns E p' \<and> pool_wf p'"
proof -
  obtain a where a: "env_spawn E (rp_spawns p) = Some a" "a \<notin> set (GetActors p)"
      "\<forall>j\<ge>rp_spawns p. env_spawn E j = Some a \<longrightarrow> j = rp_spawns p"
    using assms(2) by (auto simp: fresh_spawns_def)
  have na: "a \<notin> set as" using a(2) actors_in_node [OF assms(3)] by auto
  have wf: "map_wf id (rp_nodes p)" using assms(1) by (simp add: pool_wf_def)
  obtain p' where p': "AddActor E g k p = (True, p')"
    "rp_nodes p' = node_put k (as @ [a]) (rp_nodes p)" "rp_spawns p' = Suc (rp_spawns p)"
    using a(1) na by (simp add: AddActor_def assms(3) Let_def insert_actor_def rp_emit_def)
  have sub: "set (GetActors p') \<subseteq> insert a (set (GetActors p))"
    using actors_put [of k "as @ [a]" "rp_nodes p"] actors_in_node [OF assms(3)]
    by (auto simp: GetActors_def p'(2))
  have "fresh_spawns E p'"
    unfolding fresh_spawns_def p'(3)
  proof (intro allI impI)
    fix i assume i: "Suc (rp_spawns p) \<le> i"
    then obtain b where b: "env_spawn E i = Some b" "b \<notin> set (GetActors p)"
        "\<forall>j\<ge>rp_spawns p. env_spawn E j = Some b \<longrightarrow> j = i"
      using assms(2) unfolding fresh_spawns_def by (meson Suc_leD)
    have "b \<noteq> a" using a(1) b(3) i by auto
    then show "\<exists>b. env_spawn E i = Some b \<and> b \<notin> set (GetActors p') \<and>
        (\<forall>j\<ge>Suc (rp_spawns p). env_spawn E j = Some b \<longrightarrow> j = i)"
      using b sub by (intro exI [of _ b]) auto
  qed
  moreover have "node_find k (rp_nodes p') = Some (as @ [a])"
    by (simp add: p'(2) std_map.find_put_same [OF wf])
  moreover have "pool_wf p'" using pool_wf_AddActor [OF assms(1), of E g k] p'(1) by simp
  ultimately show ?thesis using p'(1) by blast
qed

lemma add_actors_fresh:
  assumes "pool_wf p" and "fresh_spawns E p" and "node_find k (rp_nodes p) = Some as"
  shows "\<exists>new p'. add_actors E g k n p = (True, p') \<and> length new = n
    \<and> node_find k (rp_nodes p') = Some (as @ new)"
  using assms
proof (induction n arbitrary: p as)
  case (Suc n)
  obtain a p1 where a: "AddActor E g k p = (True, p1)" "node_find k (rp_nodes p1) = Some (as @ [a])"
      "fresh_spawns E p1" "pool_wf p1"
    using AddActor_fresh [OF Suc.prems] by blast
  from Suc.IH [OF a(4,3,2)] obtain new p' where
    "add_actors E g k n p1 = (True, p')" "length new = n" "node_find k (rp_nodes p') = Some ((as @ [a]) @ new)"
    by blast
  moreover from this have "add_actors E g k (Suc n) p = (True, p')" by (simp add: a(1))
  moreover have "(as @ [a]) @ new = as @ (a # new)" "length (a # new) = Suc (length new)" by simp_all
  ultimately show ?case by metis
qed simp

text \<open>Adding a reachable node gives it the default number of actors.\<close>

lemma AddNode_size:
  assumes "pool_wf p" and "fresh_spawns E p" and "host = [] \<or> env_remote_actor E host port \<noteq> None"
    and "BuildNodeKey host port \<notin> set (GetNode p)"
  shows "fst (AddNode E host port p)"
    and "length (GetActorsOf host port (snd (AddNode E host port p))) = rp_default_actor_num p"
proof -
  let ?k = "BuildNodeKey host port"
  let ?p = "p\<lparr>rp_nodes := node_put ?k [] (rp_nodes p)\<rparr>"
  have absent: "node_find ?k (rp_nodes p) = None"
    using assms(4) node_find_key(1) [of ?k p] by (cases "node_find ?k (rp_nodes p)") auto
  have wf: "map_wf id (rp_nodes p)" using assms(1) by (simp add: pool_wf_def)
  have wf': "pool_wf ?p" using assms(1) by (rule pool_wf_put) simp
  have "set (GetActors ?p) \<subseteq> set (GetActors p)"
    using actors_put [of ?k "[]" "rp_nodes p"] by (simp add: GetActors_def)
  then have fr: "fresh_spawns E ?p" using assms(2) unfolding fresh_spawns_def by (simp, blast)
  have f: "node_find ?k (rp_nodes ?p) = Some []" by (simp add: std_map.find_put_same [OF wf])
  have run: "AddNode E host port p =
      add_actors E (GetSpawnActor E host port) ?k (rp_default_actor_num p) ?p"
    using assms(3) absent by (auto simp: AddNode_def Let_def GetSpawnActor_def)
  from add_actors_fresh [OF wf' fr f, of "GetSpawnActor E host port" "rp_default_actor_num p"]
  show "fst (AddNode E host port p)"
    and "length (GetActorsOf host port (snd (AddNode E host port p))) = rp_default_actor_num p"
    by (auto simp: run GetActorsOf_def)
qed

text \<open>
  Shrinking a node asks its actors to end but counts them until they have: growing it
  again before their down messages arrive adds too few.
\<close>

lemma shrink_then_grow:
  assumes "node_find (BuildNodeKey host port) (rp_nodes p) = Some as" and "n < length as"
  shows "snd (ModifyMaxPerNode E (length as) host port (snd (ModifyMaxPerNode E n host port p))) =
    snd (ModifyMaxPerNode E n host port p)"
    and "rp_effects (snd (ModifyMaxPerNode E n host port p)) =
      rp_effects p @ map ExitActor (take (length as - n) as)"
  using assms by (simp_all add: ModifyMaxPerNode_def Let_def DeleteActors_def)

section \<open>The end of a pool\<close>

text \<open>
  The destructor sends the CAF pool behind it a mail of two values, which that pool hands to one of its
  actors like any other; an exit message is another kind of mail.
\<close>

datatype pool_farewell = PlainMail string string | ExitMessage string

definition destroy_pool :: pool_farewell where
  "destroy_pool = PlainMail ''infinite'' ''kill''"

lemma destroy_pool_no_exit: "destroy_pool \<noteq> ExitMessage reason"
  by (simp add: destroy_pool_def)

end
