(* ===== verification/Actor_Helpers.thy ===== *)
theory Actor_Helpers
  imports Std_Map Std_String
begin

text \<open>
  The small actor utilities of \<open>actor_system\<close>: the guard that restarts an actor
  (\<open>actor_guard.h\<close>), the union that retries on its other actors (\<open>actor_union.h\<close>), the
  monitors (\<open>actor_monitor.cc\<close>, \<open>actor_status_monitor.cc\<close>), the status service and the
  actor with message priorities.

  The outcome of a request is an input: an answer, an error of the system category
  (the actor is gone or did not answer in time) or another error.
\<close>

section \<open>ActorGuard\<close>

datatype outcome = Answer | BusinessError nat | SystemError nat

datatype guard_action =
    Request nat                 \<comment> \<open>a request to the actor kept at the moment\<close>
  | ReturnFunction
  | ErrorFunction nat
  | RestartFun
  | SleepTwoSeconds

record actor_guard =
  ag_keep_actor :: nat
  ag_active :: bool

text \<open>
  The outcomes of the requests and, after a system error, the result of the restart
  function: a new actor, and whether it left \<open>active_\<close> set. The recursion follows the
  callbacks; running out of inputs leaves a request in flight.
\<close>

fun guard_request :: "(outcome \<times> nat \<times> bool) list \<Rightarrow> actor_guard \<Rightarrow> guard_action list \<times> actor_guard" where
  "guard_request [] g = ([Request (ag_keep_actor g)], g)"
| "guard_request ((r, new_actor, active) # rs) g =
     (case r of
        Answer \<Rightarrow> ([Request (ag_keep_actor g), ReturnFunction], g)
      | BusinessError e \<Rightarrow> ([Request (ag_keep_actor g), ErrorFunction e], g)
      | SystemError e \<Rightarrow>
          let g1 = \<lparr>ag_keep_actor = new_actor, ag_active = active\<rparr> in
          if active then
            (case guard_request rs g1 of
               (es, g2) \<Rightarrow> ([Request (ag_keep_actor g), RestartFun, SleepTwoSeconds] @ es, g2))
          else ([Request (ag_keep_actor g), RestartFun, ErrorFunction e], g1))"

definition guard_SendAndReceive ::
  "(outcome \<times> nat \<times> bool) list \<Rightarrow> actor_guard \<Rightarrow> guard_action list \<times> actor_guard \<times> bool" where
  "guard_SendAndReceive rs g =
     (if ag_active g then (case guard_request rs g of (es, g') \<Rightarrow> (es, g', ag_active g'))
      else ([], g, False))"

text \<open>Every request that ends is reported exactly once, to one of the two functions.\<close>

definition is_report :: "guard_action \<Rightarrow> bool" where
  "is_report a \<longleftrightarrow> (case a of ReturnFunction \<Rightarrow> True | ErrorFunction _ \<Rightarrow> True | _ \<Rightarrow> False)"

lemma guard_request_one_report: "length (filter is_report (fst (guard_request rs g))) \<le> 1"
  by (induction rs g rule: guard_request.induct)
    (auto simp: is_report_def Let_def split: outcome.splits prod.splits)

lemma guard_request_inactive: "\<not> ag_active g \<Longrightarrow> guard_SendAndReceive rs g = ([], g, False)"
  by (simp add: guard_SendAndReceive_def)

text \<open>Restarts go on until a request is answered: the last actor kept is the one that answered.\<close>

lemma guard_request_restarts:
  "fst (guard_request (map (\<lambda>a. (SystemError e, a, True)) as @ (Answer, x) # rs) g) =
     concat (map (\<lambda>a. [Request a, RestartFun, SleepTwoSeconds]) (butlast (ag_keep_actor g # as))) @
     [Request (last (ag_keep_actor g # as)), ReturnFunction]"
proof (induction as arbitrary: g)
  case Nil
  then show ?case by (cases x) simp
next
  case (Cons a as)
  let ?g = "\<lparr>ag_keep_actor = a, ag_active = True\<rparr>"
  have "fst (guard_request (map (\<lambda>a. (SystemError e, a, True)) as @ (Answer, x) # rs) ?g) =
     concat (map (\<lambda>a. [Request a, RestartFun, SleepTwoSeconds]) (butlast (a # as))) @
     [Request (last (a # as)), ReturnFunction]"
    using Cons.IH [of ?g] by simp
  then show ?case
    by (cases "guard_request (map (\<lambda>a. (SystemError e, a, True)) as @ (Answer, x) # rs) ?g")
      (simp add: Let_def)
qed

section \<open>ActorUnion\<close>

record actor_union =
  au_actor_count :: u16
  au_pool :: "nat list"

definition union_AddActor :: "nat \<Rightarrow> actor_union \<Rightarrow> actor_union" where
  "union_AddActor a u = u\<lparr>au_pool := au_pool u @ [a], au_actor_count := au_actor_count u + 1\<rparr>"

text \<open>The pool ignores the removal of an actor it does not have; the count goes down anyway.\<close>

definition union_RemoveActor :: "nat \<Rightarrow> actor_union \<Rightarrow> actor_union" where
  "union_RemoveActor a u = u\<lparr>au_pool := erase_first a (au_pool u), au_actor_count := au_actor_count u - 1\<rparr>"

datatype union_action =
    PoolRequest
  | UnionReturn
  | UnionError nat
  | AllActorOutOfWork

fun union_attempt :: "u16 \<Rightarrow> outcome list \<Rightarrow> u16 \<Rightarrow> union_action list" where
  "union_attempt count [] tried = [PoolRequest]"
| "union_attempt count (r # rs) tried =
     PoolRequest #
     (case r of
        Answer \<Rightarrow> [UnionReturn]
      | BusinessError e \<Rightarrow> [UnionError e]
      | SystemError e \<Rightarrow>
          if tried + 1 \<le> count then union_attempt count rs (tried + 1) else [AllActorOutOfWork])"

definition union_SendAndReceive :: "outcome list \<Rightarrow> actor_union \<Rightarrow> union_action list" where
  "union_SendAndReceive rs u = union_attempt (au_actor_count u) rs 0"

definition actor_union_to_string :: "nat \<Rightarrow> string" where
  "actor_union_to_string x = (if x = 1 then ''all actor out of work'' else ''-unknown-error-'')"

text \<open>
  A union of n actors that are all gone makes n + 1 attempts and reports it, as long as
  the counter of attempts does not wrap.
\<close>

lemma union_attempt_all_fail:
  assumes "unat tried + k = unat count" and "unat count < 2 ^ 16 - 1"
  shows "union_attempt count (replicate (Suc k) (SystemError e) @ rs) tried =
    replicate (Suc k) PoolRequest @ [AllActorOutOfWork]"
  using assms(1)
proof (induction k arbitrary: tried)
  case 0
  have "unat (tried + 1) = unat tried + 1"
    using 0 assms(2) by (simp add: unat_word_ariths(1) take_bit_nat_def)
  then have "\<not> tried + 1 \<le> count" using 0 by (simp add: word_le_nat_alt)
  then show ?case by simp
next
  case (Suc k)
  have u: "unat (tried + 1) = unat tried + 1"
    using Suc.prems assms(2) by (simp add: unat_word_ariths(1) take_bit_nat_def)
  have le: "tried + 1 \<le> count" using u Suc.prems by (simp add: word_le_nat_alt)
  have "union_attempt count (replicate (Suc k) (SystemError e) @ rs) (tried + 1) =
      replicate (Suc k) PoolRequest @ [AllActorOutOfWork]"
    using u Suc.prems by (intro Suc.IH) simp
  then show ?case using le by simp
qed

lemma union_attempt_answered:
  assumes "unat tried + k \<le> unat count" and "unat count < 2 ^ 16 - 1"
  shows "union_attempt count (replicate k (SystemError e) @ Answer # rs) tried =
    replicate (Suc k) PoolRequest @ [UnionReturn]"
  using assms(1)
proof (induction k arbitrary: tried)
  case (Suc k)
  have u: "unat (tried + 1) = unat tried + 1"
    using Suc.prems assms(2) by (simp add: unat_word_ariths(1) take_bit_nat_def)
  have le: "tried + 1 \<le> count" using u Suc.prems by (simp add: word_le_nat_alt)
  have "union_attempt count (replicate k (SystemError e) @ Answer # rs) (tried + 1) =
      replicate (Suc k) PoolRequest @ [UnionReturn]"
    using u Suc.prems by (intro Suc.IH) simp
  then show ?case using le by simp
qed simp

text \<open>Removing an actor from an empty union makes it try 65535 times more.\<close>

lemma union_RemoveActor_wraps:
  "au_actor_count (union_RemoveActor a \<lparr>au_actor_count = 0, au_pool = []\<rparr>) = 65535"
  by (simp add: union_RemoveActor_def)

section \<open>Monitors\<close>

text \<open>\<open>ActorMonitor\<close>: descriptions by the printed address; reading a missing one inserts it.\<close>

type_synonym actor_map = "(string \<times> string) list"

datatype monitor_action = DownMsgFun string string | SendSelf string

definition monitor_register :: "string \<Rightarrow> string \<Rightarrow> actor_map \<Rightarrow> actor_map" where
  "monitor_register addr description m = map_put id addr description m"

definition monitor_demonitor :: "string \<Rightarrow> actor_map \<Rightarrow> actor_map" where
  "monitor_demonitor addr m = map_erase id addr (snd (map_index id [] addr m))"

definition DownMsgHandle :: "string \<Rightarrow> string \<Rightarrow> string \<Rightarrow> string" where
  "DownMsgHandle source reason description =
     ''actor:'' @ source @ '' down, reason:'' @ reason @ ''. actor description:'' @ description"

definition monitor_down :: "bool \<Rightarrow> string \<Rightarrow> string \<Rightarrow> actor_map \<Rightarrow> monitor_action \<times> actor_map" where
  "monitor_down has_fun source reason m =
     (case map_index id [] source m of
        (description, m') \<Rightarrow>
          (if has_fun then DownMsgFun source description
           else SendSelf (DownMsgHandle source reason description), m'))"

lemma monitor_down_registered:
  assumes "map_wf id m"
  shows "monitor_down True source reason (monitor_register source d m) =
    (DownMsgFun source d, monitor_register source d m)"
  using std_map.find_put_same [OF assms, of source d]
  by (simp add: monitor_down_def monitor_register_def map_index_def)

text \<open>\<open>ActorStatusMonitor\<close> and the reply of the status service.\<close>

record actor_info =
  ai_id :: u64
  ai_name :: string
  ai_description :: string

type_synonym actor_status = "(u64 \<times> actor_info) list"

definition RegisterActor :: "u64 \<Rightarrow> string \<Rightarrow> string \<Rightarrow> actor_status \<Rightarrow> actor_status" where
  "RegisterActor i name description m =
     map_put id i \<lparr>ai_id = i, ai_name = name, ai_description = description\<rparr> m"

definition status_actor_down :: "u64 \<Rightarrow> actor_status \<Rightarrow> actor_status" where
  "status_actor_down i m = map_erase id i m"

definition GetActorStatus :: "actor_status \<Rightarrow> actor_info list" where
  "GetActorStatus m = map snd m"

definition GetNodeActorStatus :: "nat \<Rightarrow> actor_status \<Rightarrow> (u64 \<times> string \<times> string) list \<times> u32" where
  "GetNodeActorStatus num_workers m =
     (map (\<lambda>a. (ai_id a, ai_name a, ai_description a)) (GetActorStatus m), of_nat num_workers)"

definition status_wf :: "actor_status \<Rightarrow> bool" where
  "status_wf m \<longleftrightarrow> map_wf id m \<and> (\<forall>(i, a)\<in>set m. ai_id a = i)"

lemma map_put_ids:
  "\<forall>e\<in>set m. ai_id (snd e) = fst e \<Longrightarrow> ai_id v = i \<Longrightarrow>
   \<forall>e\<in>set (map_put id i v m). ai_id (snd e) = fst e"
proof (induction m)
  case (Cons e m)
  then show ?case by (cases e) auto
qed simp

lemma status_wf_Register:
  assumes "status_wf m"
  shows "status_wf (RegisterActor i n d m)"
  using assms map_put_ids [of m "\<lparr>ai_id = i, ai_name = n, ai_description = d\<rparr>" i]
  unfolding status_wf_def RegisterActor_def case_prod_beta
  by (simp only: map_wf_put actor_info.simps simp_thms) blast

lemma status_wf_down: "status_wf m \<Longrightarrow> status_wf (status_actor_down i m)"
  using keys_map_erase_subset [of id i m]
  by (auto simp: status_wf_def status_actor_down_def map_wf_erase)

lemma status_distinct: "status_wf m \<Longrightarrow> distinct (map ai_id (GetActorStatus m))"
proof -
  assume wf: "status_wf m"
  have "map ai_id (map snd m) = map fst m" unfolding map_map
    by (rule map_cong) (use wf in \<open>auto simp: status_wf_def\<close>)
  moreover have "distinct (map fst m)" using wf by (simp add: status_wf_def map_wf_def strict_sorted_iff)
  ultimately show ?thesis by (simp only: GetActorStatus_def)
qed

section \<open>Message priorities\<close>

datatype 'c element = HighPriorityAtom | NormalPriorityAtom | Element 'c

definition IsFirstElementHighPriorityAtom :: "'c element list \<Rightarrow> bool" where
  "IsFirstElementHighPriorityAtom m \<longleftrightarrow> (case m of HighPriorityAtom # _ \<Rightarrow> True | _ \<Rightarrow> False)"

definition IsFirstElementNormalPriorityAtom :: "'c element list \<Rightarrow> bool" where
  "IsFirstElementNormalPriorityAtom m \<longleftrightarrow> (case m of NormalPriorityAtom # _ \<Rightarrow> True | _ \<Rightarrow> False)"

text \<open>What \<open>scheduled_actor::enqueue\<close> is given: the message id and the content.\<close>

definition priority_enqueue ::
  "('i \<Rightarrow> 'i) \<Rightarrow> 'i \<Rightarrow> 'c element list \<Rightarrow> 'i \<times> 'c element list" where
  "priority_enqueue with_high_priority mid content =
     (if IsFirstElementHighPriorityAtom content then (with_high_priority mid, drop 1 content)
      else if IsFirstElementNormalPriorityAtom content then (mid, drop 1 content)
      else (mid, content))"

lemma priority_enqueue_plain:
  "priority_enqueue hp mid (HighPriorityAtom # m) = (hp mid, m)"
  "priority_enqueue hp mid (NormalPriorityAtom # m) = (mid, m)"
  "priority_enqueue hp mid (Element c # m) = (mid, Element c # m)"
  "priority_enqueue hp mid [] = (mid, [])"
  by (simp_all add: priority_enqueue_def IsFirstElementHighPriorityAtom_def
      IsFirstElementNormalPriorityAtom_def)

end
