(* ===== verification/App_Config.thy ===== *)
theory App_Config
  imports Node_Status
begin

text \<open>
  What the processes share, \<open>common/src/cdcf_config.cc\<close> and \<open>logger.cc\<close>, and the
  monitoring client \<open>monitor_client/src/cluster_monitor_client.cc\<close>. Parsing the options
  is CAF's and writing log lines is spdlog's; both are inputs here.
\<close>

section \<open>Configuration\<close>

record cdcf_config =
  cc_threads_proportion :: rat
  cc_role :: string
  cc_log_file :: string
  cc_log_level :: string
  cc_no_log_to_console :: bool
  cc_log_file_size_in_bytes :: u16
  cc_log_file_number :: u16
  cc_log_no_display_filename_and_line_number :: bool
  cc_name :: string
  cc_host :: string

definition CDCFConfig :: cdcf_config where
  "CDCFConfig = \<lparr>cc_threads_proportion = 1, cc_role = [], cc_log_file = [], cc_log_level = ''info'',
     cc_no_log_to_console = False, cc_log_file_size_in_bytes = 0, cc_log_file_number = 0,
     cc_log_no_display_filename_and_line_number = False, cc_name = ''node'', cc_host = ''localhost''\<rparr>"

datatype config_result = kFailure | kSuccess nat   \<comment> \<open>with \<open>scheduler.max-threads\<close>\<close>

text \<open>
  \<open>parse_config\<close>: \<open>parsed\<close> is what CAF's \<open>parse\<close> made of the arguments, None for an
  error, and \<open>help\<close> whether it printed the help. A product that has no \<open>size_t\<close> is
  undefined behaviour in the cast.
\<close>

definition parse_config :: "nat \<Rightarrow> cdcf_config option \<Rightarrow> bool \<Rightarrow> cpp_exn + config_result" where
  "parse_config hardware_concurrency parsed help =
     (case parsed of
        None \<Rightarrow> Inr kFailure
      | Some c \<Rightarrow>
          if help then Inr kFailure
          else
            let n = \<lfloor>of_nat hardware_concurrency * cc_threads_proportion c\<rfloor> in
            if n < 0 \<or> 2 ^ 64 \<le> n then Inl UndefinedBehaviour else Inr (kSuccess (max (nat n) 4)))"

text \<open>The overload for a vector of arguments repeats the checks.\<close>

definition parse_config_vector :: "nat \<Rightarrow> cdcf_config option \<Rightarrow> bool \<Rightarrow> cpp_exn + config_result" where
  "parse_config_vector hardware_concurrency parsed help =
     (if parsed = None \<or> help then Inr kFailure
      else
        let thread_num = \<lfloor>of_nat hardware_concurrency * cc_threads_proportion (the parsed)\<rfloor>; min_thread_size = 4 in
        if thread_num < 0 \<or> 2 ^ 64 \<le> thread_num then Inl UndefinedBehaviour
        else Inr (kSuccess (max (nat thread_num) min_thread_size)))"

section \<open>Logger\<close>

datatype sink = StdoutSink | BasicFileSink string | RotatingFileSink string u16 u16

definition GenerateSinks :: "cdcf_config \<Rightarrow> sink list" where
  "GenerateSinks c =
     (if \<not> cc_no_log_to_console c then [StdoutSink] else []) @
     (if cc_log_file c \<noteq> [] then
        (if cc_log_file_size_in_bytes c = 0 then [BasicFileSink (cc_log_file c)]
         else [RotatingFileSink (cc_log_file c) (cc_log_file_size_in_bytes c) (cc_log_file_number c)])
      else [])"

record logger =
  lg_sinks :: "sink list"
  lg_pattern :: string
  lg_level :: string

definition Logger_Init :: "cdcf_config \<Rightarrow> logger option \<Rightarrow> logger option" where
  "Logger_Init c old = Some \<lparr>lg_sinks = GenerateSinks c,
     lg_pattern = (if \<not> cc_log_no_display_filename_and_line_number c
                   then ''[%Y-%m-%d %H:%M:%S.%e] [%l] [%g:%#] %v''
                   else ''[%Y-%m-%d %H:%M:%S.%e] [%l] %v''),
     lg_level = cc_log_level c\<rparr>"

text \<open>\<open>Flush\<close>: the sinks that are flushed; none before \<open>Init\<close>.\<close>

definition Logger_Flush :: "logger option \<Rightarrow> sink list" where
  "Logger_Flush logger = (case logger of None \<Rightarrow> [] | Some l \<Rightarrow> lg_sinks l)"

section \<open>Monitoring client\<close>

text \<open>The lines the client prints; a number is printed by \<open>show_rate\<close> or in decimal.\<close>

definition node_lines :: "(rat option \<Rightarrow> string) \<Rightarrow> node_status \<Rightarrow> string list" where
  "node_lines show_rate n =
     [''Cluster node ip: '' @ ns_ip n] @
     (if ns_error_message n = [] then
        [''  Node name: '' @ ns_node_name n, ''  Node role: '' @ ns_node_role n,
         ''  Cpu use rate: '' @ show_rate (map_option (\<lambda>r. r * 100) (ns_cpu_use_rate n)) @ ''%'',
         ''  Memory use rate: '' @ show_rate (map_option (\<lambda>r. r * 100) (ns_mem_use_rate n)) @ ''%'',
         ''  Max memory: '' @ to_string (unat (ns_max_memory n)) @ ''kB'',
         ''  Use memory: '' @ to_string (unat (ns_use_memory n)) @ ''kB'']
      else ['' error: '' @ ns_error_message n]) @
     [[]]"

definition GetNodeStatus ::
  "(rat option \<Rightarrow> string) \<Rightarrow> string \<Rightarrow> string + node_status list \<Rightarrow> string list \<times> int" where
  "GetNodeStatus show_rate host reply =
     (case reply of
        Inl message \<Rightarrow>
          ([''Get cluster node ip:port= ('' @ host @ '') status failed, error message:'' @ message], 1)
      | Inr nodes \<Rightarrow>
          ([''Get cluster node status from:'' @ host, ''Total node:'' @ to_string (length nodes)] @
           concat (map (node_lines show_rate) nodes), 0))"

definition actor_lines :: "u64 \<times> string \<times> string \<Rightarrow> string list" where
  "actor_lines a = (case a of (i, name, description) \<Rightarrow>
     ['' actor: id=('' @ to_string (unat i) @ '')'', ''  name: '' @ name,
      ''  description: '' @ description, []])"

definition GetActorSystemStatus ::
  "string \<Rightarrow> u16 \<Rightarrow> string + (u64 \<times> string \<times> string) list \<times> nat \<Rightarrow> string list" where
  "GetActorSystemStatus host port reply =
     (case reply of
        Inl message \<Rightarrow> [''get actor system status from ('' @ host @ '':'' @ to_string (unat port) @
            '') status failed, error message: '' @ message]
      | Inr (infos, workers) \<Rightarrow>
          [''Get actor system status from: '' @ host @ '':'' @ to_string (unat port), [],
           ''Actor executor: '' @ to_string workers, ''Total actor: '' @ to_string (length infos), []] @
          concat (map actor_lines infos))"

text \<open>\<open>main\<close>: which of the two reports is printed, and the exit code.\<close>

definition client_main ::
  "bool \<Rightarrow> string \<Rightarrow> string list \<Rightarrow> string list \<times> int \<Rightarrow> string list \<times> int" where
  "client_main parsed actor_node_host actor_report node_report =
     (if \<not> parsed then ([], 1)
      else if actor_node_host \<noteq> [] then (actor_report, 0)
      else node_report)"

section \<open>Laws\<close>

lemma parse_config_threads:
  "parse_config h parsed help = Inr (kSuccess n) \<Longrightarrow> 4 \<le> n"
  by (auto simp: parse_config_def Let_def split: option.splits if_splits)

lemma parse_config_default:
  assumes "4 \<le> h" and "h < 2 ^ 64"
  shows "parse_config h (Some CDCFConfig) False = Inr (kSuccess h)"
  using assms by (simp add: parse_config_def CDCFConfig_def Let_def max_def)

lemma parse_config_overloads: "parse_config_vector h parsed help = parse_config h parsed help"
  by (cases parsed) (auto simp: parse_config_vector_def parse_config_def Let_def)

lemma Logger_Flush_Init: "Logger_Flush (Logger_Init c old) = GenerateSinks c"
  by (simp add: Logger_Flush_def Logger_Init_def)

lemma GenerateSinks_console: "StdoutSink \<in> set (GenerateSinks c) \<longleftrightarrow> \<not> cc_no_log_to_console c"
  by (simp add: GenerateSinks_def)

lemma GenerateSinks_file: "length (filter (\<lambda>s. s \<noteq> StdoutSink) (GenerateSinks c)) = (if cc_log_file c = [] then 0 else 1)"
  by (simp add: GenerateSinks_def)

text \<open>Every node of the reply is reported, with its data or its error.\<close>

lemma GetNodeStatus_reports:
  assumes "n \<in> set nodes" and "ns_error_message n \<noteq> []"
  shows "'' error: '' @ ns_error_message n \<in> set (fst (GetNodeStatus show_rate host (Inr nodes)))"
  using assms by (auto simp: GetNodeStatus_def node_lines_def intro!: bexI [of _ n])

end
