(* ===== verification/Actor_Properties.thy ===== *)
theory Actor_Properties
  imports Load_Balancer Router_Pool Actor_Helpers App_Config
begin

text \<open>
  The properties of the actor system's routers and helpers: the load balancer as a whole,
  from a request to the response its sender gets, the router pool over any sequence of
  messages, the retrying union and the guard.
\<close>

section \<open>Load balancer\<close>

text \<open>Ids for the examples: even numbers are requests, the next odd number is the response.\<close>

definition sample_ids :: "nat mid_ops" where
  "sample_ids = \<lparr>response_id = (\<lambda>i. if even i then i + 1 else i), is_request = even, is_response = odd,
     is_normal = (\<lambda>_. True), with_high_priority = id, next_id = (\<lambda>i. i + 2), integer_value = id\<rparr>"

definition two_workers :: "(nat, nat) router" where
  "two_workers = AddWorker 8 (AddWorker 7 (Make 1 100 10))"

lemma two_workers_simps [simp]:
  "ro_workers two_workers = [7, 8]" "ml_mails (ro_policy two_workers) = []" "ro_self two_workers = 1"
  "ml_threshold (ro_policy two_workers) = 10" "ro_tickets two_workers = Map.empty"
  "load_of 7 two_workers = 0" "load_of 8 two_workers = 0" "router_wf two_workers"
  by (simp_all add: two_workers_def AddWorker_def Make_def MinLoad_def ro_emit_def load_of_def router_wf_def)

lemma Filter_user:
  assumes "mb_content what = UserMsg c" and "ro_workers r \<noteq> []"
  shows "Filter I i what r = (False, r)"
  using assms by (simp add: Filter_def)

text \<open>What \<open>place\<close> does with a mail when nothing is held back and a worker is below the threshold.\<close>

lemma place_one:
  assumes "router_wf r" and "ml_mails (ro_policy r) = []" and "length (ro_workers r) < 2 ^ 64"
    and "w0 \<in> set (ro_workers r)" and "load_of w0 r < ml_threshold (ro_policy r)"
    and "null_actor \<notin> set (ro_workers r)"
  shows "\<exists>w p. w \<in> set (ro_workers r) \<and> (\<forall>v\<in>set (ro_workers r). load_of w r \<le> load_of v r)
    \<and> ml_mails p = []
    \<and> place I (Some m) r = (Relay I m w (r\<lparr>ro_policy := p, ro_metrics := (ro_metrics r)(w \<mapsto> load_of w r + 1)\<rparr>), None)"
proof -
  let ?ms = "map (\<lambda>w. load_of w r) (ro_workers r)"
  have ne: "?ms \<noteq> []" using assms(4) by auto
  obtain a k p' where c: "MinLoad_call (ro_workers r) ?ms (Some m) (ro_policy r) = Inr (Some (a, k), p')"
    using MinLoad_call_places [OF ne, of "load_of w0 r" "ro_policy r" "Some m" "ro_workers r"] assms(3,4,5)
    by auto
  have k: "k = m" "ml_mails p' = []" using MinLoad_call_order [OF c] assms(2) by (simp_all add: Cons_eq_append_conv)
  from MinLoad_call_chosen [OF c] assms(3) obtain i
    where i: "i < length (ro_workers r)" "a = ro_workers r ! i" "\<forall>l\<in>set ?ms. ?ms ! i \<le> l" by auto
  have a: "a \<in> set (ro_workers r)" using i by simp
  then have "a \<noteq> null_actor" using assms(6) by auto
  then have "place I (Some m) r =
      (Relay I m a (r\<lparr>ro_policy := p', ro_metrics := (ro_metrics r)(a \<mapsto> load_of a r + 1)\<rparr>), None)"
    by (simp add: place_def GetMetrics_wf [OF assms(1)] c k)
  moreover have "\<forall>v\<in>set (ro_workers r). load_of a r \<le> load_of v r" using i by auto
  ultimately show ?thesis using a k(2) by blast
qed

lemma enqueue_one:
  assumes "router_wf r" and "ml_mails (ro_policy r) = []" and "length (ro_workers r) < 2 ^ 64"
    and "w0 \<in> set (ro_workers r)" and "load_of w0 r < ml_threshold (ro_policy r)"
    and "null_actor \<notin> set (ro_workers r)" and "mb_content what = UserMsg c" and "\<not> is_response I (mb_mid what)"
  shows "\<exists>w p. w \<in> set (ro_workers r) \<and> (\<forall>v\<in>set (ro_workers r). load_of w r \<le> load_of v r)
    \<and> ml_mails p = []
    \<and> router_enqueue I i what r =
        (Relay I what w (r\<lparr>ro_policy := p, ro_metrics := (ro_metrics r)(w \<mapsto> load_of w r + 1)\<rparr>), None)"
proof -
  have "ro_workers r \<noteq> []" using assms(4) by auto
  then have "router_enqueue I i what r = place I (Some what) r"
    using assms(8) by (simp add: router_enqueue_def Filter_user [OF assms(7)])
  then show ?thesis using place_one [OF assms(1-6), of I what] by simp
qed



fun policy_run ::
  "(actor list \<times> u64 list \<times> 'm option) list \<Rightarrow> 'm min_load \<Rightarrow> cpp_exn + (actor \<times> 'm) list \<times> 'm min_load" where
  "policy_run [] p = Inr ([], p)"
| "policy_run ((actors, metrics, mail) # calls) p =
     (case MinLoad_call actors metrics mail p of
        Inl e \<Rightarrow> Inl e
      | Inr (out, p1) \<Rightarrow>
          (case policy_run calls p1 of
             Inl e \<Rightarrow> Inl e
           | Inr (outs, p2) \<Rightarrow> Inr ((case out of None \<Rightarrow> [] | Some a \<Rightarrow> [a]) @ outs, p2)))"

text \<open>
  C26: the policy loses, duplicates and reorders nothing: over any sequence of calls that do
  not fail, what was held, followed by the mails that came, is what was handed out followed
  by what is held.
\<close>

theorem balancer_keeps_order:
  assumes "policy_run calls p = Inr (outs, p')"
  shows "ml_mails p @ concat (map (\<lambda>(actors, metrics, mail). case mail of None \<Rightarrow> [] | Some m \<Rightarrow> [m]) calls) =
    map snd outs @ ml_mails p'"
  using assms
proof (induction calls p arbitrary: outs rule: policy_run.induct)
  case (2 actors metrics mail calls p)
  obtain out p1 where c: "MinLoad_call actors metrics mail p = Inr (out, p1)"
    using "2.prems" by (auto split: sum.splits)
  obtain outs' where r: "policy_run calls p1 = Inr (outs', p')"
    "outs = (case out of None \<Rightarrow> [] | Some a \<Rightarrow> [a]) @ outs'"
    using "2.prems" c by (auto split: sum.splits)
  show ?case
    using "2.IH" [OF c refl r(1)] MinLoad_call_order [OF c] r(2)
    by (auto split: option.splits) (metis append.assoc append_Cons append_Nil)+
qed simp

theorem balancer_keeps_order_witness:
  "policy_run [([7], [10], Some ''a''), ([7], [10], Some ''b''), ([7], [9], None)] (MinLoad 10) =
     Inr ([(7, ''a'')], \<lparr>ml_rotated = 0, ml_mails = [''b''], ml_threshold = 10\<rparr>)
   \<and> [''a'', ''b''] = map snd [(7 :: nat, ''a'')] @ [''b'']"
proof -
  have r: "policy_run [([7], [10], Some ''a''), ([7], [10], Some ''b''), ([7], [9], None)] (MinLoad 10) =
     Inr ([(7, ''a'')], \<lparr>ml_rotated = 0, ml_mails = [''b''], ml_threshold = 10\<rparr>)"
    by code_simp
  show ?thesis using balancer_keeps_order [OF r] r by (simp add: MinLoad_def)
qed

lemma settle_idle:
  assumes "router_wf r" and "ml_mails (ro_policy r) = []" and "mb_content answer = UserMsg d"
    and "ro_workers r \<noteq> []" and "is_response I (mb_mid answer)"
  shows "router_enqueue I i answer r = (settle I answer r, None)"
proof -
  have "ml_mails (ro_policy (settle I answer r)) = []" by (simp add: settle_def assms(2))
  then have "place I None (settle I answer r) = (settle I answer r, None)"
    using GetMetrics_wf [OF router_wf_settle [OF assms(1)]]
    by (simp add: place_def MinLoad_call_def)
  then show ?thesis using assms(5) by (simp add: router_enqueue_def Filter_user [OF assms(3,4)])
qed



text \<open>
  C28: whatever mails a router gets from its creation on, its workers stay different from
  each other and each of them has a load counter, so the loads are never read past the end
  of the table.
\<close>

theorem router_invariant:
  fixes mails :: "('i, 'c) mail list"
  shows "let r = fold (\<lambda>what r. fst (router_enqueue I i what r)) mails (Make self first_id threshold) in
    distinct (ro_workers r) \<and> GetMetrics r = Some (map (\<lambda>w. load_of w r) (ro_workers r))"
proof -
  let ?r = "fold (\<lambda>what r. fst (router_enqueue I i what r)) mails (Make self first_id threshold)"
  have keep: "router_wf (fold (\<lambda>what r. fst (router_enqueue I i what r)) ms r0)" if "router_wf r0"
    for ms and r0 :: "('i, 'c) router"
    using that by (induction ms arbitrary: r0) (simp_all add: router_wf_enqueue)
  have wf: "router_wf ?r" by (rule keep [OF router_wf_Make])
  then have "distinct (ro_workers ?r)" unfolding router_wf_def by (rule conjunct1)
  then show ?thesis unfolding Let_def using GetMetrics_wf [OF wf] by (rule conjI)
qed

text \<open>
  A mail that is neither a request nor a response makes a router without workers
  compute a remainder by zero: only requests are answered when there is no worker.
\<close>

theorem empty_router_divides:
  assumes "ro_workers r = []" and "mb_content what = UserMsg c" and "\<not> is_request I (mb_mid what)"
    and "\<not> is_response I (mb_mid what)"
  shows "router_enqueue I i what r = (r, Some UndefinedBehaviour)"
  using assms
  by (simp add: router_enqueue_def Filter_def place_def GetMetrics_def MinLoad_call_def)

theorem empty_router_divides_witness:
  "snd (router_enqueue (sample_ids\<lparr>is_request := (\<lambda>_. False), is_response := (\<lambda>_. False)\<rparr>) 0
     \<lparr>mb_sender = 5, mb_mid = 2, mb_content = UserMsg (9 :: nat)\<rparr> (Make 1 100 10)) = Some UndefinedBehaviour"
  using empty_router_divides [of "Make 1 100 10" "\<lparr>mb_sender = 5, mb_mid = 2, mb_content = UserMsg (9 :: nat)\<rparr>" 9
      "sample_ids\<lparr>is_request := (\<lambda>_. False), is_response := (\<lambda>_. False)\<rparr>" 0]
  by (simp add: Make_def)

text \<open>
  A worker that is deleted while it has a request in flight gets a counter of minus one
  from its late response, and keeps it when it is put back: it then counts as loaded beyond
  every threshold and is never chosen.
\<close>

theorem deleted_worker_stuck:
  assumes "router_wf r" and "ml_mails (ro_policy r) = []" and "ro_workers r \<noteq> []" and "w \<notin> set (ro_workers r)"
    and "ro_metrics r w = None" and "mb_sender answer = w" and "mb_content answer = UserMsg d"
    and "is_response I (mb_mid answer)" and "mb_content put = PutWorker w"
  shows "\<exists>r1 r2. router_enqueue I i answer r = (r1, None) \<and> router_enqueue I i put r1 = (r2, None)
    \<and> w \<in> set (ro_workers r2) \<and> (\<forall>threshold. \<not> load_of w r2 < threshold)"
proof -
  let ?r1 = "settle I answer r"
  have e1: "router_enqueue I i answer r = (?r1, None)" by (rule settle_idle [OF assms(1,2,7,3,8)])
  have e2: "router_enqueue I i put ?r1 = (AddWorker w ?r1, None)"
    using assms(9) by (simp add: router_enqueue_def Filter_def)
  have m: "ro_metrics ?r1 w = Some (- 1)" by (rule settle_deleted [OF assms(5,6)])
  have "w \<notin> set (ro_workers ?r1)" using assms(4) by (simp add: settle_def)
  from AddWorker_keeps_counter [OF this m] show ?thesis using e1 e2 by auto
qed

theorem deleted_worker_stuck_witness:
  "\<exists>r1 r2. router_enqueue sample_ids 0 \<lparr>mb_sender = 8, mb_mid = 103, mb_content = UserMsg 9\<rparr>
       (DeleteWorker 8 two_workers) = (r1, None)
    \<and> router_enqueue sample_ids 0 \<lparr>mb_sender = 0, mb_mid = 4, mb_content = PutWorker 8\<rparr> r1 = (r2, None)
    \<and> 8 \<in> set (ro_workers r2) \<and> \<not> load_of 8 r2 < 10"
proof -
  have d: "ro_workers (DeleteWorker 8 two_workers) = [7]" "ml_mails (ro_policy (DeleteWorker 8 two_workers)) = []"
    "ro_metrics (DeleteWorker 8 two_workers) 8 = None"
    by (simp_all add: DeleteWorker_def)
  have "router_wf (DeleteWorker 8 two_workers)" by (rule router_wf_DeleteWorker) simp
  then show ?thesis
    using deleted_worker_stuck [of "DeleteWorker 8 two_workers" 8 "\<lparr>mb_sender = 8, mb_mid = 103, mb_content = UserMsg 9\<rparr>" 9
        sample_ids "\<lparr>mb_sender = 0, mb_mid = 4, mb_content = PutWorker 8\<rparr>" 0] d
    by (auto simp: sample_ids_def)
qed

section \<open>Router pool\<close>

definition sample_env :: env where
  "sample_env = \<lparr>env_remote_actor = (\<lambda>_ _. Some 1), env_spawn = (\<lambda>n. Some (n + 2))\<rparr>"

text \<open>
  C31: whatever messages a router pool gets from its creation on, its nodes stay different
  from each other, each under a key that parses, and no message makes it throw.
\<close>

theorem pool_invariant:
  "let p = fold (\<lambda>msg p. fst (pool_enqueue E msg p)) msgs (new_pool n) in
   distinct (GetNode p) \<and> (\<forall>k\<in>set (GetNode p). \<exists>host port. k = BuildNodeKey host port)
   \<and> (\<exists>reply. snd (pool_enqueue E msg p) = Inr reply)"
proof -
  let ?p = "fold (\<lambda>msg p. fst (pool_enqueue E msg p)) msgs (new_pool n)"
  have "pool_wf (fold (\<lambda>msg p. fst (pool_enqueue E msg p)) ms p0)" if "pool_wf p0" for ms p0
    using that by (induction ms arbitrary: p0) (simp_all add: pool_enqueue_wf)
  moreover have "pool_wf (new_pool n)" by (simp add: pool_wf_def new_pool_def GetNode_def)
  ultimately have wf: "pool_wf ?p" by blast
  then have "distinct (GetNode ?p)" by (simp add: pool_wf_def map_wf_def GetNode_def strict_sorted_iff)
  then show ?thesis using wf pool_enqueue_wf [OF wf, of E msg] by (simp add: pool_wf_def node_key_def)
qed

theorem pool_invariant_witness:
  "distinct (GetNode (fold (\<lambda>msg p. fst (pool_enqueue sample_env msg p))
     [MsgAddNode ''h'' 7, MsgUpdateSize 1, MsgDown 3] (new_pool 2)))"
  using pool_invariant [of sample_env "[MsgAddNode ''h'' 7, MsgUpdateSize 1, MsgDown 3]" 2 MsgExit]
  unfolding Let_def by (rule conjunct1)

text \<open>
  A node key gives back the host and port it was built from, whatever the host is, so
  two nodes never share a key; the empty key is the local node.
\<close>

theorem pool_key_roundtrip:
  "ParserNodeKey (BuildNodeKey host port) = Inr (host, if host = [] then 0 else port)
   \<and> (BuildNodeKey host port = BuildNodeKey h q \<longleftrightarrow> host = h \<and> (host = [] \<or> port = q))"
proof -
  have "BuildNodeKey host port = BuildNodeKey h q \<longleftrightarrow> host = h \<and> (host = [] \<or> port = q)"
  proof (cases "host = []")
    case True
    then show ?thesis by (cases "h = []") (simp_all add: BuildNodeKey_def)
  next
    case False
    then show ?thesis using BuildNodeKey_inj [OF False, of port h q] by blast
  qed
  then show ?thesis using ParserNodeKey_BuildNodeKey by blast
qed

text \<open>
  Adding a node that is not there and can be reached, while spawning works, succeeds
  and gives the node exactly the configured number of workers.
\<close>

theorem pool_add_node_size:
  assumes "pool_wf p" and "fresh_spawns E p" and "host = [] \<or> env_remote_actor E host port \<noteq> None"
    and "BuildNodeKey host port \<notin> set (GetNode p)"
  shows "fst (AddNode E host port p)
    \<and> length (GetActorsOf host port (snd (AddNode E host port p))) = rp_default_actor_num p"
  using AddNode_size [OF assms] by blast

theorem pool_add_node_size_witness:
  "length (GetActorsOf ''h'' 7 (snd (AddNode sample_env
     ''h'' 7 (new_pool 3)))) = 3"
  using pool_add_node_size [of "new_pool 3" "sample_env" "''h''" 7]
  by (simp add: sample_env_def pool_wf_def new_pool_def GetNode_def fresh_spawns_def GetActors_def)

text \<open>
  A node that is shrunk and, before its workers have gone down, grown back to its old
  size gets no new worker: it ends with the smaller number.
\<close>

theorem pool_shrink_then_grow:
  assumes "node_find (BuildNodeKey host port) (rp_nodes p) = Some as" and "n < length as"
  shows "let p1 = snd (ModifyMaxPerNode E n host port p);
             p2 = snd (ModifyMaxPerNode E (length as) host port p1) in
    rp_effects p2 = rp_effects p @ map ExitActor (take (length as - n) as)
    \<and> GetActorsOf host port p2 = as"
  using shrink_then_grow [OF assms, of E] assms
  by (simp add: Let_def GetActorsOf_def ModifyMaxPerNode_def DeleteActors_def)

theorem pool_shrink_then_grow_witness:
  "rp_effects (snd (ModifyMaxPerNode sample_env 2 ''h'' 7 (snd (ModifyMaxPerNode sample_env 1 ''h'' 7
     \<lparr>rp_default_actor_num = 2, rp_nodes = [(BuildNodeKey ''h'' 7, [4, 5])], rp_spawns = 0, rp_effects = []\<rparr>)))) = [ExitActor 4]"
  using pool_shrink_then_grow [of "''h''" 7
      "\<lparr>rp_default_actor_num = 2, rp_nodes = [(BuildNodeKey ''h'' 7, [4, 5])], rp_spawns = 0, rp_effects = []\<rparr>" "[4, 5]" 1 sample_env]
  by (simp add: map_find_def Let_def numeral_2_eq_2)

section \<open>Union and guard\<close>

text \<open>
  A union whose requests all fail because the actors are gone makes one attempt more
  than it has actors and then reports that all are out of work, while an answer at any
  attempt before ends it there.
\<close>

theorem union_tries_all:
  assumes "unat (au_actor_count u) < 2 ^ 16 - 1"
  shows "union_SendAndReceive (replicate (Suc (unat (au_actor_count u))) (SystemError e) @ rs) u =
      replicate (Suc (unat (au_actor_count u))) PoolRequest @ [AllActorOutOfWork]
    \<and> (\<forall>k \<le> unat (au_actor_count u). union_SendAndReceive (replicate k (SystemError e) @ Answer # rs) u =
        replicate (Suc k) PoolRequest @ [UnionReturn])"
  using union_attempt_all_fail [of 0 "unat (au_actor_count u)" "au_actor_count u" e rs]
    union_attempt_answered [of 0 _ "au_actor_count u" e rs] assms
  by (simp add: union_SendAndReceive_def)

theorem union_tries_all_witness:
  "union_SendAndReceive [SystemError 4, SystemError 4, SystemError 4]
     (union_AddActor 9 (union_AddActor 8 \<lparr>au_actor_count = 0, au_pool = []\<rparr>)) =
   [PoolRequest, PoolRequest, PoolRequest, AllActorOutOfWork]"
proof -
  let ?u = "union_AddActor 9 (union_AddActor 8 \<lparr>au_actor_count = 0, au_pool = []\<rparr>)"
  have n: "unat (au_actor_count ?u) = Suc (Suc 0)" by (simp add: union_AddActor_def)
  have "Suc (Suc 0) < (2 :: nat) ^ 16 - 1" by simp
  from union_tries_all [of ?u 4 "[]", unfolded n, OF this] show ?thesis by simp
qed



end
