(* ===== verification/Yanghui_Triangle.thy ===== *)
theory Yanghui_Triangle
  imports CDCF_Prelude
begin

text \<open>
  The computation of the Yanghui demos (\<open>demos/yanghui_cluster\<close>): the least sum over the
  paths from the top of a triangle of numbers to its last row, a step down going to one of
  the two entries below. Here are the C++ integers and arrays it works on, its sequential
  form \<open>LocalYanghuiJob\<close> (\<open>yanghui_example_v2.cc\<close>) and what it computes; the actors that
  compute the same are in the theories that follow.
\<close>

section \<open>Signed integers and arrays\<close>

text \<open>An \<open>int\<close> has 32 bits; a sum outside of them is undefined behaviour.\<close>

definition int_ok :: "int \<Rightarrow> bool" where
  "int_ok x \<longleftrightarrow> - (2 ^ 31) \<le> x \<and> x < 2 ^ 31"

definition INT_MAX :: int where
  "INT_MAX = 2 ^ 31 - 1"

definition add_int :: "int \<Rightarrow> int \<Rightarrow> cpp_exn + int" where
  "add_int a b = (if int_ok (a + b) then Inr (a + b) else Inl UndefinedBehaviour)"

lemma add_int_ok [simp]: "int_ok (a + b) \<Longrightarrow> add_int a b = Inr (a + b)"
  by (simp add: add_int_def)

lemma int_ok_le_MAX: "int_ok x \<Longrightarrow> x \<le> INT_MAX"
  by (simp add: int_ok_def INT_MAX_def)

text \<open>\<open>operator[]\<close> of a vector does not check its index: outside it has no meaning.\<close>

definition vec_at :: "'a list \<Rightarrow> nat \<Rightarrow> cpp_exn + 'a" where
  "vec_at xs i = (if i < length xs then Inr (xs ! i) else Inl UndefinedBehaviour)"

definition vec_put :: "nat \<Rightarrow> 'a \<Rightarrow> 'a list \<Rightarrow> cpp_exn + 'a list" where
  "vec_put i x xs = (if i < length xs then Inr (xs[i := x]) else Inl UndefinedBehaviour)"

definition entry_at :: "'a list list \<Rightarrow> nat \<Rightarrow> nat \<Rightarrow> cpp_exn + 'a" where
  "entry_at d i j = (case vec_at d i of Inl e \<Rightarrow> Inl e | Inr row \<Rightarrow> vec_at row j)"

text \<open>A cell of a block that \<open>malloc\<close> gave has no value before it is written.\<close>

definition cell_at :: "'a option list \<Rightarrow> nat \<Rightarrow> cpp_exn + 'a" where
  "cell_at xs i = (case vec_at xs i of Inl e \<Rightarrow> Inl e
     | Inr None \<Rightarrow> Inl UndefinedBehaviour | Inr (Some x) \<Rightarrow> Inr x)"

text \<open>A \<open>for\<close> loop whose body may end the function.\<close>

fun for_each :: "('x \<Rightarrow> 's \<Rightarrow> 'e + 's) \<Rightarrow> 'x list \<Rightarrow> 's \<Rightarrow> 'e + 's" where
  "for_each f [] s = Inr s"
| "for_each f (x # xs) s = (case f x s of Inl e \<Rightarrow> Inl e | Inr s' \<Rightarrow> for_each f xs s')"

lemma for_each_append:
  "for_each f (xs @ ys) s = (case for_each f xs s of Inl e \<Rightarrow> Inl e | Inr s' \<Rightarrow> for_each f ys s')"
  by (induction xs arbitrary: s) (auto split: sum.splits)

text \<open>A loop over an interval whose body keeps an invariant, or leaves with a value of \<open>Q\<close>.\<close>

lemma for_each_rule:
  assumes "P m s" and "m \<le> n"
    and "\<And>j s. m \<le> j \<Longrightarrow> j < n \<Longrightarrow> P j s \<Longrightarrow> (\<exists>s'. f j s = Inr s' \<and> P (Suc j) s') \<or> (\<exists>e. f j s = Inl e \<and> Q e)"
  shows "(\<exists>s'. for_each f [m..<n] s = Inr s' \<and> P n s') \<or> (\<exists>e. for_each f [m..<n] s = Inl e \<and> Q e)"
  using assms(2,1,3)
proof (induction n rule: dec_induct)
  case (step n)
  then consider (go) s1 where "for_each f [m..<n] s = Inr s1" "P n s1" | (leave) e where "for_each f [m..<n] s = Inl e" "Q e"
    by auto
  then show ?case
  proof cases
    case go
    then have "(\<exists>s'. f n s1 = Inr s' \<and> P (Suc n) s') \<or> (\<exists>e. f n s1 = Inl e \<and> Q e)"
      using step.prems(2) step.hyps(1) by blast
    then show ?thesis using go(1) step.hyps(1) by (auto simp: for_each_append)
  next
    case leave
    then show ?thesis using step.hyps(1) by (simp add: for_each_append)
  qed
qed simp

lemma for_each_inv:
  assumes "P m s" and "m \<le> n"
    and "\<And>j s. m \<le> j \<Longrightarrow> j < n \<Longrightarrow> P j s \<Longrightarrow> \<exists>s'. f j s = Inr s' \<and> P (Suc j) s'"
  shows "\<exists>s'. for_each f [m..<n] s = Inr s' \<and> P n s'"
  using for_each_rule [of P m s n f "\<lambda>_. False", OF assms(1,2)] assms(3) by blast

section \<open>Triangles and their levels\<close>

definition triangle :: "int list list \<Rightarrow> bool" where
  "triangle d \<longleftrightarrow> d \<noteq> [] \<and> (\<forall>i<length d. length (d ! i) = Suc i)"

text \<open>The least sums that end in the entries of one row, from those of the row above.\<close>

definition above :: "int list \<Rightarrow> nat \<Rightarrow> int" where
  "above s j = (if j = 0 then s ! 0 else if j = length s then s ! (j - 1) else min (s ! (j - 1)) (s ! j))"

definition next_row :: "int list \<Rightarrow> int list \<Rightarrow> int list" where
  "next_row s row = map (\<lambda>j. above s j + row ! j) [0..<Suc (length s)]"

fun level :: "int list list \<Rightarrow> nat \<Rightarrow> int list" where
  "level d 0 = [d ! 0 ! 0]"
| "level d (Suc i) = next_row (level d i) (d ! Suc i)"

definition last_level :: "int list list \<Rightarrow> int list" where
  "last_level d = level d (length d - 1)"

text \<open>No sum the computation forms leaves the integers.\<close>

definition levels_ok :: "int list list \<Rightarrow> bool" where
  "levels_ok d \<longleftrightarrow> (\<forall>i<length d. \<forall>x\<in>set (level d i). int_ok x)"

lemma length_next_row [simp]: "length (next_row s row) = Suc (length s)"
  by (simp add: next_row_def)

lemma length_level [simp]: "length (level d i) = Suc i"
  by (induction i) simp_all

lemma next_row_nth: "j \<le> length s \<Longrightarrow> next_row s row ! j = above s j + row ! j"
  by (simp add: next_row_def del: upt_Suc)

lemma level_nth: "j \<le> Suc i \<Longrightarrow> level d (Suc i) ! j = above (level d i) j + d ! Suc i ! j"
  by (simp add: next_row_nth)

lemma triangle_entry:
  assumes "triangle d" and "i < length d" and "j \<le> i"
  shows "entry_at d i j = Inr (d ! i ! j)"
  using assms by (simp add: entry_at_def vec_at_def triangle_def)

lemma levels_ok_nth: "levels_ok d \<Longrightarrow> i < length d \<Longrightarrow> j \<le> i \<Longrightarrow> int_ok (level d i ! j)"
  by (simp add: levels_ok_def)

lemma last_level_nonempty: "last_level d \<noteq> []"
  unfolding last_level_def by (metis length_level list.size(3) nat.distinct(1))

lemma last_level_ok:
  assumes "levels_ok d" and "d \<noteq> []"
  shows "length (last_level d) = length d" and "\<forall>x\<in>set (last_level d). int_ok x"
proof -
  show "length (last_level d) = length d" using assms(2) by (simp add: last_level_def)
  show "\<forall>x\<in>set (last_level d). int_ok x"
    using assms(1) [unfolded levels_ok_def, rule_format, of "length d - 1"] assms(2) by (simp add: last_level_def)
qed

section \<open>Paths\<close>

text \<open>A path is the column it is in at each row.\<close>

definition path_ok :: "nat list \<Rightarrow> bool" where
  "path_ok p \<longleftrightarrow> p \<noteq> [] \<and> p ! 0 = 0 \<and> (\<forall>i. Suc i < length p \<longrightarrow> p ! Suc i = p ! i \<or> p ! Suc i = Suc (p ! i))"

definition path_sum :: "int list list \<Rightarrow> nat list \<Rightarrow> int" where
  "path_sum d p = sum_list (map (\<lambda>i. d ! i ! (p ! i)) [0..<length p])"

lemma path_sum_snoc: "path_sum d (p @ [j]) = path_sum d p + d ! length p ! j"
proof -
  have "map (\<lambda>i. d ! i ! ((p @ [j]) ! i)) [0..<length p] = map (\<lambda>i. d ! i ! (p ! i)) [0..<length p]"
    by (rule map_cong) (simp_all add: nth_append)
  then have "sum_list (map (\<lambda>i. d ! i ! ((p @ [j]) ! i)) [0..<length p]) = path_sum d p"
    unfolding path_sum_def by (rule arg_cong)
  then show ?thesis by (simp add: path_sum_def)
qed

lemma path_ok_snoc:
  "path_ok (p @ [j]) \<longleftrightarrow> (if p = [] then j = 0 else path_ok p \<and> (j = last p \<or> j = Suc (last p)))"
proof (cases "p = []")
  case False
  have "(\<forall>i. Suc i < length (p @ [j]) \<longrightarrow> (p @ [j]) ! Suc i = (p @ [j]) ! i \<or> (p @ [j]) ! Suc i = Suc ((p @ [j]) ! i))
    \<longleftrightarrow> (\<forall>i. Suc i < length p \<longrightarrow> p ! Suc i = p ! i \<or> p ! Suc i = Suc (p ! i)) \<and> (j = last p \<or> j = Suc (last p))"
    (is "?l \<longleftrightarrow> ?r")
  proof
    assume l: ?l
    have "Suc i < length p \<longrightarrow> p ! Suc i = p ! i \<or> p ! Suc i = Suc (p ! i)" for i
      using spec [OF l, of i] by (auto simp: nth_append)
    moreover have "j = last p \<or> j = Suc (last p)"
      using spec [OF l, of "length p - 1"] False by (simp add: nth_append last_conv_nth)
    ultimately show ?r by blast
  next
    assume r: ?r
    show ?l
    proof (intro allI impI)
      fix i assume i: "Suc i < length (p @ [j])"
      show "(p @ [j]) ! Suc i = (p @ [j]) ! i \<or> (p @ [j]) ! Suc i = Suc ((p @ [j]) ! i)"
      proof (cases "Suc i < length p")
        case True
        then show ?thesis using r by (simp add: nth_append)
      next
        case False
        then have "i = length p - 1" using i \<open>p \<noteq> []\<close> by simp
        then show ?thesis using r \<open>p \<noteq> []\<close> by (auto simp: nth_append last_conv_nth)
      qed
    qed
  qed
  then show ?thesis using False by (simp add: path_ok_def nth_append)
qed (simp add: path_ok_def)

lemma path_ok_last_le: "path_ok p \<Longrightarrow> last p < length p"
proof (induction p rule: rev_induct)
  case Nil
  then show ?case by (simp add: path_ok_def)
qed (auto simp: path_ok_snoc split: if_splits)

text \<open>A level holds, for each of its entries, the least sum of a path that ends there.\<close>

lemma level_le_path:
  assumes "path_ok p"
  shows "level d (length p - 1) ! last p \<le> path_sum d p"
  using assms
proof (induction p rule: rev_induct)
  case Nil
  then show ?case by (simp add: path_ok_def)
next
  case (snoc j p)
  show ?case
  proof (cases "p = []")
    case True
    then show ?thesis using snoc.prems by (simp add: path_sum_def path_ok_def)
  next
    case False
    then obtain i where i: "length p = Suc i" by (cases p) auto
    have p: "path_ok p" "j = last p \<or> j = Suc (last p)" using snoc.prems False by (simp_all add: path_ok_snoc)
    have "last p \<le> i" using path_ok_last_le [OF p(1)] i by simp
    then have "j \<le> Suc i" and "above (level d i) j \<le> level d i ! last p"
      using p(2) by (auto simp: above_def)
    then show ?thesis
      using snoc.IH [OF p(1)] level_nth [of j i d] i by (simp add: path_sum_snoc del: level.simps)
  qed
qed

lemma level_is_path:
  "j \<le> i \<Longrightarrow> \<exists>p. path_ok p \<and> length p = Suc i \<and> last p = j \<and> path_sum d p = level d i ! j"
proof (induction i arbitrary: j)
  case 0
  have "path_ok [0]" "path_sum d [0] = level d 0 ! 0" by (simp_all add: path_ok_def path_sum_def)
  then show ?case using 0 by force
next
  case (Suc i)
  have "\<exists>k\<le>i. (j = k \<or> j = Suc k) \<and> above (level d i) j = level d i ! k"
  proof (cases "j = 0 \<or> j = Suc i")
    case True
    then show ?thesis
    proof
      assume "j = 0"
      then show ?thesis by (intro exI [of _ 0]) (simp add: above_def)
    next
      assume "j = Suc i"
      then show ?thesis by (intro exI [of _ i]) (simp add: above_def)
    qed
  next
    case False
    then have "above (level d i) j = level d i ! (if level d i ! (j - 1) \<le> level d i ! j then j - 1 else j)"
      by (simp add: above_def min_def)
    then show ?thesis
      using False Suc.prems by (intro exI [of _ "if level d i ! (j - 1) \<le> level d i ! j then j - 1 else j"]) auto
  qed
  then obtain k where k: "k \<le> i" "j = k \<or> j = Suc k" "above (level d i) j = level d i ! k" by blast
  obtain p where p: "path_ok p" "length p = Suc i" "last p = k" "path_sum d p = level d i ! k"
    using Suc.IH [OF k(1)] by blast
  have "path_ok (p @ [j])" using p k(2) by (auto simp: path_ok_snoc)
  moreover have "path_sum d (p @ [j]) = level d (Suc i) ! j"
    using p k(3) level_nth [OF Suc.prems, of d] by (simp add: path_sum_snoc del: level.simps)
  ultimately show ?case using p(2) by (intro exI [of _ "p @ [j]"]) simp
qed

theorem least_path:
  assumes "d \<noteq> []"
  shows "\<exists>p. path_ok p \<and> length p = length d \<and> path_sum d p = Min (set (last_level d))"
    and "path_ok p \<Longrightarrow> length p = length d \<Longrightarrow> Min (set (last_level d)) \<le> path_sum d p"
proof -
  obtain n where n: "length d = Suc n" using assms by (cases d) auto
  have "Min (set (last_level d)) \<in> set (last_level d)"
    by (rule Min_in) (simp_all add: last_level_nonempty)
  then obtain j where "j < length (last_level d)" "last_level d ! j = Min (set (last_level d))"
    unfolding in_set_conv_nth by blast
  then have "j \<le> n" "Min (set (last_level d)) = level d n ! j" using n by (simp_all add: last_level_def)
  then show "\<exists>p. path_ok p \<and> length p = length d \<and> path_sum d p = Min (set (last_level d))"
    using level_is_path [of j n d] n by auto
  assume p: "path_ok p" "length p = length d"
  then have "level d n ! last p \<in> set (last_level d)"
    using path_ok_last_le [OF p(1)] n by (simp add: last_level_def)
  then have "Min (set (last_level d)) \<le> level d n ! last p" by simp
  then show "Min (set (last_level d)) \<le> path_sum d p"
    using level_le_path [OF p(1), of d] p(2) n by simp
qed

section \<open>The sequential computation\<close>

definition cell_min :: "int option list \<Rightarrow> nat \<Rightarrow> nat \<Rightarrow> cpp_exn + int" where
  "cell_min xs i j = (case cell_at xs i of Inl e \<Rightarrow> Inl e
     | Inr a \<Rightarrow> (case cell_at xs j of Inl e \<Rightarrow> Inl e | Inr b \<Rightarrow> Inr (min a b)))"

text \<open>The body of the loop over \<open>j\<close>, the loop over \<open>k\<close> that copies, and that over \<open>i\<close>.\<close>

definition local_cell ::
  "int list list \<Rightarrow> nat \<Rightarrow> int option list \<Rightarrow> nat \<Rightarrow> int option list \<Rightarrow> cpp_exn + int option list" where
  "local_cell d i states j temp_states =
     (case (if j = 0 then cell_at states 0
            else if j = i then cell_at states (j - 1)
            else cell_min states (j - 1) j) of
        Inl e \<Rightarrow> Inl e
      | Inr s \<Rightarrow> (case entry_at d i j of
          Inl e \<Rightarrow> Inl e
        | Inr x \<Rightarrow> (case add_int s x of
            Inl e \<Rightarrow> Inl e
          | Inr v \<Rightarrow> vec_put j (Some v) temp_states)))"

definition copy_cell :: "int option list \<Rightarrow> nat \<Rightarrow> int option list \<Rightarrow> cpp_exn + int option list" where
  "copy_cell temp_states k states =
     (case cell_at temp_states k of Inl e \<Rightarrow> Inl e | Inr v \<Rightarrow> vec_put k (Some v) states)"

definition local_row ::
  "int list list \<Rightarrow> nat \<Rightarrow> int option list \<times> int option list \<Rightarrow> cpp_exn + int option list \<times> int option list" where
  "local_row d i blocks =
     (case for_each (local_cell d i (fst blocks)) [0..<Suc i] (snd blocks) of
        Inl e \<Rightarrow> Inl e
      | Inr temp_states \<Rightarrow> (case for_each (copy_cell temp_states) [0..<Suc i] (fst blocks) of
          Inl e \<Rightarrow> Inl e
        | Inr states \<Rightarrow> Inr (states, temp_states)))"

definition smaller_cell :: "int option list \<Rightarrow> nat \<Rightarrow> int \<Rightarrow> cpp_exn + int" where
  "smaller_cell states j min_sum =
     (case cell_at states j of Inl e \<Rightarrow> Inl e | Inr x \<Rightarrow> Inr (if x < min_sum then x else min_sum))"

definition LocalYanghuiJob :: "int list list \<Rightarrow> cpp_exn + int" where
  "LocalYanghuiJob d =
     (let n = length d; block = replicate n None in
      case vec_put 0 (Some 1) block of
        Inl e \<Rightarrow> Inl e
      | Inr states \<Rightarrow> (case entry_at d 0 0 of
          Inl e \<Rightarrow> Inl e
        | Inr x \<Rightarrow> (case vec_put 0 (Some x) states of
            Inl e \<Rightarrow> Inl e
          | Inr states \<Rightarrow> (case for_each (local_row d) [1..<n] (states, block) of
              Inl e \<Rightarrow> Inl e
            | Inr blocks \<Rightarrow> for_each (smaller_cell (fst blocks)) [0..<n] INT_MAX))))"

text \<open>The first cells of a block hold the values of a list.\<close>

definition holds :: "'a option list \<Rightarrow> 'a list \<Rightarrow> bool" where
  "holds block xs \<longleftrightarrow> length xs \<le> length block \<and> (\<forall>k<length xs. block ! k = Some (xs ! k))"

lemma holds_cell: "holds block xs \<Longrightarrow> k < length xs \<Longrightarrow> cell_at block k = Inr (xs ! k)"
  by (simp add: holds_def cell_at_def vec_at_def)

lemma holds_take_Suc:
  "holds block (take j xs) \<Longrightarrow> j < length xs \<Longrightarrow> j < length block \<Longrightarrow>
     holds (block[j := Some (xs ! j)]) (take (Suc j) xs)"
  by (auto simp: holds_def nth_list_update less_Suc_eq)

lemma local_cell_value:
  assumes "triangle d" and "levels_ok d" and "Suc i < length d" and "holds states (level d i)" and "j \<le> Suc i"
  shows "local_cell d (Suc i) states j temp = vec_put j (Some (level d (Suc i) ! j)) temp"
proof -
  have c: "k \<le> i \<Longrightarrow> cell_at states k = Inr (level d i ! k)" for k
    using holds_cell [OF assms(4)] by simp
  have "(if j = 0 then cell_at states 0 else if j = Suc i then cell_at states (j - 1)
      else cell_min states (j - 1) j) = Inr (above (level d i) j)"
    using assms(5) by (auto simp: c above_def cell_min_def)
  moreover have "int_ok (above (level d i) j + d ! Suc i ! j)"
    using levels_ok_nth [OF assms(2,3), of j] assms(5) level_nth [OF assms(5), of d] by (simp del: level.simps)
  ultimately show ?thesis
    using triangle_entry [OF assms(1,3,5)] level_nth [OF assms(5), of d] by (simp add: local_cell_def del: level.simps)
qed

lemma local_row_level:
  assumes "triangle d" and "levels_ok d" and "Suc i < length d"
    and "holds states (level d i)" and "length states = length d" and "length temp = length d"
  shows "\<exists>states' temp'. local_row d (Suc i) (states, temp) = Inr (states', temp') \<and>
    holds states' (level d (Suc i)) \<and> length states' = length d \<and> length temp' = length d"
proof -
  let ?L = "level d (Suc i)"
  have "\<exists>temp'. for_each (local_cell d (Suc i) states) [0..<Suc (Suc i)] temp = Inr temp' \<and>
      holds temp' (take (Suc (Suc i)) ?L) \<and> length temp' = length d"
    using assms(3,6) local_cell_value [OF assms(1-4)] holds_take_Suc [of _ _ ?L]
    by (intro for_each_inv) (auto simp: vec_put_def holds_def simp del: level.simps)
  then obtain temp' where t: "for_each (local_cell d (Suc i) states) [0..<Suc (Suc i)] temp = Inr temp'"
    "holds temp' ?L" "length temp' = length d" by auto
  have "\<exists>states'. for_each (copy_cell temp') [0..<Suc (Suc i)] states = Inr states' \<and>
      holds states' (take (Suc (Suc i)) ?L) \<and> length states' = length d"
    using assms(3,5) holds_cell [OF t(2)] holds_take_Suc [of _ _ ?L]
    by (intro for_each_inv) (auto simp: copy_cell_def vec_put_def holds_def simp del: level.simps)
  then show ?thesis using t by (auto simp: local_row_def simp del: level.simps upt_Suc)
qed

lemma smaller_cells:
  assumes "holds states xs"
  shows "for_each (smaller_cell states) [0..<length xs] m = Inr (fold min xs m)"
proof -
  have "\<exists>r. for_each (smaller_cell states) [0..<length xs] m = Inr r \<and> r = fold min (take (length xs) xs) m"
    using holds_cell [OF assms]
    by (intro for_each_inv) (auto simp: smaller_cell_def take_Suc_conv_app_nth min_def)
  then show ?thesis by simp
qed

lemma fold_min_Min:
  assumes "xs \<noteq> []" and "\<forall>x\<in>set xs. x \<le> m"
  shows "fold min xs m = Min (set xs)"
proof -
  have "fold min xs m = Min (set (m # xs))" by (rule Min.set_eq_fold [symmetric])
  also have "\<dots> = min m (Min (set xs))" using assms(1) by simp
  also have "\<dots> = Min (set xs)" using assms by (simp add: min_absorb2)
  finally show ?thesis .
qed

text \<open>The sequential job gives the least of the last level.\<close>

lemma LocalYanghuiJob_value:
  assumes "triangle d" and "levels_ok d"
  shows "LocalYanghuiJob d = Inr (Min (set (last_level d)))"
proof -
  have ne: "d \<noteq> []" using assms(1) by (simp add: triangle_def)
  then obtain n where n: "length d = Suc n" by (cases d) auto
  let ?start = "(replicate (length d) None)[0 := Some (d ! 0 ! 0)]"
  have "\<exists>b. for_each (local_row d) [1..<length d] (?start, replicate (length d) None) = Inr b \<and>
      holds (fst b) (level d (length d - 1)) \<and> length (fst b) = length d \<and> length (snd b) = length d"
  proof (rule for_each_inv [where P = "\<lambda>i b. holds (fst b) (level d (i - 1)) \<and> length (fst b) = length d
      \<and> length (snd b) = length d"])
    fix j and b :: "int option list \<times> int option list"
    assume j: "1 \<le> j" "j < length d"
      and b: "holds (fst b) (level d (j - 1)) \<and> length (fst b) = length d \<and> length (snd b) = length d"
    then show "\<exists>b'. local_row d j b = Inr b' \<and> holds (fst b') (level d (Suc j - 1)) \<and>
        length (fst b') = length d \<and> length (snd b') = length d"
      using local_row_level [OF assms, of "j - 1" "fst b" "snd b"] by (auto simp del: level.simps)
  qed (use n in \<open>simp_all add: holds_def\<close>)
  then obtain b where b: "for_each (local_row d) [1..<length d] (?start, replicate (length d) None) = Inr b"
    "holds (fst b) (last_level d)" by (auto simp: last_level_def)
  have l: "length (last_level d) = length d" "\<forall>x\<in>set (last_level d). x \<le> INT_MAX"
    using last_level_ok [OF assms(2) ne] int_ok_le_MAX by auto
  have "for_each (smaller_cell (fst b)) [0..<length d] INT_MAX = Inr (Min (set (last_level d)))"
    using smaller_cells [OF b(2)] fold_min_Min [OF last_level_nonempty l(2)] l(1) by simp
  moreover have "entry_at d 0 0 = Inr (d ! 0 ! 0)" using triangle_entry [OF assms(1)] n by simp
  ultimately show ?thesis using b(1) n by (simp add: LocalYanghuiJob_def Let_def vec_put_def)
qed

lemma LocalYanghuiJob_empty: "LocalYanghuiJob [] = Inl UndefinedBehaviour"
  by (simp add: LocalYanghuiJob_def Let_def vec_put_def)

end
