(* ===== verification/Yanghui_Counter.thy ===== *)
theory Yanghui_Counter
  imports Yanghui_Triangle Actor_Helpers
begin

text \<open>
  The standard job: the \<open>yanghui\<close> actor (\<open>yanghui_actor.cc\<close>) computes the triangle with a
  \<open>counter_interface\<close> that adds two numbers and takes the least of several, each call
  returning an error code. The interface is a locale; it is provided by \<open>FakeCounter\<close>, by
  the cluster over an \<open>ActorUnion\<close> and by the one over a router pool, whose workers are the
  calculators (\<open>yanghui_demo_calculator.cc\<close>).
\<close>

section \<open>The workers\<close>

record number_compare_data =
  numbers :: "int list"
  index :: int

definition compare_loop :: "int list \<Rightarrow> int \<Rightarrow> int" where
  "compare_loop xs r = fold (\<lambda>number r. if number < r then number else r) xs r"

lemma compare_loop_fold: "compare_loop xs r = fold min xs r"
  by (induction xs arbitrary: r) (simp_all add: compare_loop_def min_def)

lemma compare_loop_MAX: "xs \<noteq> [] \<Longrightarrow> \<forall>x\<in>set xs. int_ok x \<Longrightarrow> compare_loop xs INT_MAX = Min (set xs)"
  by (simp add: compare_loop_fold fold_min_Min int_ok_le_MAX)

lemma compare_loop_hd: "xs \<noteq> [] \<Longrightarrow> compare_loop xs (xs ! 0) = Min (set xs)"
proof -
  assume ne: "xs \<noteq> []"
  have "compare_loop xs (xs ! 0) = Min (set (xs ! 0 # xs))"
    by (simp add: compare_loop_fold Min.set_eq_fold [symmetric])
  also have "set (xs ! 0 # xs) = set xs" using ne by (auto intro: nth_mem)
  finally show ?thesis .
qed

text \<open>\<open>calculator_fun\<close>. The task with a position is answered by a value-initialised struct.\<close>

definition calculator_add :: "int \<Rightarrow> int \<Rightarrow> cpp_exn + int" where
  "calculator_add a b = add_int a b"

definition calculator_add_at :: "int \<Rightarrow> int \<Rightarrow> int \<Rightarrow> int \<times> int" where
  "calculator_add_at a b position = (0, 0)"

definition calculator_compare :: "number_compare_data \<Rightarrow> int" where
  "calculator_compare d = (if numbers d = [] then 999 else compare_loop (numbers d) (numbers d ! 0))"

text \<open>\<open>sleep_calculator_fun\<close> counts the messages it deals with, but not those with a position.\<close>

definition sleep_calculator_add :: "int \<Rightarrow> int \<Rightarrow> u32 \<Rightarrow> (cpp_exn + int) \<times> u32" where
  "sleep_calculator_add a b deal_msg_count = (add_int a b, deal_msg_count + 1)"

definition sleep_calculator_add_at :: "int \<Rightarrow> int \<Rightarrow> int \<Rightarrow> u32 \<Rightarrow> (int \<times> int) \<times> u32" where
  "sleep_calculator_add_at a b position deal_msg_count = ((0, 0), deal_msg_count)"

definition sleep_calculator_compare :: "number_compare_data \<Rightarrow> u32 \<Rightarrow> int \<times> u32" where
  "sleep_calculator_compare d deal_msg_count =
     (if numbers d = [] then (999, deal_msg_count + 1)
      else (compare_loop (numbers d) (numbers d ! 0), deal_msg_count + 1))"

section \<open>The interface\<close>

text \<open>
  How a call, or the whole actor, may end: with an exception, by waiting for ever for an
  answer that does not come, or by returning. A call that returns gives the error code and
  the value of the reference parameter.
\<close>

datatype stop = Raised cpp_exn | Blocked | Returned int

type_synonym 'c call = "'c \<times> (stop + int \<times> int)"

text \<open>What the code relies on: a call returns, and its result is right unless it reports an error.\<close>

definition call_right :: "('c \<Rightarrow> bool) \<Rightarrow> int \<Rightarrow> 'c call \<Rightarrow> bool" where
  "call_right ready v r \<longleftrightarrow> (\<exists>c' e x. r = (c', Inr (e, x)) \<and> ready c' \<and> (e = 0 \<longrightarrow> x = v))"

definition call_fails :: "'c call \<Rightarrow> bool" where
  "call_fails r \<longleftrightarrow> (\<exists>c' e x. r = (c', Inr (e, x)) \<and> e \<noteq> 0)"

section \<open>The actor\<close>

definition vec_min :: "int list \<Rightarrow> nat \<Rightarrow> nat \<Rightarrow> cpp_exn + int" where
  "vec_min xs i j = (case vec_at xs i of Inl e \<Rightarrow> Inl e
     | Inr a \<Rightarrow> (case vec_at xs j of Inl e \<Rightarrow> Inl e | Inr b \<Rightarrow> Inr (min a b)))"

definition yanghui_cell ::
  "('c \<Rightarrow> int \<Rightarrow> int \<Rightarrow> 'c call) \<Rightarrow> int list list \<Rightarrow> nat \<Rightarrow> int list \<Rightarrow> nat \<Rightarrow> 'c \<times> int list
     \<Rightarrow> 'c \<times> stop + 'c \<times> int list" where
  "yanghui_cell AddNumber d i states j ct =
     (case ct of (c, temp_states) \<Rightarrow>
       (case (if j = 0 then vec_at states 0
              else if j = i then vec_at states (j - 1)
              else vec_min states (j - 1) j) of
          Inl e \<Rightarrow> Inl (c, Raised e)
        | Inr s \<Rightarrow> (case entry_at d i j of
            Inl e \<Rightarrow> Inl (c, Raised e)
          | Inr x \<Rightarrow> (case vec_at temp_states j of
              Inl e \<Rightarrow> Inl (c, Raised e)
            | Inr _ \<Rightarrow> (case AddNumber c s x of
                (c', Inl st) \<Rightarrow> Inl (c', st)
              | (c', Inr (error, r)) \<Rightarrow>
                  if error \<noteq> 0 then Inl (c', Returned INT_MAX) else Inr (c', temp_states[j := r]))))))"

definition copy_entry :: "int list \<Rightarrow> nat \<Rightarrow> int list \<Rightarrow> cpp_exn + int list" where
  "copy_entry temp_states k states =
     (case vec_at temp_states k of Inl e \<Rightarrow> Inl e | Inr v \<Rightarrow> vec_put k v states)"

definition yanghui_row ::
  "('c \<Rightarrow> int \<Rightarrow> int \<Rightarrow> 'c call) \<Rightarrow> int list list \<Rightarrow> nat \<Rightarrow> 'c \<times> int list \<times> int list
     \<Rightarrow> 'c \<times> stop + 'c \<times> int list \<times> int list" where
  "yanghui_row AddNumber d i cst =
     (case cst of (c, states, temp_states) \<Rightarrow>
       (case for_each (yanghui_cell AddNumber d i states) [0..<Suc i] (c, temp_states) of
          Inl r \<Rightarrow> Inl r
        | Inr (c', temp_states) \<Rightarrow> (case for_each (copy_entry temp_states) [0..<Suc i] states of
            Inl e \<Rightarrow> Inl (c', Raised e)
          | Inr states \<Rightarrow> Inr (c', states, temp_states))))"

definition compare_states :: "('c \<Rightarrow> int list \<Rightarrow> 'c call) \<Rightarrow> int list \<Rightarrow> 'c \<Rightarrow> 'c \<times> stop" where
  "compare_states Compare states c =
     (case Compare c states of
        (c', Inl st) \<Rightarrow> (c', st)
      | (c', Inr (error, min_sum)) \<Rightarrow> (c', Returned (if error \<noteq> 0 then INT_MAX else min_sum)))"

definition yanghui ::
  "('c \<Rightarrow> int \<Rightarrow> int \<Rightarrow> 'c call) \<Rightarrow> ('c \<Rightarrow> int list \<Rightarrow> 'c call) \<Rightarrow> int list list \<Rightarrow> 'c \<Rightarrow> 'c \<times> stop" where
  "yanghui AddNumber Compare d c =
     (let n = length d; zeros = replicate n 0 in
      case vec_put 0 1 zeros of
        Inl e \<Rightarrow> (c, Raised e)
      | Inr states \<Rightarrow> (case entry_at d 0 0 of
          Inl e \<Rightarrow> (c, Raised e)
        | Inr x \<Rightarrow> (case for_each (yanghui_row AddNumber d) [1..<n] (c, states[0 := x], zeros) of
            Inl r \<Rightarrow> r
          | Inr (c', states, _) \<Rightarrow> compare_states Compare states c')))"

text \<open>The behaviour with its second handler, which ends the actor.\<close>

datatype yanghui_message = TriangleData "int list list" | Text string

fun yanghui_behavior ::
  "('c \<Rightarrow> int \<Rightarrow> int \<Rightarrow> 'c call) \<Rightarrow> ('c \<Rightarrow> int list \<Rightarrow> 'c call) \<Rightarrow> yanghui_message \<Rightarrow> bool \<times> 'c
     \<Rightarrow> (bool \<times> 'c) \<times> stop" where
  "yanghui_behavior AddNumber Compare (TriangleData d) (alive, c) =
     (case yanghui AddNumber Compare d c of (c', r) \<Rightarrow> ((alive, c'), r))"
| "yanghui_behavior AddNumber Compare (Text s) (alive, c) = ((False, c), Returned 0)"

section \<open>What the actor computes over any provider\<close>

locale counter_interface =
  fixes AddNumber :: "'c \<Rightarrow> int \<Rightarrow> int \<Rightarrow> 'c call"
    and Compare :: "'c \<Rightarrow> int list \<Rightarrow> 'c call"
    and ready :: "'c \<Rightarrow> bool"
  assumes add_right: "ready c \<Longrightarrow> int_ok (a + b) \<Longrightarrow> call_right ready (a + b) (AddNumber c a b)"
    and compare_right: "ready c \<Longrightarrow> xs \<noteq> [] \<Longrightarrow> \<forall>x\<in>set xs. int_ok x \<Longrightarrow>
      call_right ready (Min (set xs)) (Compare c xs)"
begin

definition some_call_fails :: bool where
  "some_call_fails \<longleftrightarrow> (\<exists>c a b. ready c \<and> call_fails (AddNumber c a b)) \<or> (\<exists>c xs. ready c \<and> call_fails (Compare c xs))"

definition gave_up :: "'c \<times> stop \<Rightarrow> bool" where
  "gave_up r \<longleftrightarrow> ready (fst r) \<and> snd r = Returned INT_MAX \<and> some_call_fails"

lemma cell_value:
  assumes "triangle d" and "levels_ok d" and "Suc i < length d" and "take (Suc i) states = level d i"
    and "j \<le> Suc i" and "ready c" and "j < length temp"
  shows "(\<exists>c'. ready c' \<and> yanghui_cell AddNumber d (Suc i) states j (c, temp) = Inr (c', temp[j := level d (Suc i) ! j]))
    \<or> (\<exists>r. yanghui_cell AddNumber d (Suc i) states j (c, temp) = Inl r \<and> gave_up r)"
proof -
  let ?s = "above (level d i) j" and ?x = "d ! Suc i ! j"
  have len: "Suc i \<le> length states" using arg_cong [OF assms(4), of length] by simp
  have "k \<le> i \<Longrightarrow> states ! k = level d i ! k" for k using assms(4) nth_take [of k "Suc i" states] by simp
  then have c: "k \<le> i \<Longrightarrow> vec_at states k = Inr (level d i ! k)" for k
    using len by (simp add: vec_at_def)
  have s: "(if j = 0 then vec_at states 0 else if j = Suc i then vec_at states (j - 1)
      else vec_min states (j - 1) j) = Inr ?s"
    using assms(5) by (auto simp: c above_def vec_min_def)
  have v: "level d (Suc i) ! j = ?s + ?x" by (rule level_nth [OF assms(5)])
  then have "int_ok (?s + ?x)" using levels_ok_nth [OF assms(2,3,5)] by simp
  then have "call_right ready (?s + ?x) (AddNumber c ?s ?x)" using add_right [OF assms(6)] by blast
  then obtain c' e r where r: "AddNumber c ?s ?x = (c', Inr (e, r))" "ready c'" "e = 0 \<longrightarrow> r = ?s + ?x"
    by (auto simp: call_right_def)
  have "e \<noteq> 0 \<Longrightarrow> some_call_fails"
    unfolding some_call_fails_def call_fails_def using assms(6) r(1) by blast
  then show ?thesis
    using r s v triangle_entry [OF assms(1,3,5)] assms(7)
    by (auto simp: yanghui_cell_def vec_at_def gave_up_def simp del: level.simps)
qed

lemma row_value:
  assumes "triangle d" and "levels_ok d" and "Suc i < length d" and "take (Suc i) states = level d i"
    and "length states = length d" and "length temp = length d" and "ready c"
  shows "(\<exists>c' states' temp'. yanghui_row AddNumber d (Suc i) (c, states, temp) = Inr (c', states', temp') \<and> ready c' \<and>
      take (Suc (Suc i)) states' = level d (Suc i) \<and> length states' = length d \<and> length temp' = length d)
    \<or> (\<exists>r. yanghui_row AddNumber d (Suc i) (c, states, temp) = Inl r \<and> gave_up r)"
proof -
  let ?L = "level d (Suc i)"
  have step: "take (Suc j) (xs[j := ?L ! j]) = take (Suc j) ?L"
    if "take j xs = take j ?L" "j \<le> Suc i" "j < length xs" for j and xs :: "int list"
    using that by (simp add: take_Suc_conv_app_nth del: level.simps)
  have "(\<exists>ct. for_each (yanghui_cell AddNumber d (Suc i) states) [0..<Suc (Suc i)] (c, temp) = Inr ct \<and>
      ready (fst ct) \<and> length (snd ct) = length d \<and> take (Suc (Suc i)) (snd ct) = take (Suc (Suc i)) ?L) \<or>
    (\<exists>r. for_each (yanghui_cell AddNumber d (Suc i) states) [0..<Suc (Suc i)] (c, temp) = Inl r \<and> gave_up r)"
  proof (rule for_each_rule)
    fix j and ct :: "'c \<times> int list"
    assume j: "j < Suc (Suc i)"
      and P: "ready (fst ct) \<and> length (snd ct) = length d \<and> take j (snd ct) = take j ?L"
    then show "(\<exists>ct'. yanghui_cell AddNumber d (Suc i) states j ct = Inr ct' \<and> ready (fst ct') \<and>
        length (snd ct') = length d \<and> take (Suc j) (snd ct') = take (Suc j) ?L) \<or>
      (\<exists>r. yanghui_cell AddNumber d (Suc i) states j ct = Inl r \<and> gave_up r)"
      using cell_value [OF assms(1-4), of j "fst ct" "snd ct"] step [of j "snd ct"] assms(3)
      by (auto simp del: level.simps)
  qed (use assms in simp_all)
  then show ?thesis
  proof (elim disjE exE conjE)
    fix ct assume ct: "for_each (yanghui_cell AddNumber d (Suc i) states) [0..<Suc (Suc i)] (c, temp) = Inr ct"
      "ready (fst ct)" "length (snd ct) = length d" "take (Suc (Suc i)) (snd ct) = take (Suc (Suc i)) ?L"
    then have t: "j \<le> Suc i \<Longrightarrow> vec_at (snd ct) j = Inr (?L ! j)" for j
      using nth_take [of j "Suc (Suc i)" "snd ct"] assms(3) by (simp add: vec_at_def del: level.simps)
    have "\<exists>st. for_each (copy_entry (snd ct)) [0..<Suc (Suc i)] states = Inr st \<and>
        (length st = length d \<and> take (Suc (Suc i)) st = take (Suc (Suc i)) ?L)"
    proof (rule for_each_inv)
      fix j and st :: "int list"
      assume "j < Suc (Suc i)" and "length st = length d \<and> take j st = take j ?L"
      then show "\<exists>st'. copy_entry (snd ct) j st = Inr st' \<and> (length st' = length d \<and> take (Suc j) st' = take (Suc j) ?L)"
        using t [of j] step [of j st] assms(3) by (auto simp: copy_entry_def vec_put_def simp del: level.simps)
    qed (use assms in simp_all)
    then show ?thesis using ct by (auto simp: yanghui_row_def simp del: level.simps upt_Suc split: prod.splits)
  next
    fix r assume "for_each (yanghui_cell AddNumber d (Suc i) states) [0..<Suc (Suc i)] (c, temp) = Inl r" "gave_up r"
    then show ?thesis by (simp add: yanghui_row_def del: upt_Suc)
  qed
qed

lemma yanghui_value:
  assumes "triangle d" and "levels_ok d" and "ready c"
  shows "\<exists>c'. ready c' \<and> (yanghui AddNumber Compare d c = (c', Returned (Min (set (last_level d)))) \<or>
    yanghui AddNumber Compare d c = (c', Returned INT_MAX) \<and> some_call_fails)"
proof -
  have ne: "d \<noteq> []" using assms(1) by (simp add: triangle_def)
  then obtain n where n: "length d = Suc n" by (cases d) auto
  let ?start = "(c, (replicate (length d) 0)[0 := d ! 0 ! 0], replicate (length d) 0)"
  let ?P = "\<lambda>i (c, states, temp). ready c \<and> take i states = level d (i - 1) \<and> length states = length d
      \<and> length temp = length d"
  have "(\<exists>s. for_each (yanghui_row AddNumber d) [1..<length d] ?start = Inr s \<and> ?P (length d) s) \<or>
    (\<exists>r. for_each (yanghui_row AddNumber d) [1..<length d] ?start = Inl r \<and> gave_up r)"
  proof (rule for_each_rule [where P = ?P])
    fix j and s :: "'c \<times> int list \<times> int list"
    assume "1 \<le> j" "j < length d" "?P j s"
    then show "(\<exists>s'. yanghui_row AddNumber d j s = Inr s' \<and> ?P (Suc j) s') \<or>
        (\<exists>r. yanghui_row AddNumber d j s = Inl r \<and> gave_up r)"
      using row_value [OF assms(1,2), of "j - 1" "fst (snd s)" "snd (snd s)" "fst s"]
      by (cases s) (auto simp del: level.simps)
  qed (use n assms(3) in \<open>simp_all add: take_Suc\<close>)
  moreover have "entry_at d 0 0 = Inr (d ! 0 ! 0)" using triangle_entry [OF assms(1)] n by simp
  moreover have "vec_put 0 1 (replicate (length d) 0) = Inr ((replicate (length d) (0::int))[0 := 1])"
    using n by (simp add: vec_put_def)
  ultimately have "(\<exists>c1. yanghui AddNumber Compare d c = compare_states Compare (last_level d) c1 \<and> ready c1) \<or>
    gave_up (yanghui AddNumber Compare d c)"
    using n by (auto simp: yanghui_def Let_def last_level_def split: prod.splits)
  then show ?thesis
  proof (elim disjE exE conjE)
    fix c1 assume c1: "ready c1" "yanghui AddNumber Compare d c = compare_states Compare (last_level d) c1"
    have "call_right ready (Min (set (last_level d))) (Compare c1 (last_level d))"
      using compare_right [OF c1(1) last_level_nonempty] last_level_ok(2) [OF assms(2) ne] by blast
    then obtain c' e x where r: "Compare c1 (last_level d) = (c', Inr (e, x))" "ready c'"
      "e = 0 \<longrightarrow> x = Min (set (last_level d))" by (auto simp: call_right_def)
    have "e \<noteq> 0 \<Longrightarrow> some_call_fails"
      unfolding some_call_fails_def call_fails_def using c1(1) r(1) by blast
    then show ?thesis using c1(2) r by (auto simp: compare_states_def)
  next
    assume "gave_up (yanghui AddNumber Compare d c)"
    then show ?thesis by (cases "yanghui AddNumber Compare d c") (auto simp: gave_up_def)
  qed
qed

end

text \<open>A provider whose calls never fail gives the result itself.\<close>

locale reliable_counter = counter_interface +
  assumes add_succeeds: "ready c \<Longrightarrow> \<not> call_fails (AddNumber c a b)"
    and compare_succeeds: "ready c \<Longrightarrow> \<not> call_fails (Compare c xs)"
begin

lemma yanghui_exact:
  assumes "triangle d" and "levels_ok d" and "ready c"
  shows "\<exists>c'. yanghui AddNumber Compare d c = (c', Returned (Min (set (last_level d))))"
proof -
  have "\<not> some_call_fails" using add_succeeds compare_succeeds by (auto simp: some_call_fails_def)
  then show ?thesis using yanghui_value [OF assms] by blast
qed

end

section \<open>The providers\<close>

text \<open>\<open>FakeCounter\<close> (\<open>fake_counter.cc\<close>) has no state.\<close>

definition fake_AddNumber :: "unit \<Rightarrow> int \<Rightarrow> int \<Rightarrow> unit call" where
  "fake_AddNumber c a b = (c, case add_int a b of Inl e \<Rightarrow> Inl (Raised e) | Inr r \<Rightarrow> Inr (0, r))"

definition fake_Compare :: "unit \<Rightarrow> int list \<Rightarrow> unit call" where
  "fake_Compare c xs = (c, Inr (0, compare_loop xs INT_MAX))"

interpretation fake: reliable_counter fake_AddNumber fake_Compare "\<lambda>_. True"
  by unfold_locales
    (auto simp: call_right_def call_fails_def fake_AddNumber_def fake_Compare_def compare_loop_MAX split: sum.splits)

text \<open>
  The cluster over an \<open>ActorUnion\<close> (\<open>actor_union_count_cluster.cc\<close>). Its state is the number
  of calls made; \<open>script k\<close> are the outcomes of the requests of call \<open>k\<close>. The worker that answers
  is a calculator; the data of a comparison leaves its index unset, which no calculator reads.
\<close>

definition union_call :: "actor_union \<Rightarrow> (nat \<Rightarrow> outcome list) \<Rightarrow> cpp_exn + int \<Rightarrow> nat \<Rightarrow> nat call" where
  "union_call u script answer k =
     (Suc k, case last (union_SendAndReceive (script k) u) of
        UnionReturn \<Rightarrow> (case answer of Inl e \<Rightarrow> Inl (Raised e) | Inr ret \<Rightarrow> Inr (0, ret))
      | UnionError e \<Rightarrow> Inr (1, INT_MAX)
      | AllActorOutOfWork \<Rightarrow> Inr (1, INT_MAX)
      | PoolRequest \<Rightarrow> Inl Blocked)"

definition union_AddNumber :: "actor_union \<Rightarrow> (nat \<Rightarrow> outcome list) \<Rightarrow> nat \<Rightarrow> int \<Rightarrow> int \<Rightarrow> nat call" where
  "union_AddNumber u script k a b = union_call u script (calculator_add a b) k"

definition union_Compare :: "actor_union \<Rightarrow> (nat \<Rightarrow> outcome list) \<Rightarrow> nat \<Rightarrow> int list \<Rightarrow> nat call" where
  "union_Compare u script k xs = union_call u script (Inr (calculator_compare \<lparr>numbers = xs, index = 0\<rparr>)) k"

definition union_ends :: "actor_union \<Rightarrow> outcome list \<Rightarrow> bool" where
  "union_ends u rs \<longleftrightarrow> last (union_SendAndReceive rs u) \<noteq> PoolRequest"

lemma calculator_compare_Min: "xs \<noteq> [] \<Longrightarrow> calculator_compare \<lparr>numbers = xs, index = i\<rparr> = Min (set xs)"
  by (simp add: calculator_compare_def compare_loop_hd)

lemma union_call_right:
  assumes "union_ends u (script k)" and "ready (Suc k)"
  shows "call_right ready v (union_call u script (Inr v) k)"
  using assms by (auto simp: call_right_def union_call_def union_ends_def split: union_action.splits)

interpretation union: counter_interface "union_AddNumber u script" "union_Compare u script"
    "\<lambda>k. \<forall>j\<ge>k. union_ends u (script j)" for u script
  by unfold_locales
    (simp_all add: union_AddNumber_def union_Compare_def calculator_add_def calculator_compare_Min union_call_right)

text \<open>The cluster over a router pool (\<open>router_pool_count_cluster.cc\<close>): one request for each call.\<close>

definition pool_call :: "(nat \<Rightarrow> outcome option) \<Rightarrow> cpp_exn + int \<Rightarrow> nat \<Rightarrow> nat call" where
  "pool_call script answer k =
     (Suc k, case script k of
        None \<Rightarrow> Inl Blocked
      | Some Answer \<Rightarrow> (case answer of Inl e \<Rightarrow> Inl (Raised e) | Inr ret \<Rightarrow> Inr (0, ret))
      | Some _ \<Rightarrow> Inr (1, INT_MAX))"

definition pool_AddNumber :: "(nat \<Rightarrow> outcome option) \<Rightarrow> nat \<Rightarrow> int \<Rightarrow> int \<Rightarrow> nat call" where
  "pool_AddNumber script k a b = pool_call script (calculator_add a b) k"

definition pool_Compare :: "(nat \<Rightarrow> outcome option) \<Rightarrow> nat \<Rightarrow> int list \<Rightarrow> nat call" where
  "pool_Compare script k xs = pool_call script (Inr (calculator_compare \<lparr>numbers = xs, index = 0\<rparr>)) k"

lemma pool_call_right:
  assumes "script k \<noteq> None" and "ready (Suc k)"
  shows "call_right ready v (pool_call script (Inr v) k)"
  using assms by (auto simp: call_right_def pool_call_def split: option.splits outcome.splits)

interpretation pool: counter_interface "pool_AddNumber script" "pool_Compare script" "\<lambda>k. \<forall>j\<ge>k. script j \<noteq> None" for script
  by unfold_locales
    (simp_all add: pool_AddNumber_def pool_Compare_def calculator_add_def calculator_compare_Min pool_call_right)

text \<open>A job over either returns, and returns the result of the sequential job or \<open>INT_MAX\<close>.\<close>

lemma yanghui_over_fake:
  "triangle d \<Longrightarrow> levels_ok d \<Longrightarrow> \<exists>r. yanghui fake_AddNumber fake_Compare d () = ((), Returned r) \<and> LocalYanghuiJob d = Inr r"
  using fake.yanghui_exact by (simp add: LocalYanghuiJob_value)

lemma yanghui_over_pool:
  assumes "triangle d" and "levels_ok d" and "\<And>k. script k \<noteq> None"
  shows "\<exists>k r. yanghui (pool_AddNumber script) (pool_Compare script) d 0 = (k, Returned r) \<and>
    (LocalYanghuiJob d = Inr r \<or> r = INT_MAX)"
  using pool.yanghui_value [where script = script and c = 0, OF assms(1,2)] assms(3)
    LocalYanghuiJob_value [OF assms(1,2)] by auto

lemma union_call_fails:
  "last (union_SendAndReceive (script k) u) = UnionReturn \<Longrightarrow> \<not> call_fails (union_call u script answer k)"
  by (auto simp: call_fails_def union_call_def split: sum.splits)

end
