(* ===== verification/Task_System.thy ===== *)
theory Task_System
  imports CDCF_Prelude "HOL-Library.Multiset"
begin

text \<open>
  An actor that hands tasks to workers and goes on when their results are back. The actor
  handles the messages of its mailbox in their order; a worker may finish any of the tasks
  under way, at any time, and its result is then at the end of the mailbox. So results
  arrive in every order.

  The locale says when such an actor comes to its end: there is a number of steps to go that
  every step lowers by one, and a step is possible until it is 0.
\<close>

section \<open>The system\<close>

datatype ('m, 't, 'o) sent = ToSelf 'm | ToWorker 't | ToClient 'o

record ('s, 'm, 't, 'o) task_system =
  ts_actor :: 's
  ts_inbox :: "'m list"
  ts_tasks :: "'t list"
  ts_out :: "'o list"

fun dispatch :: "('m, 't, 'o) sent list \<Rightarrow> ('s, 'm, 't, 'o) task_system \<Rightarrow> ('s, 'm, 't, 'o) task_system" where
  "dispatch [] S = S"
| "dispatch (ToSelf m # es) S = dispatch es (S\<lparr>ts_inbox := ts_inbox S @ [m]\<rparr>)"
| "dispatch (ToWorker t # es) S = dispatch es (S\<lparr>ts_tasks := ts_tasks S @ [t]\<rparr>)"
| "dispatch (ToClient v # es) S = dispatch es (S\<lparr>ts_out := ts_out S @ [v]\<rparr>)"

text \<open>A handler gives the new state, what it sends and the exception it ends with, if any.\<close>

type_synonym ('s, 'm, 't, 'o) handler = "'m \<Rightarrow> 's \<Rightarrow> 's \<times> ('m, 't, 'o) sent list \<times> cpp_exn option"

inductive task_step ::
  "('s, 'm, 't, 'o) handler \<Rightarrow> ('t \<Rightarrow> cpp_exn + 'm) \<Rightarrow> ('s, 'm, 't, 'o) task_system
     \<Rightarrow> ('s, 'm, 't, 'o) task_system \<Rightarrow> bool" for handler worker where
  handle: "ts_inbox S = m # ms \<Longrightarrow> handler m (ts_actor S) = (a, es, None) \<Longrightarrow>
    task_step handler worker S (dispatch es (S\<lparr>ts_actor := a, ts_inbox := ms\<rparr>))"
| work: "ts_tasks S = xs @ t # ys \<Longrightarrow> worker t = Inr m \<Longrightarrow>
    task_step handler worker S (S\<lparr>ts_tasks := xs @ ys, ts_inbox := ts_inbox S @ [m]\<rparr>)"

inductive_cases task_stepE: "task_step handler worker S S'"

definition stuck :: "('s, 'm, 't, 'o) handler \<Rightarrow> ('t \<Rightarrow> cpp_exn + 'm) \<Rightarrow> ('s, 'm, 't, 'o) task_system \<Rightarrow> bool" where
  "stuck handler worker S \<longleftrightarrow> (\<nexists>S'. task_step handler worker S S')"

lemma dispatch_actor [simp]: "ts_actor (dispatch es S) = ts_actor S"
  by (induction es S rule: dispatch.induct) simp_all

lemma dispatch_parts:
  "ts_inbox (dispatch es S) = ts_inbox S @ concat (map (\<lambda>e. case e of ToSelf m \<Rightarrow> [m] | _ \<Rightarrow> []) es)"
  "ts_tasks (dispatch es S) = ts_tasks S @ concat (map (\<lambda>e. case e of ToWorker t \<Rightarrow> [t] | _ \<Rightarrow> []) es)"
  "ts_out (dispatch es S) = ts_out S @ concat (map (\<lambda>e. case e of ToClient v \<Rightarrow> [v] | _ \<Rightarrow> []) es)"
  by (induction es S rule: dispatch.induct) simp_all

lemma dispatch_workers:
  "ts_inbox (dispatch (map (\<lambda>x. ToWorker (f x)) xs) S) = ts_inbox S"
  "ts_tasks (dispatch (map (\<lambda>x. ToWorker (f x)) xs) S) = ts_tasks S @ map f xs"
  "ts_out (dispatch (map (\<lambda>x. ToWorker (f x)) xs) S) = ts_out S"
  by (induction xs arbitrary: S) simp_all

text \<open>A step is possible whenever there is a message that is handled or a task that is worked on.\<close>

lemma can_handle: "ts_inbox S = m # ms \<Longrightarrow> handler m (ts_actor S) = (a, es, None) \<Longrightarrow> \<not> stuck handler worker S"
  unfolding stuck_def by (blast intro: task_step.handle)

lemma can_work: "t \<in> set (ts_tasks S) \<Longrightarrow> worker t = Inr m \<Longrightarrow> \<not> stuck handler worker S"
  unfolding stuck_def by (metis split_list task_step.work)

section \<open>Counting down\<close>

locale countdown =
  fixes handler :: "('s, 'm, 't, 'o) handler"
    and worker :: "'t \<Rightarrow> cpp_exn + 'm"
    and to_go :: "nat \<Rightarrow> ('s, 'm, 't, 'o) task_system \<Rightarrow> bool"
  assumes counts: "to_go r S \<Longrightarrow> task_step handler worker S S' \<Longrightarrow> \<exists>r'. r = Suc r' \<and> to_go r' S'"
    and goes_on: "to_go (Suc r) S \<Longrightarrow> \<not> stuck handler worker S"
begin

lemma run_counts:
  "(task_step handler worker ^^ n) S S' \<Longrightarrow> to_go r S \<Longrightarrow> n \<le> r \<and> to_go (r - n) S'"
proof (induction n arbitrary: S')
  case (Suc n)
  then obtain T where T: "(task_step handler worker ^^ n) S T" "task_step handler worker T S'" by auto
  then have "n \<le> r" "to_go (r - n) T" using Suc by blast+
  then obtain r' where "r - n = Suc r'" "to_go r' S'" using counts T(2) by blast
  then show ?case by (metis Suc_leI diff_Suc_Suc diff_diff_left add_Suc_right add_0_right zero_less_diff zero_less_Suc diff_Suc_1)
qed simp

text \<open>However the steps fall, they end after exactly \<open>r\<close> of them.\<close>

lemma stuck_iff_done:
  assumes "(task_step handler worker ^^ n) S S'" and "to_go r S"
  shows "stuck handler worker S' \<longleftrightarrow> n = r"
proof -
  have c: "n \<le> r" "to_go (r - n) S'" using run_counts [OF assms] by blast+
  show ?thesis
  proof
    assume "stuck handler worker S'"
    then show "n = r" using goes_on [of "r - n - 1" S'] c by (cases "r - n") auto
  next
    assume "n = r"
    then show "stuck handler worker S'" unfolding stuck_def using c counts [of 0 S'] by auto
  qed
qed

lemma run_exists: "to_go r S \<Longrightarrow> n \<le> r \<Longrightarrow> \<exists>S'. (task_step handler worker ^^ n) S S'"
proof (induction n)
  case (Suc n)
  then obtain T where T: "(task_step handler worker ^^ n) S T" by auto
  have "\<not> stuck handler worker T" using stuck_iff_done [OF T Suc.prems(1)] Suc.prems(2) by simp
  then show ?case using T unfolding stuck_def by auto
qed auto

end

section \<open>Simulation\<close>

text \<open>
  One such system by another: every step of the first is a step of the second, and the first is
  not stuck while the second goes on. Runs then correspond, step by step, and so do their ends.
\<close>

locale task_simulation =
  fixes handler :: "('s, 'm, 't, 'o) handler" and worker :: "'t \<Rightarrow> cpp_exn + 'm"
    and handler' :: "('s2, 'm2, 't2, 'o2) handler" and worker' :: "'t2 \<Rightarrow> cpp_exn + 'm2"
    and sim :: "('s, 'm, 't, 'o) task_system \<Rightarrow> ('s2, 'm2, 't2, 'o2) task_system \<Rightarrow> bool"
  assumes step: "sim S S' \<Longrightarrow> task_step handler worker S T \<Longrightarrow> \<exists>T'. task_step handler' worker' S' T' \<and> sim T T'"
    and progress: "sim S S' \<Longrightarrow> \<not> stuck handler' worker' S' \<Longrightarrow> \<not> stuck handler worker S"
begin

lemma run: "(task_step handler worker ^^ n) S T \<Longrightarrow> sim S S' \<Longrightarrow> \<exists>T'. (task_step handler' worker' ^^ n) S' T' \<and> sim T T'"
proof (induction n arbitrary: T)
  case (Suc n)
  then obtain U where U: "(task_step handler worker ^^ n) S U" "task_step handler worker U T" by auto
  then obtain U' where "(task_step handler' worker' ^^ n) S' U'" "sim U U'" using Suc by blast
  then obtain T' where "task_step handler' worker' U' T'" "sim T T'" using step U(2) by blast
  then show ?case using \<open>(task_step handler' worker' ^^ n) S' U'\<close> by auto
qed auto

lemma stuck_iff: "sim S S' \<Longrightarrow> stuck handler worker S \<longleftrightarrow> stuck handler' worker' S'"
  using progress step unfolding stuck_def by blast

end

text \<open>What is sent, under other names.\<close>

fun rename_sent :: "('m \<Rightarrow> 'm2) \<Rightarrow> ('o \<Rightarrow> 'o2) \<Rightarrow> ('m, 't, 'o) sent \<Rightarrow> ('m2, 't, 'o2) sent" where
  "rename_sent f g (ToSelf m) = ToSelf (f m)"
| "rename_sent f g (ToWorker t) = ToWorker t"
| "rename_sent f g (ToClient v) = ToClient (g v)"

lemma rename_parts:
  "concat (map (\<lambda>e. case e of ToSelf m \<Rightarrow> [m] | _ \<Rightarrow> []) (map (rename_sent f g) es)) =
     map f (concat (map (\<lambda>e. case e of ToSelf m \<Rightarrow> [m] | _ \<Rightarrow> []) es))"
  "concat (map (\<lambda>e. case e of ToWorker t \<Rightarrow> [t] | _ \<Rightarrow> []) (map (rename_sent f g) es)) =
     concat (map (\<lambda>e. case e of ToWorker t \<Rightarrow> [t] | _ \<Rightarrow> []) es)"
  "concat (map (\<lambda>e. case e of ToClient v \<Rightarrow> [v] | _ \<Rightarrow> []) (map (rename_sent f g) es)) =
     map g (concat (map (\<lambda>e. case e of ToClient v \<Rightarrow> [v] | _ \<Rightarrow> []) es))"
proof (induction es)
  case (Cons e es)
  {
    case 1
    show ?case using Cons by (cases e) simp_all
  next
    case 2
    show ?case using Cons by (cases e) simp_all
  next
    case 3
    show ?case using Cons by (cases e) simp_all
  }
qed simp_all

lemma dispatch_rename:
  "ts_inbox S' = map f (ts_inbox S) \<Longrightarrow> ts_inbox (dispatch (map (rename_sent f g) es) S') = map f (ts_inbox (dispatch es S))"
  "ts_tasks S' = ts_tasks S \<Longrightarrow> ts_tasks (dispatch (map (rename_sent f g) es) S') = ts_tasks (dispatch es S)"
  "ts_out S' = map g (ts_out S) \<Longrightarrow> ts_out (dispatch (map (rename_sent f g) es) S') = map g (ts_out (dispatch es S))"
  by (simp_all only: dispatch_parts rename_parts map_append)

section \<open>Collecting results\<close>

text \<open>
  What a round of tasks has still to bring: \<open>E\<close> are the numbered results of the round,
  \<open>got\<close> those already taken, the others are in the mailbox or still worked on.
\<close>

definition collecting ::
  "('t \<Rightarrow> cpp_exn + 'm) \<Rightarrow> ('k \<times> 'v \<Rightarrow> 'm) \<Rightarrow> ('k \<times> 'v) list \<Rightarrow> ('k \<times> 'v) list
     \<Rightarrow> ('s, 'm, 't, 'o) task_system \<Rightarrow> bool" where
  "collecting worker result E got S \<longleftrightarrow> (\<exists>res pend.
     ts_inbox S = map result res \<and> list_all2 (\<lambda>t p. worker t = Inr (result p)) (ts_tasks S) pend \<and>
     mset got + mset res + mset pend = mset E)"

definition weight :: "('s, 'm, 't, 'o) task_system \<Rightarrow> nat" where
  "weight S = 2 * length (ts_tasks S) + length (ts_inbox S)"

lemma collecting_start:
  assumes "ts_inbox S = []" and "list_all2 (\<lambda>t p. worker t = Inr (result p)) (ts_tasks S) E"
  shows "collecting worker result E [] S" and "weight S = 2 * length E"
  unfolding collecting_def using assms list_all2_lengthD [OF assms(2)]
  by (auto simp: weight_def intro!: exI [of _ "[]"] exI [of _ E])

lemma all_worked:
  "(\<And>p. p \<in> set E \<Longrightarrow> worker (task p) = Inr (result p)) \<Longrightarrow>
     list_all2 (\<lambda>t p. worker t = Inr (result p)) (map task E) E"
  by (simp add: list_all2_map1 list_all2_same)

lemma collecting_more:
  assumes "collecting worker result E got S" and "length got < length E"
  shows "0 < weight S"
proof -
  obtain res pend where rp: "ts_inbox S = map result res"
    "list_all2 (\<lambda>t p. worker t = Inr (result p)) (ts_tasks S) pend"
    "mset got + mset res + mset pend = mset E"
    using assms(1) by (auto simp: collecting_def)
  have "length got + length res + length pend = length E" using arg_cong [OF rp(3), of size] by simp
  then show ?thesis using rp(1) list_all2_lengthD [OF rp(2)] assms(2) by (auto simp: weight_def)
qed

lemma collecting_all:
  assumes "collecting worker result E got S" and "length got = length E"
  shows "ts_inbox S = []" and "ts_tasks S = []" and "mset got = mset E"
proof -
  obtain res pend where rp: "ts_inbox S = map result res"
    "list_all2 (\<lambda>t p. worker t = Inr (result p)) (ts_tasks S) pend"
    "mset got + mset res + mset pend = mset E"
    using assms(1) by (auto simp: collecting_def)
  have "length got + length res + length pend = length E" using arg_cong [OF rp(3), of size] by simp
  then have "res = []" "pend = []" using assms(2) by simp_all
  then show "ts_inbox S = []" "ts_tasks S = []" "mset got = mset E" using rp by simp_all
qed

lemma collecting_length:
  assumes "collecting worker result E got S"
  shows "length got \<le> length E"
proof -
  obtain res pend where "mset got + mset res + mset pend = mset E" using assms by (auto simp: collecting_def)
  from arg_cong [OF this, of size] show ?thesis by simp
qed

lemma collecting_head:
  fixes S :: "('s, 'm, 't, 'o) task_system"
  assumes "collecting worker result E got S" and "ts_inbox S = m # ms"
  obtains p where "m = result p" and "p \<in> set E" and "mset got + {#p#} \<subseteq># mset E"
    and "\<And>got' (S' :: ('s, 'm, 't, 'o) task_system). mset got' = add_mset p (mset got) \<Longrightarrow> ts_inbox S' = ms \<Longrightarrow> ts_tasks S' = ts_tasks S \<Longrightarrow>
      collecting worker result E got' S'"
proof -
  obtain res pend where rp: "ts_inbox S = map result res"
    "list_all2 (\<lambda>t p. worker t = Inr (result p)) (ts_tasks S) pend"
    "mset got + mset res + mset pend = mset E"
    using assms(1) by (auto simp: collecting_def)
  then obtain p res' where p: "res = p # res'" "m = result p" "ms = map result res'"
    using assms(2) by (cases res) auto
  have "p \<in># mset E" unfolding rp(3) [symmetric] p(1) by simp
  then have "p \<in> set E" by simp
  moreover have "mset got + {#p#} \<subseteq># mset E"
    unfolding rp(3) [symmetric] p(1) by (simp add: subset_mset.add_increasing2)
  moreover have "collecting worker result E got' S'"
    if "mset got' = add_mset p (mset got)" "ts_inbox S' = ms" "ts_tasks S' = ts_tasks S"
    for got' and S' :: "('s, 'm, 't, 'o) task_system"
    unfolding collecting_def using that rp p by (intro exI [of _ res'] exI [of _ pend]) simp
  ultimately show ?thesis using p(2) that by blast
qed

lemma collecting_works:
  assumes "collecting worker result E got S" and "ts_tasks S = xs @ t # ys" and "worker t = Inr m"
    and "ts_inbox S' = ts_inbox S @ [m]" and "ts_tasks S' = xs @ ys"
  shows "collecting worker result E got S'" and "weight S = Suc (weight S')"
proof -
  obtain res pend where rp: "ts_inbox S = map result res"
    "list_all2 (\<lambda>t p. worker t = Inr (result p)) (ts_tasks S) pend"
    "mset got + mset res + mset pend = mset E"
    using assms(1) by (auto simp: collecting_def)
  then obtain us p vs where p: "pend = us @ p # vs" "list_all2 (\<lambda>t p. worker t = Inr (result p)) xs us"
    "list_all2 (\<lambda>t p. worker t = Inr (result p)) ys vs" "m = result p"
    using assms(2,3) by (auto simp: list_all2_append1 list_all2_Cons1)
  show "collecting worker result E got S'"
    unfolding collecting_def using rp p assms(4,5)
    by (intro exI [of _ "res @ [p]"] exI [of _ "us @ vs"]) (simp add: list_all2_appendI ac_simps)
  show "weight S = Suc (weight S')" using assms(2,4,5) by (simp add: weight_def)
qed

lemma collecting_task:
  assumes "collecting worker result E got S" and "t \<in> set (ts_tasks S)"
  shows "\<exists>m. worker t = Inr m"
  using assms by (auto simp: collecting_def list_all2_conv_all_nth in_set_conv_nth)

text \<open>A result whose number is taken for the first time.\<close>

lemma new_number:
  assumes "mset got + {#(k, v)#} \<subseteq># mset E" and "distinct (map fst E)"
  shows "k \<notin> fst ` set got"
proof -
  have "mset (map fst got) + {#k#} \<subseteq># mset (map fst E)"
    using image_mset_subseteq_mono [OF assms(1), of fst] by simp
  from mset_subset_eq_count [OF this, of k]
  have "count (mset (map fst got)) k + 1 \<le> count (mset (map fst E)) k" by simp
  also have "\<dots> \<le> 1" using assms(2) by (simp add: distinct_count_atmost_1)
  finally have "count (mset (map fst got)) k = 0" by simp
  then have "k \<notin># mset (map fst got)" by (metis count_eq_zero_iff)
  then show ?thesis by (metis set_map set_mset_mset)
qed

end
