(* ===== verification/Yanghui_Load_Balance.thy ===== *)
theory Yanghui_Load_Balance
  imports Yanghui_Counter Task_System
begin

text \<open>
  The load balanced job (\<open>yanghui_sample_actor.cc\<close>): one actor computes the levels of the
  triangle, sending an addition for each entry of a level to the load balancer and going on
  when all of them are back; a second one takes the least of the last level in batches of
  three. The workers are \<open>simple_counter_add_load\<close> (\<open>simple_counter.cc\<close>); each task given out
  is answered once. Indices and identifiers, which only count up from 0, are naturals.
\<close>

section \<open>The workers\<close>

datatype add_task = Add2 int int nat | Add3 int int int nat

text \<open>\<open>simple_counter\<close>; the empty message has no value.\<close>

definition simple_counter_add :: "int \<Rightarrow> int \<Rightarrow> nat \<Rightarrow> cpp_exn + int \<times> nat" where
  "simple_counter_add a b ident = (case add_int a b of Inl e \<Rightarrow> Inl e | Inr r \<Rightarrow> Inr (r, ident))"

definition simple_counter_add3 :: "int \<Rightarrow> int \<Rightarrow> int \<Rightarrow> nat \<Rightarrow> cpp_exn + int \<times> nat" where
  "simple_counter_add3 a b c ident =
     (case (if a < b then add_int a c else add_int b c) of Inl e \<Rightarrow> Inl e | Inr r \<Rightarrow> Inr (r, ident))"

definition simple_counter_compare :: "number_compare_data \<Rightarrow> (int \<times> int) option" where
  "simple_counter_compare a =
     (if numbers a = [] then None else Some (compare_loop (numbers a) (numbers a ! 0), index a))"

text \<open>
  \<open>simple_counter_add_load\<close>: sums go to the actor named in the task, the least of a batch is
  the answer. The check for an empty batch does nothing.
\<close>

definition add_load_compare :: "number_compare_data \<Rightarrow> cpp_exn + int \<times> int" where
  "add_load_compare a =
     (case vec_at (numbers a) 0 of Inl e \<Rightarrow> Inl e | Inr r \<Rightarrow> Inr (compare_loop (numbers a) r, index a))"

fun add_load :: "add_task \<Rightarrow> cpp_exn + int \<times> nat" where
  "add_load (Add2 a b ident) = simple_counter_add a b ident"
| "add_load (Add3 a b c ident) = simple_counter_add3 a b c ident"

section \<open>Computing the levels\<close>

record path_state =
  ps_index :: nat
  ps_current_result :: "(nat \<times> int) list"
  ps_data :: "int list list"
  ps_message_sender :: "nat option"

definition new_path_state :: path_state where
  "new_path_state = \<lparr>ps_index = 0, ps_current_result = [], ps_data = [], ps_message_sender = None\<rparr>"

datatype path_msg = PathData nat "int list list" | PathIndex nat | PathResult int nat

text \<open>\<open>data[index - 1][first] = second\<close>\<close>

definition write_result :: "nat \<Rightarrow> nat \<times> int \<Rightarrow> int list list \<Rightarrow> cpp_exn + int list list" where
  "write_result i kv d =
     (case vec_at d (i - 1) of
        Inl e \<Rightarrow> Inl e
      | Inr row \<Rightarrow> (case vec_put (fst kv) (snd kv) row of Inl e \<Rightarrow> Inl e | Inr row' \<Rightarrow> vec_put (i - 1) row' d))"

definition path_task :: "int list list \<Rightarrow> nat \<Rightarrow> nat \<Rightarrow> add_task list \<Rightarrow> cpp_exn + add_task list" where
  "path_task d level_index i ts =
     (case entry_at d level_index i of
        Inl e \<Rightarrow> Inl e
      | Inr x \<Rightarrow>
          if i = 0 then (case entry_at d (level_index - 1) 0 of Inl e \<Rightarrow> Inl e | Inr a \<Rightarrow> Inr (ts @ [Add2 a x i]))
          else (case entry_at d (level_index - 1) (i - 1) of
              Inl e \<Rightarrow> Inl e
            | Inr a \<Rightarrow>
                if i = level_index then Inr (ts @ [Add2 a x i])
                else (case entry_at d (level_index - 1) i of Inl e \<Rightarrow> Inl e | Inr b \<Rightarrow> Inr (ts @ [Add3 a b x i]))))"

definition path_on_data ::
  "nat \<Rightarrow> int list list \<Rightarrow> path_state \<Rightarrow> path_state \<times> (path_msg, add_task, nat \<times> int list) sent list \<times> cpp_exn option" where
  "path_on_data sender d s =
     (let s = s\<lparr>ps_message_sender := Some sender, ps_data := d\<rparr> in
      case entry_at d 0 0 of
        Inl e \<Rightarrow> (s, [], Some e)
      | Inr x \<Rightarrow> (s\<lparr>ps_current_result := map_put id 0 x (ps_current_result s)\<rparr>, [ToSelf (PathIndex 1)], None))"

definition path_on_index ::
  "nat \<Rightarrow> path_state \<Rightarrow> path_state \<times> (path_msg, add_task, nat \<times> int list) sent list \<times> cpp_exn option" where
  "path_on_index i s =
     (case for_each (write_result i) (ps_current_result s) (ps_data s) of
        Inl e \<Rightarrow> (s, [], Some e)
      | Inr d \<Rightarrow>
          let s = s\<lparr>ps_data := d\<rparr> in
          if i = length d then
            (case (vec_at d (i - 1), ps_message_sender s) of
               (Inr row, Some c) \<Rightarrow> (s\<lparr>ps_index := 0, ps_current_result := []\<rparr>, [ToClient (c, row)], None)
             | _ \<Rightarrow> (s, [], Some UndefinedBehaviour))
          else
            let s = s\<lparr>ps_index := i, ps_current_result := []\<rparr> in
            (case for_each (path_task d i) [0..<Suc i] [] of
               Inl e \<Rightarrow> (s, [], Some e)
             | Inr ts \<Rightarrow> (s, map ToWorker ts, None)))"

definition emplace_result :: "nat \<Rightarrow> int \<Rightarrow> (nat \<times> int) list \<Rightarrow> (nat \<times> int) list" where
  "emplace_result k v m = (if map_has id k m then m else map_put id k v m)"

definition path_on_result ::
  "int \<Rightarrow> nat \<Rightarrow> path_state \<Rightarrow> path_state \<times> (path_msg, add_task, nat \<times> int list) sent list \<times> cpp_exn option" where
  "path_on_result r k s =
     (let s = s\<lparr>ps_current_result := emplace_result k r (ps_current_result s)\<rparr> in
      (s, if ps_index s + 1 = length (ps_current_result s) then [ToSelf (PathIndex (ps_index s + 1))] else [], None))"

fun yanghui_count_path :: "(path_state, path_msg, add_task, nat \<times> int list) handler" where
  "yanghui_count_path (PathData c d) = path_on_data c d"
| "yanghui_count_path (PathIndex i) = path_on_index i"
| "yanghui_count_path (PathResult r k) = path_on_result r k"

definition path_worker :: "add_task \<Rightarrow> cpp_exn + path_msg" where
  "path_worker t = (case add_load t of Inl e \<Rightarrow> Inl e | Inr (r, ident) \<Rightarrow> Inr (PathResult r ident))"

section \<open>Numbered results\<close>

lemma map_has_id: "map_has id k m \<longleftrightarrow> k \<in> fst ` set m"
  by (induction m) (auto simp: map_has_def)

lemma map_put_new: "k \<notin> fst ` set m \<Longrightarrow> mset (map_put id k v m) = add_mset (k, v) (mset m)"
  by (induction m) (auto simp: add_mset_commute)

lemma emplace_new:
  "k \<notin> fst ` set m \<Longrightarrow> mset (emplace_result k v m) = add_mset (k, v) (mset m)"
  "k \<notin> fst ` set m \<Longrightarrow> length (emplace_result k v m) = Suc (length m)"
proof -
  assume "k \<notin> fst ` set m"
  then show m: "mset (emplace_result k v m) = add_mset (k, v) (mset m)"
    by (simp add: emplace_result_def map_has_id map_put_new)
  from arg_cong [OF m, of size] show "length (emplace_result k v m) = Suc (length m)" by simp
qed

text \<open>The results of one level, numbered by their columns.\<close>

definition numbered :: "int list \<Rightarrow> (nat \<times> int) list" where
  "numbered row = map (\<lambda>j. (j, row ! j)) [0..<length row]"

lemma numbered_simps [simp]: "length (numbered row) = length row" "map fst (numbered row) = [0..<length row]"
  by (simp_all add: numbered_def comp_def)

lemma set_numbered: "set (numbered row) = {(j, row ! j) |j. j < length row}"
  by (auto simp: numbered_def)

text \<open>Written back one by one in any order, the results of a row make the row.\<close>

lemma write_results:
  assumes "mset got = mset (numbered row)" and "i - 1 < length d" and "length (d ! (i - 1)) = length row"
  shows "for_each (write_result i) got d = Inr (d[i - 1 := row])"
proof -
  have run: "for_each (write_result i) kvs d' = Inr (d'[i - 1 := fold (\<lambda>(k, v) r. r[k := v]) kvs (d' ! (i - 1))])"
    if "\<forall>(k, v)\<in>set kvs. k < length row" "i - 1 < length d'" "length (d' ! (i - 1)) = length row" for kvs d'
    using that
  proof (induction kvs arbitrary: d')
    case (Cons kv kvs)
    obtain k v where kv: "kv = (k, v)" by fastforce
    let ?d = "d'[i - 1 := (d' ! (i - 1))[k := v]]"
    have "write_result i kv d' = Inr ?d" using Cons.prems by (simp add: kv write_result_def vec_at_def vec_put_def)
    then show ?case using Cons.IH [of ?d] Cons.prems by (simp add: kv)
  qed simp
  have val: "fold (\<lambda>(k, v) r. r[k := v]) kvs r ! j = (if j \<in> fst ` set kvs then row ! j else r ! j)"
    if "\<forall>(k, v)\<in>set kvs. k < length row \<and> v = row ! k" "length r = length row" for kvs r j
    using that by (induction kvs arbitrary: r) (auto simp: nth_list_update rev_image_eqI)
  have len: "length (fold (\<lambda>(k, v) r. r[k := v]) kvs r) = length r" for kvs :: "(nat \<times> int) list" and r
    by (induction kvs arbitrary: r) auto
  have s: "set got = {(j, row ! j) |j. j < length row}"
    using mset_eq_setD [OF assms(1)] by (simp add: set_numbered)
  have got: "\<forall>(k, v)\<in>set got. k < length row \<and> v = row ! k" and all: "j < length row \<Longrightarrow> j \<in> fst ` set got" for j
    unfolding s by force+
  have "fold (\<lambda>(k, v) r. r[k := v]) got (d ! (i - 1)) = row"
    by (rule nth_equalityI) (simp_all only: len assms(3) val [OF got assms(3)] all if_True)
  moreover have "\<forall>(k, v)\<in>set got. k < length row" using got by auto
  ultimately show ?thesis using run [OF _ assms(2,3)] by simp
qed

section \<open>The run of the first actor\<close>

text \<open>The task for entry \<open>j\<close> of a level is worked to that entry.\<close>

definition entry_task :: "int list list \<Rightarrow> nat \<Rightarrow> nat \<Rightarrow> add_task" where
  "entry_task D i j =
     (if j = 0 then Add2 (D ! (i - 1) ! 0) (D ! i ! 0) 0
      else if j = i then Add2 (D ! (i - 1) ! (i - 1)) (D ! i ! i) i
      else Add3 (D ! (i - 1) ! (j - 1)) (D ! (i - 1) ! j) (D ! i ! j) j)"

text \<open>The data when level \<open>i\<close> is to be computed: the row above holds its level.\<close>

definition data_at :: "int list list \<Rightarrow> nat \<Rightarrow> int list list \<Rightarrow> bool" where
  "data_at d i D \<longleftrightarrow> length D = length d \<and> D ! (i - 1) = level d (i - 1) \<and> (\<forall>k<length d. i \<le> k \<longrightarrow> D ! k = d ! k)"

lemma path_tasks:
  assumes "triangle d" and "data_at d i D" and "1 \<le> i" and "i < length d"
  shows "for_each (path_task D i) [0..<Suc i] [] = Inr (map (entry_task D i) [0..<Suc i])"
proof -
  have r: "length (D ! i) = Suc i" "length (D ! (i - 1)) = i" "i < length D"
    using assms by (simp_all add: data_at_def triangle_def)
  have "\<exists>ts. for_each (path_task D i) [0..<Suc i] [] = Inr ts \<and> ts = map (entry_task D i) [0..<Suc i]"
    using r assms(3) by (intro for_each_inv) (auto simp: path_task_def entry_at_def vec_at_def entry_task_def)
  then show ?thesis by blast
qed

lemma entry_task_value:
  assumes "levels_ok d" and "data_at d i D" and "1 \<le> i" and "i < length d" and "p \<in> set (numbered (level d i))"
  shows "path_worker (entry_task D i (fst p)) = Inr (PathResult (snd p) (fst p))"
proof -
  obtain k where k: "i = Suc k" using assms(3) by (cases i) auto
  obtain j where j: "p = (j, level d (Suc k) ! j)" "j \<le> Suc k" using assms(5) by (auto simp: k set_numbered simp del: level.simps)
  have D: "D ! k = level d k" "D ! Suc k = d ! Suc k" using assms(2,4) by (simp_all add: k data_at_def)
  have v: "level d (Suc k) ! j = above (level d k) j + d ! Suc k ! j" by (rule level_nth [OF j(2)])
  have ok: "int_ok (above (level d k) j + d ! Suc k ! j)"
    using levels_ok_nth [OF assms(1), of "Suc k" j] assms(4) j(2) v by (simp add: k)
  then show ?thesis
    using v j(1) D by (auto simp: k entry_task_def path_worker_def simple_counter_add_def simple_counter_add3_def
      above_def min_def simp del: level.simps split: if_splits)
qed

text \<open>
  The steps to go from the message that starts level \<open>i\<close>: the message itself, two for each of the
  tasks (it is worked on, and its result is handled), and those of the levels below.
\<close>

fun level_steps :: "nat \<Rightarrow> nat \<Rightarrow> nat" where
  "level_steps 0 i = 1"
| "level_steps (Suc k) i = 1 + 2 * Suc i + level_steps k (Suc i)"

definition path_result :: "nat \<times> int \<Rightarrow> path_msg" where
  "path_result p = PathResult (snd p) (fst p)"

definition path_ready :: "nat \<Rightarrow> int list list \<Rightarrow> nat \<Rightarrow> (path_state, path_msg, add_task, nat \<times> int list) task_system \<Rightarrow> bool" where
  "path_ready c d i S \<longleftrightarrow> 1 \<le> i \<and> i \<le> length d \<and> ts_inbox S = [PathIndex i] \<and> ts_tasks S = [] \<and> ts_out S = [] \<and>
     ps_message_sender (ts_actor S) = Some c \<and> mset (ps_current_result (ts_actor S)) = mset (numbered (level d (i - 1))) \<and>
     length (ps_data (ts_actor S)) = length d \<and> length (ps_data (ts_actor S) ! (i - 1)) = i \<and>
     (\<forall>k<length d. i \<le> k \<longrightarrow> ps_data (ts_actor S) ! k = d ! k)"

definition path_collects :: "nat \<Rightarrow> int list list \<Rightarrow> nat \<Rightarrow> (path_state, path_msg, add_task, nat \<times> int list) task_system \<Rightarrow> bool" where
  "path_collects c d i S \<longleftrightarrow> 1 \<le> i \<and> i < length d \<and> ts_out S = [] \<and> ps_index (ts_actor S) = i \<and>
     ps_message_sender (ts_actor S) = Some c \<and> data_at d i (ps_data (ts_actor S)) \<and>
     collecting path_worker path_result (numbered (level d i)) (ps_current_result (ts_actor S)) S \<and>
     length (ps_current_result (ts_actor S)) < Suc i"

definition path_done :: "nat \<Rightarrow> int list list \<Rightarrow> (path_state, path_msg, add_task, nat \<times> int list) task_system \<Rightarrow> bool" where
  "path_done c d S \<longleftrightarrow> ts_inbox S = [] \<and> ts_tasks S = [] \<and> ts_out S = [(c, last_level d)] \<and>
     ps_index (ts_actor S) = 0 \<and> ps_current_result (ts_actor S) = []"

definition path_start :: "nat \<Rightarrow> int list list \<Rightarrow> (path_state, path_msg, add_task, nat \<times> int list) task_system \<Rightarrow> bool" where
  "path_start c d S \<longleftrightarrow> ts_inbox S = [PathData c d] \<and> ts_tasks S = [] \<and> ts_out S = [] \<and>
     ps_current_result (ts_actor S) = []"

definition path_to_go :: "nat \<Rightarrow> int list list \<Rightarrow> nat \<Rightarrow> (path_state, path_msg, add_task, nat \<times> int list) task_system \<Rightarrow> bool" where
  "path_to_go c d r S \<longleftrightarrow> triangle d \<and> levels_ok d \<and>
     (path_start c d S \<and> r = Suc (level_steps (length d - 1) 1) \<or>
      (\<exists>i. path_ready c d i S \<and> r = level_steps (length d - i) i) \<or>
      (\<exists>i. path_collects c d i S \<and> r = weight S + level_steps (length d - Suc i) (Suc i)) \<or>
      path_done c d S \<and> r = 0)"

lemma path_start_handled:
  assumes "triangle d" and "path_start c d S"
  shows "\<exists>a es. yanghui_count_path (PathData c d) (ts_actor S) = (a, es, None) \<and>
    path_ready c d 1 (dispatch es (S\<lparr>ts_actor := a, ts_inbox := []\<rparr>))"
proof -
  have n: "0 < length d" "length (d ! 0) = 1" using assms(1) by (auto simp: triangle_def)
  then have "entry_at d 0 0 = Inr (d ! 0 ! 0)" by (simp add: entry_at_def vec_at_def)
  then show ?thesis
    using assms n by (auto simp: path_on_data_def Let_def path_start_def path_ready_def numbered_def
        Suc_le_eq)
qed

lemma path_ready_handled:
  assumes "triangle d" and "levels_ok d" and "path_ready c d i S"
  shows "\<exists>a es. yanghui_count_path (PathIndex i) (ts_actor S) = (a, es, None) \<and>
    (let S' = dispatch es (S\<lparr>ts_actor := a, ts_inbox := []\<rparr>) in
      if i = length d then path_done c d S' else path_collects c d i S' \<and> weight S' = 2 * Suc i)"
proof -
  let ?s = "ts_actor S"
  have i: "1 \<le> i" "i \<le> length d" and s: "ps_message_sender ?s = Some c" "length (ps_data ?s) = length d"
    "length (ps_data ?s ! (i - 1)) = i" "\<forall>k<length d. i \<le> k \<longrightarrow> ps_data ?s ! k = d ! k"
    "mset (ps_current_result ?s) = mset (numbered (level d (i - 1)))" "ts_tasks S = []" "ts_out S = []"
    using assms(3) by (simp_all add: path_ready_def)
  let ?D = "(ps_data ?s)[i - 1 := level d (i - 1)]"
  have w: "for_each (write_result i) (ps_current_result ?s) (ps_data ?s) = Inr ?D"
    using i s by (intro write_results) simp_all
  show ?thesis
  proof (cases "i = length d")
    case True
    then show ?thesis using i s w
      by (simp add: path_on_index_def vec_at_def path_done_def last_level_def)
  next
    case False
    then have lt: "i < length d" using i by simp
    have D: "data_at d i ?D" using i s lt by (simp add: data_at_def)
    let ?s' = "?s\<lparr>ps_data := ?D, ps_index := i, ps_current_result := []\<rparr>"
    let ?es = "map (\<lambda>j. ToWorker (entry_task ?D i j)) [0..<Suc i]"
    let ?S' = "dispatch ?es (S\<lparr>ts_actor := ?s', ts_inbox := []\<rparr>)"
    have r: "yanghui_count_path (PathIndex i) ?s = (?s', ?es, None)"
      using w False s(2) path_tasks [OF assms(1) D i(1) lt] by (simp add: path_on_index_def Let_def comp_def del: upt_Suc)
    have "ts_tasks ?S' = map (\<lambda>p. entry_task ?D i (fst p)) (numbered (level d i))"
      using i(1) s(6) by (simp add: dispatch_workers numbered_def comp_def del: upt_Suc level.simps)
    moreover have "ts_inbox ?S' = []" by (simp add: dispatch_workers del: upt_Suc)
    ultimately have "collecting path_worker path_result (numbered (level d i)) [] ?S'" "weight ?S' = 2 * Suc i"
      using collecting_start [of ?S' path_worker path_result "numbered (level d i)"]
        all_worked [of "numbered (level d i)" path_worker "\<lambda>p. entry_task ?D i (fst p)" path_result]
        entry_task_value [OF assms(2) D i(1) lt] by (simp_all add: path_result_def del: upt_Suc)
    then show ?thesis
      using r False i lt s D by (auto simp: path_collects_def Let_def dispatch_workers simp del: upt_Suc)
  qed
qed

lemma path_result_handled:
  assumes "triangle d" and "path_collects c d i S" and "ts_inbox S = m # ms"
  shows "\<exists>a es. yanghui_count_path m (ts_actor S) = (a, es, None) \<and>
    (let S' = dispatch es (S\<lparr>ts_actor := a, ts_inbox := ms\<rparr>) in
      path_collects c d i S' \<and> weight S = Suc (weight S') \<or> path_ready c d (Suc i) S' \<and> weight S = 1)"
proof -
  let ?s = "ts_actor S" and ?E = "numbered (level d i)"
  have i: "1 \<le> i" "i < length d" and s: "ts_out S = []" "ps_index ?s = i" "ps_message_sender ?s = Some c"
    "data_at d i (ps_data ?s)" "collecting path_worker path_result ?E (ps_current_result ?s) S"
    using assms(2) by (simp_all add: path_collects_def)
  obtain k v where m: "m = path_result (k, v)" and new: "mset (ps_current_result ?s) + {#(k, v)#} \<subseteq># mset ?E"
    and next_state: "\<And>got' (S' :: (path_state, path_msg, add_task, nat \<times> int list) task_system).
      mset got' = add_mset (k, v) (mset (ps_current_result ?s)) \<Longrightarrow> ts_inbox S' = ms \<Longrightarrow>
      ts_tasks S' = ts_tasks S \<Longrightarrow> collecting path_worker path_result ?E got' S'"
    by (rule collecting_head [OF s(5) assms(3)]) (metis prod.exhaust)
  have "k \<notin> fst ` set (ps_current_result ?s)"
    by (rule new_number [OF new]) (simp add: numbered_simps(2))
  note e = emplace_new [OF this, of v]
  let ?got = "emplace_result k v (ps_current_result ?s)"
  let ?T = "S\<lparr>ts_actor := ?s\<lparr>ps_current_result := ?got\<rparr>, ts_inbox := ms\<rparr>"
  have coll: "collecting path_worker path_result ?E ?got ?T" using e(1) by (intro next_state) simp_all
  show ?thesis
  proof (cases "i + 1 = length ?got")
    case True
    then have len: "length ?got = length ?E" by simp
    note all = collecting_all [OF coll len]
    have r: "yanghui_count_path m ?s = (?s\<lparr>ps_current_result := ?got\<rparr>, [ToSelf (PathIndex (Suc i))], None)"
      using True s(2) by (simp add: m path_result_def path_on_result_def Let_def)
    have "length (d ! i) = Suc i" using assms(1) i by (simp add: triangle_def)
    then have "path_ready c d (Suc i) (dispatch [ToSelf (PathIndex (Suc i))] ?T)"
      using i s all assms(2) by (auto simp: path_ready_def data_at_def path_collects_def)
    then show ?thesis using r all assms(3) by (simp add: weight_def Let_def)
  next
    case False
    have le: "length ?got \<le> Suc i" using collecting_length [OF coll] by simp
    have r: "yanghui_count_path m ?s = (?s\<lparr>ps_current_result := ?got\<rparr>, [], None)"
      using False s(2) by (simp add: m path_result_def path_on_result_def Let_def)
    moreover have "path_collects c d i ?T" using i s coll False le by (simp add: path_collects_def)
    ultimately show ?thesis using assms(3) by (simp add: weight_def Let_def)
  qed
qed

lemma level_steps_from: "i < n \<Longrightarrow> level_steps (n - i) i = 1 + 2 * Suc i + level_steps (n - Suc i) (Suc i)"
  by (metis Suc_diff_Suc level_steps.simps(2))

lemma path_handles:
  assumes "path_to_go c d r S" and "ts_inbox S = m # ms"
  shows "\<exists>a es r'. yanghui_count_path m (ts_actor S) = (a, es, None) \<and> r = Suc r' \<and>
    path_to_go c d r' (dispatch es (S\<lparr>ts_actor := a, ts_inbox := ms\<rparr>))"
proof -
  have d: "triangle d" "levels_ok d" using assms(1) by (simp_all add: path_to_go_def)
  consider (start) "path_start c d S" "r = Suc (level_steps (length d - 1) 1)"
    | (ready) i where "path_ready c d i S" "r = level_steps (length d - i) i"
    | (collects) i where "path_collects c d i S" "r = weight S + level_steps (length d - Suc i) (Suc i)"
    using assms by (auto simp: path_to_go_def path_done_def)
  then show ?thesis
  proof cases
    case start
    then have "m = PathData c d" "ms = []" using assms(2) by (simp_all add: path_start_def)
    then show ?thesis using path_start_handled [OF d(1) start(1)] start(2) d unfolding path_to_go_def by blast
  next
    case ready
    then have m: "m = PathIndex i" "ms = []" and i: "i \<le> length d" using assms(2) by (simp_all add: path_ready_def)
    obtain a es where h: "yanghui_count_path (PathIndex i) (ts_actor S) = (a, es, None)"
      "let S' = dispatch es (S\<lparr>ts_actor := a, ts_inbox := []\<rparr>) in
        if i = length d then path_done c d S' else path_collects c d i S' \<and> weight S' = 2 * Suc i"
      using path_ready_handled [OF d ready(1)] by blast
    show ?thesis
    proof (cases "i = length d")
      case True
      then show ?thesis using h m ready(2) d by (auto simp: path_to_go_def Let_def)
    next
      case False
      then show ?thesis using h m ready(2) d i level_steps_from [of i "length d"]
        by (auto simp: path_to_go_def Let_def)
    qed
  next
    case collects
    obtain a es where h: "yanghui_count_path m (ts_actor S) = (a, es, None)"
      "let S' = dispatch es (S\<lparr>ts_actor := a, ts_inbox := ms\<rparr>) in
        path_collects c d i S' \<and> weight S = Suc (weight S') \<or> path_ready c d (Suc i) S' \<and> weight S = 1"
      using path_result_handled [OF d(1) collects(1) assms(2)] by blast
    then show ?thesis using collects(2) d unfolding path_to_go_def Let_def by (metis add_Suc plus_1_eq_Suc)
  qed
qed

lemma path_works:
  assumes "path_to_go c d r S" and "ts_tasks S = xs @ t # ys" and "path_worker t = Inr m"
  shows "\<exists>r'. r = Suc r' \<and> path_to_go c d r' (S\<lparr>ts_tasks := xs @ ys, ts_inbox := ts_inbox S @ [m]\<rparr>)"
proof -
  let ?S' = "S\<lparr>ts_tasks := xs @ ys, ts_inbox := ts_inbox S @ [m]\<rparr>"
  obtain i where i: "path_collects c d i S" "r = weight S + level_steps (length d - Suc i) (Suc i)"
    using assms(1,2) by (auto simp: path_to_go_def path_start_def path_ready_def path_done_def)
  then have "collecting path_worker path_result (numbered (level d i)) (ps_current_result (ts_actor S)) S"
    by (simp add: path_collects_def)
  note w = collecting_works [OF this assms(2,3), of ?S']
  then have "path_collects c d i ?S'" "weight S = Suc (weight ?S')" using i(1) by (simp_all add: path_collects_def)
  then show ?thesis using i(2) assms(1) unfolding path_to_go_def by auto
qed

text \<open>In whatever order the results of a level come back, the actor comes to its end.\<close>

interpretation path: countdown yanghui_count_path path_worker "path_to_go c d" for c d
proof
  fix r and S S' :: "(path_state, path_msg, add_task, nat \<times> int list) task_system"
  assume "path_to_go c d r S" and "task_step yanghui_count_path path_worker S S'"
  then show "\<exists>r'. r = Suc r' \<and> path_to_go c d r' S'"
    by (auto elim!: task_stepE dest: path_handles path_works)
next
  fix r and S :: "(path_state, path_msg, add_task, nat \<times> int list) task_system"
  assume S: "path_to_go c d (Suc r) S"
  show "\<not> stuck yanghui_count_path path_worker S"
  proof (cases "ts_inbox S")
    case (Cons m ms)
    then show ?thesis using path_handles [OF S Cons] can_handle [of S m ms yanghui_count_path] by blast
  next
    case Nil
    then obtain i where i: "path_collects c d i S"
      using S by (auto simp: path_to_go_def path_start_def path_ready_def)
    then have coll: "collecting path_worker path_result (numbered (level d i)) (ps_current_result (ts_actor S)) S"
      and "length (ps_current_result (ts_actor S)) < length (numbered (level d i))"
      by (simp_all add: path_collects_def)
    then have "0 < weight S" by (rule collecting_more)
    then obtain t where "t \<in> set (ts_tasks S)" using Nil by (cases "ts_tasks S") (auto simp: weight_def)
    then show ?thesis using collecting_task [OF coll] can_work [of t S path_worker] by blast
  qed
qed

lemma level_steps_pos [simp]: "level_steps k i \<noteq> 0"
  by (cases k) simp_all

lemma path_to_go_0: "path_to_go c d 0 S \<Longrightarrow> path_done c d S"
  using level_steps_pos by (auto simp: path_to_go_def eq_commute [of 0])

definition path_steps :: "int list list \<Rightarrow> nat" where
  "path_steps d = Suc (level_steps (length d - 1) 1)"

lemma count_path_ends:
  assumes "triangle d" and "levels_ok d" and "path_start c d S"
    and "(task_step yanghui_count_path path_worker ^^ n) S S'"
  shows "n \<le> path_steps d" and "stuck yanghui_count_path path_worker S' \<longleftrightarrow> n = path_steps d"
    and "n = path_steps d \<Longrightarrow> path_done c d S'"
proof -
  have g: "path_to_go c d (path_steps d) S" using assms(1-3) by (simp add: path_to_go_def path_steps_def)
  show "n \<le> path_steps d" using path.run_counts [OF assms(4) g] by blast
  show "stuck yanghui_count_path path_worker S' \<longleftrightarrow> n = path_steps d" by (rule path.stuck_iff_done [OF assms(4) g])
  show "n = path_steps d \<Longrightarrow> path_done c d S'" using path.run_counts [OF assms(4) g] path_to_go_0 by simp
qed

section \<open>Taking the least of a row\<close>

record min_state =
  ms_count :: nat
  ms_current_result :: "(nat \<times> int) list"
  ms_message_sender :: "nat option"

definition new_min_state :: min_state where
  "new_min_state = \<lparr>ms_count = 0, ms_current_result = [], ms_message_sender = None\<rparr>"

datatype min_msg = MinData nat "int list" | MinResult int nat

text \<open>The slices of three the loop makes, with the number each is sent under.\<close>

fun batches :: "nat \<Rightarrow> int list \<Rightarrow> number_compare_data list" where
  "batches n [] = []"
| "batches n (x # xs) =
     \<lparr>numbers = take 3 (x # xs), index = int n\<rparr> # batches (Suc n) (drop 3 (x # xs))"

text \<open>
  \<open>self\<close> is the actor itself, \<open>out_data\<close> the actor that prints. The first sender is kept for good.
\<close>

definition min_on_data ::
  "nat \<Rightarrow> nat \<Rightarrow> int list \<Rightarrow> min_state \<Rightarrow> min_state \<times> (min_msg, number_compare_data, nat \<times> int) sent list \<times> cpp_exn option" where
  "min_on_data out_data sender xs s =
     (let s = (if ms_message_sender s = None then s\<lparr>ms_message_sender := Some sender\<rparr> else s) in
      if length xs = 1 then
        (s\<lparr>ms_count := 0, ms_current_result := []\<rparr>,
         [ToClient (out_data, xs ! 0), ToClient (the (ms_message_sender s), xs ! 0)], None)
      else
        (s\<lparr>ms_count := length xs div 3 + (if length xs mod 3 \<noteq> 0 then 1 else 0), ms_current_result := []\<rparr>,
         map ToWorker (batches 0 xs), None))"

definition min_on_result ::
  "nat \<Rightarrow> int \<Rightarrow> nat \<Rightarrow> min_state \<Rightarrow> min_state \<times> (min_msg, number_compare_data, nat \<times> int) sent list \<times> cpp_exn option" where
  "min_on_result self r k s =
     (let s = s\<lparr>ms_current_result := emplace_result k r (ms_current_result s)\<rparr> in
      (s, if ms_count s = length (ms_current_result s) then [ToSelf (MinData self (map snd (ms_current_result s)))] else [],
       None))"

fun yanghui_get_final_result :: "nat \<Rightarrow> nat \<Rightarrow> (min_state, min_msg, number_compare_data, nat \<times> int) handler" where
  "yanghui_get_final_result self out_data (MinData c xs) = min_on_data out_data c xs"
| "yanghui_get_final_result self out_data (MinResult r k) = min_on_result self r k"

definition min_worker :: "number_compare_data \<Rightarrow> cpp_exn + min_msg" where
  "min_worker a = (case add_load_compare a of Inl e \<Rightarrow> Inl e | Inr (r, i) \<Rightarrow> Inr (MinResult r (nat i)))"

text \<open>The batches cover the row: their results have the same least element, and there are fewer of them.\<close>

definition batch_results :: "nat \<Rightarrow> int list \<Rightarrow> (nat \<times> int) list" where
  "batch_results k xs = map (\<lambda>b. (nat (index b), Min (set (numbers b)))) (batches k xs)"

lemma batches_induct [case_names Nil Cons]:
  fixes P :: "nat \<Rightarrow> int list \<Rightarrow> bool"
  assumes "\<And>k. P k []" and "\<And>k x xs. P (Suc k) (drop 3 (x # xs)) \<Longrightarrow> P k (x # xs)"
  shows "P k xs"
  using batches.induct [of P k xs] assms by blast

lemma batch_in: "b \<in> set (batches k xs) \<Longrightarrow> numbers b \<noteq> [] \<and> 0 \<le> index b"
  by (induction k xs rule: batches_induct) auto

lemma length_batches: "length (batches k xs) = (length xs + 2) div 3"
proof (induction k xs rule: batches_induct)
  case (Cons k x xs)
  have "(length (x # xs) + 2) div 3 = Suc ((length (drop 3 (x # xs)) + 2) div 3)"
  proof (cases "length (x # xs) \<le> 3")
    case True
    then show ?thesis by (simp add: div_if)
  next
    case False
    then have "length (x # xs) + 2 = 3 + (length (drop 3 (x # xs)) + 2)" by simp
    then show ?thesis by simp
  qed
  then show ?case using Cons by simp
qed simp

lemma batch_numbers: "map fst (batch_results k xs) = [k..<k + length (batches k xs)]"
proof (induction k xs rule: batches_induct)
  case (Cons k x xs)
  then show ?case by (simp add: batch_results_def upt_conv_Cons del: upt_Suc)
qed (simp add: batch_results_def)

lemma batch_Min: "xs \<noteq> [] \<Longrightarrow> Min (snd ` set (batch_results k xs)) = Min (set xs)"
proof (induction k xs rule: batches_induct)
  case (Cons k x xs)
  let ?t = "take 3 (x # xs)" and ?r = "drop 3 (x # xs)"
  have s: "set (x # xs) = set ?t \<union> set ?r" by (metis append_take_drop_id set_append)
  show ?case
  proof (cases "?r = []")
    case True
    then show ?thesis using s by (simp add: batch_results_def)
  next
    case False
    then have "batch_results (Suc k) ?r \<noteq> []"
      by (cases ?r) (simp_all add: batch_results_def)
    then have "Min (snd ` set (batch_results k (x # xs))) =
        min (Min (set ?t)) (Min (snd ` set (batch_results (Suc k) ?r)))"
      by (simp add: batch_results_def)
    also have "\<dots> = min (Min (set ?t)) (Min (set ?r))" using Cons.IH [OF False] by simp
    also have "\<dots> = Min (set (x # xs))" unfolding s using False by (intro Min_Un [symmetric]) simp_all
    finally show ?thesis .
  qed
qed simp

function min_steps :: "nat \<Rightarrow> nat" where
  "min_steps n = (if n \<le> 1 then 1 else 1 + 2 * ((n + 2) div 3) + min_steps ((n + 2) div 3))"
  by pat_completeness auto
termination by (relation "measure id") auto

declare min_steps.simps [simp del]

definition min_result :: "nat \<times> int \<Rightarrow> min_msg" where
  "min_result p = MinResult (snd p) (fst p)"

definition min_ready :: "nat \<Rightarrow> int \<Rightarrow> int list \<Rightarrow> (min_state, min_msg, number_compare_data, nat \<times> int) task_system \<Rightarrow> bool" where
  "min_ready c v xs S \<longleftrightarrow> xs \<noteq> [] \<and> Min (set xs) = v \<and> ts_tasks S = [] \<and> ts_out S = [] \<and>
     (\<exists>sender. ts_inbox S = [MinData sender xs] \<and>
        (ms_message_sender (ts_actor S) = None \<and> sender = c \<or> ms_message_sender (ts_actor S) = Some c))"

definition min_collects ::
  "nat \<Rightarrow> int \<Rightarrow> (nat \<times> int) list \<Rightarrow> (min_state, min_msg, number_compare_data, nat \<times> int) task_system \<Rightarrow> bool" where
  "min_collects c v E S \<longleftrightarrow> E \<noteq> [] \<and> Min (snd ` set E) = v \<and> distinct (map fst E) \<and> ts_out S = [] \<and>
     ms_message_sender (ts_actor S) = Some c \<and> ms_count (ts_actor S) = length E \<and>
     collecting min_worker min_result E (ms_current_result (ts_actor S)) S \<and>
     length (ms_current_result (ts_actor S)) < length E"

definition min_done :: "nat \<Rightarrow> nat \<Rightarrow> int \<Rightarrow> (min_state, min_msg, number_compare_data, nat \<times> int) task_system \<Rightarrow> bool" where
  "min_done out_data c v S \<longleftrightarrow> ts_inbox S = [] \<and> ts_tasks S = [] \<and> ts_out S = [(out_data, v), (c, v)]"

definition min_to_go ::
  "nat \<Rightarrow> nat \<Rightarrow> int \<Rightarrow> nat \<Rightarrow> (min_state, min_msg, number_compare_data, nat \<times> int) task_system \<Rightarrow> bool" where
  "min_to_go out_data c v r S \<longleftrightarrow>
     (\<exists>xs. min_ready c v xs S \<and> r = min_steps (length xs)) \<or>
     (\<exists>E. min_collects c v E S \<and> r = weight S + min_steps (length E)) \<or>
     min_done out_data c v S \<and> r = 0"

lemma batch_worked:
  "list_all2 (\<lambda>t p. min_worker t = Inr (min_result p)) (batches 0 xs) (batch_results 0 xs)"
proof -
  have "b \<in> set (batches 0 xs) \<Longrightarrow> min_worker b = Inr (min_result (nat (index b), Min (set (numbers b))))" for b
    using batch_in [of b 0 xs] compare_loop_hd [of "numbers b"]
    by (simp add: min_worker_def add_load_compare_def vec_at_def min_result_def)
  then show ?thesis by (simp add: batch_results_def list_all2_map2 list_all2_same)
qed

lemma min_ready_handled:
  assumes "min_ready c v xs S" and "ts_inbox S = m # ms"
  shows "\<exists>a es. yanghui_get_final_result self out_data m (ts_actor S) = (a, es, None) \<and> ms = [] \<and>
    (let S' = dispatch es (S\<lparr>ts_actor := a, ts_inbox := []\<rparr>) in
      if length xs = 1 then min_done out_data c v S'
      else min_collects c v (batch_results 0 xs) S' \<and> weight S' = 2 * length (batch_results 0 xs))"
proof -
  obtain sender where m: "m = MinData sender xs" "ms = []"
    and c: "ms_message_sender (ts_actor S) = None \<and> sender = c \<or> ms_message_sender (ts_actor S) = Some c"
    using assms by (auto simp: min_ready_def)
  have xs: "xs \<noteq> []" "Min (set xs) = v" "ts_tasks S = []" "ts_out S = []" using assms(1) by (simp_all add: min_ready_def)
  let ?s = "(ts_actor S)\<lparr>ms_message_sender := Some c\<rparr>"
  have s: "(if ms_message_sender (ts_actor S) = None then (ts_actor S)\<lparr>ms_message_sender := Some sender\<rparr> else ts_actor S) = ?s"
    using c by auto
  show ?thesis
  proof (cases "length xs = 1")
    case True
    then have "xs ! 0 = v" using xs(2) by (auto simp: length_Suc_conv)
    then show ?thesis using True xs by (simp add: m min_on_data_def s Let_def min_done_def)
  next
    case False
    let ?E = "batch_results 0 xs"
    let ?a = "?s\<lparr>ms_count := length xs div 3 + (if length xs mod 3 \<noteq> 0 then 1 else 0), ms_current_result := []\<rparr>"
    let ?S' = "dispatch (map ToWorker (batches 0 xs)) (S\<lparr>ts_actor := ?a, ts_inbox := []\<rparr>)"
    have w: "ts_inbox ?S' = []" "ts_tasks ?S' = batches 0 xs" "ts_out ?S' = []"
      using xs(3,4) by (simp_all add: dispatch_workers [where f = "\<lambda>x. x"])
    have coll: "collecting min_worker min_result ?E [] ?S'" "weight ?S' = 2 * length ?E"
      using collecting_start [of ?S' min_worker min_result ?E] w batch_worked by simp_all
    have len: "length ?E = (length xs + 2) div 3" by (simp add: batch_results_def length_batches)
    also have "\<dots> = length xs div 3 + (if length xs mod 3 \<noteq> 0 then 1 else 0)" by presburger
    finally have n: "length ?E = length xs div 3 + (if length xs mod 3 \<noteq> 0 then 1 else 0)" .
    have "?E \<noteq> []" using len xs(1) by (cases xs) auto
    moreover have "distinct (map fst ?E)" by (simp only: batch_numbers distinct_upt)
    ultimately have "min_collects c v ?E ?S'"
      using coll(1) w(3) n batch_Min [OF xs(1), of 0] xs(2) by (auto simp: min_collects_def)
    then show ?thesis using False coll(2) by (simp add: m min_on_data_def s Let_def)
  qed
qed

lemma min_result_handled:
  assumes "min_collects c v E S" and "ts_inbox S = m # ms"
  shows "\<exists>a es. yanghui_get_final_result self out_data m (ts_actor S) = (a, es, None) \<and>
    (let S' = dispatch es (S\<lparr>ts_actor := a, ts_inbox := ms\<rparr>) in
      min_collects c v E S' \<and> weight S = Suc (weight S') \<or>
      (\<exists>xs. min_ready c v xs S' \<and> length xs = length E) \<and> weight S = 1)"
proof -
  let ?s = "ts_actor S"
  have E: "E \<noteq> []" "Min (snd ` set E) = v" "distinct (map fst E)"
    and s: "ts_out S = []" "ms_message_sender ?s = Some c" "ms_count ?s = length E"
    "collecting min_worker min_result E (ms_current_result ?s) S"
    using assms(1) by (simp_all add: min_collects_def)
  obtain k r where m: "m = min_result (k, r)" and new: "mset (ms_current_result ?s) + {#(k, r)#} \<subseteq># mset E"
    and next_state: "\<And>got' (S' :: (min_state, min_msg, number_compare_data, nat \<times> int) task_system).
      mset got' = add_mset (k, r) (mset (ms_current_result ?s)) \<Longrightarrow> ts_inbox S' = ms \<Longrightarrow>
      ts_tasks S' = ts_tasks S \<Longrightarrow> collecting min_worker min_result E got' S'"
    by (rule collecting_head [OF s(4) assms(2)]) (metis prod.exhaust)
  note e = emplace_new [OF new_number [OF new E(3)], of r]
  let ?got = "emplace_result k r (ms_current_result ?s)"
  let ?T = "S\<lparr>ts_actor := ?s\<lparr>ms_current_result := ?got\<rparr>, ts_inbox := ms\<rparr>"
  have coll: "collecting min_worker min_result E ?got ?T" using e(1) by (intro next_state) simp_all
  show ?thesis
  proof (cases "length E = length ?got")
    case True
    note all = collecting_all [OF coll True [symmetric]]
    have h: "yanghui_get_final_result self out_data m ?s =
        (?s\<lparr>ms_current_result := ?got\<rparr>, [ToSelf (MinData self (map snd ?got))], None)"
      using True s(3) by (simp add: m min_result_def min_on_result_def Let_def)
    have "set ?got = set E" by (rule mset_eq_setD [OF all(3)])
    then have "min_ready c v (map snd ?got) (dispatch [ToSelf (MinData self (map snd ?got))] ?T)"
      using E all s True by (auto simp: min_ready_def)
    then show ?thesis using h all assms(2) True by (auto simp: weight_def Let_def intro!: exI [of _ "map snd ?got"])
  next
    case False
    have le: "length ?got \<le> length E" by (rule collecting_length [OF coll])
    have h: "yanghui_get_final_result self out_data m ?s = (?s\<lparr>ms_current_result := ?got\<rparr>, [], None)"
      using False s(3) by (simp add: m min_result_def min_on_result_def Let_def)
    moreover have "min_collects c v E ?T" using E s coll False le by (simp add: min_collects_def)
    ultimately show ?thesis using assms(2) by (simp add: weight_def Let_def)
  qed
qed

lemma min_handles:
  assumes "min_to_go out_data c v r S" and "ts_inbox S = m # ms"
  shows "\<exists>a es r'. yanghui_get_final_result self out_data m (ts_actor S) = (a, es, None) \<and> r = Suc r' \<and>
    min_to_go out_data c v r' (dispatch es (S\<lparr>ts_actor := a, ts_inbox := ms\<rparr>))"
proof -
  consider (ready) xs where "min_ready c v xs S" "r = min_steps (length xs)"
    | (collects) E where "min_collects c v E S" "r = weight S + min_steps (length E)"
    using assms by (auto simp: min_to_go_def min_done_def)
  then show ?thesis
  proof cases
    case ready
    then have xs: "xs \<noteq> []" by (simp add: min_ready_def)
    obtain a es where h: "yanghui_get_final_result self out_data m (ts_actor S) = (a, es, None)" "ms = []"
      "let S' = dispatch es (S\<lparr>ts_actor := a, ts_inbox := []\<rparr>) in
        if length xs = 1 then min_done out_data c v S'
        else min_collects c v (batch_results 0 xs) S' \<and> weight S' = 2 * length (batch_results 0 xs)"
      using min_ready_handled [OF ready(1) assms(2), of self out_data] by blast
    show ?thesis
    proof (cases "length xs = 1")
      case True
      then have "r = Suc 0" using ready(2) by (simp add: min_steps.simps)
      then show ?thesis using h True by (auto simp: min_to_go_def Let_def)
    next
      case False
      then have "\<not> length xs \<le> 1" using xs by (cases xs) auto
      then have "r = Suc (2 * length (batch_results 0 xs) + min_steps (length (batch_results 0 xs)))"
        using ready(2) min_steps.simps [of "length xs"] by (simp add: batch_results_def length_batches)
      then show ?thesis using h False unfolding min_to_go_def Let_def by metis
    qed
  next
    case collects
    obtain a es where h: "yanghui_get_final_result self out_data m (ts_actor S) = (a, es, None)"
      "let S' = dispatch es (S\<lparr>ts_actor := a, ts_inbox := ms\<rparr>) in
        min_collects c v E S' \<and> weight S = Suc (weight S') \<or>
        (\<exists>xs. min_ready c v xs S' \<and> length xs = length E) \<and> weight S = 1"
      using min_result_handled [OF collects(1) assms(2), of self out_data] by blast
    then show ?thesis using collects(2) unfolding min_to_go_def Let_def by (metis add_Suc plus_1_eq_Suc)
  qed
qed

lemma min_works:
  assumes "min_to_go out_data c v r S" and "ts_tasks S = xs @ t # ys" and "min_worker t = Inr m"
  shows "\<exists>r'. r = Suc r' \<and> min_to_go out_data c v r' (S\<lparr>ts_tasks := xs @ ys, ts_inbox := ts_inbox S @ [m]\<rparr>)"
proof -
  let ?S' = "S\<lparr>ts_tasks := xs @ ys, ts_inbox := ts_inbox S @ [m]\<rparr>"
  obtain E where E: "min_collects c v E S" "r = weight S + min_steps (length E)"
    using assms(1,2) by (auto simp: min_to_go_def min_ready_def min_done_def)
  then have "collecting min_worker min_result E (ms_current_result (ts_actor S)) S" by (simp add: min_collects_def)
  note w = collecting_works [OF this assms(2,3), of ?S']
  then have "min_collects c v E ?S'" "weight S = Suc (weight ?S')" using E(1) by (simp_all add: min_collects_def)
  then show ?thesis using E(2) unfolding min_to_go_def by auto
qed

interpretation least: countdown "yanghui_get_final_result self out_data" min_worker "min_to_go out_data c v"
  for self out_data c v
proof
  fix r and S S' :: "(min_state, min_msg, number_compare_data, nat \<times> int) task_system"
  assume "min_to_go out_data c v r S" and "task_step (yanghui_get_final_result self out_data) min_worker S S'"
  then show "\<exists>r'. r = Suc r' \<and> min_to_go out_data c v r' S'"
    by (auto elim!: task_stepE dest: min_works min_handles [where self = self])
next
  fix r and S :: "(min_state, min_msg, number_compare_data, nat \<times> int) task_system"
  assume S: "min_to_go out_data c v (Suc r) S"
  show "\<not> stuck (yanghui_get_final_result self out_data) min_worker S"
  proof (cases "ts_inbox S")
    case (Cons m ms)
    then show ?thesis
      using min_handles [OF S Cons, of self] can_handle [of S m ms "yanghui_get_final_result self out_data"] by blast
  next
    case Nil
    then obtain E where E: "min_collects c v E S" using S by (auto simp: min_to_go_def min_ready_def)
    then have coll: "collecting min_worker min_result E (ms_current_result (ts_actor S)) S"
      and "length (ms_current_result (ts_actor S)) < length E" by (simp_all add: min_collects_def)
    then have "0 < weight S" by (rule collecting_more)
    then obtain t where "t \<in> set (ts_tasks S)" using Nil by (cases "ts_tasks S") (auto simp: weight_def)
    then show ?thesis using collecting_task [OF coll] can_work [of t S min_worker] by blast
  qed
qed

lemma min_steps_pos [simp]: "min_steps n \<noteq> 0"
  by (subst min_steps.simps) simp

lemma final_result_ends:
  assumes "min_ready c v xs S" and "(task_step (yanghui_get_final_result self out_data) min_worker ^^ n) S S'"
  shows "n \<le> min_steps (length xs)"
    and "stuck (yanghui_get_final_result self out_data) min_worker S' \<longleftrightarrow> n = min_steps (length xs)"
    and "n = min_steps (length xs) \<Longrightarrow> min_done out_data c v S'"
proof -
  have g: "min_to_go out_data c v (min_steps (length xs)) S" using assms(1) by (auto simp: min_to_go_def)
  show "n \<le> min_steps (length xs)" using least.run_counts [OF assms(2) g] by blast
  show "stuck (yanghui_get_final_result self out_data) min_worker S' \<longleftrightarrow> n = min_steps (length xs)"
    by (rule least.stuck_iff_done [OF assms(2) g])
  have "min_to_go out_data c v 0 T \<Longrightarrow> min_done out_data c v T" for T
    by (auto simp: min_to_go_def eq_commute [of 0])
  then show "n = min_steps (length xs) \<Longrightarrow> min_done out_data c v S'" using least.run_counts [OF assms(2) g] by simp
qed

text \<open>An empty row gives no task and no answer; an answer goes to the first sender there ever was.\<close>

lemma min_on_data_empty:
  "\<exists>s'. min_on_data out_data c [] s = (s', [], None) \<and> ms_count s' = 0"
  by (cases "ms_message_sender s") (auto simp: min_on_data_def Let_def)

lemma min_on_data_first_sender:
  "ms_message_sender s = Some c0 \<Longrightarrow> \<exists>s'. min_on_data out_data c [v] s = (s', [ToClient (out_data, v), ToClient (c0, v)], None)"
  by (simp add: min_on_data_def Let_def)

section \<open>The job\<close>

text \<open>
  \<open>yanghui_load_balance_job_actor_fun\<close> (\<open>yanghui_server.cc\<close>) passes the data on to the first
  actor, its row to the second and the second's result to the client.
\<close>

datatype job_msg = JobData nat "int list list" | CountPathResult "int list" | FinalResult int

datatype job_send = ToCountPath "int list list" | ToGetMin "int list" | JobDone nat bool int

fun yanghui_load_balance_job_actor_fun :: "job_msg \<Rightarrow> nat option \<Rightarrow> nat option \<times> job_send list \<times> cpp_exn option" where
  "yanghui_load_balance_job_actor_fun (JobData client d) s = (Some client, [ToCountPath d], None)"
| "yanghui_load_balance_job_actor_fun (CountPathResult row) s = (s, [ToGetMin row], None)"
| "yanghui_load_balance_job_actor_fun (FinalResult r) s =
     (case s of None \<Rightarrow> (s, [], Some UndefinedBehaviour) | Some client \<Rightarrow> (s, [JobDone client True r], None))"

end
