(* ===== verification/Yanghui_Priority.thy ===== *)
theory Yanghui_Priority
  imports Yanghui_Load_Balance
begin

text \<open>
  The job with priorities (\<open>yanghui_with_priority.cc\<close>): an actor that keeps the level it is
  at and overwrites the results of the last level as the new ones come back, with every task
  marked urgent or not; the dispatcher that gives one triangle to a normal and to an urgent
  such actor; the job actor that compares their results (\<open>yanghui_server.cc\<close>); and the pool of
  remote workers. Results carry their position, so any order of arrival will do.
\<close>

section \<open>The workers\<close>

datatype priority_task = AddAt bool int int nat | CompareRow "int list"

datatype priority_msg = TriangleMsg nat "int list list" | StartAtom | ResultAt int nat | EndAtom | CompareReply int

text \<open>\<open>CalculatorWithPriority\<close>; the answer does not depend on the urgency.\<close>

definition priority_add_at :: "int \<Rightarrow> int \<Rightarrow> nat \<Rightarrow> cpp_exn + int \<times> nat" where
  "priority_add_at a b position = (case add_int a b of Inl e \<Rightarrow> Inl e | Inr r \<Rightarrow> Inr (r, position))"

definition priority_compare :: "number_compare_data \<Rightarrow> int" where
  "priority_compare d = (if numbers d = [] then 999 else compare_loop (numbers d) (numbers d ! 0))"

fun priority_worker :: "priority_task \<Rightarrow> cpp_exn + priority_msg" where
  "priority_worker (AddAt urgent a b position) =
     (case priority_add_at a b position of Inl e \<Rightarrow> Inl e | Inr (r, p) \<Rightarrow> Inr (ResultAt r p))"
| "priority_worker (CompareRow row) = Inr (CompareReply (priority_compare \<lparr>numbers = row, index = 0\<rparr>))"

section \<open>The actor\<close>

record priority_state =
  py_level :: nat
  py_count :: nat
  py_triangle_data :: "int list list"
  py_last_level_results :: "int list"
  py_triangle_sender :: "nat option"

definition new_priority_state :: priority_state where
  "new_priority_state = \<lparr>py_level = 1, py_count = 0, py_triangle_data = [], py_last_level_results = [],
     py_triangle_sender = None\<rparr>"

type_synonym priority_step =
  "priority_state \<times> (priority_msg, priority_task, nat \<times> bool \<times> int) sent list \<times> cpp_exn option"

definition py_on_triangle :: "nat \<Rightarrow> int list list \<Rightarrow> priority_state \<Rightarrow> priority_step" where
  "py_on_triangle sender d s =
     (let s = s\<lparr>py_triangle_sender := Some sender\<rparr> in
      case entry_at d 0 0 of
        Inl e \<Rightarrow> (s, [], Some e)
      | Inr x \<Rightarrow> (s\<lparr>py_last_level_results := (replicate (length d) 0)[0 := x], py_triangle_data := d\<rparr>,
                 [ToSelf StartAtom], None))"

definition py_task :: "bool \<Rightarrow> priority_state \<Rightarrow> nat \<Rightarrow> priority_task list \<Rightarrow> cpp_exn + priority_task list" where
  "py_task urgent s j ts =
     (let i = py_level s; last_level = py_last_level_results s in
      case (if j = 0 then vec_at last_level 0
            else if j = i then vec_at last_level (j - 1)
            else vec_min last_level (j - 1) j) of
        Inl e \<Rightarrow> Inl e
      | Inr a \<Rightarrow> (case entry_at (py_triangle_data s) i j of
          Inl e \<Rightarrow> Inl e
        | Inr b \<Rightarrow> Inr (ts @ [AddAt urgent a b j])))"

definition py_on_start :: "bool \<Rightarrow> priority_state \<Rightarrow> priority_step" where
  "py_on_start urgent s =
     (case for_each (py_task urgent s) [0..<Suc (py_level s)] [] of
        Inl e \<Rightarrow> (s, [], Some e)
      | Inr ts \<Rightarrow> (s, map (\<lambda>t. ToWorker t) ts, None))"

definition py_on_result :: "int \<Rightarrow> nat \<Rightarrow> priority_state \<Rightarrow> priority_step" where
  "py_on_result r position s =
     (case vec_put position r (py_last_level_results s) of
        Inl e \<Rightarrow> (s, [], Some e)
      | Inr row \<Rightarrow>
          let s = s\<lparr>py_last_level_results := row, py_count := py_count s + 1\<rparr> in
          if py_level s + 1 = py_count s then
            if py_level s + 1 = length (py_triangle_data s)
            then (s\<lparr>py_level := 1, py_count := 0\<rparr>, [ToSelf EndAtom], None)
            else (s\<lparr>py_level := py_level s + 1, py_count := 0\<rparr>, [ToSelf StartAtom], None)
          else (s, [], None))"

definition py_on_reply :: "bool \<Rightarrow> int \<Rightarrow> priority_state \<Rightarrow> priority_step" where
  "py_on_reply is_high_priority final_result s =
     (case py_triangle_sender s of
        None \<Rightarrow> (s, [], Some UndefinedBehaviour)
      | Some c \<Rightarrow> (s, [ToClient (c, is_high_priority, final_result)], None))"

fun yanghui_with_priority :: "bool \<Rightarrow> (priority_state, priority_msg, priority_task, nat \<times> bool \<times> int) handler" where
  "yanghui_with_priority high (TriangleMsg c d) = py_on_triangle c d"
| "yanghui_with_priority high StartAtom = py_on_start high"
| "yanghui_with_priority high (ResultAt r p) = py_on_result r p"
| "yanghui_with_priority high EndAtom = (\<lambda>s. (s, [ToWorker (CompareRow (py_last_level_results s))], None))"
| "yanghui_with_priority high (CompareReply r) = py_on_reply high r"

text \<open>A triangle of one row: the first level to compute is not there.\<close>

lemma one_row_out_of_range:
  assumes "py_on_triangle c [[x]] new_priority_state = (s, es, None)"
  shows "es = [ToSelf StartAtom]" and "snd (snd (yanghui_with_priority high StartAtom s)) = Some UndefinedBehaviour"
  using assms by (auto simp: py_on_triangle_def Let_def entry_at_def vec_at_def new_priority_state_def py_on_start_def
      py_task_def upt_rec)

section \<open>Its run\<close>

type_synonym priority_system = "(priority_state, priority_msg, priority_task, nat \<times> bool \<times> int) task_system"

definition position_result :: "nat \<times> int \<Rightarrow> priority_msg" where
  "position_result p = ResultAt (snd p) (fst p)"

text \<open>The level \<open>i\<close> is about to be computed: the results of the one above stand in front.\<close>

definition py_at :: "nat \<Rightarrow> int list list \<Rightarrow> nat \<Rightarrow> priority_system \<Rightarrow> bool" where
  "py_at c d i S \<longleftrightarrow> 1 \<le> i \<and> i < length d \<and> ts_out S = [] \<and> py_triangle_sender (ts_actor S) = Some c \<and>
     py_triangle_data (ts_actor S) = d \<and> length (py_last_level_results (ts_actor S)) = length d \<and>
     py_level (ts_actor S) = i"

definition py_ready :: "nat \<Rightarrow> int list list \<Rightarrow> nat \<Rightarrow> priority_system \<Rightarrow> bool" where
  "py_ready c d i S \<longleftrightarrow> py_at c d i S \<and> py_count (ts_actor S) = 0 \<and> ts_inbox S = [StartAtom] \<and> ts_tasks S = [] \<and>
     take i (py_last_level_results (ts_actor S)) = level d (i - 1)"

definition py_collects :: "nat \<Rightarrow> int list list \<Rightarrow> nat \<Rightarrow> (nat \<times> int) list \<Rightarrow> priority_system \<Rightarrow> bool" where
  "py_collects c d i got S \<longleftrightarrow> py_at c d i S \<and> py_count (ts_actor S) = length got \<and> length got < Suc i \<and>
     collecting priority_worker position_result (numbered (level d i)) got S \<and>
     (\<forall>(k, v)\<in>set got. py_last_level_results (ts_actor S) ! k = v)"

definition py_tail :: "nat \<Rightarrow> int list list \<Rightarrow> priority_msg list \<Rightarrow> priority_task list \<Rightarrow> priority_system \<Rightarrow> bool" where
  "py_tail c d ms ts S \<longleftrightarrow> ts_inbox S = ms \<and> ts_tasks S = ts \<and> ts_out S = [] \<and>
     py_triangle_sender (ts_actor S) = Some c \<and> py_last_level_results (ts_actor S) = last_level d"

definition py_done :: "bool \<Rightarrow> nat \<Rightarrow> int list list \<Rightarrow> priority_system \<Rightarrow> bool" where
  "py_done high c d S \<longleftrightarrow> ts_inbox S = [] \<and> ts_tasks S = [] \<and> ts_out S = [(c, high, Min (set (last_level d)))]"

definition py_start :: "nat \<Rightarrow> int list list \<Rightarrow> priority_system \<Rightarrow> bool" where
  "py_start c d S \<longleftrightarrow> ts_inbox S = [TriangleMsg c d] \<and> ts_tasks S = [] \<and> ts_out S = [] \<and>
     py_level (ts_actor S) = 1 \<and> py_count (ts_actor S) = 0"

text \<open>As for the other job, with three steps for the comparison at the end.\<close>

fun py_steps :: "nat \<Rightarrow> nat \<Rightarrow> nat" where
  "py_steps 0 i = 1 + 2 * Suc i + 3"
| "py_steps (Suc k) i = 1 + 2 * Suc i + py_steps k (Suc i)"

definition py_after :: "int list list \<Rightarrow> nat \<Rightarrow> nat" where
  "py_after d i = (if Suc i = length d then 3 else py_steps (length d - Suc (Suc i)) (Suc i))"

definition py_to_go :: "bool \<Rightarrow> nat \<Rightarrow> int list list \<Rightarrow> nat \<Rightarrow> priority_system \<Rightarrow> bool" where
  "py_to_go high c d r S \<longleftrightarrow> triangle d \<and> levels_ok d \<and> 2 \<le> length d \<and>
     (py_start c d S \<and> r = Suc (py_steps (length d - 2) 1) \<or>
      (\<exists>i. py_ready c d i S \<and> r = py_steps (length d - Suc i) i) \<or>
      (\<exists>i got. py_collects c d i got S \<and> r = weight S + py_after d i) \<or>
      py_tail c d [EndAtom] [] S \<and> r = 3 \<or>
      py_tail c d [] [CompareRow (last_level d)] S \<and> r = 2 \<or>
      py_tail c d [CompareReply (Min (set (last_level d)))] [] S \<and> r = 1 \<or>
      py_done high c d S \<and> r = 0)"

lemma py_steps_from:
  assumes "i < length d"
  shows "py_steps (length d - Suc i) i = Suc (2 * Suc i + py_after d i)"
proof (cases "Suc i = length d")
  case True
  then show ?thesis by (simp add: py_after_def flip: True)
next
  case False
  then have "length d - Suc i = Suc (length d - Suc (Suc i))" using assms by linarith
  then show ?thesis using False by (simp add: py_after_def)
qed

lemma py_start_handled:
  assumes "triangle d" and "2 \<le> length d" and "py_start c d S"
  shows "\<exists>a es. yanghui_with_priority high (TriangleMsg c d) (ts_actor S) = (a, es, None) \<and>
    py_ready c d 1 (dispatch es (S\<lparr>ts_actor := a, ts_inbox := []\<rparr>))"
proof -
  have n: "length (d ! 0) = 1" "0 < length d" using assms(1,2) by (auto simp: triangle_def)
  then have "entry_at d 0 0 = Inr (d ! 0 ! 0)" by (simp add: entry_at_def vec_at_def)
  then show ?thesis
    using assms n by (cases "length d") (auto simp: py_on_triangle_def Let_def py_start_def py_ready_def py_at_def)
qed

lemma py_task_value:
  assumes "triangle d" and "levels_ok d" and "py_ready c d i S" and "j \<le> i"
  shows "py_task high (ts_actor S) j ts = Inr (ts @ [AddAt high (above (level d (i - 1)) j) (d ! i ! j) j])"
    and "priority_worker (AddAt high (above (level d (i - 1)) j) (d ! i ! j) j) = Inr (ResultAt (level d i ! j) j)"
proof -
  obtain k where k: "i = Suc k" "Suc k < length d" using assms(3) by (cases i) (auto simp: py_ready_def py_at_def)
  let ?row = "py_last_level_results (ts_actor S)"
  have s: "py_level (ts_actor S) = Suc k" "py_triangle_data (ts_actor S) = d" "length ?row = length d"
    "take (Suc k) ?row = level d k"
    using assms(3) by (simp_all add: k py_ready_def py_at_def)
  have "l \<le> k \<Longrightarrow> ?row ! l = level d k ! l" for l using nth_take [of l "Suc k" ?row] s(4) by simp
  then have c: "l \<le> k \<Longrightarrow> vec_at ?row l = Inr (level d k ! l)" for l using s(3) k(2) by (simp add: vec_at_def)
  have "entry_at d (Suc k) j = Inr (d ! Suc k ! j)" using triangle_entry [OF assms(1) k(2)] assms(4) k(1) by simp
  then show "py_task high (ts_actor S) j ts = Inr (ts @ [AddAt high (above (level d (i - 1)) j) (d ! i ! j) j])"
    using s assms(4) k(1) by (auto simp: py_task_def Let_def c above_def vec_min_def)
  have "int_ok (level d (Suc k) ! j)" using levels_ok_nth [OF assms(2) k(2)] assms(4) k(1) by simp
  then show "priority_worker (AddAt high (above (level d (i - 1)) j) (d ! i ! j) j) = Inr (ResultAt (level d i ! j) j)"
    using level_nth [of j k d] assms(4) by (simp add: k(1) priority_add_at_def del: level.simps)
qed

lemma py_ready_handled:
  assumes "triangle d" and "levels_ok d" and "py_ready c d i S"
  shows "\<exists>a es. yanghui_with_priority high StartAtom (ts_actor S) = (a, es, None) \<and>
    (let S' = dispatch es (S\<lparr>ts_actor := a, ts_inbox := []\<rparr>) in py_collects c d i [] S' \<and> weight S' = 2 * Suc i)"
proof -
  let ?task = "\<lambda>j. AddAt high (above (level d (i - 1)) j) (d ! i ! j) j" and ?E = "numbered (level d i)"
  have s: "py_level (ts_actor S) = i" "ts_tasks S = []" using assms(3) by (simp_all add: py_ready_def py_at_def)
  have "\<exists>ts. for_each (py_task high (ts_actor S)) [0..<Suc i] [] = Inr ts \<and> ts = map ?task [0..<Suc i]"
    using py_task_value(1) [OF assms] by (intro for_each_inv) auto
  then have r: "yanghui_with_priority high StartAtom (ts_actor S) = (ts_actor S, map (\<lambda>j. ToWorker (?task j)) [0..<Suc i], None)"
    using s(1) by (auto simp: py_on_start_def comp_def simp del: upt_Suc)
  let ?S' = "dispatch (map (\<lambda>j. ToWorker (?task j)) [0..<Suc i]) (S\<lparr>ts_actor := ts_actor S, ts_inbox := []\<rparr>)"
  have "ts_tasks ?S' = map (\<lambda>p. ?task (fst p)) ?E"
    using s(2) by (simp add: dispatch_workers numbered_def comp_def del: upt_Suc)
  moreover have "list_all2 (\<lambda>t p. priority_worker t = Inr (position_result p)) (map (\<lambda>p. ?task (fst p)) ?E) ?E"
    using py_task_value(2) [OF assms] by (intro all_worked) (auto simp: set_numbered position_result_def)
  ultimately have "collecting priority_worker position_result ?E [] ?S'" "weight ?S' = 2 * Suc i"
    using collecting_start [of ?S' priority_worker position_result ?E] by (simp_all add: dispatch_workers del: upt_Suc)
  then show ?thesis
    using r assms(3) by (auto simp: py_collects_def py_ready_def py_at_def Let_def dispatch_workers simp del: upt_Suc)
qed

lemma py_result_handled:
  assumes "triangle d" and "py_collects c d i got S" and "ts_inbox S = m # ms"
  shows "\<exists>a es. yanghui_with_priority high m (ts_actor S) = (a, es, None) \<and>
    (let S' = dispatch es (S\<lparr>ts_actor := a, ts_inbox := ms\<rparr>) in
      (\<exists>got'. py_collects c d i got' S') \<and> weight S = Suc (weight S') \<or>
      (if Suc i = length d then py_tail c d [EndAtom] [] S' else py_ready c d (Suc i) S') \<and> weight S = 1)"
proof -
  let ?s = "ts_actor S" and ?E = "numbered (level d i)"
  have at: "py_at c d i S" and n: "py_count ?s = length got" "length got < Suc i"
    and coll: "collecting priority_worker position_result ?E got S"
    and wr: "\<forall>(k, v)\<in>set got. py_last_level_results ?s ! k = v"
    using assms(2) by (simp_all add: py_collects_def)
  have s: "py_level ?s = i" "py_triangle_data ?s = d" "length (py_last_level_results ?s) = length d"
    "py_triangle_sender ?s = Some c" "ts_out S = []" "1 \<le> i" "i < length d"
    using at by (simp_all add: py_at_def)
  obtain k v where m: "m = position_result (k, v)" and E: "(k, v) \<in> set ?E"
    and new: "mset got + {#(k, v)#} \<subseteq># mset ?E"
    and next_state: "\<And>got' (S' :: priority_system). mset got' = add_mset (k, v) (mset got) \<Longrightarrow> ts_inbox S' = ms \<Longrightarrow>
      ts_tasks S' = ts_tasks S \<Longrightarrow> collecting priority_worker position_result ?E got' S'"
    by (rule collecting_head [OF coll assms(3)]) (metis prod.exhaust)
  have k: "k \<le> i" using E by (auto simp: set_numbered)
  have fresh: "k \<notin> fst ` set got" by (rule new_number [OF new]) (simp add: numbered_simps(2))
  let ?row = "(py_last_level_results ?s)[k := v]" and ?got = "(k, v) # got"
  have wr': "\<forall>(l, w)\<in>set ?got. ?row ! l = w"
    using wr fresh k s(3,7) by (auto simp: nth_list_update image_iff split: prod.splits)
  let ?a = "?s\<lparr>py_last_level_results := ?row, py_count := Suc (length got)\<rparr>"
  let ?T = "S\<lparr>ts_actor := ?a, ts_inbox := ms\<rparr>"
  have coll': "collecting priority_worker position_result ?E ?got ?T" by (intro next_state) simp_all
  have put: "vec_put k v (py_last_level_results ?s) = Inr ?row" using k s(3,7) by (simp add: vec_put_def)
  show ?thesis
  proof (cases "i = length got")
    case True
    have "length ?got = length ?E" using True by simp
    note fin = collecting_all [OF coll' this]
    have "j \<le> i \<Longrightarrow> ?row ! j = level d i ! j" for j
      using wr' mset_eq_setD [OF fin(3)] by (auto simp: set_numbered simp del: level.simps)
    then have row: "take (Suc i) ?row = level d i"
      using s(3,7) by (intro nth_equalityI) simp_all
    show ?thesis
    proof (cases "Suc i = length d")
      case last: True
      then have "?row = last_level d" using row s(3) by (simp add: last_level_def flip: last)
      then show ?thesis
        using True last s n(1) put fin assms(3)
        by (auto simp: m position_result_def py_on_result_def Let_def py_tail_def weight_def)
    next
      case False
      then show ?thesis
        using True s n(1) put fin assms(3) row
        by (auto simp: m position_result_def py_on_result_def Let_def py_ready_def py_at_def weight_def)
    qed
  next
    case False
    have r: "yanghui_with_priority high m ?s = (?a, [], None)"
      using False s n(1) put by (simp add: m position_result_def py_on_result_def Let_def)
    have "py_collects c d i ?got ?T"
      using False s n coll' wr' by (simp add: py_collects_def py_at_def)
    then show ?thesis using r assms(3) by (auto simp: weight_def Let_def)
  qed
qed

lemma py_handles:
  assumes "py_to_go high c d r S" and "ts_inbox S = m # ms"
  shows "\<exists>a es r'. yanghui_with_priority high m (ts_actor S) = (a, es, None) \<and> r = Suc r' \<and>
    py_to_go high c d r' (dispatch es (S\<lparr>ts_actor := a, ts_inbox := ms\<rparr>))"
proof -
  have d: "triangle d" "levels_ok d" "2 \<le> length d" using assms(1) by (simp_all add: py_to_go_def)
  consider (start) "py_start c d S" "r = Suc (py_steps (length d - 2) 1)"
    | (ready) i where "py_ready c d i S" "r = py_steps (length d - Suc i) i"
    | (collects) i got where "py_collects c d i got S" "r = weight S + py_after d i"
    | (ending) "py_tail c d [EndAtom] [] S" "r = 3"
    | (answer) "py_tail c d [CompareReply (Min (set (last_level d)))] [] S" "r = 1"
    using assms by (auto simp: py_to_go_def py_done_def py_tail_def)
  then show ?thesis
  proof cases
    case start
    then have "m = TriangleMsg c d" "ms = []" using assms(2) by (simp_all add: py_start_def)
    moreover have "length d - 2 = length d - Suc 1" by simp
    ultimately show ?thesis
      using py_start_handled [OF d(1,3) start(1), of high] start(2) d unfolding py_to_go_def by metis
  next
    case ready
    then have "m = StartAtom" "ms = []" and i: "i < length d" using assms(2) by (simp_all add: py_ready_def py_at_def)
    then show ?thesis
      using py_ready_handled [OF d(1,2) ready(1), of high] ready(2) py_steps_from [OF i] d
      unfolding py_to_go_def Let_def by metis
  next
    case collects
    then have i: "i < length d" by (simp add: py_collects_def py_at_def)
    obtain a es where h: "yanghui_with_priority high m (ts_actor S) = (a, es, None)"
      "let S' = dispatch es (S\<lparr>ts_actor := a, ts_inbox := ms\<rparr>) in
        (\<exists>got'. py_collects c d i got' S') \<and> weight S = Suc (weight S') \<or>
        (if Suc i = length d then py_tail c d [EndAtom] [] S' else py_ready c d (Suc i) S') \<and> weight S = 1"
      using py_result_handled [OF d(1) collects(1) assms(2), of high] by blast
    let ?S' = "dispatch es (S\<lparr>ts_actor := a, ts_inbox := ms\<rparr>)"
    consider (more) got' where "py_collects c d i got' ?S'" "r = Suc (weight ?S' + py_after d i)"
      | (last) "Suc i = length d" "py_tail c d [EndAtom] [] ?S'" "r = Suc 3"
      | (down) "py_ready c d (Suc i) ?S'" "r = Suc (py_steps (length d - Suc (Suc i)) (Suc i))"
      using h(2) collects(2) by (auto simp: Let_def py_after_def split: if_splits)
    then have "\<exists>r'. r = Suc r' \<and> py_to_go high c d r' ?S'"
    proof cases
      case more
      then show ?thesis unfolding py_to_go_def using d by blast
    next
      case last
      then show ?thesis unfolding py_to_go_def using d by blast
    next
      case down
      then show ?thesis unfolding py_to_go_def using d by blast
    qed
    then show ?thesis using h(1) by blast
  next
    case ending
    then show ?thesis using assms(2) d by (auto simp: py_tail_def py_to_go_def)
  next
    case answer
    then show ?thesis using assms(2) d by (auto simp: py_tail_def py_to_go_def py_on_reply_def py_done_def)
  qed
qed

lemma py_works:
  assumes "py_to_go high c d r S" and "ts_tasks S = xs @ t # ys" and "priority_worker t = Inr m"
  shows "\<exists>r'. r = Suc r' \<and> py_to_go high c d r' (S\<lparr>ts_tasks := xs @ ys, ts_inbox := ts_inbox S @ [m]\<rparr>)"
proof -
  let ?S' = "S\<lparr>ts_tasks := xs @ ys, ts_inbox := ts_inbox S @ [m]\<rparr>"
  consider (collects) i got where "py_collects c d i got S" "r = weight S + py_after d i"
    | (compare) "py_tail c d [] [CompareRow (last_level d)] S" "r = 2"
    using assms(1,2) by (auto simp: py_to_go_def py_start_def py_ready_def py_tail_def py_done_def)
  then show ?thesis
  proof cases
    case collects
    then have "collecting priority_worker position_result (numbered (level d i)) got S" by (simp add: py_collects_def)
    note w = collecting_works [OF this assms(2,3), of ?S']
    then have "py_collects c d i got ?S'" "weight S = Suc (weight ?S')"
      using collects(1) by (simp_all add: py_collects_def py_at_def)
    then show ?thesis using collects(2) assms(1) unfolding py_to_go_def by auto
  next
    case compare
    then have "t = CompareRow (last_level d)" "xs = []" "ys = []" using assms(2) by (cases xs; simp add: py_tail_def)+
    moreover from this have "m = CompareReply (Min (set (last_level d)))"
      using assms(3) compare_loop_hd [OF last_level_nonempty, of d] last_level_nonempty [of d] by (simp add: priority_compare_def)
    ultimately show ?thesis using compare assms(1) by (auto simp: py_tail_def py_to_go_def)
  qed
qed

interpretation priority: countdown "yanghui_with_priority high" priority_worker "py_to_go high c d" for high c d
proof
  fix r and S S' :: priority_system
  assume "py_to_go high c d r S" and "task_step (yanghui_with_priority high) priority_worker S S'"
  then show "\<exists>r'. r = Suc r' \<and> py_to_go high c d r' S'"
    by (auto elim!: task_stepE dest: py_handles py_works)
next
  fix r and S :: priority_system
  assume S: "py_to_go high c d (Suc r) S"
  show "\<not> stuck (yanghui_with_priority high) priority_worker S"
  proof (cases "ts_inbox S")
    case (Cons m ms)
    then show ?thesis using py_handles [OF S Cons] can_handle [of S m ms "yanghui_with_priority high"] by blast
  next
    case Nil
    then consider (collects) i got where "py_collects c d i got S" | (compare) "py_tail c d [] [CompareRow (last_level d)] S"
      using S by (auto simp: py_to_go_def py_start_def py_ready_def py_tail_def)
    then show ?thesis
    proof cases
      case collects
      then have coll: "collecting priority_worker position_result (numbered (level d i)) got S"
        and "length got < length (numbered (level d i))" by (simp_all add: py_collects_def)
      then have "0 < weight S" by (rule collecting_more)
      then obtain t where "t \<in> set (ts_tasks S)" using Nil by (cases "ts_tasks S") (auto simp: weight_def)
      then show ?thesis using collecting_task [OF coll] can_work [of t S priority_worker] by blast
    next
      case compare
      then show ?thesis using can_work [of "CompareRow (last_level d)" S priority_worker] by (simp add: py_tail_def)
    qed
  qed
qed

lemma py_steps_pos [simp]: "py_steps k i \<noteq> 0"
  by (cases k) simp_all

lemma py_after_pos [simp]: "py_after d i \<noteq> 0"
  by (simp add: py_after_def del: neq0_conv)

definition priority_steps :: "int list list \<Rightarrow> nat" where
  "priority_steps d = Suc (py_steps (length d - 2) 1)"

lemma priority_ends:
  assumes "triangle d" and "levels_ok d" and "2 \<le> length d" and "py_start c d S"
    and "(task_step (yanghui_with_priority high) priority_worker ^^ n) S S'"
  shows "n \<le> priority_steps d" and "stuck (yanghui_with_priority high) priority_worker S' \<longleftrightarrow> n = priority_steps d"
    and "n = priority_steps d \<Longrightarrow> py_done high c d S'"
proof -
  have g: "py_to_go high c d (priority_steps d) S" using assms(1-4) by (simp add: py_to_go_def priority_steps_def)
  show "n \<le> priority_steps d" using priority.run_counts [OF assms(5) g] by blast
  show "stuck (yanghui_with_priority high) priority_worker S' \<longleftrightarrow> n = priority_steps d"
    by (rule priority.stuck_iff_done [OF assms(5) g])
  have "py_to_go high c d 0 T \<Longrightarrow> py_done high c d T" for T
    by (auto simp: py_to_go_def eq_commute [of 0])
  then show "n = priority_steps d \<Longrightarrow> py_done high c d S'" using priority.run_counts [OF assms(5) g] by simp
qed

section \<open>The dispatcher and the job\<close>

text \<open>\<open>yanghui_job_dispatcher\<close> gives the triangle to both actors and waits for two results.\<close>

record dispatcher_state =
  ds_result :: "(bool \<times> int) list"
  ds_triangle_sender :: "nat option"

datatype dispatcher_msg = DispatchData nat "int list list" | DispatchResult bool int

datatype dispatcher_send = ToTarget nat "int list list" | ResultsTo nat "(bool \<times> int) list"

fun yanghui_job_dispatcher ::
  "nat \<Rightarrow> nat \<Rightarrow> dispatcher_msg \<Rightarrow> dispatcher_state \<Rightarrow> dispatcher_state \<times> dispatcher_send list \<times> cpp_exn option" where
  "yanghui_job_dispatcher target1 target2 (DispatchData sender d) s =
     (s\<lparr>ds_triangle_sender := Some sender\<rparr>, [ToTarget target1 d, ToTarget target2 d], None)"
| "yanghui_job_dispatcher target1 target2 (DispatchResult is_high_priority r) s =
     (let s = s\<lparr>ds_result := ds_result s @ [(is_high_priority, r)]\<rparr> in
      if length (ds_result s) = 2 then
        (case ds_triangle_sender s of
           None \<Rightarrow> (s, [], Some UndefinedBehaviour)
         | Some c \<Rightarrow> (s\<lparr>ds_result := []\<rparr>, [ResultsTo c (ds_result s)], None))
      else (s, [], None))"

text \<open>
  \<open>yanghui_priority_job_actor_fun\<close>: what it reports of the two results. They are read before
  their number is looked at.
\<close>

definition priority_job_report :: "(bool \<times> int) list \<Rightarrow> cpp_exn + bool \<times> int" where
  "priority_job_report result =
     (case (vec_at result 0, vec_at result 1) of
        (Inr result_pair_1, Inr result_pair_2) \<Rightarrow>
          if length result \<noteq> 2 \<or> \<not> fst result_pair_1 \<or> snd result_pair_1 \<noteq> snd result_pair_2
          then Inr (False, 0) else Inr (True, snd result_pair_1)
      | _ \<Rightarrow> Inl UndefinedBehaviour)"

datatype priority_job_msg = PriorityJobData nat "int list list" | PriorityJobResults "(bool \<times> int) list"

datatype priority_job_send = ToDispatcher "int list list" | PriorityJobDone nat bool int | JobSleep

text \<open>
  The job first waits for the pool to have a worker: \<open>empties\<close> are the answers of \<open>IsEmpty\<close>,
  a second apart. When they are all true it is still waiting.
\<close>

fun wait_for_worker :: "bool list \<Rightarrow> nat option" where
  "wait_for_worker [] = None"
| "wait_for_worker (e # es) = (if e then map_option Suc (wait_for_worker es) else Some 0)"

fun yanghui_priority_job_actor_fun ::
  "bool list \<Rightarrow> priority_job_msg \<Rightarrow> nat option \<Rightarrow> (nat option \<times> priority_job_send list \<times> cpp_exn option) option" where
  "yanghui_priority_job_actor_fun empties (PriorityJobData sender d) s =
     map_option (\<lambda>n. (Some sender, replicate n JobSleep @ [ToDispatcher d], None)) (wait_for_worker empties)"
| "yanghui_priority_job_actor_fun empties (PriorityJobResults result) s =
     Some (case (priority_job_report result, s) of
        (Inr (status, r), Some c) \<Rightarrow> (s, [PriorityJobDone c status r], None)
      | _ \<Rightarrow> (s, [], Some UndefinedBehaviour))"

text \<open>
  Both actors give the same result, but the job succeeds only when the urgent one is the
  first to give it.
\<close>

lemma priority_job_order:
  "priority_job_report [(True, r), (False, r)] = Inr (True, r)"
  "priority_job_report [(False, r), (True, r)] = Inr (False, 0)"
  by (simp_all add: priority_job_report_def vec_at_def)

lemma priority_job_too_few: "length result < 2 \<Longrightarrow> priority_job_report result = Inl UndefinedBehaviour"
  by (auto simp: priority_job_report_def vec_at_def split: sum.splits)

end
