(* ===== verification/Cluster.thy ===== *)
theory Cluster
  imports Node_Grpc
begin

text \<open>
  The cluster view of an actor system, \<open>actor_system/include/cdcf/cluster/cluster.h\<close> and
  \<open>actor_system/src/cluster.cc\<close>: the member list it fetches from its node keeper, the
  updates it makes from the event stream, and its observers.
\<close>

section \<open>Members\<close>

datatype cl_status = StUp | StDown | StActorSystemDown | StActorSystemUp

record cl_member =
  cm_name :: string
  cm_hostname :: string
  cm_role :: string
  cm_host :: string
  cm_port :: u16
  cm_status :: cl_status

definition cl_member_eq :: "cl_member \<Rightarrow> cl_member \<Rightarrow> bool" where
  "cl_member_eq a b \<longleftrightarrow> cm_host a = cm_host b \<and> cm_port a = cm_port b"

definition cl_member_less :: "cl_member \<Rightarrow> cl_member \<Rightarrow> bool" where
  "cl_member_less lhs rhs \<longleftrightarrow>
     (if cm_host lhs < cm_host rhs then True
      else if cm_host rhs < cm_host lhs then False
      else cm_port lhs < cm_port rhs)"

definition cl_of_pb :: "cl_status \<Rightarrow> pb_member \<Rightarrow> cl_member" where
  "cl_of_pb st m = \<lparr>cm_name = pm_name m, cm_hostname = pm_hostname m, cm_role = pm_role m,
     cm_host = pm_host m, cm_port = ucast (pm_port m), cm_status = st\<rparr>"

section \<open>The cluster object\<close>

text \<open>Observers are numbers; \<open>cl_told\<close> lists the calls of their \<open>Update\<close>.\<close>

record cluster =
  cl_members :: "cl_member list"
  cl_observers :: "nat list"
  cl_told :: "(nat \<times> cl_member) list"

definition new_cluster :: cluster where
  "new_cluster = \<lparr>cl_members = [], cl_observers = [], cl_told = []\<rparr>"

definition AddObserver :: "nat \<Rightarrow> cluster \<Rightarrow> cluster" where
  "AddObserver i c = c\<lparr>cl_observers := cl_observers c @ [i]\<rparr>"

text \<open>\<open>std::list::remove\<close> takes every occurrence.\<close>

definition RemoveObserver :: "nat \<Rightarrow> cluster \<Rightarrow> cluster" where
  "RemoveObserver i c = c\<lparr>cl_observers := filter (\<lambda>j. j \<noteq> i) (cl_observers c)\<rparr>"

definition Notify_observers :: "cl_member \<Rightarrow> cluster \<Rightarrow> cluster" where
  "Notify_observers m c = c\<lparr>cl_told := cl_told c @ map (\<lambda>i. (i, m)) (cl_observers c)\<rparr>"

text \<open>\<open>Fetch\<close>: a failed call leaves the members as they are.\<close>

definition Fetch :: "pb_member list option \<Rightarrow> cluster \<Rightarrow> cluster" where
  "Fetch reply c = (case reply of None \<Rightarrow> c | Some ms \<Rightarrow> c\<lparr>cl_members := map (cl_of_pb StUp) ms\<rparr>)"

text \<open>One event: its type flag, and the member event packed in it.\<close>

definition cl_Update :: "bool \<Rightarrow> pb_member \<times> pb_status \<Rightarrow> cluster \<Rightarrow> cluster" where
  "cl_Update member_changed event c =
     (if \<not> member_changed then c
      else case event of (detail, status) \<Rightarrow>
        (case status of
           PB_UP \<Rightarrow> Notify_observers (cl_of_pb StUp detail)
               (c\<lparr>cl_members := cl_members c @ [cl_of_pb StUp detail]\<rparr>)
         | PB_DOWN \<Rightarrow> Notify_observers (cl_of_pb StDown detail)
               (c\<lparr>cl_members := filter (\<lambda>m. \<not> cl_member_eq m (cl_of_pb StDown detail)) (cl_members c)\<rparr>)
         | PB_ACTOR_SYSTEM_DOWN \<Rightarrow> Notify_observers (cl_of_pb StActorSystemDown detail) c
         | PB_ACTOR_SYSTEM_UP \<Rightarrow> Notify_observers (cl_of_pb StActorSystemUp detail) c))"

text \<open>\<open>Routine\<close>: a fetch, then the events of the stream until it ends or \<open>stop_\<close> is set.\<close>

fun read_events :: "(bool \<times> (bool \<times> pb_member \<times> pb_status)) list \<Rightarrow> cluster \<Rightarrow> cluster" where
  "read_events [] c = c"
| "read_events ((stop, changed, event) # es) c =
     (if stop then c else read_events es (cl_Update changed event c))"

definition Routine ::
  "pb_member list option \<Rightarrow> (bool \<times> (bool \<times> pb_member \<times> pb_status)) list \<Rightarrow> cluster \<Rightarrow> cluster" where
  "Routine reply es c = read_events es (Fetch reply c)"

section \<open>The singleton\<close>

text \<open>\<open>GetInstance\<close>: the first call constructs, with the address it gives; later ones do not.\<close>

definition GetInstance :: "string \<times> u16 \<Rightarrow> (string \<times> u16) option \<Rightarrow> (string \<times> u16) option" where
  "GetInstance address inst = (case inst of Some a \<Rightarrow> Some a | None \<Rightarrow> Some address)"

definition default_address :: "string \<times> u16" where
  "default_address = (''127.0.0.1'', 50051)"

section \<open>Laws\<close>

definition cm_key :: "cl_member \<Rightarrow> member_key" where
  "cm_key m = MKey (cm_host m) (cm_port m)"

lemma cl_member_eq_key: "cl_member_eq a b \<longleftrightarrow> cm_key a = cm_key b"
  by (simp add: cl_member_eq_def cm_key_def)

lemma cl_member_less_key: "cl_member_less a b \<longleftrightarrow> cm_key a < cm_key b"
  by (auto simp: cl_member_less_def cm_key_def)

lemma cm_key_of_pb [simp]: "cm_key (cl_of_pb st (UpdateMember m)) = mkey m"
  by (simp add: cm_key_def cl_of_pb_def UpdateMember_def mkey_def)

definition view_keys :: "cluster \<Rightarrow> member_key set" where
  "view_keys c = cm_key ` set (cl_members c)"

lemma view_keys_Fetch: "view_keys (Fetch (Some (GetMembersReply g)) c) = keys_of (gs_members g)"
  by (auto simp: view_keys_def Fetch_def GetMembersReply_def keys_of_def image_image comp_def)

lemma Notify_observers_members [simp]: "cl_members (Notify_observers m c) = cl_members c"
  by (simp add: Notify_observers_def)

lemma view_keys_Update:
  "view_keys (cl_Update True (pb_event e) c) =
     (case ev_type e of
        kMemberUp \<Rightarrow> insert (mkey (ev_member e)) (view_keys c)
      | kMemberDown \<Rightarrow> view_keys c - {mkey (ev_member e)}
      | _ \<Rightarrow> view_keys c)"
  by (cases "ev_type e") (auto simp: cl_Update_def pb_event_def view_keys_def cl_member_eq_key)

text \<open>The view after an event stream has the members the service has after the same events.\<close>

lemma read_events_service:
  assumes "mwf ms" and "view_keys c = keys_of ms"
  shows "view_keys (read_events (map (\<lambda>e. (False, True, pb_event e)) es) c) =
    keys_of (notify_members es ms)"
  using assms
proof (induction es arbitrary: c ms)
  case (Cons e es)
  let ?ms = "(case ev_type e of kMemberUp \<Rightarrow> mput (ev_member e) () ms
      | kMemberDown \<Rightarrow> merase (ev_member e) ms | _ \<Rightarrow> ms)"
  have "mwf ?ms" using Cons.prems(1) by (auto simp: map_wf_put map_wf_erase split: event_type.splits)
  moreover have "view_keys (cl_Update True (pb_event e) c) = keys_of ?ms"
    using Cons.prems by (auto simp: view_keys_Update keys_of_mput keys_of_merase split: event_type.splits)
  ultimately show ?case using Cons.IH [of ?ms] by simp
qed simp

text \<open>Every observer hears of every event, in the order they registered.\<close>

lemma cl_told_Update:
  "\<exists>m. cl_told (cl_Update True ev c) = cl_told c @ map (\<lambda>i. (i, m)) (cl_observers c) \<and>
     cm_host m = pm_host (fst ev) \<and> cm_port m = ucast (pm_port (fst ev))"
  by (cases ev; cases "snd ev") (auto simp: cl_Update_def Notify_observers_def cl_of_pb_def)

text \<open>A member that is fetched and then announced is listed twice.\<close>

lemma fetched_then_up:
  "length (cl_members (cl_Update True (pb_event \<lparr>ev_type = kMemberUp, ev_member = m\<rparr>)
     (Fetch (Some [UpdateMember m]) c))) = 2"
  by (simp add: cl_Update_def pb_event_def Fetch_def)

end
