(* ===== verification/Yanghui_Cluster.thy ===== *)
theory Yanghui_Cluster
  imports Yanghui_Priority Cluster Router_Pool Load_Balancer
begin

text \<open>
  How the Yanghui demos find their workers and are run: the clusters that turn members into
  workers (\<open>count_cluster.cc\<close>, \<open>actor_union_count_cluster.cc\<close>, \<open>router_pool_count_cluster.cc\<close>),
  the pool of the job with priorities (\<open>yanghui_with_priority.cc\<close>), and the publishing of the
  jobs and the client that checks them (\<open>yanghui_example_v2.cc\<close>). Whether a connection or a
  remote spawn succeeds is an argument.
\<close>

section \<open>Members become workers\<close>

definition k_role_worker :: string where
  "k_role_worker = ''worker''"

text \<open>\<open>InitWorkerNodes\<close> and \<open>Update\<close>: the hosts \<open>AddWorkerNode\<close> is called with.\<close>

definition InitWorkerNodes :: "cl_member list \<Rightarrow> string list" where
  "InitWorkerNodes ms = map cm_host (filter (\<lambda>m. cm_role m = k_role_worker) ms)"

definition count_cluster_Update :: "string \<Rightarrow> cl_member \<Rightarrow> string list" where
  "count_cluster_Update host m =
     (if cm_hostname m \<noteq> host \<and> cm_host m \<noteq> host \<and> cm_status m = StActorSystemUp \<and> cm_role m = k_role_worker
      then [cm_host m] else [])"

text \<open>\<open>ActorUnionCountCluster\<close>: three actors for the union, one for the load balancer.\<close>

record union_cluster =
  uc_counter :: actor_union
  uc_balancer :: "nat list"       \<comment> \<open>the workers put into \<open>load_balance_\<close>\<close>

definition AddWorkerNodeWithPort :: "(string \<Rightarrow> u16 \<Rightarrow> nat option) \<Rightarrow> string \<Rightarrow> u16 \<Rightarrow> union_cluster \<Rightarrow> union_cluster" where
  "AddWorkerNodeWithPort remote_actor host port c =
     (case remote_actor host port of
        None \<Rightarrow> c
      | Some a \<Rightarrow> c\<lparr>uc_counter := union_AddActor a (uc_counter c)\<rparr>)"

definition union_AddWorkerNode :: "(string \<Rightarrow> u16 \<Rightarrow> nat option) \<Rightarrow> string \<Rightarrow> union_cluster \<Rightarrow> union_cluster" where
  "union_AddWorkerNode remote_actor host c =
     (let c = AddWorkerNodeWithPort remote_actor host 55003
                (AddWorkerNodeWithPort remote_actor host 55002
                  (AddWorkerNodeWithPort remote_actor host 55001 c)) in
      case remote_actor host 55004 of
        None \<Rightarrow> c
      | Some a \<Rightarrow> c\<lparr>uc_balancer := uc_balancer c @ [a]\<rparr>)"

text \<open>
  A member that is in the fetched list and comes up afterwards is added twice: nothing looks
  whether its actors are there.
\<close>

lemma union_worker_twice:
  assumes "\<And>p. remote_actor h p = Some a"
  shows "au_pool (uc_counter (union_AddWorkerNode remote_actor h (union_AddWorkerNode remote_actor h c))) =
    au_pool (uc_counter c) @ replicate 6 a"
  by (simp add: union_AddWorkerNode_def AddWorkerNodeWithPort_def assms union_AddActor_def Let_def eval_nat_numeral)

section \<open>The cluster over a router pool\<close>

text \<open>A request to the pool actor: it answers, or it is gone and the error handler is called.\<close>

definition pool_request :: "env \<Rightarrow> bool \<Rightarrow> pool_message \<Rightarrow> router_pool \<Rightarrow> router_pool \<times> pool_reply option" where
  "pool_request E alive msg p =
     (if alive then (case pool_enqueue E msg p of (p', Inr r) \<Rightarrow> (p', Some r) | (p', Inl _) \<Rightarrow> (p', None))
      else (p, None))"

fun reply_bool :: "pool_reply option \<Rightarrow> bool" where
  "reply_bool (Some (ReplyBool b)) = b"
| "reply_bool _ = False"

fun reply_size :: "pool_reply option \<Rightarrow> nat" where
  "reply_size (Some (ReplyActors as)) = length as"
| "reply_size _ = 0"

fun reply_nodes :: "pool_reply option \<Rightarrow> string" where
  "reply_nodes (Some (ReplyNodes ks)) = concat (map (\<lambda>k. '' '' @ k) ks)"
| "reply_nodes _ = ''ERROR''"

definition NodeList :: "env \<Rightarrow> bool \<Rightarrow> router_pool \<Rightarrow> string" where
  "NodeList E alive p = reply_nodes (snd (pool_request E alive MsgGetNode p))"

definition GetPoolSize :: "env \<Rightarrow> bool \<Rightarrow> router_pool \<Rightarrow> nat" where
  "GetPoolSize E alive p = reply_size (snd (pool_request E alive MsgGetActors p))"

definition GetPoolSizeOf :: "env \<Rightarrow> bool \<Rightarrow> string \<Rightarrow> u16 \<Rightarrow> router_pool \<Rightarrow> nat" where
  "GetPoolSizeOf E alive host port p = reply_size (snd (pool_request E alive (MsgGetActorsOf host port) p))"

definition ChangePoolSize :: "env \<Rightarrow> bool \<Rightarrow> nat \<Rightarrow> router_pool \<Rightarrow> router_pool \<times> bool" where
  "ChangePoolSize E alive n p = map_prod id reply_bool (pool_request E alive (MsgUpdateSize n) p)"

definition ChangePoolSizeOf :: "env \<Rightarrow> bool \<Rightarrow> nat \<Rightarrow> string \<Rightarrow> u16 \<Rightarrow> router_pool \<Rightarrow> router_pool \<times> bool" where
  "ChangePoolSizeOf E alive n host port p =
     map_prod id reply_bool (pool_request E alive (MsgUpdateSizeOf n host port) p)"

definition cluster_RemoveNode :: "env \<Rightarrow> bool \<Rightarrow> string \<Rightarrow> u16 \<Rightarrow> router_pool \<Rightarrow> router_pool \<times> bool" where
  "cluster_RemoveNode E alive host port p = map_prod id reply_bool (pool_request E alive (MsgDeleteNode host port) p)"

definition cluster_AddNode :: "env \<Rightarrow> bool \<Rightarrow> string \<Rightarrow> u16 \<Rightarrow> router_pool \<Rightarrow> router_pool \<times> bool" where
  "cluster_AddNode E alive host port p = map_prod id reply_bool (pool_request E alive (MsgAddNode host port) p)"

text \<open>\<open>AddWorkerNode\<close> sends the same message without waiting; \<open>Update\<close> removes a node first.\<close>

definition pool_AddWorkerNode :: "env \<Rightarrow> bool \<Rightarrow> u16 \<Rightarrow> string \<Rightarrow> router_pool \<Rightarrow> router_pool" where
  "pool_AddWorkerNode E alive worker_port host p = fst (pool_request E alive (MsgAddNode host worker_port) p)"

definition pool_cluster_Update :: "env \<Rightarrow> bool \<Rightarrow> string \<Rightarrow> u16 \<Rightarrow> cl_member \<Rightarrow> router_pool \<Rightarrow> router_pool" where
  "pool_cluster_Update E alive host worker_port m p =
     (if cm_hostname m \<noteq> host \<and> cm_status m = StActorSystemDown
      then fst (cluster_RemoveNode E alive (cm_host m) worker_port p)
      else fold (pool_AddWorkerNode E alive worker_port) (count_cluster_Update host m) p)"

lemma pool_request_wf: "pool_wf p \<Longrightarrow> pool_wf (fst (pool_request E alive msg p))"
  using pool_enqueue_wf [of p E msg] by (auto simp: pool_request_def split: prod.splits sum.splits)

text \<open>The pool stays well formed over any events.\<close>

lemma pool_cluster_Update_wf: "pool_wf p \<Longrightarrow> pool_wf (pool_cluster_Update E alive host port m p)"
  by (simp add: pool_cluster_Update_def cluster_RemoveNode_def count_cluster_Update_def pool_AddWorkerNode_def
      pool_request_wf)

text \<open>A node that goes down with its host, without its actor system going down first, stays in the pool.\<close>

lemma pool_cluster_keeps_down_node: "cm_status m = StDown \<Longrightarrow> pool_cluster_Update E alive host port m p = p"
  by (simp add: pool_cluster_Update_def count_cluster_Update_def)

text \<open>An actor system that goes down takes its node out of a pool that is alive.\<close>

lemma pool_cluster_removes_node:
  assumes "pool_wf p" and "cm_status m = StActorSystemDown" and "cm_hostname m \<noteq> host"
  shows "node_find (BuildNodeKey (cm_host m) port) (rp_nodes (pool_cluster_Update E True host port m p)) = None"
proof -
  have "map_wf id (rp_nodes p)" using assms(1) by (simp add: pool_wf_def)
  then show ?thesis
    using assms(2,3)
    by (auto simp: pool_cluster_Update_def cluster_RemoveNode_def pool_request_def pool_enqueue_def DeleteNode_def
        Let_def map_find_abs map_abs_erase split: option.splits)
qed

section \<open>The pool of the job with priorities\<close>

record worker_pool =
  wp_host :: string
  wp_workers :: "nat list"

text \<open>\<open>AddWorker\<close> connects and spawns; either may fail.\<close>

definition wp_AddWorker :: "(string \<Rightarrow> nat option) \<Rightarrow> string \<Rightarrow> worker_pool \<Rightarrow> worker_pool \<times> int" where
  "wp_AddWorker spawn host p =
     (case spawn host of None \<Rightarrow> (p, 1) | Some a \<Rightarrow> (p\<lparr>wp_workers := wp_workers p @ [a]\<rparr>, 0))"

text \<open>\<open>Init\<close> passes over its own host and stops at the first worker it cannot add.\<close>

fun wp_Init :: "(string \<Rightarrow> nat option) \<Rightarrow> cl_member list \<Rightarrow> worker_pool \<Rightarrow> worker_pool \<times> int" where
  "wp_Init spawn [] p = (p, 0)"
| "wp_Init spawn (m # ms) p =
     (if cm_hostname m = wp_host p \<or> cm_host m = wp_host p then wp_Init spawn ms p
      else case wp_AddWorker spawn (cm_host m) p of
             (p', ret) \<Rightarrow> if ret \<noteq> 0 then (p', ret) else wp_Init spawn ms p')"

definition wp_Update :: "(string \<Rightarrow> nat option) \<Rightarrow> cl_member \<Rightarrow> worker_pool \<Rightarrow> worker_pool" where
  "wp_Update spawn m p =
     (if cm_hostname m \<noteq> wp_host p \<and> cm_status m = StActorSystemUp then fst (wp_AddWorker spawn (cm_host m) p) else p)"

text \<open>\<open>IsEmpty\<close> asks the pool actor; an error counts as no workers.\<close>

definition wp_IsEmpty :: "bool \<Rightarrow> worker_pool \<Rightarrow> bool" where
  "wp_IsEmpty alive p = (if alive then wp_workers p = [] else True)"

lemma wp_host_AddWorker [simp]: "wp_host (fst (wp_AddWorker spawn h p)) = wp_host p"
  by (simp add: wp_AddWorker_def split: option.splits)

lemma wp_Init_all:
  assumes "\<And>m. m \<in> set ms \<Longrightarrow> spawn (cm_host m) \<noteq> None"
  shows "wp_Init spawn ms p = (p\<lparr>wp_workers := wp_workers p @
      map (\<lambda>m. the (spawn (cm_host m))) (filter (\<lambda>m. cm_hostname m \<noteq> wp_host p \<and> cm_host m \<noteq> wp_host p) ms)\<rparr>, 0)"
  using assms
proof (induction ms arbitrary: p)
  case (Cons m ms)
  obtain a where "spawn (cm_host m) = Some a" using Cons.prems [of m] by auto
  then show ?case using Cons by (simp add: wp_AddWorker_def)
qed simp

text \<open>
  A root given by its address is not a worker for \<open>Init\<close>, but becomes one when its own actor
  system comes up: \<open>Update\<close> compares the name only.
\<close>

lemma wp_adds_itself:
  assumes "cm_host m = wp_host p" and "cm_hostname m \<noteq> wp_host p" and "cm_status m = StActorSystemUp"
    and "spawn (cm_host m) = Some a"
  shows "wp_workers (fst (wp_Init spawn [m] p)) = wp_workers p" and "wp_workers (wp_Update spawn m p) = wp_workers p @ [a]"
  using assms by (simp_all add: wp_Update_def wp_AddWorker_def)

section \<open>Publishing and checking the jobs\<close>

text \<open>\<open>PublishActor\<close>: the results of the attempts; three retries, three seconds apart.\<close>

fun publish_retries :: "nat \<Rightarrow> bool list \<Rightarrow> nat \<times> bool" where
  "publish_retries retry_limit [] = (0, False)"
| "publish_retries retry_limit (ok # oks) =
     (if ok then (0, True)
      else if retry_limit = 0 then (0, False)
      else case publish_retries (retry_limit - 1) oks of (n, b) \<Rightarrow> (Suc n, b))"

definition PublishActor :: "bool list \<Rightarrow> nat \<times> bool" where
  "PublishActor oks = publish_retries 3 oks"

lemma publish_retries_bound: "fst (publish_retries n oks) \<le> n"
  by (induction n oks rule: publish_retries.induct) (auto split: prod.splits)

lemma PublishActor_gives_up: "4 \<le> length oks \<Longrightarrow> PublishActor oks = (if True \<in> set (take 4 oks)
    then (length (takeWhile Not (take 4 oks)), True) else (3, False))"
proof -
  have "n < length oks \<Longrightarrow> publish_retries n oks = (if True \<in> set (take (Suc n) oks)
      then (length (takeWhile Not (take (Suc n) oks)), True) else (n, False))" for n oks
    by (induction n oks rule: publish_retries.induct) (auto split: prod.splits)
  from this [of 3 oks] show "4 \<le> length oks \<Longrightarrow> ?thesis" by (simp add: PublishActor_def)
qed

text \<open>
  \<open>AddYanghuiJob\<close>: the four jobs, or none of them; the names found so far stay. They are kept
  under the actor identifiers cut to 16 bits.
\<close>

definition job_ports :: "(u16 \<times> string) list" where
  "job_ports = [(55021, ''yanghui_standard_job''), (55022, ''yanghui_priority_job''),
     (55023, ''yanghui_load_balance_job''), (55024, ''yanghui_router_pool_job'')]"

fun connect_jobs ::
  "(u16 \<Rightarrow> nat option) \<Rightarrow> (u16 \<times> string) list \<Rightarrow> (u16 \<rightharpoonup> string) \<Rightarrow> (u16 \<rightharpoonup> string) \<times> nat list option" where
  "connect_jobs remote_actor [] names = (names, Some [])"
| "connect_jobs remote_actor ((port, name) # ps) names =
     (case remote_actor port of
        None \<Rightarrow> (names, None)
      | Some a \<Rightarrow> (case connect_jobs remote_actor ps (names(of_nat a \<mapsto> name)) of
            (names', js) \<Rightarrow> (names', map_option (\<lambda>js. a # js) js)))"

definition AddYanghuiJob ::
  "(u16 \<Rightarrow> nat option) \<Rightarrow> nat list \<times> (u16 \<rightharpoonup> string) \<Rightarrow> (nat list \<times> (u16 \<rightharpoonup> string)) \<times> int" where
  "AddYanghuiJob remote_actor jn =
     (case connect_jobs remote_actor job_ports (snd jn) of
        (names, None) \<Rightarrow> ((fst jn, names), 1)
      | (names, Some js) \<Rightarrow> ((fst jn @ js, names), 0))"

text \<open>\<open>SendJobAndCheckResult\<close>: what came within 300 seconds, if anything.\<close>

datatype job_answer = JobAnswer bool int | JobError

definition SendJobAndCheckResult :: "job_answer option \<Rightarrow> int \<Rightarrow> bool" where
  "SendJobAndCheckResult answer result_to_check =
     (case answer of
        None \<Rightarrow> False
      | Some JobError \<Rightarrow> False
      | Some (JobAnswer status result) \<Rightarrow> status \<and> result = result_to_check)"

text \<open>
  The main loop of \<open>SillyClientStart\<close>: every triangle in turn to every job, until one answer is
  wrong. The answers are those in the order of the requests; the number counts the requests.
\<close>

fun client_loop :: "int list \<Rightarrow> nat \<Rightarrow> job_answer option list \<Rightarrow> nat \<Rightarrow> nat \<times> bool" where
  "client_loop results jobs [] k = (k, True)"
| "client_loop results jobs (a # as) k =
     (if SendJobAndCheckResult a (results ! (k div jobs mod length results)) then client_loop results jobs as (Suc k)
      else (Suc k, False))"

lemma client_loop_runs_on:
  "snd (client_loop results jobs as k) \<longleftrightarrow>
     (\<forall>i<length as. as ! i = Some (JobAnswer True (results ! ((k + i) div jobs mod length results))))"
proof (induction as arbitrary: k)
  case (Cons a as)
  have "SendJobAndCheckResult a r \<longleftrightarrow> a = Some (JobAnswer True r)" for r
    by (auto simp: SendJobAndCheckResult_def split: option.splits job_answer.splits)
  then show ?case using Cons.IH [of "Suc k"] by (auto simp: less_Suc_eq_0_disj nth_Cons')
qed simp

text \<open>\<open>yanghui_standard_job_actor_fun\<close> passes a result on and an error not at all.\<close>

definition yanghui_standard_job_actor_fun :: "nat \<Rightarrow> int option \<Rightarrow> (nat \<times> bool \<times> int) list" where
  "yanghui_standard_job_actor_fun sender answer = (case answer of None \<Rightarrow> [] | Some r \<Rightarrow> [(sender, True, r)])"

text \<open>\<open>yanghui_router_pool_job_actor_fun\<close> sends through a guard, which reports a result or an error.\<close>

definition yanghui_router_pool_job_actor_fun :: "nat \<Rightarrow> guard_action list \<Rightarrow> int \<Rightarrow> (nat \<times> bool \<times> int) list" where
  "yanghui_router_pool_job_actor_fun sender actions r =
     concat (map (\<lambda>a. case a of
         ReturnFunction \<Rightarrow> [(sender, True, r)]
       | ErrorFunction e \<Rightarrow> [(sender, False, INT_MAX)]
       | _ \<Rightarrow> []) actions)"

end
