(* ===== verification/Yanghui_Client.thy ===== *)
theory Yanghui_Client
  imports Yanghui_Cluster
begin

text \<open>
  The client of the Yanghui cluster (\<open>SillyClientStart\<close> of \<open>yanghui_example_v2.cc\<close>) with the two
  triangles it sends, and what the four jobs may report to it: the composition of the job
  actors of \<open>yanghui_server.cc\<close> with the actors they ask.
\<close>

section \<open>The triangles\<close>

definition kYanghuiData2 :: "int list list" where
  "kYanghuiData2 =
    [[5],
     [7, 8],
     [2, 1, 4],
     [4, 2, 6, 1],
     [2, 7, 3, 4, 5],
     [2, 3, 7, 6, 8, 3],
     [2, 3, 4, 4, 2, 7, 7],
     [8, 4, 4, 3, 4, 5, 6, 1],
     [1, 2, 8, 5, 6, 2, 9, 1, 1],
     [1, 2, 8, 5, 6, 2, 9, 1, 1, 1],
     [1, 2, 8, 5, 6, 2, 9, 1, 1, 8, 9],
     [1, 2, 8, 5, 6, 2, 9, 1, 1, 8, 9, 9],
     [1, 2, 8, 5, 6, 2, 9, 1, 1, 8, 9, 9, 1],
     [1, 2, 8, 5, 6, 2, 9, 1, 1, 8, 9, 9, 1, 6],
     [1, 2, 8, 5, 6, 2, 9, 1, 1, 8, 9, 9, 1, 6, 8],
     [1, 2, 8, 5, 6, 2, 9, 1, 1, 8, 9, 9, 1, 6, 8, 7],
     [1, 2, 8, 5, 6, 2, 9, 1, 1, 8, 9, 9, 1, 6, 8, 7, 7],
     [1, 2, 8, 5, 6, 2, 9, 1, 1, 8, 9, 9, 1, 6, 8, 7, 7, 6]]"

definition kYanghuiData3 :: "int list list" where
  "kYanghuiData3 =
    [[5],
     [7, 8],
     [2, 1, 4],
     [4, 2, 6, 1],
     [2, 7, 3, 4, 5],
     [2, 3, 7, 6, 8, 3],
     [2, 3, 4, 4, 2, 7, 7],
     [8, 4, 4, 3, 4, 5, 6, 1],
     [1, 2, 8, 5, 6, 2, 9, 1, 1],
     [1, 2, 8, 5, 6, 2, 9, 1, 1, 1],
     [1, 2, 8, 5, 6, 2, 9, 1, 1, 8, 9],
     [1, 2, 8, 5, 6, 2, 9, 1, 1, 8, 9, 9],
     [1, 2, 8, 5, 6, 2, 9, 1, 1, 8, 9, 9, 1],
     [1, 2, 8, 5, 6, 2, 9, 1, 1, 8, 9, 9, 1, 6],
     [1, 2, 8, 5, 6, 2, 9, 1, 1, 8, 9, 9, 1, 6, 8],
     [1, 2, 8, 5, 6, 2, 9, 1, 1, 8, 9, 9, 1, 6, 8, 7],
     [1, 2, 8, 5, 6, 2, 9, 1, 1, 8, 9, 9, 1, 6, 8, 7, 7],
     [1, 2, 8, 5, 6, 2, 9, 1, 1, 8, 9, 9, 1, 6, 8, 7, 7, 6],
     [1, 2, 8, 5, 6, 2, 9, 1, 1, 8, 9, 9, 1, 6, 8, 7, 7, 6, 3],
     [1, 2, 8, 5, 6, 2, 9, 1, 1, 8, 9, 9, 1, 6, 8, 7, 7, 6, 4, 2],
     [1, 2, 8, 5, 6, 2, 9, 1, 1, 8, 9, 9, 1, 6, 8, 7, 7, 6, 4, 2, 9],
     [1, 2, 8, 5, 6, 2, 9, 1, 1, 8, 9, 9, 1, 6, 8, 7, 7, 6, 4, 2, 9, 4],
     [1, 2, 8, 5, 6, 2, 9, 1, 1, 8, 9, 9, 1, 6, 8, 7, 7, 6, 4, 2, 9, 4, 8],
     [1, 2, 8, 5, 6, 2, 9, 1, 1, 8, 9, 9, 1, 6, 8, 7, 7, 6, 4, 2, 9, 4, 2, 3],
     [1, 2, 8, 5, 6, 2, 9, 1, 1, 8, 9, 9, 1, 6, 8, 7, 7, 6, 4, 2, 9, 4, 7, 8, 1],
     [1, 2, 8, 5, 6, 2, 9, 1, 1, 8, 9, 9, 1, 6, 8, 7, 7, 6, 4, 2, 9, 4, 7, 8, 1, 9],
     [1, 2, 8, 5, 6, 2, 9, 1, 1, 8, 9, 9, 1, 6, 8, 7, 7, 6, 4, 2, 9, 4, 7, 8, 1, 4, 5],
     [1, 2, 8, 5, 6, 2, 9, 1, 1, 8, 9, 9, 1, 6, 8, 7, 7, 6, 4, 2, 9, 4, 7, 8, 1, 4, 6, 7],
     [1, 2, 8, 5, 6, 2, 9, 1, 1, 8, 9, 9, 1, 6, 8, 7, 7, 6, 4, 2, 9, 4, 7, 8, 1, 4, 6, 7, 8],
     [1, 2, 8, 5, 6, 2, 9, 1, 1, 8, 9, 9, 1, 6, 8, 7, 7, 6, 4, 2, 9, 4, 7, 8, 1, 4, 6, 7, 9, 5],
     [1, 2, 8, 5, 6, 2, 9, 1, 1, 8, 9, 9, 1, 6, 8, 7, 7, 6, 4, 2, 9, 4, 7, 8, 1, 4, 6, 7, 3, 4, 7],
     [1, 2, 8, 5, 6, 2, 9, 1, 1, 8, 9, 9, 1, 6, 8, 7, 7, 6, 4, 2, 9, 4, 7, 8, 1, 4, 6, 7, 3, 4, 7, 8],
     [1, 2, 8, 5, 6, 2, 9, 1, 1, 8, 9, 9, 1, 6, 8, 7, 7, 6, 4, 2, 9, 4, 7, 8, 1, 4, 6, 7, 3, 4, 7, 3, 1],
     [1, 2, 8, 5, 6, 2, 9, 1, 1, 8, 9, 9, 1, 6, 8, 7, 7, 6, 4, 2, 9, 4, 7, 8, 1, 4, 6, 7, 3, 4, 7, 3, 6, 9],
     [1, 2, 8, 5, 6, 2, 9, 1, 1, 8, 9, 9, 1, 6, 8, 7, 7, 6, 4, 2, 9, 4, 7, 8, 1, 4, 6, 7, 3, 4, 7, 3, 6, 9, 1],
     [1, 2, 8, 5, 6, 2, 9, 1, 1, 8, 9, 9, 1, 6, 8, 7, 7, 6, 4, 2, 9, 4, 7, 8, 1, 4, 6, 7, 3, 4, 7, 3, 6, 9, 5, 7]]"

text \<open>Entries of a bounded size leave no sum outside the integers.\<close>

lemma level_bounded:
  assumes "triangle d" and "\<forall>row\<in>set d. \<forall>x\<in>set row. \<bar>x\<bar> \<le> b" and "i < length d" and "x \<in> set (level d i)"
  shows "\<bar>x\<bar> \<le> int (Suc i) * b"
  using assms(3,4)
proof (induction i arbitrary: x)
  case 0
  have "length (d ! 0) = Suc 0" using assms(1) 0 by (simp add: triangle_def)
  then have "d ! 0 ! 0 \<in> set (d ! 0)" by simp
  then show ?case using assms(2) 0 by auto
next
  case (Suc i)
  then obtain j where j: "j < Suc (Suc i)" "x = above (level d i) j + d ! Suc i ! j"
    by (auto simp: next_row_def simp del: upt_Suc)
  have "above (level d i) j \<in> set (level d i)"
    using j(1) by (auto simp: above_def min_def)
  then have a: "\<bar>above (level d i) j\<bar> \<le> int (Suc i) * b" using Suc by simp
  have "length (d ! Suc i) = Suc (Suc i)" using assms(1) Suc.prems(1) by (simp add: triangle_def)
  then have "d ! Suc i ! j \<in> set (d ! Suc i)" using j(1) by simp
  then have "\<bar>d ! Suc i ! j\<bar> \<le> b" using assms(2) nth_mem [OF Suc.prems(1)] by blast
  then show ?case using a j(2) by (simp add: algebra_simps)
qed

lemma levels_ok_bounded:
  assumes "triangle d" and "\<forall>row\<in>set d. \<forall>x\<in>set row. \<bar>x\<bar> \<le> b" and "int (length d) * b < 2 ^ 31"
  shows "levels_ok d"
  unfolding levels_ok_def
proof (intro allI impI ballI)
  fix i x assume i: "i < length d" and x: "x \<in> set (level d i)"
  have "\<bar>x\<bar> \<le> int (Suc i) * b" using level_bounded [OF assms(1,2) i x] .
  moreover have "0 \<le> b" 
  proof -
    have "length (d ! 0) = Suc 0" "d ! 0 \<in> set d" using assms(1) by (auto simp: triangle_def)
    then have "d ! 0 ! 0 \<in> set (d ! 0)" by simp
    then show ?thesis using assms(2) \<open>d ! 0 \<in> set d\<close> by force
  qed
  then have "int (Suc i) * b \<le> int (length d) * b" using i by (intro mult_right_mono) auto
  ultimately show "int_ok x" using assms(3) by (auto simp: int_ok_def)
qed

lemma client_triangles [simp]:
  "triangle kYanghuiData2" "triangle kYanghuiData3" "length kYanghuiData2 = 18" "length kYanghuiData3 = 36"
  by code_simp+

lemma client_levels [simp]: "levels_ok kYanghuiData2" "levels_ok kYanghuiData3"
proof -
  have "\<forall>row\<in>set kYanghuiData2. \<forall>x\<in>set row. \<bar>x\<bar> \<le> 9" "\<forall>row\<in>set kYanghuiData3. \<forall>x\<in>set row. \<bar>x\<bar> \<le> 9"
    by code_simp+
  then show "levels_ok kYanghuiData2" "levels_ok kYanghuiData3"
    using levels_ok_bounded [of _ 9] by simp_all
qed

section \<open>The client\<close>

text \<open>
  The retries of \<open>SillyClientStart\<close>, ten seconds apart: \<open>net k\<close> says which jobs can be connected
  to at attempt \<open>k\<close>.
\<close>

fun retry_jobs ::
  "nat \<Rightarrow> (nat \<Rightarrow> u16 \<Rightarrow> nat option) \<Rightarrow> nat \<Rightarrow> (nat list \<times> (u16 \<rightharpoonup> string)) \<times> int
     \<Rightarrow> (nat list \<times> (u16 \<rightharpoonup> string)) \<times> int" where
  "retry_jobs 0 net k se = se"
| "retry_jobs (Suc try_limit) net k (s, error) =
     (if error \<noteq> 0 then retry_jobs try_limit net (Suc k) (AddYanghuiJob (net k) s) else (s, error))"

text \<open>
  What the client comes to: an exception of the sequential job, no connection (\<open>None\<close>), or the
  number of jobs it counts as done and whether it goes on.
\<close>

definition SillyClientStart ::
  "(nat \<Rightarrow> u16 \<Rightarrow> nat option) \<Rightarrow> job_answer option list \<Rightarrow> cpp_exn + (nat \<times> bool) option" where
  "SillyClientStart net answers =
     (case retry_jobs 5 net 1 (AddYanghuiJob (net 0) ([], Map.empty)) of
        ((yanghui_jobs, names), error) \<Rightarrow>
          if error \<noteq> 0 then Inr None
          else (case (LocalYanghuiJob kYanghuiData2, LocalYanghuiJob kYanghuiData3) of
              (Inr r2, Inr r3) \<Rightarrow> Inr (Some (client_loop [r2, r3] (length yanghui_jobs) answers 0))
            | (Inl e, _) \<Rightarrow> Inl e
            | (_, Inl e) \<Rightarrow> Inl e))"

lemma AddYanghuiJob_connects:
  "\<forall>(p, n)\<in>set job_ports. remote_actor p \<noteq> None \<Longrightarrow>
   \<exists>names js. AddYanghuiJob remote_actor (as, nm) = ((as @ js, names), 0) \<and> length js = 4"
  by (auto simp: AddYanghuiJob_def job_ports_def)

lemma AddYanghuiJob_fails: "snd (AddYanghuiJob remote_actor s) \<noteq> 0 \<Longrightarrow> fst (fst (AddYanghuiJob remote_actor s)) = fst s"
  by (auto simp: AddYanghuiJob_def split: prod.splits option.splits)

lemma retry_jobs_connects:
  assumes "error = 0 \<and> length as = 4 \<or> error \<noteq> 0 \<and> as = [] \<and> (\<exists>j<n. \<forall>(p, name)\<in>set job_ports. net (k + j) p \<noteq> None)"
  shows "\<exists>js names. retry_jobs n net k ((as, nm), error) = ((js, names), 0) \<and> length js = 4"
  using assms
proof (induction n arbitrary: k as nm error)
  case (Suc n)
  show ?case
  proof (cases "error = 0")
    case True
    then show ?thesis using Suc.prems by auto
  next
    case False
    then obtain j where j: "as = []" "j < Suc n" "\<forall>(p, name)\<in>set job_ports. net (k + j) p \<noteq> None"
      using Suc.prems by auto
    obtain as' nm' e' where a: "AddYanghuiJob (net k) ([], nm) = ((as', nm'), e')" by (metis prod.exhaust)
    have "e' = 0 \<and> length as' = 4 \<or> e' \<noteq> 0 \<and> as' = [] \<and> (\<exists>j<n. \<forall>(p, name)\<in>set job_ports. net (Suc k + j) p \<noteq> None)"
    proof (cases j)
      case 0
      then show ?thesis using AddYanghuiJob_connects [of "net k" "[]" nm] j(3) a by auto
    next
      case (Suc i)
      have "e' = 0 \<longrightarrow> length as' = 4"
        using a by (auto simp: AddYanghuiJob_def job_ports_def split: option.splits prod.splits)
      then show ?thesis using AddYanghuiJob_fails [of "net k" "([], nm)"] a j(2,3) Suc by auto
    qed
    from Suc.IH [OF this] show ?thesis using False j(1) a by simp
  qed
qed auto

section \<open>What the jobs report\<close>

definition comes_to_rest ::
  "('s, 'm, 't, 'o) handler \<Rightarrow> ('t \<Rightarrow> cpp_exn + 'm) \<Rightarrow> ('s, 'm, 't, 'o) task_system \<Rightarrow> ('s, 'm, 't, 'o) task_system \<Rightarrow> bool" where
  "comes_to_rest handler worker S S' \<longleftrightarrow> (task_step handler worker)\<^sup>*\<^sup>* S S' \<and> stuck handler worker S'"

lemma comes_to_restD:
  "comes_to_rest handler worker S S' \<Longrightarrow> \<exists>n. (task_step handler worker ^^ n) S S' \<and> stuck handler worker S'"
  by (auto simp: comes_to_rest_def dest: rtranclp_imp_relpowp)

text \<open>What the dispatcher sends while it handles messages.\<close>

fun dispatcher_sends :: "dispatcher_msg list \<Rightarrow> dispatcher_state \<Rightarrow> dispatcher_send list" where
  "dispatcher_sends [] s = []"
| "dispatcher_sends (m # ms) s =
     (case yanghui_job_dispatcher 0 1 m s of (s', sends, x) \<Rightarrow> sends @ (if x = None then dispatcher_sends ms s' else []))"

text \<open>
  The four jobs, each as the messages go: the actors it asks may have served before, their
  workers answer in any order, and the results of the two urgencies reach the dispatcher in
  either order. \<open>u\<close> is the union of calculators of the standard job.
\<close>

inductive job_report :: "actor_union \<Rightarrow> nat \<Rightarrow> int list list \<Rightarrow> bool \<times> int \<Rightarrow> bool" for u where
  standard: "yanghui (union_AddNumber u script) (union_Compare u script) d 0 = (k, Returned r) \<Longrightarrow>
    \<forall>j. union_ends u (script j) \<Longrightarrow> (client, rep) \<in> set (yanghui_standard_job_actor_fun client (Some r)) \<Longrightarrow>
    job_report u 0 d rep"
| priority: "py_start disp d S \<Longrightarrow> comes_to_rest (yanghui_with_priority False) priority_worker S T \<Longrightarrow>
    py_start disp d S' \<Longrightarrow> comes_to_rest (yanghui_with_priority True) priority_worker S' T' \<Longrightarrow>
    (disp, low) \<in> set (ts_out T) \<Longrightarrow> (disp, high) \<in> set (ts_out T') \<Longrightarrow> rs = [low, high] \<or> rs = [high, low] \<Longrightarrow>
    ResultsTo job results \<in> set (dispatcher_sends (DispatchData job d # map (\<lambda>(h, r). DispatchResult h r) rs) s) \<Longrightarrow>
    ds_result s = [] \<Longrightarrow>
    yanghui_priority_job_actor_fun empties (PriorityJobResults results) (Some client) = Some (c, [PriorityJobDone client b x], None) \<Longrightarrow>
    job_report u 1 d (b, x)"
| balanced: "path_start job d S \<Longrightarrow> comes_to_rest yanghui_count_path path_worker S T \<Longrightarrow> (job, row) \<in> set (ts_out T) \<Longrightarrow>
    ts_inbox S' = [MinData job row] \<Longrightarrow> ts_tasks S' = [] \<Longrightarrow> ts_out S' = [] \<Longrightarrow>
    ms_message_sender (ts_actor S') \<in> {None, Some job} \<Longrightarrow>
    comes_to_rest (yanghui_get_final_result self out_data) min_worker S' T' \<Longrightarrow> (job, r) \<in> set (ts_out T') \<Longrightarrow> job \<noteq> out_data \<Longrightarrow>
    JobDone client b x \<in> set (fst (snd (yanghui_load_balance_job_actor_fun (FinalResult r) (Some client)))) \<Longrightarrow>
    job_report u 2 d (b, x)"
| pool: "yanghui (pool_AddNumber answers) (pool_Compare answers) d 0 = (k, Returned r) \<Longrightarrow> \<forall>j. answers j \<noteq> None \<Longrightarrow>
    (client, rep) \<in> set (yanghui_router_pool_job_actor_fun client (fst (guard_SendAndReceive rounds g)) r) \<Longrightarrow>
    job_report u 3 d rep"

lemma pool_job_reports:
  assumes "(client, rep) \<in> set (yanghui_router_pool_job_actor_fun client actions r)"
  shows "rep = (True, r) \<or> rep = (False, INT_MAX)"
proof -
  obtain a where "(client, rep) \<in> set (case a of ReturnFunction \<Rightarrow> [(client, True, r)]
      | ErrorFunction e \<Rightarrow> [(client, False, INT_MAX)] | _ \<Rightarrow> [])"
    using assms by (auto simp: yanghui_router_pool_job_actor_fun_def)
  then show ?thesis by (cases a) auto
qed

lemma job_report_right:
  assumes "job_report u j d (b, x)" and "triangle d" and "levels_ok d" and "2 \<le> length d" and "b" and "x \<noteq> INT_MAX"
  shows "LocalYanghuiJob d = Inr x"
  using assms(1)
proof (cases rule: job_report.cases)
  case (standard script k r client)
  then show ?thesis
    using union.yanghui_value [where u = u and script = script and c = 0, OF assms(2,3)] assms(5,6)
      LocalYanghuiJob_value [OF assms(2,3)]
    by (auto simp: yanghui_standard_job_actor_fun_def)
next
  case (priority disp S T S' T' low high rs job results s empties client c)
  have "low = (False, Min (set (last_level d)))" "high = (True, Min (set (last_level d)))"
    using comes_to_restD [OF priority(3)] comes_to_restD [OF priority(5)]
      priority_ends [OF assms(2-4) priority(2)] priority_ends [OF assms(2-4) priority(4)] priority(6,7)
    by (auto simp: py_done_def)
  then show ?thesis
    using priority(8-11) assms(5) LocalYanghuiJob_value [OF assms(2,3)]
    by (auto simp: Let_def priority_job_report_def vec_at_def split: if_splits)
next
  case (balanced job S T row S' self out_data T' r client)
  obtain n where "(task_step yanghui_count_path path_worker ^^ n) S T" "stuck yanghui_count_path path_worker T"
    using comes_to_restD [OF balanced(3)] by blast
  then have "row = last_level d"
    using count_path_ends [OF assms(2,3) balanced(2)] balanced(4) by (auto simp: path_done_def)
  then have m: "min_ready job (Min (set (last_level d))) (last_level d) S'"
    using balanced(5-8) last_level_nonempty by (auto simp: min_ready_def)
  obtain n where "(task_step (yanghui_get_final_result self out_data) min_worker ^^ n) S' T'"
    "stuck (yanghui_get_final_result self out_data) min_worker T'"
    using comes_to_restD [OF balanced(9)] by blast
  then have "r = Min (set (last_level d))"
    using final_result_ends [OF m] balanced(10,11) by (auto simp: min_done_def)
  then show ?thesis using balanced(12) LocalYanghuiJob_value [OF assms(2,3)] by simp
next
  case (pool answers k r client rounds g)
  then show ?thesis
    using pool.yanghui_value [where script = answers and c = 0, OF assms(2,3)] assms(5,6)
      LocalYanghuiJob_value [OF assms(2,3)] pool_job_reports [OF pool(4)]
    by auto
qed

section \<open>The client goes on\<close>

text \<open>The triangle of request \<open>i\<close>: four requests with the first, then four with the second.\<close>

definition client_data :: "nat \<Rightarrow> int list list" where
  "client_data i = (if even (i div 4) then kYanghuiData2 else kYanghuiData3)"

lemma client_data_ok: "triangle (client_data i)" "levels_ok (client_data i)" "2 \<le> length (client_data i)"
  by (simp_all add: client_data_def)

lemma client_loop_all:
  "snd (client_loop results jobs as k) \<Longrightarrow> client_loop results jobs as k = (k + length as, True)"
proof (induction as arbitrary: k)
  case (Cons a as)
  then show ?case using Cons.IH [of "Suc k"] by (auto split: if_splits)
qed simp

section \<open>Every job can report\<close>

lemma relpow_to_rest:
  "(task_step handler worker ^^ n) S S' \<Longrightarrow> stuck handler worker S' \<Longrightarrow> comes_to_rest handler worker S S'"
  by (auto simp: comes_to_rest_def dest: relpowp_imp_rtranclp)

text \<open>Calls that are answered at once.\<close>

lemma answered_union: "union_SendAndReceive (Answer # rs) u = [PoolRequest, UnionReturn]"
  by (simp add: union_SendAndReceive_def)

lemma union_exact:
  assumes "triangle d" and "levels_ok d" and "\<And>k. last (union_SendAndReceive (script k) u) = UnionReturn"
  shows "\<exists>k. yanghui (union_AddNumber u script) (union_Compare u script) d 0 = (k, Returned (Min (set (last_level d))))"
proof -
  have "\<not> union.some_call_fails u script"
    using assms(3) union_call_fails by (auto simp: union.some_call_fails_def union_AddNumber_def union_Compare_def)
  then show ?thesis
    using union.yanghui_value [where u = u and script = script and c = 0, OF assms(1,2)] assms(3)
    by (auto simp: union_ends_def)
qed

lemma pool_exact:
  assumes "triangle d" and "levels_ok d" and "\<And>k. answers k = Some Answer"
  shows "\<exists>k. yanghui (pool_AddNumber answers) (pool_Compare answers) d 0 = (k, Returned (Min (set (last_level d))))"
proof -
  have "\<not> pool.some_call_fails answers"
    using assms(3) unfolding pool.some_call_fails_def
    by (auto simp: pool_AddNumber_def pool_Compare_def pool_call_def call_fails_def split: sum.splits)
  then show ?thesis
    using pool.yanghui_value [where script = answers and c = 0, OF assms(1,2)] assms(3) by auto
qed

lemma standard_reports:
  assumes "triangle d" and "levels_ok d"
  shows "job_report u 0 d (True, Min (set (last_level d)))"
proof -
  have e: "\<forall>j. union_ends u ((\<lambda>_. [Answer]) j)" by (simp add: union_ends_def answered_union)
  obtain k where "yanghui (union_AddNumber u (\<lambda>_. [Answer])) (union_Compare u (\<lambda>_. [Answer])) d 0 = (k, Returned (Min (set (last_level d))))"
    using union_exact [OF assms, of "\<lambda>_. [Answer]"] by (auto simp: answered_union)
  then show ?thesis by (rule job_report.standard [OF _ e, where client = 5]) (simp add: yanghui_standard_job_actor_fun_def)
qed

lemma pool_reports:
  assumes "triangle d" and "levels_ok d"
  shows "job_report u 3 d (True, Min (set (last_level d)))"
proof -
  obtain k where k: "yanghui (pool_AddNumber (\<lambda>_. Some Answer)) (pool_Compare (\<lambda>_. Some Answer)) d 0 = (k, Returned (Min (set (last_level d))))"
    using pool_exact [OF assms, of "\<lambda>_. Some Answer"] by auto
  show ?thesis
    by (rule job_report.pool [OF k, where client = 5 and rounds = "[(Answer, 0, True)]" and g = "\<lparr>ag_keep_actor = 0, ag_active = True\<rparr>"])
      (simp_all add: yanghui_router_pool_job_actor_fun_def guard_SendAndReceive_def)
qed

lemma priority_runs:
  assumes "triangle d" and "levels_ok d" and "2 \<le> length d"
  shows "\<exists>S T. py_start 0 d S \<and> comes_to_rest (yanghui_with_priority high) priority_worker S T \<and>
    (0, high, Min (set (last_level d))) \<in> set (ts_out T)"
proof -
  let ?S = "\<lparr>ts_actor = new_priority_state, ts_inbox = [TriangleMsg 0 d], ts_tasks = [], ts_out = []\<rparr>"
  have s: "py_start 0 d ?S" by (simp add: py_start_def new_priority_state_def)
  then have "py_to_go high 0 d (priority_steps d) ?S"
    using assms by (simp add: py_to_go_def priority_steps_def)
  then obtain T where T: "(task_step (yanghui_with_priority high) priority_worker ^^ priority_steps d) ?S T"
    using priority.run_exists by blast
  then show ?thesis
    using s priority_ends(2,3) [OF assms s T] relpow_to_rest [OF T]
    by (intro exI [of _ ?S] exI [of _ T]) (simp add: py_done_def)
qed

lemma priority_reports:
  assumes "triangle d" and "levels_ok d" and "2 \<le> length d"
  shows "job_report u 1 d (True, Min (set (last_level d)))"
proof -
  let ?v = "Min (set (last_level d))"
  obtain S T where l: "py_start 0 d S" "comes_to_rest (yanghui_with_priority False) priority_worker S T"
    "(0, False, ?v) \<in> set (ts_out T)" using priority_runs [OF assms] by blast
  obtain S' T' where h: "py_start 0 d S'" "comes_to_rest (yanghui_with_priority True) priority_worker S' T'"
    "(0, True, ?v) \<in> set (ts_out T')" using priority_runs [OF assms] by blast
  show ?thesis
    by (rule job_report.priority [OF l(1,2) h(1,2) l(3) h(3), where rs = "[(True, ?v), (False, ?v)]" and job = 7
          and results = "[(True, ?v), (False, ?v)]" and s = "\<lparr>ds_result = [], ds_triangle_sender = None\<rparr>" and client = 5])
      (simp_all add: Let_def priority_job_report_def vec_at_def)
qed

lemma balanced_reports:
  assumes "triangle d" and "levels_ok d"
  shows "job_report u 2 d (True, Min (set (last_level d)))"
proof -
  let ?S = "\<lparr>ts_actor = new_path_state, ts_inbox = [PathData 1 d], ts_tasks = [], ts_out = []\<rparr>"
    and ?S' = "\<lparr>ts_actor = new_min_state, ts_inbox = [MinData 1 (last_level d)], ts_tasks = [], ts_out = []\<rparr>"
  have p: "path_start 1 d ?S" by (simp add: path_start_def new_path_state_def)
  then have "path_to_go 1 d (path_steps d) ?S" using assms by (simp add: path_to_go_def path_steps_def)
  then obtain T where T: "(task_step yanghui_count_path path_worker ^^ path_steps d) ?S T"
    using path.run_exists by blast
  have m: "min_ready 1 (Min (set (last_level d))) (last_level d) ?S'"
    using last_level_nonempty by (simp add: min_ready_def new_min_state_def)
  then have "min_to_go 3 1 (Min (set (last_level d))) (min_steps (length (last_level d))) ?S'"
    by (auto simp: min_to_go_def)
  then obtain T' where T': "(task_step (yanghui_get_final_result 2 3) min_worker ^^ min_steps (length (last_level d))) ?S' T'"
    using least.run_exists by blast
  show ?thesis
    using count_path_ends(2,3) [OF assms p T] final_result_ends(2,3) [OF m T'] relpow_to_rest [OF T] relpow_to_rest [OF T']
    by (intro job_report.balanced [OF p, where T = T and S' = ?S' and T' = T' and self = 2 and out_data = 3
          and row = "last_level d" and client = 5])
      (simp_all add: path_done_def min_done_def new_min_state_def)
qed

lemma client_value: "Min (set (last_level (client_data i))) \<noteq> INT_MAX"
proof -
  let ?d = "client_data i" and ?n = "length (client_data i) - 1"
  have n: "?n < length ?d" "length ?d \<le> 36" by (auto simp: client_data_def)
  have "\<forall>row\<in>set kYanghuiData2. \<forall>x\<in>set row. \<bar>x\<bar> \<le> 9" "\<forall>row\<in>set kYanghuiData3. \<forall>x\<in>set row. \<bar>x\<bar> \<le> 9"
    by code_simp+
  then have b: "\<forall>row\<in>set ?d. \<forall>x\<in>set row. \<bar>x\<bar> \<le> 9" by (simp add: client_data_def)
  have "Min (set (last_level ?d)) \<in> set (level ?d ?n)"
    using last_level_nonempty [of ?d] unfolding last_level_def [symmetric] by (intro Min_in) simp_all
  then have "\<bar>Min (set (last_level ?d))\<bar> \<le> int (Suc ?n) * 9" by (rule level_bounded [OF client_data_ok(1) b n(1)])
  then show ?thesis using n by (simp add: INT_MAX_def)
qed

lemma every_job_reports:
  "\<exists>x. job_report u (i mod 4) (client_data i) (True, x) \<and> x \<noteq> INT_MAX"
proof -
  let ?x = "Min (set (last_level (client_data i)))"
  consider "i mod 4 = 0" | "i mod 4 = 1" | "i mod 4 = 2" | "i mod 4 = 3" by linarith
  then have "job_report u (i mod 4) (client_data i) (True, ?x)"
  proof cases
    case 1 then show ?thesis using standard_reports [OF client_data_ok(1,2)] by simp
  next
    case 2 then show ?thesis using priority_reports [OF client_data_ok] by metis
  next
    case 3 then show ?thesis using balanced_reports [OF client_data_ok(1,2)] by simp
  next
    case 4 then show ?thesis using pool_reports [OF client_data_ok(1,2)] by simp
  qed
  then show ?thesis using client_value by blast
qed

end
