(* ===== verification/Yanghui_Properties.thy ===== *)
theory Yanghui_Properties
  imports Yanghui_Client
begin

text \<open>
  Properties of the Yanghui demos: what the sequential job computes, and that each of the
  distributed jobs computes the same, whatever fails or overtakes.
\<close>

section \<open>A small triangle\<close>

definition sample_triangle :: "int list list" where
  "sample_triangle = [[5], [7, 8], [2, 1, 4]]"

lemma sample_triangle [simp]: "triangle sample_triangle" "levels_ok sample_triangle" "length sample_triangle = 3"
  by code_simp+

section \<open>Properties\<close>

text \<open>
  C24: the sequential job returns the least sum over all paths from the top of the triangle to
  its last row: some path has that sum, and none has a smaller one, as long as no sum it forms
  leaves the integers.
\<close>

theorem local_job_least_path:
  assumes "triangle d" and "levels_ok d"
  shows "\<exists>r. LocalYanghuiJob d = Inr r \<and>
    (\<exists>p. path_ok p \<and> length p = length d \<and> path_sum d p = r) \<and>
    (\<forall>p. path_ok p \<longrightarrow> length p = length d \<longrightarrow> r \<le> path_sum d p)"
proof -
  have "d \<noteq> []" using assms(1) by (simp add: triangle_def)
  then show ?thesis using least_path LocalYanghuiJob_value [OF assms] by auto
qed

theorem local_job_least_path_witness:
  "\<exists>r. LocalYanghuiJob sample_triangle = Inr r \<and> r \<le> path_sum sample_triangle [0, 0, 1]"
proof -
  have "path_ok [0, 0, 1]" by (auto simp: path_ok_def less_Suc_eq)
  then show ?thesis using local_job_least_path [of sample_triangle] by auto
qed

text \<open>
  C29: the standard job over a union of calculators always returns: the result of the
  sequential job, or \<open>INT_MAX\<close> when some call was given up. It is the result of the sequential
  job when every call is answered in the end, however many actors failed before.
\<close>

theorem standard_job_result:
  assumes "triangle d" and "levels_ok d" and "\<And>k. union_ends u (script k)"
  shows "\<exists>k r. yanghui (union_AddNumber u script) (union_Compare u script) d 0 = (k, Returned r) \<and>
    (LocalYanghuiJob d = Inr r \<or> r = INT_MAX) \<and>
    ((\<forall>j. last (union_SendAndReceive (script j) u) = UnionReturn) \<longrightarrow> LocalYanghuiJob d = Inr r)"
proof -
  obtain k where "yanghui (union_AddNumber u script) (union_Compare u script) d 0 = (k, Returned (Min (set (last_level d)))) \<or>
      yanghui (union_AddNumber u script) (union_Compare u script) d 0 = (k, Returned INT_MAX)"
    using union.yanghui_value [where u = u and script = script and c = 0, OF assms(1,2)] assms(3) by auto
  moreover have "\<forall>j. last (union_SendAndReceive (script j) u) = UnionReturn \<Longrightarrow>
      \<exists>k. yanghui (union_AddNumber u script) (union_Compare u script) d 0 = (k, Returned (Min (set (last_level d))))"
    using union_exact [OF assms(1,2)] by blast
  ultimately show ?thesis using LocalYanghuiJob_value [OF assms(1,2)] by fastforce
qed

definition two_actors :: actor_union where
  "two_actors = union_AddActor 2 (union_AddActor 1 \<lparr>au_actor_count = 0, au_pool = []\<rparr>)"

theorem standard_job_result_witness:
  "\<exists>k r. yanghui (union_AddNumber two_actors (\<lambda>_. [SystemError 0, Answer])) (union_Compare two_actors (\<lambda>_. [SystemError 0, Answer]))
      sample_triangle 0 = (k, Returned r) \<and> LocalYanghuiJob sample_triangle = Inr r"
proof -
  have "last (union_SendAndReceive [SystemError 0, Answer] two_actors) = UnionReturn" by code_simp
  then show ?thesis
    using standard_job_result [of sample_triangle two_actors "\<lambda>_. [SystemError 0, Answer]"] by (auto simp: union_ends_def)
qed

text \<open>
  C32: the load balanced job: in whatever order the workers finish, the first actor takes
  \<open>path_steps d\<close> steps and then has sent the last level to the job actor, and on that row the
  second takes \<open>min_steps (length d)\<close> and then has sent the printer and the job actor the result
  of the sequential job. No run goes on for longer and none stops before.
\<close>

theorem load_balanced_job_any_order:
  assumes "triangle d" and "levels_ok d"
    and "(task_step yanghui_count_path path_worker ^^ n)
      \<lparr>ts_actor = new_path_state, ts_inbox = [PathData job d], ts_tasks = [], ts_out = []\<rparr> S"
    and "(task_step (yanghui_get_final_result self out_data) min_worker ^^ k)
      \<lparr>ts_actor = new_min_state, ts_inbox = [MinData job (last_level d)], ts_tasks = [], ts_out = []\<rparr> T"
  shows "n \<le> path_steps d \<and> (stuck yanghui_count_path path_worker S \<longleftrightarrow> n = path_steps d) \<and>
    (n = path_steps d \<longrightarrow> ts_out S = [(job, last_level d)]) \<and>
    k \<le> min_steps (length d) \<and> (stuck (yanghui_get_final_result self out_data) min_worker T \<longleftrightarrow> k = min_steps (length d)) \<and>
    (k = min_steps (length d) \<longrightarrow> (\<exists>r. ts_out T = [(out_data, r), (job, r)] \<and> LocalYanghuiJob d = Inr r))"
proof -
  have ne: "d \<noteq> []" using assms(1) by (simp add: triangle_def)
  have p: "path_start job d \<lparr>ts_actor = new_path_state, ts_inbox = [PathData job d], ts_tasks = [], ts_out = []\<rparr>"
    by (simp add: path_start_def new_path_state_def)
  have m: "min_ready job (Min (set (last_level d))) (last_level d)
      \<lparr>ts_actor = new_min_state, ts_inbox = [MinData job (last_level d)], ts_tasks = [], ts_out = []\<rparr>"
    using last_level_nonempty by (simp add: min_ready_def new_min_state_def)
  note pe = count_path_ends [OF assms(1,2) p assms(3)] and me = final_result_ends [OF m assms(4)]
  show ?thesis
    using pe me LocalYanghuiJob_value [OF assms(1,2)] last_level_ok(1) [OF assms(2) ne]
    by (simp add: path_done_def min_done_def)
qed

theorem load_balanced_job_any_order_witness:
  "\<exists>S T r. (task_step yanghui_count_path path_worker ^^ path_steps sample_triangle)
      \<lparr>ts_actor = new_path_state, ts_inbox = [PathData (1::nat) sample_triangle], ts_tasks = [], ts_out = []\<rparr> S \<and>
    (task_step (yanghui_get_final_result (2::nat) 3) min_worker ^^ min_steps (length sample_triangle))
      \<lparr>ts_actor = new_min_state, ts_inbox = [MinData 1 (last_level sample_triangle)], ts_tasks = [], ts_out = []\<rparr> T \<and>
    ts_out S = [(1, last_level sample_triangle)] \<and>
    ts_out T = [(3, r), (1, r)] \<and> LocalYanghuiJob sample_triangle = Inr r"
proof -
  let ?S0 = "\<lparr>ts_actor = new_path_state, ts_inbox = [PathData (1::nat) sample_triangle], ts_tasks = [], ts_out = []\<rparr>"
    and ?T0 = "\<lparr>ts_actor = new_min_state, ts_inbox = [MinData (1::nat) (last_level sample_triangle)], ts_tasks = [], ts_out = []\<rparr>"
  have "path_to_go 1 sample_triangle (path_steps sample_triangle) ?S0"
    by (simp add: path_to_go_def path_start_def new_path_state_def path_steps_def)
  then obtain S where S: "(task_step yanghui_count_path path_worker ^^ path_steps sample_triangle) ?S0 S"
    using path.run_exists by blast
  have "length (last_level sample_triangle) = 3" by code_simp
  then have "min_to_go 3 1 (Min (set (last_level sample_triangle))) (min_steps (length sample_triangle)) ?T0"
    using last_level_nonempty [of sample_triangle]
    by (auto simp: min_to_go_def min_ready_def new_min_state_def)
  then obtain T where T: "(task_step (yanghui_get_final_result 2 3) min_worker ^^ min_steps (length sample_triangle)) ?T0 T"
    using least.run_exists by blast
  show ?thesis
    using load_balanced_job_any_order [OF sample_triangle(1,2) S T] S T by auto
qed



text \<open>
  C34: the client, connected in one of its six attempts, goes on for as long as no job reports
  a failure or \<open>INT_MAX\<close>: whatever the orders in which workers and results came, no job ever
  reports a wrong sum as a success.
\<close>

theorem client_runs_on:
  assumes "k \<le> 5" and "\<forall>(p, name)\<in>set job_ports. net k p \<noteq> None"
    and "\<forall>i<length answers. \<exists>b x. answers ! i = Some (JobAnswer b x) \<and>
      job_report u (i mod 4) (client_data i) (b, x) \<and> b \<and> x \<noteq> INT_MAX"
  shows "SillyClientStart net answers = Inr (Some (length answers, True))"
proof -
  obtain r2 r3 where r: "LocalYanghuiJob kYanghuiData2 = Inr r2" "LocalYanghuiJob kYanghuiData3 = Inr r3"
    using LocalYanghuiJob_value by simp
  have "snd (client_loop [r2, r3] 4 answers 0)"
    unfolding client_loop_runs_on
  proof (intro allI impI)
    fix i assume "i < length answers"
    then obtain b x where a: "answers ! i = Some (JobAnswer b x)" "job_report u (i mod 4) (client_data i) (b, x)" "b" "x \<noteq> INT_MAX"
      using assms(3) by blast
    have "LocalYanghuiJob (client_data i) = Inr x"
      using job_report_right [OF a(2) client_data_ok a(3,4)] .
    then have "x = [r2, r3] ! (i div 4 mod 2)"
      using r by (auto simp: client_data_def even_iff_mod_2_eq_zero split: if_splits)
    then show "answers ! i = Some (JobAnswer True ([r2, r3] ! ((0 + i) div 4 mod length [r2, r3])))"
      using a(1,3) by (simp add: numeral_2_eq_2)
  qed
  then have loop: "client_loop [r2, r3] 4 answers 0 = (length answers, True)" using client_loop_all by fastforce
  obtain as nm e where a: "AddYanghuiJob (net 0) ([], Map.empty) = ((as, nm), e)" by (metis prod.exhaust)
  have "e = 0 \<and> length as = 4 \<or> e \<noteq> 0 \<and> as = [] \<and> (\<exists>j<5. \<forall>(p, name)\<in>set job_ports. net (1 + j) p \<noteq> None)"
  proof (cases k)
    case 0
    then show ?thesis using AddYanghuiJob_connects [of "net 0" "[]" Map.empty] assms(2) a by auto
  next
    case (Suc i)
    have "e = 0 \<longrightarrow> length as = 4"
      using a by (auto simp: AddYanghuiJob_def job_ports_def split: option.splits prod.splits)
    then show ?thesis using AddYanghuiJob_fails [of "net 0" "([], Map.empty)"] a assms(1,2) Suc by (auto intro!: exI [of _ i])
  qed
  from retry_jobs_connects [OF this, of nm] obtain js names where
    "retry_jobs 5 net 1 ((as, nm), e) = ((js, names), 0)" "length js = 4" by blast
  then show ?thesis using a loop r by (simp add: SillyClientStart_def)
qed

theorem client_runs_on_witness:
  "\<exists>answers. length answers = 8 \<and> SillyClientStart (\<lambda>k port. if k = 2 then Some 7 else None) answers = Inr (Some (8, True))"
proof -
  have "\<forall>i. \<exists>x. job_report two_actors (i mod 4) (client_data i) (True, x) \<and> x \<noteq> INT_MAX"
    using every_job_reports by blast
  then obtain x where x: "\<And>i. job_report two_actors (i mod 4) (client_data i) (True, x i) \<and> x i \<noteq> INT_MAX" by metis
  let ?answers = "map (\<lambda>i. Some (JobAnswer True (x i))) [0..<8]"
  have "SillyClientStart (\<lambda>k port. if k = 2 then Some 7 else None) ?answers = Inr (Some (length ?answers, True))"
    by (rule client_runs_on [where k = 2 and u = two_actors]) (use x in \<open>auto simp: job_ports_def simp del: upt_Suc\<close>)
  then show ?thesis by (intro exI [of _ ?answers]) simp
qed

end
