(* ===== verification/Worker_Join.thy ===== *)
theory Worker_Join
  imports Yanghui_Cluster Node_Keeper Sample_Cluster
begin

text \<open>
  From an actor system that is ready to a worker of the application: the gRPC call at the
  worker's node keeper, the gossip, the main loop of another node keeper, the event stream to
  the cluster object there and its observer. Each part is the model of its component; here
  they are put behind one another.
\<close>

section \<open>The actor system table\<close>

text \<open>The key under which a table holds a member: the record that was stored first.\<close>

definition stored_member :: "member \<Rightarrow> (member \<times> 'v) list \<Rightarrow> member" where
  "stored_member m t = (case mentry m t of None \<Rightarrow> m | Some (old, v) \<Rightarrow> old)"

lemma entry_below: "\<forall>e\<in>set t. mkey m < mkey (fst e) \<Longrightarrow> mentry m t = None"
  by (induction t) auto

lemma filter_put:
  assumes "mwf t" and "\<forall>e\<in>set t. mkey (fst e) \<noteq> mkey m \<longrightarrow> \<not> P e" and "P (stored_member m t, v)"
  shows "filter P (mput m v t) = [(stored_member m t, v)]"
  using assms
proof (induction t)
  case Nil
  then show ?case by (simp add: stored_member_def)
next
  case (Cons e t)
  obtain k u where e: "e = (k, u)" by (cases e)
  have above: "\<forall>(k', v')\<in>set t. mkey k < mkey k'" and wf: "mwf t"
    using Cons.prems(1) by (auto simp: e map_wf_Cons)
  consider "mkey m = mkey k" | "mkey m < mkey k" | "mkey k < mkey m" using less_linear by blast
  then show ?case
  proof cases
    case 1
    have "\<forall>e\<in>set t. \<not> P e" using above Cons.prems(2) 1 by fastforce
    then have "filter P t = []" by (simp add: filter_empty_conv)
    then show ?thesis using 1 Cons.prems(3) by (simp add: e stored_member_def)
  next
    case 2
    then have n: "\<forall>e\<in>set t. mkey m < mkey (fst e)" using above by fastforce
    then have "\<forall>e\<in>set t. \<not> P e" using Cons.prems(2) by fastforce
    then have "filter P t = []" by (simp add: filter_empty_conv)
    moreover have st: "stored_member m (e # t) = m"
      using 2 entry_below [OF n] by (simp add: e stored_member_def)
    moreover have "\<not> P e" using 2 Cons.prems(2) by (simp add: e)
    moreover have "mput m v (e # t) = (m, v) # e # t" using 2 by (simp add: e)
    ultimately show ?thesis using Cons.prems(3) by simp
  next
    case 3
    then have "stored_member m (e # t) = stored_member m t" by (simp add: e stored_member_def)
    moreover have "\<not> P e" using 3 Cons.prems(2) by (simp add: e)
    moreover have "mkey m \<noteq> mkey k" "\<not> mkey m < mkey k" using 3 by (simp_all add: order.asym order.strict_implies_not_eq [symmetric])
    then have "mput m v (e # t) = e # mput m v t" by (simp add: e)
    ultimately show ?thesis using Cons.IH [OF wf] Cons.prems(2,3) by simp
  qed
qed

lemma put_keys: "mwf t \<Longrightarrow> mfind m t \<noteq> None \<Longrightarrow> map fst (mput m v t) = map fst t"
proof (induction t)
  case (Cons e t)
  obtain k u where e: "e = (k, u)" by (cases e)
  have t: "\<forall>e\<in>set t. mkey k < mkey (fst e)" "mwf t" using Cons.prems(1) by (auto simp: e map_wf_Cons)
  have "mkey k \<le> mkey m"
  proof (rule ccontr)
    assume "\<not> mkey k \<le> mkey m"
    then have "\<forall>e\<in>set t. mkey m < mkey (fst e)" using t(1) by fastforce
    from entry_below [OF this] \<open>\<not> mkey k \<le> mkey m\<close> have "mfind m (e # t) = None"
      by (simp add: e map_find_def)
    then show False using Cons.prems(2) by simp
  qed
  then consider "mkey m = mkey k" | "mkey k < mkey m" "mfind m t \<noteq> None"
    using Cons.prems(2) by (force simp: e mfind_Cons)
  then show ?case
  proof cases
    case 2
    then have "mkey m \<noteq> mkey k" "\<not> mkey m < mkey k" by (simp_all add: order.asym order.strict_implies_not_eq [symmetric])
    then show ?thesis using Cons.IH [OF t(2) 2(2)] by (simp add: e)
  qed (simp add: e)
qed simp

text \<open>A flag that goes up in the table is the one event of the next comparison.\<close>

lemma actor_up_event:
  assumes "mwf flags" and "mfind m flags \<noteq> Some True"
  shows "fst (generateEventForActorSystem (mput m True flags) flags) =
    [\<lparr>ev_type = kActorSystemUp, ev_member = stored_member m flags\<rparr>]"
proof -
  let ?P = "\<lambda>(k, up). up \<noteq> (mfind k flags = Some True)"
  have "mkey (stored_member m flags) = mkey m"
    using map_entry_key [of mkey m flags] by (auto simp: stored_member_def split: option.splits)
  then have "mfind (stored_member m flags) flags = mfind m flags" by (rule mfind_cong)
  then have stored: "?P (stored_member m flags, True)" using assms(2) by simp
  have "\<forall>e\<in>set flags. mkey (fst e) \<noteq> mkey m \<longrightarrow> \<not> ?P e"
  proof (intro ballI impI)
    fix e assume e: "e \<in> set flags"
    obtain k up where "e = (k, up)" by (rule prod.exhaust)
    then show "\<not> ?P e" using e mfind_in [OF assms(1), of k up] by simp
  qed
  from filter_put [OF assms(1) this stored]
  have "filter ?P (mput m True flags) = [(stored_member m flags, True)]" .
  then show ?thesis
    unfolding actor_events [OF map_wf_put [OF assms(1)] assms(1)] by (simp only: list.map prod.case if_True)
qed

section \<open>The way of the announcement\<close>

text \<open>At the worker's node keeper: the payload is queued.\<close>

lemma ActorSystemUp_queues:
  assumes "ActorSystemUp W w = (w', None)" and "gossip_queue w = Some q"
  shows "\<exists>n. gossip_queue w' =
    Some (Push (Disseminate (ser_update W (InitAsActorSystemUpMessage (self_member w) (incarnation w + 1)))) n q)"
proof -
  let ?s = "SetSelfActorSystemUp w"
  have "with_payload (ser_update W (InitAsActorSystemUpMessage (self_member w) (incarnation w + 1))) SendGossip
      (IncreaseIncarnation ?s) = (w', None)"
    using assms(1)
    by (simp add: ActorSystemUp_def then_do_def SendSelfActorSystemUpGossip_def Let_def SetSelfActorSystemUp_def
        IncreaseIncarnation_def)
  from with_payloadD(2) [OF this] show ?thesis
    using assms(2)
    by (auto simp: SendGossip_def SetSelfActorSystemUp_def IncreaseIncarnation_def split: sum.splits)
qed

lemma actor_up_tests:
  "\<not> IsUpMessage (InitAsActorSystemUpMessage m i)" "\<not> IsDownMessage (InitAsActorSystemUpMessage m i)"
  "\<not> IsSuspectMessage (InitAsActorSystemUpMessage m i)" "\<not> IsRecoveryMessage (InitAsActorSystemUpMessage m i)"
  "\<not> IsActorSystemDownMessage (InitAsActorSystemUpMessage m i)" "IsActorSystemUpMessage (InitAsActorSystemUpMessage m i)"
  by (simp_all add: InitAsActorSystemUpMessage_def update_status_tests [OF IsInitialized_SetUpdate])

text \<open>At another node keeper that knows the worker with an older incarnation.\<close>

lemma HandleGossip_actor_up:
  assumes "tables_wf r" and "par_update W p = InitAsActorSystemUpMessage m inc"
    and "mfind m (members r) = Some i" and "i < inc" and "HandleGossip W a p r = (r', None)"
  shows "GetMembers r' = GetMembers r" and "GetActorSystems r' = mput m True (GetActorSystems r)"
proof -
  have n: "\<not> inc \<le> i" using assms(4) by simp
  then have "then_do (SendGossip p) (pure_act (MergeActorSystemUp m inc)) r = (r', None)"
    using assms(2,3,5)
    by (simp add: HandleGossip_def Let_def actor_up_tests HandleActorSystemUp_def IfBelongsToMembers_def
        GetMemberLocalIncarnation_def)
  then obtain u where u: "r' = MergeActorSystemUp m inc u" "members u = members r" "actor_systems u = actor_systems r"
    by (rule gossip_thenD)
  have "map fst (mput m inc (members r)) = map fst (members r)"
    by (rule put_keys [OF tables_wfD(1) [OF assms(1)]]) (simp add: assms(3))
  then show "GetMembers r' = GetMembers r" "GetActorSystems r' = mput m True (GetActorSystems r)"
    using assms(3) n by (simp_all add: u MergeActorSystemUp_def GetMembers_def GetActorSystems_def)
qed

text \<open>A keeper that is up to date sends this one event to a new subscriber.\<close>

lemma keeper_sends_actor_up:
  assumes "tables_wf r" and "mfind m (actor_systems r) \<noteq> Some True"
    and "GetMembers r' = GetMembers r" and "GetActorSystems r' = mput m True (GetActorSystems r)"
    and "k_generator k = \<lparr>eg_members = GetMembers r, eg_actor_systems = GetActorSystems r\<rparr>"
    and "channels_open (k_service k)" and "\<not> is_local_event (gs_host (k_service k)) \<lparr>ev_type = kActorSystemUp, ev_member = stored_member m (actor_systems r)\<rparr>"
  shows "\<exists>k'. keeper_round r' (k\<lparr>k_service := AddChannel it (k_service k)\<rparr>) = (k', None) \<and>
    (it, new_channel\<lparr>ch_queue := [\<lparr>ev_type = kActorSystemUp, ev_member = stored_member m (actor_systems r)\<rparr>]\<rparr>)
      \<in> set (gs_channels (k_service k'))"
proof -
  let ?k = "k\<lparr>k_service := AddChannel it (k_service k)\<rparr>"
    and ?e = "\<lparr>ev_type = kActorSystemUp, ev_member = stored_member m (actor_systems r)\<rparr>"
  have o: "channels_open (k_service ?k)"
    using assms(6) by (auto simp: channels_open_def AddChannel_def new_channel_def)
  have "fst (generateEventForActorSystem (mput m True (actor_systems r)) (actor_systems r)) = [?e]"
    by (rule actor_up_event) (use assms(1,2) in \<open>simp_all add: tables_wf_def\<close>)
  then have es: "fst (Update (GetMembers r') (GetActorSystems r') (k_generator k)) = [?e]"
    using assms(3-5) member_events_none by (simp add: Update_def GetActorSystems_def)
  have "gs_channels (fst (service_Notify [?e] (AddChannel it (k_service k)))) =
      map (\<lambda>(i, c). (i, c\<lparr>ch_queue := ch_queue c @ [?e]\<rparr>)) (gs_channels (AddChannel it (k_service k)))"
    using o assms(7) by (subst service_Notify_open) (simp_all add: channels_open_def AddChannel_def)
  then have "gs_channels (k_service (fst (keeper_round r' ?k))) =
      map (\<lambda>(i, c). (i, c\<lparr>ch_queue := ch_queue c @ [?e]\<rparr>)) (gs_channels (AddChannel it (k_service k)))"
    by (simp add: keeper_round_open [OF o] es)
  then have "(it, new_channel\<lparr>ch_queue := [?e]\<rparr>) \<in> set (gs_channels (k_service (fst (keeper_round r' ?k))))"
    by (simp add: AddChannel_def new_channel_def)
  then show ?thesis using keeper_round_open [OF o, of r'] by (metis fst_conv)
qed

section \<open>The observers at the end of the stream\<close>

text \<open>What a cluster object that is told of the members makes of its union of actors.\<close>

definition observed :: "(string \<Rightarrow> u16 \<Rightarrow> nat option) \<Rightarrow> string \<Rightarrow> cl_member list \<Rightarrow> union_cluster \<Rightarrow> union_cluster" where
  "observed remote_actor host ms c =
     fold (\<lambda>m. fold (union_AddWorkerNode remote_actor) (count_cluster_Update host m)) ms c"

lemma observed_actor_up:
  assumes "m_role m = k_role_worker" and "m_host_name m \<noteq> host" and "m_ip_address m \<noteq> host"
  shows "observed remote_actor host [cl_of_pb StActorSystemUp (UpdateMember m)] c = union_AddWorkerNode remote_actor (m_ip_address m) c"
  using assms by (simp add: observed_def count_cluster_Update_def cl_of_pb_def UpdateMember_def)

text \<open>
  A record without its role is passed over. Such a record comes from a failed relayed ping:
  the response names its target by name and address only, and the table keeps the record it
  was given first.
\<close>

lemma observed_without_role:
  "m_role m = [] \<Longrightarrow> observed remote_actor host [cl_of_pb StActorSystemUp (UpdateMember m)] c = c"
  by (simp add: observed_def count_cluster_Update_def cl_of_pb_def UpdateMember_def k_role_worker_def)

lemma relay_failure_forgets_role:
  assumes "HandlePush W a d s = (s', None)" and "par_response W d = InitAsPingFailure t"
    and "IfBelongsToMembers t s" and "tables_wf s" and "mentry t (actor_systems s) = None"
  shows "m_role (stored_member t (actor_systems s')) = []"
proof -
  let ?t = "response_GetMember (InitAsPingFailure t)"
  have key: "mkey ?t = mkey t" by (simp add: mkey_def)
  have "Suspect W ?t (GetMemberLocalIncarnation ?t s) s = (s', None)"
    using assms(1,2) by (simp add: HandlePush_def Let_def)
  moreover have b: "IfBelongsToMembers ?t s"
    using assms(3) unfolding IfBelongsToMembers_def mfind_cong [OF key] .
  ultimately have "actor_systems s' = mput ?t False (actor_systems s)"
    by (auto simp: Suspect_def with_payload_def mk_payload_def then_do_def AddOrUpdateSuspect_def SendGossip_def Notify_def
        split: if_splits sum.splits option.splits)
  moreover have "mwf (actor_systems s)" using assms(4) by (simp add: tables_wf_def)
  moreover have "mentry ?t (actor_systems s) = None" using assms(5) map_entry_cong [of mkey ?t t] key by metis
  ultimately have "mentry t (actor_systems s') = Some (?t, False)"
    using key by (simp add: map_entry_put)
  then show ?thesis by (simp add: stored_member_def)
qed

lemma read_actor_up:
  "read_events (map (\<lambda>e. (False, True, e)) (fst (service_Subscribe (new_channel\<lparr>ch_queue := [\<lparr>ev_type = kActorSystemUp, ev_member = m\<rparr>]\<rparr>)))) v =
     Notify_observers (cl_of_pb StActorSystemUp (UpdateMember m)) v"
  by (simp add: service_Subscribe_eq pb_event_def cl_Update_def)


text \<open>A worker, and node \<open>b\<close> after it has heard of it.\<close>

definition member_w :: member where
  "member_w = Member ''w'' ''10.0.0.7'' 5000 ''host-w'' ''u7'' ''worker''"

definition w_is_up :: payload where
  "w_is_up = ser_update plain_wire (InitAsUpMessage member_w 0)"

definition w_start :: membership where
  "w_start = initial plain_wire 0 (Config\<lparr>c_host := member_w\<rparr>)"

definition b_knows_w :: membership where
  "b_knows_w = fst (run_event plain_wire 0 (Gossip_in (member_address member_w) w_is_up) b_start)"

definition w_ready :: payload where
  "w_ready = ser_update plain_wire (InitAsActorSystemUpMessage member_w 1)"

lemma w_payloads [simp]: "length w_is_up \<le> kMaxPayloadSize" "length w_ready \<le> kMaxPayloadSize"
  "par_update plain_wire w_is_up = InitAsUpMessage member_w 0" "par_update plain_wire w_ready = InitAsActorSystemUpMessage member_w 1"
  by (simp_all add: w_is_up_def w_ready_def InitAsUpMessage_def InitAsActorSystemUpMessage_def length_update member_w_def kMaxPayloadSize_def)

lemma Init_config_w:
  "Init plain_wire 0 True (Config\<lparr>c_host := member_w\<rparr>) new_membership = (w_start, Inr MEMBERSHIP_SUCCESS)"
proof -
  have "\<not> IsEmptyMember member_w" by (simp add: IsEmptyMember_def member_w_def)
  then have "snd (Init plain_wire 0 True (Config\<lparr>c_host := member_w\<rparr>) new_membership) = Inr MEMBERSHIP_SUCCESS"
    by (simp add: Init_eq Config_def)
  then show ?thesis by (simp add: w_start_def initial_def prod_eq_iff)
qed

lemmas w_start_simps = Init_success [OF Init_config_w, simplified]

lemma w_keys [simp]: "mkey member_w = MKey ''10.0.0.7'' 5000" "m_ip_address member_w = ''10.0.0.7''"
  "m_host_name member_w = ''host-w''" "m_role member_w = ''worker''"
  by (simp_all add: member_w_def mkey_def)

lemma b_knows_w: "run_event plain_wire 0 (Gossip_in (member_address member_w) w_is_up) b_start = (b_knows_w, None)
   \<and> members b_knows_w = [(member_b, 0), (member_w, 0)] \<and> actor_systems b_knows_w = []"
  by (simp add: b_knows_w_def HandleGossip_def HandleUp_def Let_def EraseExpiredMember_def stale_def MergeUpUpdate_def
    with_payload_def mfind_Cons mfind_Nil SendGossip_def GetRetransmitLimit_def then_do_def Notify_def IfBelongsToMembers_def
    IfBelongsToSuspects_def member_eq_key ceil_log10.simps)

lemma b_knows_w_more: "gossip_queue b_knows_w \<noteq> None" "retransmit_multiplier b_knows_w = 3"
  by (simp_all add: b_knows_w_def HandleGossip_def HandleUp_def Let_def EraseExpiredMember_def stale_def MergeUpUpdate_def
    with_payload_def mfind_Cons mfind_Nil SendGossip_def GetRetransmitLimit_def then_do_def Notify_def IfBelongsToMembers_def
    IfBelongsToSuspects_def member_eq_key ceil_log10.simps)

lemma b_knows_w_reachable: "reachable plain_wire b_knows_w"
proof -
  have "reachable plain_wire b_start"
    using reachable.start [OF Init_config_b] by (simp add: b_start_def)
  moreover have "node_step plain_wire b_start (Gossip_in (member_address member_w) w_is_up) b_knows_w"
    by (rule node_step.run [OF _ conjunct1 [OF b_knows_w]]) simp_all
  ultimately show ?thesis by (rule reachable.step)
qed

definition w_called :: membership where
  "w_called = fst (ActorSystemUp plain_wire w_start)"

definition b_knows_ready :: membership where
  "b_knows_ready = fst (HandleGossip plain_wire (member_address member_w) w_ready b_knows_w)"

lemma w_called: "ActorSystemUp plain_wire w_start = (w_called, None)"
  by (simp add: w_called_def ActorSystemUp_def then_do_def SetSelfActorSystemUp_def SendSelfActorSystemUpGossip_def
    IncreaseIncarnation_def Let_def w_start_simps with_payload_def mk_payload_def SendGossip_def
    GetRetransmitLimit_def ceil_log10.simps Config_def not_less flip: w_ready_def)

lemma b_knows_ready: "HandleGossip plain_wire (member_address member_w) w_ready b_knows_w = (b_knows_ready, None)"
  using b_knows_w b_knows_w_more
  by (simp add: b_knows_ready_def HandleGossip_def actor_up_tests HandleActorSystemUp_def Let_def IfBelongsToMembers_def
    GetMemberLocalIncarnation_def mfind_Cons SendGossip_def GetRetransmitLimit_def then_do_def ceil_log10.simps split: option.splits)

definition keeper_of_b :: keeper where
  "keeper_of_b = \<lparr>k_pc = RunTop, k_generator = \<lparr>eg_members = [member_b, member_w], eg_actor_systems = []\<rparr>,
     k_service = \<lparr>gs_members = [(member_b, ()), (member_w, ())], gs_channels = [], gs_host = ''10.0.0.2''\<rparr>\<rparr>"


end
