(* ===== verification/Yanghui_Root.thy ===== *)
theory Yanghui_Root
  imports Yanghui_Client App_Config
begin

text \<open>
  The two serving programs of the Yanghui cluster (\<open>SmartRootStart\<close> and \<open>SmartWorkerStart\<close> of
  \<open>yanghui_example_v2.cc\<close>) with their configuration (\<open>yanghui_config.h\<close>), the choice of the
  transport (\<open>yanghui_io.h\<close>) and the actor that spawns workers on request (\<open>cdcf_spawn.cc\<close>). The
  console is the list of the lines still to be read; a read from a closed console gives the
  empty line. What the actors answer to a command, and what the pool actor is sent between two
  commands, are arguments.
\<close>

section \<open>Configuration\<close>

record actor_system_config = cdcf_config +
  as_port :: u16

record yanghui_config = actor_system_config +
  yc_root_port :: u16
  yc_root_host :: string
  yc_worker_port :: u16
  yc_node_keeper_host :: string
  yc_node_keeper_port :: u16
  yc_root :: bool
  yc_worker_load :: int

definition actor_system_Config :: actor_system_config where
  "actor_system_Config = cdcf_config.extend CDCFConfig \<lparr>as_port = 4750\<rparr>"

definition yanghui_default_config :: yanghui_config where
  "yanghui_default_config = actor_system_config.extend actor_system_Config
     \<lparr>yc_root_port = 0, yc_root_host = ''localhost'', yc_worker_port = 0, yc_node_keeper_host = ''127.0.0.1'',
       yc_node_keeper_port = 50051, yc_root = False, yc_worker_load = 0\<rparr>"

text \<open>\<open>YanghuiIO\<close>: one of three options is enough for every connection to use SSL.\<close>

datatype transport = PlainTcp | OpenSsl

definition use_ssl :: "string \<Rightarrow> string \<Rightarrow> string \<Rightarrow> bool" where
  "use_ssl openssl_cafile openssl_certificate openssl_key \<longleftrightarrow>
     openssl_cafile \<noteq> [] \<or> openssl_certificate \<noteq> [] \<or> openssl_key \<noteq> []"

definition io_publish :: "(transport \<Rightarrow> nat \<Rightarrow> u16 \<Rightarrow> bool \<Rightarrow> u16 option) \<Rightarrow> bool \<Rightarrow> nat \<Rightarrow> u16 \<Rightarrow> bool \<Rightarrow> u16 option" where
  "io_publish publish ssl whom port reuse = (if ssl then publish OpenSsl whom port reuse else publish PlainTcp whom port reuse)"

definition io_remote_actor :: "(transport \<Rightarrow> string \<Rightarrow> u16 \<Rightarrow> nat option) \<Rightarrow> bool \<Rightarrow> string \<Rightarrow> u16 \<Rightarrow> nat option" where
  "io_remote_actor remote_actor ssl host port =
     (if ssl then remote_actor OpenSsl host port else remote_actor PlainTcp host port)"

section \<open>Spawning on request\<close>

text \<open>The two handlers of \<open>CdcfSpawn\<close>; the first has a name to register the actor under.\<close>

datatype spawn_request =
    SpawnRegistered string string string     \<comment> \<open>type, name and description\<close>
  | SpawnOnly string

fun cdcf_spawn :: "(string \<Rightarrow> u64 option) \<Rightarrow> bool \<Rightarrow> spawn_request \<Rightarrow> actor_status \<Rightarrow> actor_status \<times> u64 option" where
  "cdcf_spawn spawn has_monitor (SpawnRegistered actor_type reg_name reg_description) st =
     (case spawn actor_type of
        None \<Rightarrow> (st, None)
      | Some res \<Rightarrow> (if has_monitor then RegisterActor res reg_name reg_description st else st, Some res))"
| "cdcf_spawn spawn has_monitor (SpawnOnly actor_type) st = (st, spawn actor_type)"

section \<open>The worker program\<close>

text \<open>
  The actors of a worker, with what \<open>publish\<close> did for each: the three calculators and the
  spawner must be published, the one for the load balancer need not be.
\<close>

record worker_program =
  wk_published :: "(nat \<times> u16) list"
  wk_status :: actor_status
  wk_ready :: bool                 \<comment> \<open>\<open>NotifyReady\<close> was called\<close>
  wk_exits :: "nat list"           \<comment> \<open>told \<open>user_shutdown\<close>\<close>

datatype worker_end = ExitOne | WaitsForQ | EndOfMain "string list"

fun publish_all :: "(nat \<Rightarrow> u16 \<Rightarrow> bool) \<Rightarrow> (nat \<times> u16 \<times> bool) list \<Rightarrow> (nat \<times> u16) list \<times> bool" where
  "publish_all publish [] = ([], True)"
| "publish_all publish ((a, port, needed) # ps) =
     (if publish a port then (case publish_all publish ps of (done, ok) \<Rightarrow> ((a, port) # done, ok))
      else if needed then ([], False)
      else publish_all publish ps)"

definition register_workers :: "nat list \<Rightarrow> actor_status" where
  "register_workers as =
     fold (\<lambda>(a, name, description). RegisterActor (of_nat a) name description)
       (zip as [(''calculator1'', ''a actor can calculate for yanghui.''),
                (''calculator2'', ''a actor can calculate for yanghui.''),
                (''calculator3'', ''a actor can calculate for yanghui.''),
                (''calculator for load balance'', ''a actor can calculate for load balance yanghui.'')]) []"

text \<open>The loop of the worker: lines are read until one is \<open>q\<close>. A closed console gives none.\<close>

fun wait_for_q :: "string list \<Rightarrow> string list option" where
  "wait_for_q [] = None"
| "wait_for_q (dummy # ls) = (if dummy = ''q'' then Some ls else wait_for_q ls)"

definition SmartWorkerStart ::
  "(nat \<Rightarrow> u16 \<Rightarrow> bool) \<Rightarrow> nat \<times> nat \<times> nat \<times> nat \<times> nat \<Rightarrow> u16 \<Rightarrow> string list \<Rightarrow> worker_program \<times> worker_end" where
  "SmartWorkerStart publish actors worker_port console =
     (case actors of (a1, a2, a3, balanced, spawner) \<Rightarrow>
        case publish_all publish [(a1, 55001, True), (a2, 55002, True), (a3, 55003, True),
               (balanced, 55004, False), (spawner, worker_port, True)] of
          (done, False) \<Rightarrow> (\<lparr>wk_published = done, wk_status = [], wk_ready = False, wk_exits = []\<rparr>, ExitOne)
        | (done, True) \<Rightarrow>
            let w = \<lparr>wk_published = done, wk_status = register_workers [a1, a2, a3, balanced], wk_ready = True, wk_exits = []\<rparr> in
            (case wait_for_q console of
               None \<Rightarrow> (w, WaitsForQ)
             | Some rest \<Rightarrow> (w\<lparr>wk_exits := [a1, a2, a3, spawner]\<rparr>, EndOfMain rest)))"

lemma wait_for_q_append: "''q'' \<notin> set ls \<Longrightarrow> wait_for_q (ls @ ''q'' # rest) = Some rest"
  by (induction ls) auto

lemma wait_for_q_None: "wait_for_q ls = None \<longleftrightarrow> ''q'' \<notin> set ls"
  by (induction ls) auto

text \<open>
  What a worker that says it is ready serves: a root that connects to it by the ports of its
  own code finds the three calculators, the load balancer's actor if it could be published, and
  the spawner.
\<close>

definition worker_ports :: "worker_program \<Rightarrow> u16 \<Rightarrow> nat option" where
  "worker_ports w port = map_of (map prod.swap (wk_published w)) port"

lemma ready_worker_serves:
  assumes "SmartWorkerStart publish (a1, a2, a3, balanced, spawner) worker_port console = (w, e)" and "wk_ready w"
    and "worker_port \<notin> {55001, 55002, 55003, 55004}"
  shows "worker_ports w 55001 = Some a1" "worker_ports w 55002 = Some a2" "worker_ports w 55003 = Some a3"
    "worker_ports w 55004 = (if publish balanced 55004 then Some balanced else None)"
    "worker_ports w worker_port = Some spawner"
  using assms
  by (auto simp: SmartWorkerStart_def worker_ports_def Let_def split: if_splits option.splits)

lemma ready_worker_joins_union:
  assumes "SmartWorkerStart publish (a1, a2, a3, balanced, spawner) worker_port console = (w, e)" and "wk_ready w"
    and "worker_port \<notin> {55001, 55002, 55003, 55004}" and "remote_actor host = worker_ports w"
  shows "au_pool (uc_counter (union_AddWorkerNode remote_actor host c)) = au_pool (uc_counter c) @ [a1, a2, a3]"
    and "uc_balancer (union_AddWorkerNode remote_actor host c) =
      uc_balancer c @ (if publish balanced 55004 then [balanced] else [])"
  using ready_worker_serves [OF assms(1-3)] assms(4)
  by (simp_all add: union_AddWorkerNode_def AddWorkerNodeWithPort_def union_AddActor_def Let_def)

text \<open>A worker that cannot publish one of the needed actors exits without having said it is ready.\<close>

lemma worker_exits_unready:
  "SmartWorkerStart publish as worker_port console = (w, ExitOne) \<Longrightarrow> \<not> wk_ready w \<and> wk_exits w = []"
  by (auto simp: SmartWorkerStart_def Let_def split: prod.splits bool.splits option.splits)

section \<open>The console of the root\<close>

datatype shown =
    ShownRet int
  | ShownCallError nat
  | ShownBalanced int
  | ShownPriority "(bool \<times> int) list"
  | ShownPriorityError
  | ShownText string
  | ShownFlag bool
  | ShownSize nat
  | ShownStop

record root_program =
  rt_lines :: "string list"
  rt_pool :: router_pool
  rt_yanghui :: bool             \<comment> \<open>whether \<open>yanghui_actor\<close> is there\<close>
  rt_guard :: actor_guard
  rt_shown :: "shown list"

text \<open>
  What a command meets: the messages the pool actor handles before it, the environment and
  the state of that actor, the union of calculators and how the calls of the standard job end,
  and what the other jobs answer (\<open>None\<close>: nothing, ever).
\<close>

record root_env =
  re_events :: "pool_message list"
  re_pool :: env
  re_alive :: bool
  re_union :: actor_union
  re_calls :: "nat \<Rightarrow> outcome list"
  re_balanced :: "(bool \<times> int) option"
  re_empty :: "bool list"
  re_priority :: "(bool \<times> int) list option option"
  re_rounds :: "(outcome \<times> nat \<times> bool) list"
  re_result :: int

datatype verdict = GoesOn | Stops | Waits | Throws cpp_exn

definition console_line :: "root_program \<Rightarrow> string \<times> root_program" where
  "console_line r = (case rt_lines r of [] \<Rightarrow> ([], r) | l # ls \<Rightarrow> (l, r\<lparr>rt_lines := ls\<rparr>))"

definition show_root :: "shown list \<Rightarrow> root_program \<Rightarrow> root_program" where
  "show_root out r = r\<lparr>rt_shown := rt_shown r @ out\<rparr>"

definition InputHostIp :: "root_program \<Rightarrow> string \<times> root_program" where
  "InputHostIp r = console_line r"

text \<open>The number is cast to \<open>size_t\<close>, a negative one as well.\<close>

definition InputSize :: "root_program \<Rightarrow> (cpp_exn + nat) \<times> root_program" where
  "InputSize r = (case console_line r of (dummy, r) \<Rightarrow> (map_sum id (\<lambda>n. unat (of_int n :: u64)) (stoi dummy), r))"

text \<open>\<open>n\<close>: the standard job, without a limit of time. An actor that throws is gone.\<close>

definition command_n :: "root_env \<Rightarrow> root_program \<Rightarrow> root_program \<times> verdict" where
  "command_n E r =
     (if rt_yanghui r then
        case snd (yanghui_behavior (union_AddNumber (re_union E) (re_calls E)) (union_Compare (re_union E) (re_calls E))
               (TriangleData kYanghuiData2) (True, 0)) of
          Returned v \<Rightarrow> (show_root [ShownRet v] r, GoesOn)
        | Blocked \<Rightarrow> (r, Waits)
        | Raised e \<Rightarrow> (r\<lparr>rt_yanghui := False\<rparr>, Waits)
      else (r, Waits))"

text \<open>\<open>e\<close>: the text makes the actor quit; nothing replaces it.\<close>

definition command_e :: "root_env \<Rightarrow> root_program \<Rightarrow> root_program \<times> verdict" where
  "command_e E r =
     (r\<lparr>rt_yanghui := rt_yanghui r \<and>
        fst (fst (yanghui_behavior (union_AddNumber (re_union E) (re_calls E)) (union_Compare (re_union E) (re_calls E))
               (Text ''quit'') (True, 0)))\<rparr>, GoesOn)"

definition command_b :: "root_env \<Rightarrow> root_program \<Rightarrow> root_program \<times> verdict" where
  "command_b E r =
     (case re_balanced E of None \<Rightarrow> (r, Waits) | Some (status, result) \<Rightarrow> (show_root [ShownBalanced result] r, GoesOn))"

definition command_p :: "root_env \<Rightarrow> root_program \<Rightarrow> root_program \<times> verdict" where
  "command_p E r =
     (if wait_for_worker (re_empty E) = None then (r, Waits)
      else case re_priority E of
        None \<Rightarrow> (r, Waits)
      | Some None \<Rightarrow> (show_root [ShownPriorityError] r, GoesOn)
      | Some (Some result) \<Rightarrow> (show_root [ShownPriority result] r, GoesOn))"

text \<open>\<open>pool n\<close> goes through the guard, which reports a result or an error.\<close>

definition guard_shown :: "int \<Rightarrow> guard_action list \<Rightarrow> shown list" where
  "guard_shown v actions = concat (map (\<lambda>a. case a of
       ReturnFunction \<Rightarrow> [ShownRet v] | ErrorFunction e \<Rightarrow> [ShownCallError e] | _ \<Rightarrow> []) actions)"

definition command_pool_n :: "root_env \<Rightarrow> root_program \<Rightarrow> root_program \<times> verdict" where
  "command_pool_n E r =
     (case guard_SendAndReceive (re_rounds E) (rt_guard r) of (actions, g, _) \<Rightarrow>
        (show_root (guard_shown (re_result E) actions) (r\<lparr>rt_guard := g\<rparr>),
         if ag_active (rt_guard r) \<and> \<not> list_ex is_report actions then Waits else GoesOn))"

text \<open>A request of the console to the pool, with what it shows.\<close>

definition pool_changes :: "(router_pool \<Rightarrow> router_pool \<times> bool) \<Rightarrow> root_program \<Rightarrow> root_program \<times> verdict" where
  "pool_changes f r = (case f (rt_pool r) of (p, b) \<Rightarrow> (show_root [ShownFlag b] (r\<lparr>rt_pool := p\<rparr>), GoesOn))"

definition root_command :: "u16 \<Rightarrow> root_env \<Rightarrow> string \<Rightarrow> root_program \<Rightarrow> root_program \<times> verdict" where
  "root_command worker_port E dummy r =
     (let P = re_pool E; alive = re_alive E in
      if dummy = ''q'' then (show_root [ShownStop] r, Stops)
      else if dummy = ''n'' then command_n E r
      else if dummy = ''b'' then command_b E r
      else if dummy = ''e'' then command_e E r
      else if dummy = ''p'' then command_p E r
      else if dummy = ''pool n'' then command_pool_n E r
      else if dummy = ''pool get nodes'' then (show_root [ShownText (NodeList P alive (rt_pool r))] r, GoesOn)
      else if dummy = ''pool remove node'' then
        (case InputHostIp r of (host, r) \<Rightarrow> pool_changes (cluster_RemoveNode P alive host worker_port) r)
      else if dummy = ''pool add node'' then
        (case InputHostIp r of (host, r) \<Rightarrow> pool_changes (cluster_AddNode P alive host worker_port) r)
      else if dummy = ''pool get size'' then (show_root [ShownSize (GetPoolSize P alive (rt_pool r))] r, GoesOn)
      else if dummy = ''pool get size by ip'' then
        (case InputHostIp r of (host, r) \<Rightarrow>
           (show_root [ShownSize (GetPoolSizeOf P alive host worker_port (rt_pool r))] r, GoesOn))
      else if dummy = ''pool change size'' then
        (case InputSize r of
           (Inl e, r) \<Rightarrow> (r, Throws e)
         | (Inr new_size, r) \<Rightarrow> pool_changes (ChangePoolSize P alive new_size) r)
      else if dummy = ''pool change size by ip'' then
        (case InputSize r of
           (Inl e, r) \<Rightarrow> (r, Throws e)
         | (Inr new_size, r) \<Rightarrow> (case InputHostIp r of (host, r) \<Rightarrow>
             pool_changes (ChangePoolSizeOf P alive new_size host worker_port) r))
      else (r, GoesOn))"

text \<open>One turn of the loop, after what the pool actor has handled since the last one.\<close>

definition handle_events :: "root_env \<Rightarrow> root_program \<Rightarrow> root_program" where
  "handle_events E r = r\<lparr>rt_pool := fold (\<lambda>m p. fst (pool_request (re_pool E) (re_alive E) m p)) (re_events E) (rt_pool r)\<rparr>"

definition root_turn :: "u16 \<Rightarrow> root_env \<Rightarrow> root_program \<Rightarrow> root_program \<times> verdict" where
  "root_turn worker_port E r = (case console_line (handle_events E r) of (dummy, r) \<Rightarrow> root_command worker_port E dummy r)"

text \<open>The loop; \<open>None\<close> when it does not return, by waiting or by reading for ever.\<close>

partial_function (option) root_loop ::
  "u16 \<Rightarrow> (nat \<Rightarrow> root_env) \<Rightarrow> nat \<Rightarrow> root_program \<Rightarrow> (root_program \<times> cpp_exn option) option" where
  "root_loop worker_port env k r =
     (case root_turn worker_port (env k) r of
        (r', GoesOn) \<Rightarrow> root_loop worker_port env (Suc k) r'
      | (r', Stops) \<Rightarrow> Some (r', None)
      | (r', Throws e) \<Rightarrow> Some (r', Some e)
      | (r', Waits) \<Rightarrow> None)"

section \<open>The start of the root\<close>

text \<open>The actors of the root, in the order they are spawned, with those they are given.\<close>

datatype root_actor =
    PoolActor | PoolSupervisor | YanghuiActor | Supervisor
  | ResultPrinter | GetMin | CountPath
  | NormalPriority | HighPriority | Dispatcher
  | StandardJob | PriorityJob | BalancedJob | PoolJob

definition root_wiring :: "(root_actor \<times> root_actor list) list" where
  "root_wiring =
     [(PoolActor, []), (PoolSupervisor, []), (YanghuiActor, []), (Supervisor, []),
      (ResultPrinter, []), (GetMin, [ResultPrinter]), (CountPath, [GetMin]),
      (NormalPriority, []), (HighPriority, []), (Dispatcher, [NormalPriority, HighPriority]),
      (StandardJob, [YanghuiActor]), (PriorityJob, [Dispatcher]), (BalancedJob, [CountPath, GetMin]), (PoolJob, [])]"

lemma root_wiring_ordered:
  "\<forall>i<length root_wiring. \<forall>a\<in>set (snd (root_wiring ! i)). a \<in> fst ` set (take i root_wiring)"
  "distinct (map fst root_wiring)"
  by code_simp+

text \<open>
  What is set up before the first prompt, from the members the cluster object has: the two
  clusters with the workers they reach, the pool of the job with priorities, the two registered
  and watched actors, the guard, and the four job actors, published if one of four attempts
  succeeds. A job that could not be published is only logged, and so is a worker that could not
  be added. \<open>actor\<close> gives the identifiers of the actors.
\<close>

record root_start =
  rs_pool :: router_pool
  rs_union :: union_cluster
  rs_workers :: worker_pool
  rs_status :: actor_status
  rs_watched :: "(root_actor \<times> root_actor) list"
  rs_guard :: actor_guard
  rs_published :: "(u16 \<times> nat) list"

definition publish_jobs :: "(u16 \<Rightarrow> bool list) \<Rightarrow> nat list \<Rightarrow> (u16 \<times> nat) list" where
  "publish_jobs attempts jobs =
     filter (\<lambda>(port, a). snd (PublishActor (attempts port))) (zip (map fst job_ports) jobs)"

definition pool_cluster_text :: string where
  "pool_cluster_text = ''a actor can count yanghui triangle using pool cluster.''"

definition SmartRootStart ::
  "env \<Rightarrow> u16 \<Rightarrow> string \<Rightarrow> cl_member list \<Rightarrow> (string \<Rightarrow> u16 \<Rightarrow> nat option) \<Rightarrow> (string \<Rightarrow> nat option) \<Rightarrow>
     (root_actor \<Rightarrow> nat) \<Rightarrow> (u16 \<Rightarrow> bool list) \<Rightarrow> root_start" where
  "SmartRootStart P worker_port root_host ms remote_actor spawn actor attempts =
     \<lparr>rs_pool = fold (pool_AddWorkerNode P True worker_port) (InitWorkerNodes ms) (new_pool 3),
       rs_union = fold (union_AddWorkerNode remote_actor) (InitWorkerNodes ms)
         \<lparr>uc_counter = \<lparr>au_actor_count = 0, au_pool = []\<rparr>, uc_balancer = []\<rparr>,
       rs_workers = fst (wp_Init spawn ms \<lparr>wp_host = root_host, wp_workers = []\<rparr>),
       rs_status = RegisterActor (of_nat (actor YanghuiActor)) ''Yanghui'' ''a actor can count yanghui triangle using count cluster.''
         (RegisterActor (of_nat (actor PoolActor)) ''Yanghui'' pool_cluster_text []),
       rs_watched = [(PoolSupervisor, PoolActor), (Supervisor, YanghuiActor)],
       rs_guard = \<lparr>ag_keep_actor = actor PoolActor, ag_active = True\<rparr>,
       rs_published = publish_jobs attempts (map actor [StandardJob, PriorityJob, BalancedJob, PoolJob])\<rparr>"

text \<open>The restart function of the guard: a new actor, registered, with the flag set.\<close>

definition pool_guard_restart :: "nat \<Rightarrow> actor_status \<Rightarrow> (nat \<times> bool) \<times> actor_status" where
  "pool_guard_restart new_yanghui st = ((new_yanghui, True), RegisterActor (of_nat new_yanghui) ''Yanghui'' pool_cluster_text st)"

definition at_the_prompt :: "string list \<Rightarrow> root_start \<Rightarrow> root_program" where
  "at_the_prompt console s =
     \<lparr>rt_lines = console, rt_pool = rs_pool s, rt_yanghui = True, rt_guard = rs_guard s, rt_shown = []\<rparr>"

lemma new_pool_wf: "pool_wf (new_pool n)"
  by (simp add: pool_wf_def new_pool_def GetNode_def)

lemma SmartRootStart_wf: "pool_wf (rs_pool (SmartRootStart P port host ms remote_actor spawn actor attempts))"
proof -
  have "pool_wf p \<Longrightarrow> pool_wf (fold (pool_AddWorkerNode P True port) hs p)" for hs p
    by (induction hs arbitrary: p) (simp_all add: pool_AddWorkerNode_def pool_request_wf)
  then show ?thesis by (simp add: SmartRootStart_def new_pool_wf)
qed

text \<open>
  A client connects to a root that could publish its four jobs, and to no other.
\<close>

lemma root_serves_client:
  "snd (AddYanghuiJob (map_of (rs_published (SmartRootStart P port host ms remote_actor spawn actor attempts))) s) = 0
    \<longleftrightarrow> (\<forall>p\<in>set (map fst job_ports). snd (PublishActor (attempts p)))"
  by (auto simp: SmartRootStart_def publish_jobs_def AddYanghuiJob_def job_ports_def split: prod.splits option.splits)

text \<open>Which of the three programs a process runs: any role but two is a worker.\<close>

datatype yanghui_program = RunRoot | RunClient | RunWorker

definition yanghui_main :: "string \<Rightarrow> yanghui_program" where
  "yanghui_main role = (if role = ''root'' then RunRoot else if role = ''client'' then RunClient else RunWorker)"

section \<open>A session at the console\<close>

text \<open>The loop returns only at a line that says so, or at a size that is no number.\<close>

lemma console_line_simps [simp]:
  "console_line (r\<lparr>rt_lines := []\<rparr>) = ([], r\<lparr>rt_lines := []\<rparr>)"
  "console_line (r\<lparr>rt_lines := l # ls\<rparr>) = (l, r\<lparr>rt_lines := ls\<rparr>)"
  by (simp_all add: console_line_def)

lemma console_line_rest: "console_line r = (l, r') \<Longrightarrow> set (rt_lines r') \<subseteq> set (rt_lines r) \<and> (l \<noteq> [] \<longrightarrow> l \<in> set (rt_lines r))"
  by (auto simp: console_line_def split: list.splits)

lemma show_root_frame [simp]:
  "rt_lines (show_root out r) = rt_lines r" "rt_pool (show_root out r) = rt_pool r" "rt_guard (show_root out r) = rt_guard r"
  "rt_yanghui (show_root out r) = rt_yanghui r" "rt_shown (show_root out r) = rt_shown r @ out"
  by (simp_all add: show_root_def)

lemma pool_changes_frame [simp]:
  "rt_lines (fst (pool_changes f r)) = rt_lines r" "snd (pool_changes f r) = GoesOn"
  "rt_pool (fst (pool_changes f r)) = fst (f (rt_pool r))" "rt_guard (fst (pool_changes f r)) = rt_guard r"
  by (simp_all add: pool_changes_def split: prod.splits)

lemma command_frames [simp]:
  "rt_lines (fst (command_n E r)) = rt_lines r" "rt_pool (fst (command_n E r)) = rt_pool r" "rt_guard (fst (command_n E r)) = rt_guard r"
  "rt_lines (fst (command_e E r)) = rt_lines r" "rt_pool (fst (command_e E r)) = rt_pool r" "rt_guard (fst (command_e E r)) = rt_guard r"
  "rt_lines (fst (command_b E r)) = rt_lines r" "rt_pool (fst (command_b E r)) = rt_pool r" "rt_guard (fst (command_b E r)) = rt_guard r"
  "rt_lines (fst (command_p E r)) = rt_lines r" "rt_pool (fst (command_p E r)) = rt_pool r" "rt_guard (fst (command_p E r)) = rt_guard r"
  "rt_lines (fst (command_pool_n E r)) = rt_lines r" "rt_pool (fst (command_pool_n E r)) = rt_pool r"
  by (auto simp: command_n_def command_e_def command_b_def command_p_def command_pool_n_def split: prod.splits option.splits stop.splits)

lemma only_q_stops: "snd (root_command worker_port E dummy r) = Stops \<Longrightarrow> dummy = ''q''"
  by (auto simp: root_command_def Let_def command_n_def command_e_def command_b_def command_p_def command_pool_n_def
      split: prod.splits option.splits stop.splits sum.splits if_splits)

lemma root_command_lines: "set (rt_lines (fst (root_command worker_port E dummy r))) \<subseteq> set (rt_lines r)"
  using console_line_rest [of r]
  by (cases "console_line r"; cases "console_line (snd (console_line r))")
    (auto simp: root_command_def Let_def InputHostIp_def InputSize_def split: sum.splits prod.splits dest!: console_line_rest)

lemma handle_events_frame [simp]:
  "rt_lines (handle_events E r) = rt_lines r" "rt_guard (handle_events E r) = rt_guard r" "rt_shown (handle_events E r) = rt_shown r"
  by (simp_all add: handle_events_def)

lemma root_turn_lines: "set (rt_lines (fst (root_turn worker_port E r))) \<subseteq> set (rt_lines r)"
  using root_command_lines [of worker_port E] console_line_rest [of "handle_events E r"]
  by (fastforce simp: root_turn_def split: prod.splits)

lemma root_turn_stops:
  assumes "root_turn worker_port E r = (r', Stops)"
  shows "''q'' \<in> set (rt_lines r)"
proof -
  obtain dummy r1 where l: "console_line (handle_events E r) = (dummy, r1)" by fastforce
  then have "dummy = ''q''" using assms only_q_stops [of worker_port E dummy r1] by (simp add: root_turn_def)
  then show ?thesis using console_line_rest [OF l] by simp
qed

text \<open>Without a line \<open>q\<close> the program never ends regularly: a closed console is read for ever.\<close>

lemmas root_loop_induct = root_loop.raw_induct [rotated, consumes 1, case_names turn]

lemma root_loop_needs_q: "root_loop worker_port env k r = Some z \<Longrightarrow> snd z = None \<Longrightarrow> ''q'' \<in> set (rt_lines r)"
proof (induction rule: root_loop_induct)
  case (turn f worker_port env k r z)
  obtain r1 v where t: "root_turn worker_port (env k) r = (r1, v)" by fastforce
  show ?case
  proof (cases v)
    case GoesOn
    then have "''q'' \<in> set (rt_lines r1)" using turn t by simp
    then show ?thesis using t root_turn_lines [of worker_port "env k" r] by auto
  next
    case Stops
    then show ?thesis using root_turn_stops t by blast
  qed (use turn(2,3) t in auto)
qed

lemma root_loop_needs_lines: "root_loop worker_port env k r = Some z \<Longrightarrow> rt_lines r \<noteq> []"
proof (induction rule: root_loop_induct)
  case (turn f worker_port env k r z)
  show ?case
  proof
    assume "rt_lines r = []"
    then have "root_turn worker_port (env k) r = (handle_events (env k) r, GoesOn)"
      by (simp add: root_turn_def console_line_def root_command_def Let_def)
    then have "f worker_port env (Suc k) (handle_events (env k) r) = Some z" using turn(2) by simp
    from turn(1) [OF this] show False using \<open>rt_lines r = []\<close> by simp
  qed
qed

lemma closed_console: "rt_lines r = [] \<Longrightarrow> root_loop worker_port env k r = None"
  using root_loop_needs_lines [of worker_port env k r] by (cases "root_loop worker_port env k r") auto

text \<open>
  The pool stays well formed at every prompt, whatever is typed and whatever the pool actor
  handles in between, and the guard stays usable as its restart function always sets its flag.
\<close>

inductive root_prompt :: "u16 \<Rightarrow> (nat \<Rightarrow> root_env) \<Rightarrow> root_program \<Rightarrow> nat \<Rightarrow> root_program \<Rightarrow> bool"
  for worker_port env start where
  start: "root_prompt worker_port env start 0 start"
| turn: "root_prompt worker_port env start k r \<Longrightarrow> root_turn worker_port (env k) r = (r', GoesOn) \<Longrightarrow>
    root_prompt worker_port env start (Suc k) r'"

lemma pool_request_change_wf:
  "pool_wf p \<Longrightarrow> pool_wf (fst (ChangePoolSize E alive n p))" "pool_wf p \<Longrightarrow> pool_wf (fst (ChangePoolSizeOf E alive n h q p))"
  "pool_wf p \<Longrightarrow> pool_wf (fst (cluster_RemoveNode E alive h q p))" "pool_wf p \<Longrightarrow> pool_wf (fst (cluster_AddNode E alive h q p))"
  by (simp_all add: ChangePoolSize_def ChangePoolSizeOf_def cluster_RemoveNode_def cluster_AddNode_def pool_request_wf)

lemma console_line_frame: "console_line r = (l, r') \<Longrightarrow> rt_pool r' = rt_pool r \<and> rt_guard r' = rt_guard r"
  by (auto simp: console_line_def split: list.splits)

lemma input_frames:
  "InputHostIp r = (l, r') \<Longrightarrow> rt_pool r' = rt_pool r \<and> rt_guard r' = rt_guard r"
  "InputSize r = (n, r') \<Longrightarrow> rt_pool r' = rt_pool r \<and> rt_guard r' = rt_guard r"
  using console_line_frame by (auto simp: InputHostIp_def InputSize_def split: prod.splits)

text \<open>A command changes the pool only through its operations, and the guard only in \<open>pool n\<close>.\<close>

lemma root_command_cases:
  assumes "P (rt_pool r) (rt_guard r)" and "\<And>n. P (fst (ChangePoolSize (re_pool E) (re_alive E) n (rt_pool r))) (rt_guard r)"
    and "\<And>n h. P (fst (ChangePoolSizeOf (re_pool E) (re_alive E) n h worker_port (rt_pool r))) (rt_guard r)"
    and "\<And>h. P (fst (cluster_RemoveNode (re_pool E) (re_alive E) h worker_port (rt_pool r))) (rt_guard r)"
    and "\<And>h. P (fst (cluster_AddNode (re_pool E) (re_alive E) h worker_port (rt_pool r))) (rt_guard r)"
    and "P (rt_pool r) (rt_guard (fst (command_pool_n E r)))"
  shows "P (rt_pool (fst (root_command worker_port E dummy r))) (rt_guard (fst (root_command worker_port E dummy r)))"
proof -
  obtain h r1 n r2 where i: "InputHostIp r = (h, r1)" "InputSize r = (n, r2)" by fastforce
  obtain h' r3 where j: "InputHostIp r2 = (h', r3)" by fastforce
  show ?thesis
    using assms input_frames(1) [OF i(1)] input_frames(2) [OF i(2)] input_frames(1) [OF j]
    by (cases n) (simp_all add: root_command_def Let_def i j)
qed

lemma root_command_wf: "pool_wf (rt_pool r) \<Longrightarrow> pool_wf (rt_pool (fst (root_command worker_port E dummy r)))"
  by (rule root_command_cases [where P = "\<lambda>p g. pool_wf p"]) (simp_all add: pool_request_change_wf)

lemma fold_pool_request_wf: "pool_wf p \<Longrightarrow> pool_wf (fold (\<lambda>m p. fst (pool_request E alive m p)) ms p)"
  by (induction ms arbitrary: p) (simp_all add: pool_request_wf)

lemma root_turn_wf:
  assumes "pool_wf (rt_pool r)"
  shows "pool_wf (rt_pool (fst (root_turn worker_port E r)))"
proof -
  obtain l r1 where l: "console_line (handle_events E r) = (l, r1)" by fastforce
  have "pool_wf (rt_pool (handle_events E r))" using assms by (simp add: handle_events_def fold_pool_request_wf)
  then have "pool_wf (rt_pool r1)" using console_line_frame [OF l] by simp
  then show ?thesis using l root_command_wf by (simp add: root_turn_def)
qed

lemma guard_request_active:
  "ag_active g \<Longrightarrow> \<forall>(out, a, active)\<in>set rs. active \<Longrightarrow> ag_active (snd (guard_request rs g))"
  by (induction rs g rule: guard_request.induct) (auto simp: Let_def split: outcome.splits prod.splits)

lemma root_turn_guard:
  assumes "ag_active (rt_guard r)" and "\<forall>(out, a, active)\<in>set (re_rounds E). active"
  shows "ag_active (rt_guard (fst (root_turn worker_port E r)))"
proof -
  obtain l r1 where l: "console_line (handle_events E r) = (l, r1)" by fastforce
  then have g: "ag_active (rt_guard r1)" using console_line_frame [OF l] assms(1) by simp
  have "ag_active (rt_guard (fst (command_pool_n E r1)))"
    using guard_request_active [OF g assms(2)] g
    by (cases "guard_request (re_rounds E) (rt_guard r1)") (simp add: command_pool_n_def guard_SendAndReceive_def)
  then have "ag_active (rt_guard (fst (root_command worker_port E l r1)))"
    using root_command_cases [where P = "\<lambda>p g. ag_active g"] g by blast
  then show ?thesis using l by (simp add: root_turn_def)
qed

lemma root_prompt_inv:
  assumes "root_prompt worker_port env start k r" and "pool_wf (rt_pool start)" and "ag_active (rt_guard start)"
    and "\<And>k. \<forall>(out, a, active)\<in>set (re_rounds (env k)). active"
  shows "pool_wf (rt_pool r) \<and> ag_active (rt_guard r)"
  using assms(1)
proof (induction rule: root_prompt.induct)
  case (turn k r r')
  then show ?case
    using root_turn_wf [of r worker_port "env k"] root_turn_guard [OF _ assms(4) [of k], of r worker_port] by simp
qed (use assms(2,3) in simp)

lemma started_root_inv:
  assumes "root_prompt worker_port env (at_the_prompt console (SmartRootStart P port host ms remote_actor spawn actor attempts)) k r"
    and "\<And>k. \<forall>(out, a, active)\<in>set (re_rounds (env k)). \<exists>new st. (a, active) = fst (pool_guard_restart new st)"
  shows "pool_wf (rt_pool r) \<and> ag_active (rt_guard r)"
proof -
  have "\<forall>(out, a, active)\<in>set (re_rounds (env k)). active" for k
    using assms(2) [of k] by (fastforce simp: pool_guard_restart_def)
  moreover have "ag_active (rs_guard (SmartRootStart P port host ms remote_actor spawn actor attempts))"
    by (simp add: SmartRootStart_def)
  ultimately show ?thesis
    using root_prompt_inv [OF assms(1)] SmartRootStart_wf by (simp add: at_the_prompt_def)
qed

text \<open>The loop returns exactly when a prompt is reached whose line ends it.\<close>

lemma root_loop_prompt:
  assumes "root_prompt worker_port env start k r"
  shows "root_loop worker_port env 0 start = root_loop worker_port env k r"
  using assms
proof induction
  case (turn k r r')
  then show ?case using root_loop.simps [of worker_port env k r] by simp
qed simp

section \<open>Typed commands\<close>

text \<open>The commands about the pool as data, what is typed for them, and what they do.\<close>

datatype pool_command =
    CmdNodes
  | CmdRemove string
  | CmdAdd string
  | CmdSize
  | CmdSizeOf string
  | CmdResize nat
  | CmdResizeOf nat string

fun typed :: "pool_command \<Rightarrow> string list" where
  "typed CmdNodes = [''pool get nodes'']"
| "typed (CmdRemove h) = [''pool remove node'', h]"
| "typed (CmdAdd h) = [''pool add node'', h]"
| "typed CmdSize = [''pool get size'']"
| "typed (CmdSizeOf h) = [''pool get size by ip'', h]"
| "typed (CmdResize n) = [''pool change size'', to_string n]"
| "typed (CmdResizeOf n h) = [''pool change size by ip'', to_string n, h]"

fun small_size :: "pool_command \<Rightarrow> bool" where
  "small_size (CmdResize n) = (n < 2 ^ 31)"
| "small_size (CmdResizeOf n h) = (n < 2 ^ 31)"
| "small_size c = True"

fun run_command :: "env \<Rightarrow> bool \<Rightarrow> u16 \<Rightarrow> pool_command \<Rightarrow> router_pool \<Rightarrow> router_pool \<times> shown" where
  "run_command P alive worker_port CmdNodes p = (p, ShownText (NodeList P alive p))"
| "run_command P alive worker_port (CmdRemove h) p = map_prod id ShownFlag (cluster_RemoveNode P alive h worker_port p)"
| "run_command P alive worker_port (CmdAdd h) p = map_prod id ShownFlag (cluster_AddNode P alive h worker_port p)"
| "run_command P alive worker_port CmdSize p = (p, ShownSize (GetPoolSize P alive p))"
| "run_command P alive worker_port (CmdSizeOf h) p = (p, ShownSize (GetPoolSizeOf P alive h worker_port p))"
| "run_command P alive worker_port (CmdResize n) p = map_prod id ShownFlag (ChangePoolSize P alive n p)"
| "run_command P alive worker_port (CmdResizeOf n h) p = map_prod id ShownFlag (ChangePoolSizeOf P alive n h worker_port p)"

fun run_commands :: "u16 \<Rightarrow> (nat \<Rightarrow> root_env) \<Rightarrow> nat \<Rightarrow> pool_command list \<Rightarrow> router_pool \<Rightarrow> router_pool \<times> shown list" where
  "run_commands worker_port env k [] p = (p, [])"
| "run_commands worker_port env k (c # cs) p =
     (case run_command (re_pool (env k)) (re_alive (env k)) worker_port c
         (fold (\<lambda>m p. fst (pool_request (re_pool (env k)) (re_alive (env k)) m p)) (re_events (env k)) p) of
        (p', out) \<Rightarrow> map_prod id (Cons out) (run_commands worker_port env (Suc k) cs p'))"

lemma InputSize_typed:
  assumes "n < 2 ^ 31"
  shows "InputSize (r\<lparr>rt_lines := to_string n # ls\<rparr>) = (Inr n, r\<lparr>rt_lines := ls\<rparr>)"
proof -
  have "unat (word_of_nat n :: u64) = n" using assms by (simp add: unat_of_nat take_bit_nat_eq_self)
  then show ?thesis using stoi_to_string [OF assms] by (simp add: InputSize_def)
qed

lemma InputSize_negative: "InputSize (r\<lparr>rt_lines := ''-1'' # ls\<rparr>) = (Inr (2 ^ 64 - 1), r\<lparr>rt_lines := ls\<rparr>)"
proof -
  have "stoi ''-1'' = Inr (- 1)" by code_simp
  moreover have "unat (- 1 :: u64) = 2 ^ 64 - 1" unfolding unsigned_minus_1_eq_mask mask_eq_exp_minus_1 by simp
  ultimately show ?thesis by (simp add: InputSize_def)
qed

lemma root_turn_typed:
  assumes "small_size c"
    and "run_command (re_pool E) (re_alive E) worker_port c
      (fold (\<lambda>m p. fst (pool_request (re_pool E) (re_alive E) m p)) (re_events E) (rt_pool r)) = (p', out)"
  shows "root_turn worker_port E (r\<lparr>rt_lines := typed c @ ls\<rparr>) =
    (r\<lparr>rt_lines := ls, rt_pool := p', rt_shown := rt_shown r @ [out]\<rparr>, GoesOn)"
proof -
  let ?p = "fold (\<lambda>m p. fst (pool_request (re_pool E) (re_alive E) m p)) (re_events E) (rt_pool r)"
  have h: "handle_events E (r\<lparr>rt_lines := ls'\<rparr>) = (r\<lparr>rt_pool := ?p\<rparr>)\<lparr>rt_lines := ls'\<rparr>" for ls'
    by (simp add: handle_events_def)
  show ?thesis
    using assms
    by (cases c) (auto simp: root_turn_def h root_command_def Let_def InputHostIp_def InputSize_typed pool_changes_def
        show_root_def map_prod_def split: prod.splits)
qed

lemma root_loop_typed:
  assumes "\<forall>c\<in>set cs. small_size c"
    and "run_commands worker_port env k cs (rt_pool r) = (p', out)"
  shows "root_loop worker_port env k (r\<lparr>rt_lines := concat (map typed cs) @ ls\<rparr>) =
    root_loop worker_port env (k + length cs) (r\<lparr>rt_lines := ls, rt_pool := p', rt_shown := rt_shown r @ out\<rparr>)"
  using assms
proof (induction cs arbitrary: k r p' out)
  case (Cons c cs)
  obtain p1 o1 where o1: "run_command (re_pool (env k)) (re_alive (env k)) worker_port c
      (fold (\<lambda>m p. fst (pool_request (re_pool (env k)) (re_alive (env k)) m p)) (re_events (env k)) (rt_pool r)) = (p1, o1)"
    by fastforce
  obtain p2 o2 where o2: "run_commands worker_port env (Suc k) cs p1 = (p2, o2)" by fastforce
  have out: "p' = p2" "out = o1 # o2" using Cons.prems(2) o1 o2 by simp_all
  let ?r = "r\<lparr>rt_pool := p1, rt_shown := rt_shown r @ [o1]\<rparr>"
  have "small_size c" using Cons.prems(1) by simp
  from root_turn_typed [OF this o1] have t: "root_turn worker_port (env k) (r\<lparr>rt_lines := concat (map typed (c # cs)) @ ls\<rparr>) =
      (?r\<lparr>rt_lines := concat (map typed cs) @ ls\<rparr>, GoesOn)" by simp
  have "root_loop worker_port env (Suc k) (?r\<lparr>rt_lines := concat (map typed cs) @ ls\<rparr>) =
      root_loop worker_port env (Suc k + length cs) (?r\<lparr>rt_lines := ls, rt_pool := p2, rt_shown := rt_shown ?r @ o2\<rparr>)"
    by (rule Cons.IH) (use Cons.prems(1) o2 in simp_all)
  then show ?case unfolding out using t by (subst root_loop.simps) simp
qed simp

lemma root_loop_q:
  "root_loop worker_port env k (r\<lparr>rt_lines := ''q'' # rest\<rparr>) = Some (show_root [ShownStop] (handle_events (env k) (r\<lparr>rt_lines := rest\<rparr>)), None)"
  by (subst root_loop.simps) (simp add: root_turn_def console_line_def handle_events_def root_command_def Let_def)

text \<open>
  A count after the text that makes the actor quit waits for ever: the console sends to an actor
  that is gone and receives without a limit.
\<close>

lemma count_after_quit_waits: "root_loop worker_port env k (r\<lparr>rt_lines := ''e'' # ''n'' # ls\<rparr>) = None"
proof -
  have h: "handle_events E (r\<lparr>rt_lines := ls'\<rparr>) = (handle_events E r)\<lparr>rt_lines := ls'\<rparr>" for E ls' and r :: root_program
    by (simp add: handle_events_def)
  have y: "rt_yanghui (fst (command_e E r)) = False" "snd (command_e E r) = GoesOn" for E r
    by (simp_all add: command_e_def)
  obtain r1 where r1: "root_turn worker_port (env k) (r\<lparr>rt_lines := ''e'' # ''n'' # ls\<rparr>) = (r1, GoesOn)"
    "rt_lines r1 = ''n'' # ls" "\<not> rt_yanghui r1"
    using y [of "env k" "handle_events (env k) (r\<lparr>rt_lines := ''n'' # ls\<rparr>)"]
    by (cases "command_e (env k) (handle_events (env k) (r\<lparr>rt_lines := ''n'' # ls\<rparr>))")
      (auto simp: root_turn_def h root_command_def Let_def command_e_def)
  have "snd (root_turn worker_port (env (Suc k)) r1) = Waits"
    using r1(2,3) by (simp add: root_turn_def console_line_def root_command_def Let_def command_n_def handle_events_def)
  then have "root_loop worker_port env (Suc k) r1 = None"
    by (cases "root_turn worker_port (env (Suc k)) r1") (subst root_loop.simps, simp)
  then show ?thesis using r1(1) by (subst root_loop.simps) simp
qed

text \<open>
  A size that is no number ends the program: nothing catches what \<open>std::stoi\<close> throws.
\<close>

lemma bad_size_throws:
  assumes "stoi l = Inl e"
  shows "\<exists>r'. root_loop worker_port env k (r\<lparr>rt_lines := ''pool change size'' # l # ls\<rparr>) = Some (r', Some e)"
  using assms
  by (subst root_loop.simps)
    (simp add: root_turn_def console_line_def handle_events_def root_command_def Let_def InputSize_def)

lemma run_command_wf: "pool_wf p \<Longrightarrow> pool_wf (fst (run_command P alive worker_port c p))"
  by (cases c) (simp_all add: pool_request_change_wf)

lemma run_commands_wf:
  "pool_wf p \<Longrightarrow> run_commands worker_port env k cs p = (p', out) \<Longrightarrow> length out = length cs \<and> pool_wf p'"
proof (induction cs arbitrary: k p p' out)
  case (Cons c cs)
  let ?p = "fold (\<lambda>m p. fst (pool_request (re_pool (env k)) (re_alive (env k)) m p)) (re_events (env k)) p"
  obtain p1 o1 where o1: "run_command (re_pool (env k)) (re_alive (env k)) worker_port c ?p = (p1, o1)" by fastforce
  obtain p2 o2 where o2: "run_commands worker_port env (Suc k) cs p1 = (p2, o2)" by fastforce
  have "pool_wf p1" using run_command_wf [OF fold_pool_request_wf [OF Cons.prems(1)]] o1 by (metis fst_conv)
  then show ?case using Cons.IH [OF _ o2] Cons.prems(2) o1 o2 by auto
qed simp

text \<open>
  C37: a session at the root's console. For commands about the pool typed one after the other
  and ended by \<open>q\<close>, whatever the pool actor handles in between, the program returns: it has read
  exactly these lines, has shown for each command what its request is answered with, in order,
  and leaves a pool whose nodes are well formed.
\<close>

theorem root_session:
  assumes "\<forall>c\<in>set cs. small_size c" and "pool_wf (rt_pool r)"
    and "run_commands worker_port env k cs (rt_pool r) = (p', out)"
  shows "\<exists>r'. root_loop worker_port env k (r\<lparr>rt_lines := concat (map typed cs) @ ''q'' # rest\<rparr>) = Some (r', None)
    \<and> rt_lines r' = rest \<and> rt_shown r' = rt_shown r @ out @ [ShownStop] \<and> length out = length cs
    \<and> pool_wf p' \<and> rt_pool r' =
        fold (\<lambda>m p. fst (pool_request (re_pool (env (k + length cs))) (re_alive (env (k + length cs))) m p)) (re_events (env (k + length cs))) p'"
proof -
  have "length out = length cs \<and> pool_wf p'" using run_commands_wf [OF assms(2,3)] .
  moreover have e: "r\<lparr>rt_lines := l, rt_pool := p', rt_shown := s\<rparr> = (r\<lparr>rt_pool := p', rt_shown := s\<rparr>)\<lparr>rt_lines := l\<rparr>" for l s
    by simp
  ultimately show ?thesis unfolding root_loop_typed [OF assms(1,3)] e root_loop_q by (simp add: handle_events_def)
qed

definition sample_root_env :: root_env where
  "sample_root_env = \<lparr>re_events = [], re_pool = \<lparr>env_remote_actor = (\<lambda>_ _. Some 1), env_spawn = (\<lambda>n. Some (n + 2))\<rparr>,
     re_alive = True, re_union = \<lparr>au_actor_count = 0, au_pool = []\<rparr>, re_calls = (\<lambda>_. []), re_balanced = None,
     re_empty = [], re_priority = None, re_rounds = [], re_result = 0\<rparr>"

definition sample_root :: root_program where
  "sample_root = \<lparr>rt_lines = [], rt_pool = new_pool 3, rt_yanghui = True,
     rt_guard = \<lparr>ag_keep_actor = 1, ag_active = True\<rparr>, rt_shown = []\<rparr>"

theorem root_session_witness:
  "\<exists>r'. root_loop 7 (\<lambda>_. sample_root_env) 0
      (sample_root\<lparr>rt_lines := concat (map typed [CmdAdd ''h'', CmdNodes, CmdSize, CmdRemove ''h'', CmdSizeOf ''h'']) @ ''q'' # [''n'']\<rparr>) =
      Some (r', None) \<and> rt_lines r' = [''n'']
    \<and> rt_shown r' = [ShownFlag True, ShownText '' h:7'', ShownSize 3, ShownFlag True, ShownSize 0, ShownStop]"
proof -
  have wf: "pool_wf (rt_pool sample_root)" by (simp add: sample_root_def pool_wf_def new_pool_def GetNode_def)
  have "snd (run_commands 7 (\<lambda>_. sample_root_env) 0 [CmdAdd ''h'', CmdNodes, CmdSize, CmdRemove ''h'', CmdSizeOf ''h''] (rt_pool sample_root)) =
      [ShownFlag True, ShownText '' h:7'', ShownSize 3, ShownFlag True, ShownSize 0]"
    by code_simp
  then obtain p' where p': "run_commands 7 (\<lambda>_. sample_root_env) 0 [CmdAdd ''h'', CmdNodes, CmdSize, CmdRemove ''h'', CmdSizeOf ''h''] (rt_pool sample_root) =
      (p', [ShownFlag True, ShownText '' h:7'', ShownSize 3, ShownFlag True, ShownSize 0])"
    by (metis prod.collapse)
  have "\<forall>c\<in>set [CmdAdd ''h'', CmdNodes, CmdSize, CmdRemove ''h'', CmdSizeOf ''h'']. small_size c" by simp
  from root_session [OF this wf p', of "[''n'']"] show ?thesis by (auto simp: sample_root_def)
qed

end
