(* ===== verification/Demo_Router.thy ===== *)
theory Demo_Router
  imports Cluster Load_Balancer "HOL-Library.Multiset"
begin

text \<open>
  The demos of the load balancer and of the cluster view: a router that spawns a worker on
  every member that comes up and takes it away when the member goes down
  (\<open>demos/load_balancer/router.h\<close>), what its workers compute (\<open>worker.h\<close>), and the report of the
  members (\<open>demos/cluster/main.cc\<close>).
\<close>

section \<open>The workers\<close>

text \<open>\<open>CalculatorFun\<close>: a product in \<open>size_t\<close>, and the number of requests so far.\<close>

definition CalculatorFun :: "nat \<Rightarrow> u64 \<Rightarrow> u64 \<times> u64" where
  "CalculatorFun x state = (fold (\<lambda>i result. result * of_nat i) [1..<Suc x] 1, state + 1)"

lemma CalculatorFun_fact: "fst (CalculatorFun x state) = of_nat (fact x)"
proof -
  have "fold (\<lambda>i result. result * of_nat i) [1..<Suc x] 1 = (of_nat (fact x) :: u64)"
    by (induction x) (simp_all add: algebra_simps)
  then show ?thesis by (simp add: CalculatorFun_def)
qed

text \<open>\<open>fact x\<close> has 64 factors of two from 66 on: the answer is 0 for the 3300000 of the demo.\<close>

lemma CalculatorFun_zero:
  assumes "66 \<le> x"
  shows "fst (CalculatorFun x state) = 0"
proof -
  have "fact 66 dvd (fact x :: nat)" using assms by (rule fact_dvd)
  moreover have "(2 ^ 64 :: nat) dvd fact 66" by (simp add: fact_numeral)
  ultimately have "(2 ^ 64 :: nat) dvd fact x" by (rule dvd_trans [rotated])
  then show ?thesis by (simp add: CalculatorFun_fact word_of_nat_eq_0_iff del: of_nat_fact)
qed

section \<open>The router of the demo\<close>

datatype balancer_msg = PutMsg actor | DeleteMsg actor

record worker_router =
  wr_members :: "cl_member list"
  wr_workers :: "actor list"
  wr_sent :: "balancer_msg list"       \<comment> \<open>what \<open>balancer_\<close> was sent\<close>

text \<open>\<open>SpawnWorkers\<close> is tried until it succeeds, a second apart.\<close>

fun spawn_until :: "actor option list \<Rightarrow> actor option" where
  "spawn_until [] = None"
| "spawn_until (Some a # as) = Some a"
| "spawn_until (None # as) = spawn_until as"

text \<open>\<open>AddWorker\<close>; without a success it does not return.\<close>

definition wr_AddWorker :: "actor option list \<Rightarrow> cl_member \<Rightarrow> worker_router \<Rightarrow> worker_router option" where
  "wr_AddWorker attempts m s =
     map_option (\<lambda>worker. s\<lparr>wr_sent := wr_sent s @ [PutMsg worker], wr_members := wr_members s @ [m],
        wr_workers := wr_workers s @ [worker]\<rparr>) (spawn_until attempts)"

text \<open>The position \<open>find_if\<close> stops at, the length when there is none.\<close>

definition member_index :: "cl_member \<Rightarrow> cl_member list \<Rightarrow> nat" where
  "member_index m ms = length (takeWhile (\<lambda>n. \<not> (cm_host n = cm_host m \<and> cm_port n = cm_port m)) ms)"

definition erase_at :: "nat \<Rightarrow> 'a list \<Rightarrow> 'a list" where
  "erase_at i xs = take i xs @ drop (Suc i) xs"

definition wr_DeleteWorker :: "cl_member \<Rightarrow> worker_router act" where
  "wr_DeleteWorker m s =
     (let i = member_index m (wr_members s) in
      if i = length (wr_members s) then (s, None)
      else if i < length (wr_workers s) then
        (s\<lparr>wr_sent := wr_sent s @ [DeleteMsg (wr_workers s ! i)],
           wr_members := erase_at i (wr_members s), wr_workers := erase_at i (wr_workers s)\<rparr>, None)
      else (s, Some UndefinedBehaviour))"

definition wr_Update :: "actor option list \<Rightarrow> cl_member \<Rightarrow> worker_router \<Rightarrow> (worker_router \<times> cpp_exn option) option" where
  "wr_Update attempts m s =
     (if cm_status m = StUp then map_option (\<lambda>s. (s, None)) (wr_AddWorker attempts m s)
      else if cm_status m = StDown then Some (wr_DeleteWorker m s)
      else Some (s, None))"

text \<open>\<open>FetchMembers\<close> leaves out the members called \<open>server\<close>; the others are added one by one.\<close>

definition wr_FetchMembers :: "cl_member list \<Rightarrow> cl_member list" where
  "wr_FetchMembers ms = filter (\<lambda>m. cm_name m \<noteq> ''server'') ms"

fun wr_add_all :: "(cl_member \<Rightarrow> actor option list) \<Rightarrow> cl_member list \<Rightarrow> worker_router \<Rightarrow> worker_router option" where
  "wr_add_all attempts [] s = Some s"
| "wr_add_all attempts (m # ms) s =
     (case wr_AddWorker (attempts m) m s of None \<Rightarrow> None | Some s' \<Rightarrow> wr_add_all attempts ms s')"

definition wr_InitLoadBalancer :: "(cl_member \<Rightarrow> actor option list) \<Rightarrow> cl_member list \<Rightarrow> worker_router option" where
  "wr_InitLoadBalancer attempts ms =
     wr_add_all attempts (wr_FetchMembers ms) \<lparr>wr_members = [], wr_workers = [], wr_sent = []\<rparr>"

text \<open>\<open>Stats\<close> pairs the names with what the workers answer.\<close>

definition wr_Stats :: "(actor \<Rightarrow> u64) \<Rightarrow> worker_router \<Rightarrow> (string \<times> u64) list" where
  "wr_Stats counted s = map (\<lambda>i. (cm_name (wr_members s ! i), counted (wr_workers s ! i))) [0..<length (wr_members s)]"

section \<open>Members, workers and the balancer stay in step\<close>

text \<open>The balancer once it has handled what it was sent.\<close>

fun balancer_after :: "balancer_msg list \<Rightarrow> ('i, 'c) router \<Rightarrow> ('i, 'c) router" where
  "balancer_after [] r = r"
| "balancer_after (PutMsg w # es) r = balancer_after es (AddWorker w r)"
| "balancer_after (DeleteMsg w # es) r = balancer_after es (DeleteWorker w r)"

lemma balancer_after_append: "balancer_after (es @ fs) r = balancer_after fs (balancer_after es r)"
  by (induction es r rule: balancer_after.induct) simp_all

definition wr_inv :: "('i, 'c) router \<Rightarrow> worker_router \<Rightarrow> bool" where
  "wr_inv r s \<longleftrightarrow> length (wr_members s) = length (wr_workers s) \<and> distinct (wr_workers s) \<and>
     ro_workers (balancer_after (wr_sent s) r) = wr_workers s"

lemma erase_first_at: "distinct xs \<Longrightarrow> i < length xs \<Longrightarrow> erase_first (xs ! i) xs = erase_at i xs"
proof (induction xs arbitrary: i)
  case (Cons x xs)
  then show ?case by (cases i) (auto simp: erase_at_def)
qed simp

lemma distinct_erase_at: "distinct xs \<Longrightarrow> distinct (erase_at i xs)"
  unfolding erase_at_def by (auto dest: in_set_takeD in_set_dropD)
    (metis append_take_drop_id distinct_append IntI Suc_n_not_le_n empty_iff set_drop_subset_set_drop subsetD nat_le_linear)

lemma wr_inv_Add:
  assumes "wr_inv r s" and "wr_AddWorker attempts m s = Some s'" and "\<forall>a. spawn_until attempts = Some a \<longrightarrow> a \<notin> set (wr_workers s)"
  shows "wr_inv r s'"
  using assms by (auto simp: wr_inv_def wr_AddWorker_def balancer_after_append AddWorker_def ro_emit_def)

lemma wr_inv_Delete:
  assumes "wr_inv r s"
  shows "snd (wr_DeleteWorker m s) = None" and "wr_inv r (fst (wr_DeleteWorker m s))"
proof -
  have "member_index m (wr_members s) \<le> length (wr_members s)"
    unfolding member_index_def by (rule length_takeWhile_le)
  then show "snd (wr_DeleteWorker m s) = None" "wr_inv r (fst (wr_DeleteWorker m s))"
    using assms erase_first_at [of "wr_workers s"] distinct_erase_at [of "wr_workers s"]
    by (auto simp: wr_inv_def wr_DeleteWorker_def Let_def balancer_after_append DeleteWorker_def ro_emit_def erase_at_def)
qed

lemma wr_inv_Update:
  assumes "wr_inv r s" and "wr_Update attempts m s = Some (s', x)"
    and "\<forall>a. spawn_until attempts = Some a \<longrightarrow> a \<notin> set (wr_workers s)"
  shows "x = None" and "wr_inv r s'"
  using assms wr_inv_Add [OF assms(1) _ assms(3)] wr_inv_Delete [OF assms(1), of m]
  by (auto simp: wr_Update_def split: if_splits)

section \<open>The report of the members\<close>

text \<open>\<open>Route\<close>: a line for each member, in order; a single line break when there is none.\<close>

definition Route :: "cl_member list \<Rightarrow> string" where
  "Route ms =
     (let lines = sort (map (\<lambda>m. cm_host m @ '':'' @ to_string (unat (cm_port m))) ms);
          result = concat (map (\<lambda>l. l @ [CHR 10]) lines) in
      if result = [] then [CHR 10] else result)"

lemma Route_any_order:
  assumes "mset ms = mset ms'"
  shows "Route ms = Route ms'"
proof -
  let ?line = "\<lambda>m. cm_host m @ '':'' @ to_string (unat (cm_port m))"
  have "mset (map ?line ms') = mset (map ?line ms)" unfolding mset_map by (simp only: assms)
  then have "sort (map ?line ms) = sort (map ?line ms')" by (intro properties_for_sort) (simp_all only: mset_sort sorted_sort)
  then show ?thesis by (simp only: Route_def Let_def)
qed

end
