(* ===== verification/Demo_Sessions.thy ===== *)
theory Demo_Sessions
  imports Demo_Router Std_String
begin

text \<open>
  The servers of the demos \<open>load_balancer\<close>, \<open>hello_world\<close> and \<open>cluster\<close>. They share their class
  \<open>Session\<close>, which reads a request, answers it and reads again, and differ in what answers a
  request: that is the locale \<open>demo_server\<close>, with the three routers as its providers. Sockets are
  the events of a run; what an exception does to the one thread of the server is its end.
\<close>

section \<open>Sessions\<close>

datatype phase = ReadsNext | WritesReply | SessionOver

record 's server =
  sv_state :: 's
  sv_sessions :: "phase list"
  sv_sent :: "(nat \<times> string) list"

text \<open>
  A connection is accepted or not; a read or a write of a session ends, with an error or not; the
  cluster object tells its observer something.
\<close>

datatype 'e server_event =
    Accepted bool
  | ReadSome nat "string option"
  | Written nat bool
  | Observed 'e

type_synonym 's answering = "'s \<Rightarrow> string \<Rightarrow> 's \<times> (cpp_exn + string)"

definition kSessionBuffer :: nat where
  "kSessionBuffer = 1024"

text \<open>
  The handler of a read. The end of the request is taken as \<open>&data_[length]\<close>, an element that
  a full buffer does not have.
\<close>

definition session_read :: "'s answering \<Rightarrow> nat \<Rightarrow> string \<Rightarrow> 's server act" where
  "session_read handle i request sv =
     (if length request \<ge> kSessionBuffer then (sv, Some UndefinedBehaviour)
      else case handle (sv_state sv) request of
        (s', Inl e) \<Rightarrow> (sv\<lparr>sv_state := s'\<rparr>, Some e)
      | (s', Inr reply) \<Rightarrow>
          (sv\<lparr>sv_state := s', sv_sessions := (sv_sessions sv)[i := WritesReply], sv_sent := sv_sent sv @ [(i, reply)]\<rparr>, None))"

definition session_phase :: "nat \<Rightarrow> 's server \<Rightarrow> phase" where
  "session_phase i sv = (if i < length (sv_sessions sv) then sv_sessions sv ! i else SessionOver)"

fun server_step :: "'s answering \<Rightarrow> ('e \<Rightarrow> 's act) \<Rightarrow> 'e server_event \<Rightarrow> 's server act" where
  "server_step handle observe (Accepted ok) sv =
     (if ok then sv\<lparr>sv_sessions := sv_sessions sv @ [ReadsNext]\<rparr> else sv, None)"
| "server_step handle observe (ReadSome i (Some request)) sv =
     (if session_phase i sv = ReadsNext then session_read handle i request sv else (sv, None))"
| "server_step handle observe (ReadSome i None) sv =
     (if session_phase i sv = ReadsNext then sv\<lparr>sv_sessions := (sv_sessions sv)[i := SessionOver]\<rparr> else sv, None)"
| "server_step handle observe (Written i ok) sv =
     (if session_phase i sv = WritesReply
      then sv\<lparr>sv_sessions := (sv_sessions sv)[i := (if ok then ReadsNext else SessionOver)]\<rparr> else sv, None)"
| "server_step handle observe (Observed e) sv =
     (case observe e (sv_state sv) of (s', x) \<Rightarrow> (sv\<lparr>sv_state := s'\<rparr>, x))"

definition server_run :: "'s answering \<Rightarrow> ('e \<Rightarrow> 's act) \<Rightarrow> 'e server_event list \<Rightarrow> 's server act" where
  "server_run handle observe es = run_acts (map (server_step handle observe) es)"

lemma server_run_simps [simp]:
  "server_run handle observe [] sv = (sv, None)"
  "server_run handle observe (e # es) sv =
     (case server_step handle observe e sv of (sv', None) \<Rightarrow> server_run handle observe es sv' | (sv', Some x) \<Rightarrow> (sv', Some x))"
  by (simp_all add: server_run_def skip_act_def then_do_def split: prod.splits option.splits)

text \<open>A dialogue: requests one after the other, each written back before the next is read.\<close>

definition dialogue :: "nat \<Rightarrow> string list \<Rightarrow> 'e server_event list" where
  "dialogue i requests = concat (map (\<lambda>request. [ReadSome i (Some request), Written i True]) requests)"

fun fair_event :: "('e \<Rightarrow> 's \<Rightarrow> bool) \<Rightarrow> 'e server_event \<Rightarrow> 's \<Rightarrow> bool" where
  "fair_event fair (Observed e) s = fair e s"
| "fair_event fair _ s = True"

fun fair_run :: "'s answering \<Rightarrow> ('e \<Rightarrow> 's act) \<Rightarrow> ('e \<Rightarrow> 's \<Rightarrow> bool) \<Rightarrow> 'e server_event list \<Rightarrow> 's server \<Rightarrow> bool" where
  "fair_run handle observe fair [] sv = True"
| "fair_run handle observe fair (e # es) sv =
     (fair_event fair e (sv_state sv) \<and>
      (case server_step handle observe e sv of
         (sv', None) \<Rightarrow> fair_run handle observe fair es sv' | (sv', Some x) \<Rightarrow> True))"

lemma fair_run_True: "fair_run handle observe (\<lambda>_ _. True) es sv"
proof (induction es arbitrary: sv)
  case (Cons e es)
  have "fair_event (\<lambda>_ _. True) e (sv_state sv)" by (cases e) simp_all
  then show ?case using Cons.IH by (simp split: prod.splits option.splits)
qed simp

locale demo_server =
  fixes handle :: "'s \<Rightarrow> string \<Rightarrow> 's \<times> (cpp_exn + string)"
    and observe :: "'e \<Rightarrow> 's \<Rightarrow> 's \<times> cpp_exn option"
    and invar :: "'s \<Rightarrow> bool"
    and fair :: "'e \<Rightarrow> 's \<Rightarrow> bool"
  assumes handle_invar: "invar s \<Longrightarrow> invar (fst (handle s request))"
    and observe_invar: "invar s \<Longrightarrow> fair e s \<Longrightarrow> invar (fst (observe e s)) \<and> snd (observe e s) = None"
begin

lemma read_invar:
  assumes "invar (sv_state sv)"
  shows "invar (sv_state (fst (session_read handle i request sv)))"
proof (cases "handle (sv_state sv) request")
  case (Pair s' r)
  then have "invar s'" using handle_invar [OF assms, of request] by simp
  then show ?thesis using assms Pair by (cases r) (simp_all add: session_read_def)
qed

lemma event_invar:
  assumes "invar (sv_state sv)" and "fair_event fair e (sv_state sv)"
  shows "invar (sv_state (fst (server_step handle observe e sv)))"
proof (cases e)
  case (ReadSome i r)
  then show ?thesis using assms(1) read_invar by (cases r) simp_all
next
  case (Observed e')
  then show ?thesis using observe_invar [OF assms(1), of e'] assms(2) by (cases "observe e' (sv_state sv)") simp
qed (use assms(1) in simp_all)

text \<open>Only a request can end the server.\<close>

lemma event_ends:
  assumes "invar (sv_state sv)" and "fair_event fair e (sv_state sv)" and "server_step handle observe e sv = (sv', Some x)"
  obtains i request where "e = ReadSome i (Some request)"
    and "length request \<ge> kSessionBuffer \<and> x = UndefinedBehaviour \<or> snd (handle (sv_state sv) request) = Inl x"
proof (cases e)
  case (ReadSome i r)
  then obtain request where r: "r = Some request" using assms(3) by (cases r) auto
  then have "session_read handle i request sv = (sv', Some x)" using assms(3) ReadSome by (simp split: if_splits)
  then have "length request \<ge> kSessionBuffer \<and> x = UndefinedBehaviour \<or> snd (handle (sv_state sv) request) = Inl x"
    by (cases "handle (sv_state sv) request"; cases "snd (handle (sv_state sv) request)")
      (auto simp: session_read_def split: if_splits)
  then show ?thesis using that ReadSome r by blast
next
  case (Observed e')
  then show ?thesis using observe_invar [OF assms(1), of e'] assms(2,3) by (cases "observe e' (sv_state sv)") simp
qed (use assms(3) in auto)

lemma run_invar:
  "invar (sv_state sv) \<Longrightarrow> fair_run handle observe fair es sv \<Longrightarrow> invar (sv_state (fst (server_run handle observe es sv)))"
proof (induction es arbitrary: sv)
  case (Cons e es)
  obtain sv' x where s: "server_step handle observe e sv = (sv', x)" by fastforce
  then have "invar (sv_state sv')" using event_invar [of sv e] Cons.prems by auto
  then show ?case using Cons s by (cases x) auto
qed simp

lemma ends_in_request:
  "invar (sv_state sv) \<Longrightarrow> fair_run handle observe fair es sv \<Longrightarrow> server_run handle observe es sv = (sv', Some x) \<Longrightarrow>
   \<exists>i request s. ReadSome i (Some request) \<in> set es \<and>
     (length request \<ge> kSessionBuffer \<and> x = UndefinedBehaviour \<or> invar s \<and> snd (handle s request) = Inl x)"
proof (induction es arbitrary: sv)
  case (Cons e es)
  obtain sv1 y where s: "server_step handle observe e sv = (sv1, y)" by fastforce
  have f: "fair_event fair e (sv_state sv)" using Cons.prems(2) by simp
  have inv: "invar (sv_state sv1)" using event_invar [OF Cons.prems(1) f] s by simp
  show ?case
  proof (cases y)
    case None
    then have "\<exists>i request s. ReadSome i (Some request) \<in> set es \<and>
      (length request \<ge> kSessionBuffer \<and> x = UndefinedBehaviour \<or> invar s \<and> snd (handle s request) = Inl x)"
      using Cons.IH [OF inv] Cons.prems(2,3) s by simp
    then show ?thesis by auto
  next
    case (Some z)
    then have "server_step handle observe e sv = (sv1, Some x)" using Cons.prems(3) s by simp
    from event_ends [OF Cons.prems(1) f this] Cons.prems(1) show ?thesis by (metis list.set_intros(1))
  qed
qed simp

text \<open>A session whose requests are answered gets every reply, in order, and reads on.\<close>

lemma dialogue_answered:
  assumes "session_phase i sv = ReadsNext"
    and "\<And>request. request \<in> set requests \<Longrightarrow> length request < kSessionBuffer \<and> handle (sv_state sv) request = (sv_state sv, Inr (reply request))"
  shows "server_run handle observe (dialogue i requests) sv =
    (sv\<lparr>sv_sent := sv_sent sv @ map (\<lambda>r. (i, reply r)) requests\<rparr>, None)"
  using assms
proof (induction requests arbitrary: sv)
  case Nil
  then show ?case by (simp add: dialogue_def)
next
  case (Cons r rs)
  have i: "i < length (sv_sessions sv)" "sv_sessions sv ! i = ReadsNext"
    using Cons.prems(1) by (auto simp: session_phase_def split: if_splits)
  let ?sv = "sv\<lparr>sv_sent := sv_sent sv @ [(i, reply r)]\<rparr>"
  have "server_run handle observe (dialogue i (r # rs)) sv = server_run handle observe (dialogue i rs) ?sv"
    using Cons.prems(2) [of r] i list_update_id [of "sv_sessions sv" i]
    by (simp add: dialogue_def session_phase_def session_read_def not_le [symmetric])
  also have "\<dots> = (?sv\<lparr>sv_sent := sv_sent ?sv @ map (\<lambda>r. (i, reply r)) rs\<rparr>, None)"
    by (rule Cons.IH) (use Cons.prems i in \<open>auto simp: session_phase_def\<close>)
  finally show ?case by simp
qed

end

section \<open>The load balancer's server\<close>

text \<open>
  Reading from a stringstream: what is left of it, and whether it has failed. A \<open>size_t\<close> is read
  like \<open>strtoull\<close> reads it: a minus sign negates, too large a number is the largest and a
  failure, no digits are 0 and a failure; at the end of the text, or after a failure, the
  variable keeps its value.
\<close>

definition read_word :: "string \<Rightarrow> string \<times> string" where
  "read_word ss = (let t = dropWhile is_space ss in (takeWhile (Not \<circ> is_space) t, dropWhile (Not \<circ> is_space) t))"

definition read_size :: "string \<times> bool \<Rightarrow> u64 \<Rightarrow> (string \<times> bool) \<times> u64" where
  "read_size ss old =
     (case ss of (rest, failed) \<Rightarrow>
        if failed then ((rest, True), old)
        else let t = dropWhile is_space rest in
          if t = [] then (([], True), old)
          else let neg = (hd t = CHR ''-'');
                   u = (if neg \<or> hd t = CHR ''+'' then tl t else t);
                   ds = takeWhile is_digit u; n = digits_value ds in
            if ds = [] then ((u, True), 0)
            else if 2 ^ 64 \<le> int n then ((dropWhile is_digit u, True), - 1)
            else ((dropWhile is_digit u, False), if neg then - of_nat n else of_nat n))"

record balancer_server =
  bs_router :: worker_router
  bs_tasks :: "u64 list"         \<comment> \<open>what \<open>Start\<close> sent to the balancer\<close>

text \<open>\<open>Stats\<close> asks every worker; a worker that is gone gives no message to read a count from.\<close>

definition stats_of :: "(actor \<Rightarrow> u64 option) \<Rightarrow> worker_router \<Rightarrow> cpp_exn + (string \<times> u64) list" where
  "stats_of counted s =
     (if \<exists>w\<in>set (take (length (wr_members s)) (wr_workers s)). counted w = None then Inl UndefinedBehaviour
      else Inr (wr_Stats (the \<circ> counted) s))"

definition HandleReport :: "(actor \<Rightarrow> u64 option) \<Rightarrow> worker_router \<Rightarrow> cpp_exn + string" where
  "HandleReport counted s =
     map_sum id (\<lambda>stats. concat (map (\<lambda>(name, n).
       ''=========='' @ [CHR 10] @ ''name: '' @ name @ [CHR 10] @ ''count: '' @ to_string (unat n) @ [CHR 10]) stats))
     (stats_of counted s)"

definition start_tasks :: "u64 \<Rightarrow> u64 \<Rightarrow> balancer_server \<Rightarrow> balancer_server" where
  "start_tasks n x s = s\<lparr>bs_tasks := bs_tasks s @ replicate (unat n) x\<rparr>"

definition HandleStart :: "string \<Rightarrow> balancer_server \<Rightarrow> balancer_server \<times> string" where
  "HandleStart ss s =
     (case read_size (ss, False) 0 of (ss, n) \<Rightarrow>
      case read_size ss 3300000 of (ss, x) \<Rightarrow>
        (start_tasks n x s,
         to_string (unat n) @ '' tasks of factorial('' @ to_string (unat x) @ '') were sent'' @ [CHR 10]))"

definition balancer_help :: string where
  "balancer_help = ''type `start` to clear stats and start over'' @ [CHR 10] @ ''type `report` to report work stats'' @ [CHR 10]"

definition HandleRequest :: "(actor \<Rightarrow> u64 option) \<Rightarrow> balancer_server answering" where
  "HandleRequest counted s request =
     (case read_word request of (command, ss) \<Rightarrow>
        if command = ''report'' then (s, HandleReport counted (bs_router s))
        else if command = ''start'' then map_prod id Inr (HandleStart ss s)
        else (s, Inr balancer_help))"

text \<open>
  The observer: an event of the cluster with the attempts to spawn a worker. When none succeeds
  it does not return, and the router is as it was.
\<close>

definition balancer_observe :: "actor option list \<times> cl_member \<Rightarrow> balancer_server act" where
  "balancer_observe e s =
     (case wr_Update (fst e) (snd e) (bs_router s) of
        None \<Rightarrow> (s, None)
      | Some (r, x) \<Rightarrow> (s\<lparr>bs_router := r\<rparr>, x))"

definition fresh_worker :: "actor option list \<times> cl_member \<Rightarrow> balancer_server \<Rightarrow> bool" where
  "fresh_worker e s \<longleftrightarrow>
     (case spawn_until (fst e) of None \<Rightarrow> True | Some a \<Rightarrow> a \<notin> set (wr_workers (bs_router s)))"

interpretation balancer_sessions: demo_server "HandleRequest counted" balancer_observe
    "\<lambda>s. wr_inv r (bs_router s)" fresh_worker for counted and r :: "('i, 'c) router"
proof
  fix s :: balancer_server and request assume "wr_inv r (bs_router s)"
  then show "wr_inv r (bs_router (fst (HandleRequest counted s request)))"
    by (auto simp: HandleRequest_def HandleStart_def start_tasks_def split: prod.splits)
next
  fix s :: balancer_server and e assume "wr_inv r (bs_router s)" "fresh_worker e s"
  then show "wr_inv r (bs_router (fst (balancer_observe e s))) \<and> snd (balancer_observe e s) = None"
    using wr_inv_Update [of r "bs_router s" "fst e" "snd e"]
    by (cases "wr_Update (fst e) (snd e) (bs_router s)") (auto simp: balancer_observe_def fresh_worker_def split: option.splits)
qed

section \<open>The server of \<open>hello_world\<close>\<close>

datatype hello_call = ConnectFails | SpawnFails | CallFails | ServedBy string

record hello_router =
  hr_members :: "cl_member list"
  hr_requests :: nat             \<comment> \<open>requests so far, an index into the draws and the calls\<close>

definition hello_FetchMembers :: "string \<Rightarrow> cl_member list \<Rightarrow> hello_router \<Rightarrow> hello_router" where
  "hello_FetchMembers host fetched s = s\<lparr>hr_members := filter (\<lambda>m. cm_host m \<noteq> host) fetched\<rparr>"

definition HelloFun :: "string \<Rightarrow> string \<Rightarrow> string" where
  "HelloFun the_host_name s = s @ '' from '' @ the_host_name @ [CHR 10]"

text \<open>\<open>Route\<close> picks a member by \<open>rand() % members_.size()\<close>, connects and spawns.\<close>

definition hello_Route :: "nat \<Rightarrow> (cl_member \<Rightarrow> hello_call) \<Rightarrow> hello_router \<Rightarrow> cpp_exn + hello_call" where
  "hello_Route draw call s =
     (if hr_members s = [] then Inl UndefinedBehaviour
      else case call (hr_members s ! (draw mod length (hr_members s))) of
        ConnectFails \<Rightarrow> Inl RuntimeError
      | SpawnFails \<Rightarrow> Inl RuntimeError
      | c \<Rightarrow> Inr c)"

definition hello_request :: "(nat \<Rightarrow> nat) \<Rightarrow> (nat \<Rightarrow> cl_member \<Rightarrow> hello_call) \<Rightarrow> hello_router answering" where
  "hello_request draws calls s request =
     (s\<lparr>hr_requests := Suc (hr_requests s)\<rparr>,
      case hello_Route (draws (hr_requests s)) (calls (hr_requests s)) s of
        Inl e \<Rightarrow> Inl e
      | Inr (ServedBy host) \<Rightarrow> Inr (HelloFun host request)
      | Inr _ \<Rightarrow> Inl UndefinedBehaviour)"

definition hello_observe :: "string \<Rightarrow> cl_member list \<Rightarrow> hello_router act" where
  "hello_observe host fetched s = (hello_FetchMembers host fetched s, None)"

interpretation hello_sessions: demo_server "hello_request draws calls" "hello_observe host"
    "\<lambda>s. \<forall>m\<in>set (hr_members s). cm_host m \<noteq> host" "\<lambda>_ _. True" for draws calls host
  by unfold_locales (auto simp: hello_request_def hello_observe_def hello_FetchMembers_def)

section \<open>The server of \<open>cluster\<close>\<close>

text \<open>Every request fetches the members again, so the router's own list does not matter.\<close>

record report_router =
  rr_members :: "cl_member list"
  rr_cluster :: "cl_member list"     \<comment> \<open>what \<open>GetMembers\<close> gives\<close>

definition report_FetchMembers :: "report_router \<Rightarrow> report_router" where
  "report_FetchMembers s = s\<lparr>rr_members := rr_cluster s\<rparr>"

definition report_request :: "report_router answering" where
  "report_request s request = (let s = report_FetchMembers s in (s, Inr (Route (rr_members s))))"

definition report_observe :: "cl_member list \<Rightarrow> report_router act" where
  "report_observe ms s = (report_FetchMembers (s\<lparr>rr_cluster := ms\<rparr>), None)"

interpretation report_sessions: demo_server report_request report_observe
    "\<lambda>s. rr_members s = rr_cluster s" "\<lambda>_ _. True"
  by unfold_locales (auto simp: report_request_def report_observe_def report_FetchMembers_def Let_def)

section \<open>The three programs\<close>

text \<open>
  The main functions: the thread runs the sessions until an exception leaves the loop, which is
  printed, and returns.
\<close>

datatype server_end = StillServing | ReturnedAfter cpp_exn

definition serve :: "'s answering \<Rightarrow> ('e \<Rightarrow> 's act) \<Rightarrow> 's \<Rightarrow> 'e server_event list \<Rightarrow> server_end" where
  "serve handle observe s es =
     (case snd (server_run handle observe es \<lparr>sv_state = s, sv_sessions = [], sv_sent = []\<rparr>) of
        None \<Rightarrow> StillServing | Some e \<Rightarrow> ReturnedAfter e)"

text \<open>
  \<open>load_balancer\<close>: a node called \<open>server\<close> fetches the members, adds a worker for each and serves;
  any other opens a port for workers. Without a worker for a member it does not come to serve.
\<close>

definition load_balancer_main ::
  "string \<Rightarrow> (actor \<Rightarrow> u64 option) \<Rightarrow> (cl_member \<Rightarrow> actor option list) \<Rightarrow> cl_member list \<Rightarrow>
     (actor option list \<times> cl_member) server_event list \<Rightarrow> server_end option" where
  "load_balancer_main name counted attempts ms es =
     (if name = ''server'' then
        map_option (\<lambda>r. serve (HandleRequest counted) balancer_observe \<lparr>bs_router = r, bs_tasks = []\<rparr> es)
          (wr_InitLoadBalancer attempts ms)
      else None)"

definition hello_main ::
  "(nat \<Rightarrow> nat) \<Rightarrow> (nat \<Rightarrow> cl_member \<Rightarrow> hello_call) \<Rightarrow> string \<Rightarrow> cl_member list \<Rightarrow> cl_member list server_event list \<Rightarrow> server_end" where
  "hello_main draws calls host ms es =
     serve (hello_request draws calls) (hello_observe host) (hello_FetchMembers host ms \<lparr>hr_members = [], hr_requests = 0\<rparr>) es"

definition report_main :: "cl_member list \<Rightarrow> cl_member list server_event list \<Rightarrow> server_end" where
  "report_main ms es = serve report_request report_observe (report_FetchMembers \<lparr>rr_members = [], rr_cluster = ms\<rparr>) es"

section \<open>What the servers do\<close>

text \<open>The report server ends only when a request fills the buffer.\<close>

lemma report_server_ends:
  assumes "report_main ms es = ReturnedAfter x"
  shows "x = UndefinedBehaviour \<and> (\<exists>i request. ReadSome i (Some request) \<in> set es \<and> length request \<ge> kSessionBuffer)"
proof -
  let ?sv = "\<lparr>sv_state = \<lparr>rr_members = ms, rr_cluster = ms\<rparr>, sv_sessions = [], sv_sent = []\<rparr>"
  obtain sv' where sv': "server_run report_request report_observe es ?sv = (sv', Some x)"
    using assms by (cases "server_run report_request report_observe es ?sv")
      (auto simp: report_main_def serve_def report_FetchMembers_def split: option.splits)
  show ?thesis
    using report_sessions.ends_in_request [OF _ fair_run_True sv'] by (auto simp: report_request_def Let_def)
qed

text \<open>
  One request that meets no member, or a member that cannot be reached, ends the server of
  \<open>hello_world\<close> with all its sessions.
\<close>

lemma hello_nobody:
  assumes "hr_members (sv_state sv) = []" and "session_phase i sv = ReadsNext"
  shows "snd (server_run (hello_request draws calls) (hello_observe host) (ReadSome i (Some request) # es) sv) = Some UndefinedBehaviour"
  using assms by (simp add: session_read_def hello_request_def hello_Route_def)

lemma hello_unreachable:
  assumes "hr_members (sv_state sv) \<noteq> []" and "session_phase i sv = ReadsNext" and "length request < kSessionBuffer"
    and "\<And>k m. calls k m = ConnectFails"
  shows "snd (server_run (hello_request draws calls) (hello_observe host) (ReadSome i (Some request) # es) sv) = Some RuntimeError"
  using assms by (simp add: session_read_def hello_request_def hello_Route_def)

text \<open>A node alone in its cluster ends with the first request it is sent.\<close>

lemma hello_alone:
  assumes "\<forall>m\<in>set ms. cm_host m = host"
  shows "hello_main draws calls host ms [Accepted True, ReadSome 0 (Some request)] = ReturnedAfter UndefinedBehaviour"
proof -
  have "filter (\<lambda>m. cm_host m \<noteq> host) ms = []" using assms by (simp add: filter_empty_conv)
  then show ?thesis
    by (simp add: hello_main_def serve_def hello_FetchMembers_def session_phase_def session_read_def hello_request_def hello_Route_def)
qed

text \<open>A count typed with a minus sign is a number of tasks near \<open>2 ^ 64\<close>.\<close>

lemma start_negative: "read_size ('' -1'', False) 0 = (([], False), 2 ^ 64 - 1)"
  by (simp add: read_size_def is_space_def is_digit_def digits_value_def Let_def)

text \<open>What is typed as a number is read as this number.\<close>

lemma read_size_typed:
  assumes "n < 2 ^ 64" and "\<forall>c\<in>set (take 1 rest). \<not> is_digit c"
  shows "read_size (CHR '' '' # to_string n @ rest, False) old = ((rest, False), of_nat n)"
proof -
  obtain c cs where s: "to_string n = c # cs" using to_string_nonempty by (cases "to_string n") auto
  have d: "\<forall>c\<in>set (to_string n). is_digit c" using to_string_digits by blast
  then have c: "is_digit c" by (simp add: s)
  have "is_space (CHR '' '')" by (simp add: is_space_def)
  moreover have "dropWhile is_space (to_string n @ rest) = to_string n @ rest" using is_digit_not_space [OF c] by (simp add: s)
  moreover have "takeWhile is_digit (to_string n @ rest) = to_string n" "dropWhile is_digit (to_string n @ rest) = rest"
    using d assms(2) by (cases rest; simp)+
  moreover have "hd (to_string n) \<noteq> CHR ''-''" "hd (to_string n) \<noteq> CHR ''+''" using is_digit_not_sign [OF c] by (auto simp: s)
  moreover have "to_string n \<noteq> []" by (rule to_string_nonempty)
  moreover have "int n < 2 ^ 64" using assms(1) by (metis of_nat_less_iff of_nat_numeral of_nat_power)
  ultimately show ?thesis by (simp add: read_size_def Let_def digits_value_to_string)
qed

lemma start_typed:
  assumes "n < 2 ^ 64" and "x < 2 ^ 64"
  shows "HandleRequest counted s (''start '' @ to_string n @ '' '' @ to_string x) =
    (s\<lparr>bs_tasks := bs_tasks s @ replicate n (of_nat x)\<rparr>,
     Inr (to_string n @ '' tasks of factorial('' @ to_string x @ '') were sent'' @ [CHR 10]))"
proof -
  let ?rest = "'' '' @ to_string x"
  have w: "read_word (''start '' @ to_string n @ ?rest) = (''start'', '' '' @ to_string n @ ?rest)"
    by (simp add: read_word_def is_space_def Let_def)
  have "read_size ('' '' @ to_string n @ ?rest, False) 0 = ((?rest, False), of_nat n)"
    using read_size_typed [OF assms(1), of ?rest 0] by (simp add: is_digit_def)
  moreover have "read_size (?rest, False) 3300000 = (([], False), of_nat x)"
    using read_size_typed [OF assms(2), of "[]" 3300000] by simp
  moreover have "unat (of_nat n :: u64) = n" "unat (of_nat x :: u64) = x"
    using assms by (simp_all add: unat_of_nat take_bit_nat_eq_self)
  ultimately show ?thesis using w by (simp add: HandleRequest_def HandleStart_def start_tasks_def)
qed


definition demo_server_start :: "balancer_server server" where
  "demo_server_start = \<lparr>sv_state = \<lparr>bs_router = \<lparr>wr_members = [], wr_workers = [], wr_sent = []\<rparr>, bs_tasks = []\<rparr>,
     sv_sessions = [], sv_sent = []\<rparr>"

definition demo_member :: cl_member where
  "demo_member = \<lparr>cm_name = ''w'', cm_hostname = ''h'', cm_role = ''worker'', cm_host = ''h'', cm_port = 7, cm_status = StUp\<rparr>"

definition demo_run :: "(actor option list \<times> cl_member) server_event list" where
  "demo_run = [Accepted True, Observed ([None, Some 4], demo_member), ReadSome 0 (Some ''start 2 5''), Written 0 True,
     ReadSome 0 (Some ''report'')]"

definition demo_counted :: "actor \<Rightarrow> u64 option" where
  "demo_counted w = (if w = 4 then Some 2 else None)"


end
