(* ===== verification/Triangle_Demo.thy ===== *)
theory Triangle_Demo
  imports Yanghui_Load_Balance
begin

text \<open>
  The demo \<open>yanghui_triangle\<close>: the first version of the load balanced job, whose workers
  (\<open>yanghui_worker_example.cc\<close>) send their results to groups that the two actors of
  \<open>yanghui_example.cc\<close> have joined. Its actors keep no sender and do not clear their state at the
  end. Each is simulated by the actor of \<open>Yanghui_Load_Balance\<close>, from which it gets its result
  and the length of its runs.
\<close>

section \<open>The workers\<close>

text \<open>
  \<open>countAdd\<close>: sums and the least of a batch go to a group. An empty batch is passed over: as a
  task it stays where it is.
\<close>

fun countAdd :: "add_task \<Rightarrow> cpp_exn + int \<times> nat" where
  "countAdd (Add2 a b ident) = (case add_int a b of Inl e \<Rightarrow> Inl e | Inr r \<Rightarrow> Inr (r, ident))"
| "countAdd (Add3 a b c ident) =
     (case (if a < b then add_int a c else add_int b c) of Inl e \<Rightarrow> Inl e | Inr r \<Rightarrow> Inr (r, ident))"

definition countAdd_compare :: "number_compare_data \<Rightarrow> (int \<times> int) option" where
  "countAdd_compare a =
     (if numbers a = [] then None else Some (compare_loop (numbers a) (numbers a ! 0), index a))"

section \<open>The two actors\<close>

record triangle_state =
  tr_index :: nat
  tr_current_result :: "(nat \<times> int) list"
  tr_data :: "int list list"

definition new_triangle_state :: triangle_state where
  "new_triangle_state = \<lparr>tr_index = 0, tr_current_result = [], tr_data = []\<rparr>"

datatype triangle_msg = Rows "int list list" | NextRow nat | Summed int nat

definition tr_on_rows ::
  "int list list \<Rightarrow> triangle_state \<Rightarrow> triangle_state \<times> (triangle_msg, add_task, int list) sent list \<times> cpp_exn option" where
  "tr_on_rows d s =
     (let s = s\<lparr>tr_data := d\<rparr> in
      case entry_at d 0 0 of
        Inl e \<Rightarrow> (s, [], Some e)
      | Inr x \<Rightarrow> (s\<lparr>tr_current_result := map_put id 0 x (tr_current_result s)\<rparr>, [ToSelf (NextRow 1)], None))"

definition tr_on_next ::
  "nat \<Rightarrow> triangle_state \<Rightarrow> triangle_state \<times> (triangle_msg, add_task, int list) sent list \<times> cpp_exn option" where
  "tr_on_next i s =
     (case for_each (write_result i) (tr_current_result s) (tr_data s) of
        Inl e \<Rightarrow> (s, [], Some e)
      | Inr d \<Rightarrow>
          let s = s\<lparr>tr_data := d\<rparr> in
          if i = length d then
            (case vec_at d (i - 1) of Inr row \<Rightarrow> (s, [ToClient row], None) | Inl e \<Rightarrow> (s, [], Some e))
          else
            let s = s\<lparr>tr_index := i, tr_current_result := []\<rparr> in
            (case for_each (path_task d i) [0..<Suc i] [] of
               Inl e \<Rightarrow> (s, [], Some e)
             | Inr ts \<Rightarrow> (s, map ToWorker ts, None)))"

definition tr_on_result ::
  "int \<Rightarrow> nat \<Rightarrow> triangle_state \<Rightarrow> triangle_state \<times> (triangle_msg, add_task, int list) sent list \<times> cpp_exn option" where
  "tr_on_result r k s =
     (let s = s\<lparr>tr_current_result := emplace_result k r (tr_current_result s)\<rparr> in
      (s, if tr_index s + 1 = length (tr_current_result s) then [ToSelf (NextRow (tr_index s + 1))] else [], None))"

fun triangle_yanghui :: "(triangle_state, triangle_msg, add_task, int list) handler" where
  "triangle_yanghui (Rows d) = tr_on_rows d"
| "triangle_yanghui (NextRow i) = tr_on_next i"
| "triangle_yanghui (Summed r k) = tr_on_result r k"

definition triangle_worker :: "add_task \<Rightarrow> cpp_exn + triangle_msg" where
  "triangle_worker t = (case countAdd t of Inl e \<Rightarrow> Inl e | Inr (r, ident) \<Rightarrow> Inr (Summed r ident))"

record least_state =
  le_count :: nat
  le_current_result :: "(nat \<times> int) list"

definition new_least_state :: least_state where
  "new_least_state = \<lparr>le_count = 0, le_current_result = []\<rparr>"

datatype least_msg = Row "int list" | LeastOf int nat

fun getMin :: "(least_state, least_msg, number_compare_data, int) handler" where
  "getMin (Row xs) s =
     (if length xs = 1 then (s, [ToClient (xs ! 0)], None)
      else (s\<lparr>le_count := length xs div 3 + (if length xs mod 3 \<noteq> 0 then 1 else 0), le_current_result := []\<rparr>,
        map ToWorker (batches 0 xs), None))"
| "getMin (LeastOf r k) s =
     (let s = s\<lparr>le_current_result := emplace_result k r (le_current_result s)\<rparr> in
      (s, if le_count s = length (le_current_result s) then [ToSelf (Row (map snd (le_current_result s)))] else [], None))"

definition least_worker :: "number_compare_data \<Rightarrow> cpp_exn + least_msg" where
  "least_worker a = (case countAdd_compare a of None \<Rightarrow> Inl UndefinedBehaviour | Some (r, i) \<Rightarrow> Inr (LeastOf r (nat i)))"

text \<open>Both actors also take a group: they leave those they have joined and join this one.\<close>

definition join_group :: "string \<Rightarrow> string list \<Rightarrow> string list" where
  "join_group what joined = (let joined = fold remove1 joined joined in joined @ [what])"

lemma join_group_only: "join_group what joined = [what]"
proof -
  have "fold remove1 xs xs = []" for xs :: "string list" by (induction xs) simp_all
  then show ?thesis by (simp add: join_group_def)
qed

section \<open>The simulations\<close>

fun path_msg_of :: "nat \<Rightarrow> triangle_msg \<Rightarrow> path_msg" where
  "path_msg_of c (Rows d) = PathData c d"
| "path_msg_of c (NextRow i) = PathIndex i"
| "path_msg_of c (Summed r k) = PathResult r k"

definition same_path :: "triangle_state \<Rightarrow> path_state \<Rightarrow> bool" where
  "same_path a b \<longleftrightarrow> tr_index a = ps_index b \<and> tr_current_result a = ps_current_result b \<and> tr_data a = ps_data b"

lemma triangle_handled:
  assumes "same_path a b" and "ps_message_sender b = Some c \<or> (\<exists>d. m = Rows d)" and "triangle_yanghui m a = (a', es, x)"
  shows "\<exists>b'. yanghui_count_path (path_msg_of c m) b = (b', map (rename_sent (path_msg_of c) (Pair c)) es, x) \<and>
    (x = None \<longrightarrow> ps_message_sender b' = Some c \<and> (same_path a' b' \<or> (\<exists>row. es = [ToClient row])))"
proof (cases m)
  case (Rows d)
  then show ?thesis using assms
    by (cases "entry_at d 0 0") (auto simp: path_on_data_def tr_on_rows_def Let_def same_path_def)
next
  case (NextRow i)
  show ?thesis
  proof (cases "for_each (write_result i) (ps_current_result b) (ps_data b)")
    case (Inl e)
    then show ?thesis using assms NextRow by (auto simp: path_on_index_def tr_on_next_def same_path_def)
  next
    case (Inr d)
    then show ?thesis using assms NextRow
      by (cases "i = length d"; cases "vec_at d (i - 1)"; cases "for_each (path_task d i) [0..<Suc i] []")
        (auto simp: path_on_index_def tr_on_next_def same_path_def Let_def vec_at_def split: if_splits)
  qed
next
  case (Summed r k)
  then show ?thesis using assms by (auto simp: path_on_result_def tr_on_result_def Let_def same_path_def)
qed

lemma countAdd_add_load: "countAdd t = add_load t"
  by (cases t) (simp_all add: simple_counter_add_def simple_counter_add3_def)

lemma triangle_worked: "triangle_worker t = Inr m \<Longrightarrow> path_worker t = Inr (path_msg_of c m)"
  "path_worker t = Inr m' \<Longrightarrow> \<exists>m. triangle_worker t = Inr m"
  by (auto simp: triangle_worker_def path_worker_def countAdd_add_load split: sum.splits prod.splits)

definition triangle_sim ::
  "nat \<Rightarrow> int list list \<Rightarrow> (triangle_state, triangle_msg, add_task, int list) task_system \<Rightarrow>
     (path_state, path_msg, add_task, nat \<times> int list) task_system \<Rightarrow> bool" where
  "triangle_sim c d S S' \<longleftrightarrow> (\<exists>r. path_to_go c d r S') \<and> ts_inbox S' = map (path_msg_of c) (ts_inbox S) \<and>
     ts_tasks S' = ts_tasks S \<and> ts_out S' = map (Pair c) (ts_out S) \<and>
     (same_path (ts_actor S) (ts_actor S') \<and> (ps_message_sender (ts_actor S') = Some c \<or> (\<exists>d. ts_inbox S = [Rows d])) \<or>
      ts_inbox S = [] \<and> ts_tasks S = [])"

lemma path_out: "path_to_go c d r S \<Longrightarrow> ts_out S \<noteq> [] \<Longrightarrow> ts_inbox S = [] \<and> ts_tasks S = []"
  by (auto simp: path_to_go_def path_start_def path_ready_def path_collects_def path_done_def)

lemma path_busy: "path_to_go c d r S \<Longrightarrow> ts_tasks S \<noteq> [] \<Longrightarrow> ps_message_sender (ts_actor S) = Some c"
  by (auto simp: path_to_go_def path_start_def path_ready_def path_collects_def path_done_def)

lemma triangle_sim_handle:
  assumes "triangle_sim c d S S'" and "ts_inbox S = m # ms" and "triangle_yanghui m (ts_actor S) = (a, es, None)"
  shows "\<exists>T'. task_step yanghui_count_path path_worker S' T' \<and>
    triangle_sim c d (dispatch es (S\<lparr>ts_actor := a, ts_inbox := ms\<rparr>)) T'"
proof -
  have s: "same_path (ts_actor S) (ts_actor S')" "ps_message_sender (ts_actor S') = Some c \<or> (\<exists>d. m = Rows d)"
    and i: "ts_inbox S' = path_msg_of c m # map (path_msg_of c) ms"
    and t: "ts_tasks S' = ts_tasks S" "ts_out S' = map (Pair c) (ts_out S)"
    using assms(1,2) by (auto simp: triangle_sim_def)
  obtain r where r: "path_to_go c d r S'" using assms(1) by (auto simp: triangle_sim_def)
  from triangle_handled [OF s assms(3)] obtain b where
    b: "yanghui_count_path (path_msg_of c m) (ts_actor S') = (b, map (rename_sent (path_msg_of c) (Pair c)) es, None)"
      "ps_message_sender b = Some c" "same_path a b \<or> (\<exists>row. es = [ToClient row])" by blast
  let ?T = "dispatch es (S\<lparr>ts_actor := a, ts_inbox := ms\<rparr>)"
  let ?T' = "dispatch (map (rename_sent (path_msg_of c) (Pair c)) es) (S'\<lparr>ts_actor := b, ts_inbox := map (path_msg_of c) ms\<rparr>)"
  have step: "task_step yanghui_count_path path_worker S' ?T'" by (rule task_step.handle) (rule i, rule b(1))
  obtain r' where r': "path_to_go c d r' ?T'" using path.counts [OF r step] by blast
  have parts: "ts_inbox ?T' = map (path_msg_of c) (ts_inbox ?T)" "ts_tasks ?T' = ts_tasks ?T" "ts_out ?T' = map (Pair c) (ts_out ?T)"
    by (rule dispatch_rename; simp add: t)+
  have "same_path a b \<or> ts_inbox ?T = [] \<and> ts_tasks ?T = []"
  proof (cases "same_path a b")
    case False
    then have "ts_out ?T' \<noteq> []" using b(3) by auto
    then show ?thesis using path_out [OF r'] parts by simp
  qed simp
  then show ?thesis using step r' parts b(2) by (intro exI [of _ ?T']) (auto simp: triangle_sim_def)
qed

lemma triangle_sim_work:
  assumes "triangle_sim c d S S'" and "ts_tasks S = xs @ t # ys" and "triangle_worker t = Inr m"
  shows "\<exists>T'. task_step yanghui_count_path path_worker S' T' \<and>
    triangle_sim c d (S\<lparr>ts_tasks := xs @ ys, ts_inbox := ts_inbox S @ [m]\<rparr>) T'"
proof -
  let ?T' = "S'\<lparr>ts_tasks := xs @ ys, ts_inbox := ts_inbox S' @ [path_msg_of c m]\<rparr>"
  obtain r where r: "path_to_go c d r S'" using assms(1) by (auto simp: triangle_sim_def)
  have t: "ts_tasks S' = xs @ t # ys" using assms(1,2) by (simp add: triangle_sim_def)
  have step: "task_step yanghui_count_path path_worker S' ?T'"
    by (rule task_step.work) (rule t, rule triangle_worked(1) [OF assms(3)])
  obtain r' where "path_to_go c d r' ?T'" using path.counts [OF r step] by blast
  moreover have "ps_message_sender (ts_actor S') = Some c" using path_busy [OF r] t by simp
  ultimately show ?thesis using step assms(1,2) by (intro exI [of _ ?T']) (auto simp: triangle_sim_def)
qed

interpretation triangle_demo: task_simulation triangle_yanghui triangle_worker yanghui_count_path path_worker "triangle_sim c d" for c d
proof
  fix S S' T assume "triangle_sim c d S S'" and "task_step triangle_yanghui triangle_worker S T"
  then show "\<exists>T'. task_step yanghui_count_path path_worker S' T' \<and> triangle_sim c d T T'"
    by (auto elim!: task_stepE dest: triangle_sim_handle triangle_sim_work)
next
  fix S :: "(triangle_state, triangle_msg, add_task, int list) task_system" and S'
  assume sim: "triangle_sim c d S S'" and go: "\<not> stuck yanghui_count_path path_worker S'"
  obtain T' where "task_step yanghui_count_path path_worker S' T'" using go unfolding stuck_def by blast
  then show "\<not> stuck triangle_yanghui triangle_worker S"
  proof (cases rule: task_step.cases)
    case (handle m' ms' b es')
    then obtain m ms where m: "ts_inbox S = m # ms" "m' = path_msg_of c m" using sim by (auto simp: triangle_sim_def)
    obtain a es x where h: "triangle_yanghui m (ts_actor S) = (a, es, x)" by (metis prod.exhaust)
    have "same_path (ts_actor S) (ts_actor S')" "ps_message_sender (ts_actor S') = Some c \<or> (\<exists>d. m = Rows d)"
      using sim m(1) by (auto simp: triangle_sim_def)
    from triangle_handled [OF this h] have "x = None" using handle m(2) by auto
    then show ?thesis using can_handle [OF m(1)] h by blast
  next
    case (work xs t ys m')
    have "ts_tasks S = ts_tasks S'" using sim by (simp add: triangle_sim_def)
    then have "t \<in> set (ts_tasks S)" unfolding work(2) by simp
    moreover obtain m where "triangle_worker t = Inr m" using triangle_worked(2) [OF work(3)] by blast
    ultimately show ?thesis by (rule can_work)
  qed
qed

text \<open>The first actor of the demo ends with the last level of its triangle, in as many steps.\<close>

lemma triangle_yanghui_ends:
  assumes "triangle d" and "levels_ok d"
    and "(task_step triangle_yanghui triangle_worker ^^ n)
      \<lparr>ts_actor = new_triangle_state, ts_inbox = [Rows d], ts_tasks = [], ts_out = []\<rparr> S"
  shows "n \<le> path_steps d" and "stuck triangle_yanghui triangle_worker S \<longleftrightarrow> n = path_steps d"
    and "n = path_steps d \<Longrightarrow> ts_out S = [last_level d]"
proof -
  let ?S = "\<lparr>ts_actor = new_triangle_state, ts_inbox = [Rows d], ts_tasks = [], ts_out = []\<rparr>"
    and ?S' = "\<lparr>ts_actor = new_path_state, ts_inbox = [PathData 0 d], ts_tasks = [], ts_out = []\<rparr>"
  have p: "path_start 0 d ?S'" by (simp add: path_start_def new_path_state_def)
  then have "path_to_go 0 d (path_steps d) ?S'" using assms(1,2) by (simp add: path_to_go_def path_steps_def)
  then have "triangle_sim 0 d ?S ?S'"
    by (auto simp: triangle_sim_def same_path_def new_triangle_state_def new_path_state_def)
  from triangle_demo.run [OF assms(3) this] obtain S' where
    S': "(task_step yanghui_count_path path_worker ^^ n) ?S' S'" "triangle_sim 0 d S S'" by blast
  note e = count_path_ends [OF assms(1,2) p S'(1)]
  show "n \<le> path_steps d" by (rule e(1))
  show "stuck triangle_yanghui triangle_worker S \<longleftrightarrow> n = path_steps d" using e(2) triangle_demo.stuck_iff [OF S'(2)] by simp
  show "n = path_steps d \<Longrightarrow> ts_out S = [last_level d]" using e(3) S'(2) by (auto simp: path_done_def triangle_sim_def)
qed

text \<open>The second actor; the actor that simulates it sends to itself under the name \<open>c\<close> of its client.\<close>

fun min_msg_of :: "nat \<Rightarrow> least_msg \<Rightarrow> min_msg" where
  "min_msg_of c (Row xs) = MinData c xs"
| "min_msg_of c (LeastOf r k) = MinResult r k"

definition same_least :: "least_state \<Rightarrow> min_state \<Rightarrow> bool" where
  "same_least a b \<longleftrightarrow> le_count a = ms_count b \<and> le_current_result a = ms_current_result b"

definition least_sim ::
  "nat \<Rightarrow> int \<Rightarrow> (least_state, least_msg, number_compare_data, int) task_system \<Rightarrow>
     (min_state, min_msg, number_compare_data, nat \<times> int) task_system \<Rightarrow> bool" where
  "least_sim c v S S' \<longleftrightarrow> (\<exists>r. min_to_go c c v r S') \<and> ts_inbox S' = map (min_msg_of c) (ts_inbox S) \<and>
     ts_tasks S' = ts_tasks S \<and> ts_out S' = concat (map (\<lambda>v. [(c, v), (c, v)]) (ts_out S)) \<and>
     (same_least (ts_actor S) (ts_actor S') \<and> ms_message_sender (ts_actor S') \<in> {None, Some c} \<or> ts_inbox S = [] \<and> ts_tasks S = [])"

lemma least_worked: "least_worker t = Inr m \<Longrightarrow> min_worker t = Inr (min_msg_of c m)"
  "min_worker t = Inr m' \<Longrightarrow> \<exists>m. least_worker t = Inr m"
  by (auto simp: least_worker_def min_worker_def countAdd_compare_def add_load_compare_def vec_at_def
      split: sum.splits prod.splits if_splits)

lemma least_handled:
  assumes "same_least (ts_actor S) (ts_actor S')" and "ms_message_sender (ts_actor S') \<in> {None, Some c}"
    and "getMin m (ts_actor S) = (a, es, x)"
    and "ts_tasks S' = ts_tasks S" and "ts_out S' = concat (map (\<lambda>v. [(c, v), (c, v)]) (ts_out S))"
  shows "x = None \<and> (\<exists>b es'. yanghui_get_final_result c c (min_msg_of c m) (ts_actor S') = (b, es', None) \<and>
    ms_message_sender b \<in> {None, Some c} \<and> (same_least a b \<or> (\<exists>v. es = [ToClient v])) \<and>
    (let T = dispatch es (S\<lparr>ts_actor := a, ts_inbox := ms\<rparr>);
         T' = dispatch es' (S'\<lparr>ts_actor := b, ts_inbox := map (min_msg_of c) ms\<rparr>) in
      ts_inbox T' = map (min_msg_of c) (ts_inbox T) \<and> ts_tasks T' = ts_tasks T \<and>
      ts_out T' = concat (map (\<lambda>v. [(c, v), (c, v)]) (ts_out T))))"
proof (cases m)
  case (Row xs)
  have w: "ts_inbox (dispatch (map ToWorker ts) U) = ts_inbox U" "ts_tasks (dispatch (map ToWorker ts) U) = ts_tasks U @ ts"
    "ts_out (dispatch (map ToWorker ts) U) = ts_out U" for ts U
    using dispatch_workers [of "\<lambda>t. t" ts U] by simp_all
  then show ?thesis
    using assms Row by (auto simp: min_on_data_def Let_def same_least_def w)
next
  case (LeastOf r k)
  then show ?thesis using assms by (auto simp: min_on_result_def Let_def same_least_def)
qed

lemma min_out: "min_to_go c c v r S \<Longrightarrow> ts_out S \<noteq> [] \<Longrightarrow> ts_inbox S = [] \<and> ts_tasks S = []"
  by (auto simp: min_to_go_def min_ready_def min_collects_def min_done_def)

lemma least_sim_handle:
  assumes "least_sim c v S S'" and "ts_inbox S = m # ms" and "getMin m (ts_actor S) = (a, es, None)"
  shows "\<exists>T'. task_step (yanghui_get_final_result c c) min_worker S' T' \<and>
    least_sim c v (dispatch es (S\<lparr>ts_actor := a, ts_inbox := ms\<rparr>)) T'"
proof -
  have s: "same_least (ts_actor S) (ts_actor S')" "ms_message_sender (ts_actor S') \<in> {None, Some c}"
    and i: "ts_inbox S' = min_msg_of c m # map (min_msg_of c) ms"
    and t: "ts_tasks S' = ts_tasks S" "ts_out S' = concat (map (\<lambda>v. [(c, v), (c, v)]) (ts_out S))"
    using assms(1,2) by (auto simp: least_sim_def)
  obtain r where r: "min_to_go c c v r S'" using assms(1) by (auto simp: least_sim_def)
  let ?T = "dispatch es (S\<lparr>ts_actor := a, ts_inbox := ms\<rparr>)"
  obtain b es' where b: "yanghui_get_final_result c c (min_msg_of c m) (ts_actor S') = (b, es', None)"
      "ms_message_sender b \<in> {None, Some c}" "same_least a b \<or> (\<exists>v. es = [ToClient v])"
    and parts: "let T' = dispatch es' (S'\<lparr>ts_actor := b, ts_inbox := map (min_msg_of c) ms\<rparr>) in
      ts_inbox T' = map (min_msg_of c) (ts_inbox ?T) \<and> ts_tasks T' = ts_tasks ?T \<and>
      ts_out T' = concat (map (\<lambda>v. [(c, v), (c, v)]) (ts_out ?T))"
    using least_handled [OF s assms(3) t, of ms] unfolding Let_def by blast
  let ?T' = "dispatch es' (S'\<lparr>ts_actor := b, ts_inbox := map (min_msg_of c) ms\<rparr>)"
  have step: "task_step (yanghui_get_final_result c c) min_worker S' ?T'"
    by (rule task_step.handle) (rule i, rule b(1))
  obtain r' where r': "min_to_go c c v r' ?T'" using least.counts [OF r step] by blast
  have "same_least a b \<or> ts_inbox ?T = [] \<and> ts_tasks ?T = []"
  proof (cases "same_least a b")
    case False
    then have "ts_out ?T' \<noteq> []" using b(3) parts by (auto simp: Let_def)
    then show ?thesis using min_out [OF r'] parts by (simp add: Let_def)
  qed simp
  then show ?thesis using step r' parts b(2) unfolding least_sim_def Let_def by (intro exI [of _ ?T']) auto
qed

lemma least_sim_work:
  assumes "least_sim c v S S'" and "ts_tasks S = xs @ t # ys" and "least_worker t = Inr m"
  shows "\<exists>T'. task_step (yanghui_get_final_result c c) min_worker S' T' \<and>
    least_sim c v (S\<lparr>ts_tasks := xs @ ys, ts_inbox := ts_inbox S @ [m]\<rparr>) T'"
proof -
  let ?T' = "S'\<lparr>ts_tasks := xs @ ys, ts_inbox := ts_inbox S' @ [min_msg_of c m]\<rparr>"
  obtain r where r: "min_to_go c c v r S'" using assms(1) by (auto simp: least_sim_def)
  have t: "ts_tasks S' = xs @ t # ys" using assms(1,2) by (simp add: least_sim_def)
  have step: "task_step (yanghui_get_final_result c c) min_worker S' ?T'"
    by (rule task_step.work) (rule t, rule least_worked(1) [OF assms(3)])
  obtain r' where "min_to_go c c v r' ?T'" using least.counts [OF r step] by blast
  then show ?thesis using step assms(1,2) by (intro exI [of _ ?T']) (auto simp: least_sim_def)
qed

interpretation least_demo: task_simulation getMin least_worker "yanghui_get_final_result c c" min_worker "least_sim c v" for c v
proof
  fix S S' T assume "least_sim c v S S'" and "task_step getMin least_worker S T"
  then show "\<exists>T'. task_step (yanghui_get_final_result c c) min_worker S' T' \<and> least_sim c v T T'"
    by (auto elim!: task_stepE dest: least_sim_handle least_sim_work)
next
  fix S :: "(least_state, least_msg, number_compare_data, int) task_system" and S'
  assume sim: "least_sim c v S S'" and go: "\<not> stuck (yanghui_get_final_result c c) min_worker S'"
  obtain T' where "task_step (yanghui_get_final_result c c) min_worker S' T'" using go unfolding stuck_def by blast
  then show "\<not> stuck getMin least_worker S"
  proof (cases rule: task_step.cases)
    case (handle m' ms' b es')
    then obtain m ms where m: "ts_inbox S = m # ms" using sim by (auto simp: least_sim_def)
    obtain a es x where h: "getMin m (ts_actor S) = (a, es, x)" by (metis prod.exhaust)
    then have "x = None" by (cases m) (auto simp: Let_def split: if_splits)
    then show ?thesis using can_handle [OF m(1)] h by blast
  next
    case (work xs t ys m')
    have "ts_tasks S = ts_tasks S'" using sim by (simp add: least_sim_def)
    then have "t \<in> set (ts_tasks S)" unfolding work(2) by simp
    moreover obtain m where "least_worker t = Inr m" using least_worked(2) [OF work(3)] by blast
    ultimately show ?thesis by (rule can_work)
  qed
qed

lemma getMin_ends:
  assumes "xs \<noteq> []"
    and "(task_step getMin least_worker ^^ n) \<lparr>ts_actor = new_least_state, ts_inbox = [Row xs], ts_tasks = [], ts_out = []\<rparr> S"
  shows "n \<le> min_steps (length xs)" and "stuck getMin least_worker S \<longleftrightarrow> n = min_steps (length xs)"
    and "n = min_steps (length xs) \<Longrightarrow> ts_out S = [Min (set xs)]"
proof -
  let ?S = "\<lparr>ts_actor = new_least_state, ts_inbox = [Row xs], ts_tasks = [], ts_out = []\<rparr>"
    and ?S' = "\<lparr>ts_actor = new_min_state, ts_inbox = [MinData 0 xs], ts_tasks = [], ts_out = []\<rparr>"
  have p: "min_ready 0 (Min (set xs)) xs ?S'" using assms(1) by (simp add: min_ready_def new_min_state_def)
  then have "min_to_go 0 0 (Min (set xs)) (min_steps (length xs)) ?S'" by (auto simp: min_to_go_def)
  then have "least_sim 0 (Min (set xs)) ?S ?S'"
    by (auto simp: least_sim_def same_least_def new_least_state_def new_min_state_def)
  from least_demo.run [OF assms(2) this] obtain S' where
    S': "(task_step (yanghui_get_final_result 0 0) min_worker ^^ n) ?S' S'" "least_sim 0 (Min (set xs)) S S'" by blast
  note e = final_result_ends [OF p S'(1)]
  show "n \<le> min_steps (length xs)" by (rule e(1))
  show "stuck getMin least_worker S \<longleftrightarrow> n = min_steps (length xs)" using e(2) least_demo.stuck_iff [OF S'(2)] by simp
  show "n = min_steps (length xs) \<Longrightarrow> ts_out S = [Min (set xs)]"
  proof -
    assume "n = min_steps (length xs)"
    then have "concat (map (\<lambda>v. [(0, v), (0, v)]) (ts_out S)) = [(0 :: nat, Min (set xs)), (0, Min (set xs))]"
      using e(3) S'(2) by (simp add: min_done_def least_sim_def)
    then show "ts_out S = [Min (set xs)]" by (cases "ts_out S"; cases "tl (ts_out S)") auto
  qed
qed

section \<open>The demo\<close>

definition kYanghuiData :: "int list list" where
  "kYanghuiData = [[5], [7, 8], [2, 1, 4], [4, 2, 6, 1], [2, 7, 3, 4, 5], [2, 3, 7, 6, 8, 3]]"

text \<open>
  The main program: it needs the two groups and connects to two workers. A worker that cannot be
  reached is not looked at again before it is used.
\<close>

definition triangle_main :: "bool \<Rightarrow> bool \<Rightarrow> (u16 \<Rightarrow> nat option) \<Rightarrow> cpp_exn + (nat list \<times> int list list) option" where
  "triangle_main result_group compare_group remote_actor =
     (if \<not> result_group \<or> \<not> compare_group then Inr None
      else case remote_actor 55001 of
        None \<Rightarrow> Inl UndefinedBehaviour
      | Some worker1 \<Rightarrow> (case remote_actor 51566 of
            None \<Rightarrow> Inl UndefinedBehaviour
          | Some worker2 \<Rightarrow> Inr (Some ([worker1, worker2], kYanghuiData))))"

text \<open>
  Started as its readme says, with workers at 51563 and 51566, it does not find the first.
\<close>

lemma triangle_main_readme: "triangle_main True True (map_of [(51563, 1), (51566, 2)]) = Inl UndefinedBehaviour"
  by (simp add: triangle_main_def)

text \<open>Whatever the order of the answers, the demo prints the result of the sequential job: 22.\<close>

theorem triangle_demo_result:
  assumes "(task_step triangle_yanghui triangle_worker ^^ n)
      \<lparr>ts_actor = new_triangle_state, ts_inbox = [Rows kYanghuiData], ts_tasks = [], ts_out = []\<rparr> S"
    and "stuck triangle_yanghui triangle_worker S" and "ts_out S = [row]"
    and "(task_step getMin least_worker ^^ k) \<lparr>ts_actor = new_least_state, ts_inbox = [Row row], ts_tasks = [], ts_out = []\<rparr> T"
    and "stuck getMin least_worker T"
  shows "ts_out T = [22]"
proof -
  have d: "triangle kYanghuiData" by code_simp
  have "\<forall>i<length kYanghuiData. \<forall>x\<in>set (level kYanghuiData i). int_ok x" by code_simp
  then have ok: "levels_ok kYanghuiData" by (simp add: levels_ok_def)
  note t = triangle_yanghui_ends [OF d ok assms(1)]
  have row: "row = last_level kYanghuiData" using t(2,3) assms(2,3) by simp
  have ne: "row \<noteq> []" unfolding row by code_simp
  note m = getMin_ends [OF ne assms(4)]
  have "Min (set row) = 22" unfolding row by code_simp
  then show ?thesis using m(2,3) assms(5) by simp
qed

text \<open>
  A second triangle meets the results of the first, which are written out of range into its first
  row: the actor never clears them at the end.
\<close>

lemma second_triangle_undefined:
  assumes "tr_current_result s = [(0, u), (1, v)]"
  shows "snd (snd (triangle_yanghui (NextRow 1) (fst (triangle_yanghui (Rows [[x], [y, z]]) s)))) = Some UndefinedBehaviour"
  using assms by (simp add: tr_on_rows_def tr_on_next_def entry_at_def vec_at_def vec_put_def write_result_def Let_def)

end
