(* ===== verification/Helper_Demos.thy ===== *)
theory Helper_Demos
  imports Actor_Helpers Yanghui_Counter
begin

text \<open>
  The smaller demos over the actor helpers: the guard and the union
  (\<open>actor_fault_tolerance\<close>), the sums of \<open>additional_allownance\<close>, \<open>simple_ping_pong\<close> and the status
  service (\<open>actor_status\<close>). What a remote actor answers, and whether a connection or a remote
  spawn succeeds, is an argument; waiting for the return key is left out.
\<close>

section \<open>Workers\<close>

definition sub_int :: "int \<Rightarrow> int \<Rightarrow> cpp_exn + int" where
  "sub_int a b = (if int_ok (a - b) then Inr (a - b) else Inl UndefinedBehaviour)"

datatype calculator_task = Add int int | Sub int int

fun calculator_fun :: "calculator_task \<Rightarrow> cpp_exn + int" where
  "calculator_fun (Add a b) = add_int a b"
| "calculator_fun (Sub a b) = sub_int a b"

text \<open>\<open>StartWorker\<close>: the null actor is 0; \<open>active\<close> is a reference parameter.\<close>

definition StartWorker :: "nat option \<Rightarrow> nat \<times> bool" where
  "StartWorker spawned = (case spawned of None \<Rightarrow> (0, False) | Some a \<Rightarrow> (a, True))"

section \<open>The guard\<close>

text \<open>
  The restart function of the demo takes the flag by value: what \<open>StartWorker\<close> makes of it is
  lost, and the flag of the guard stays as it is. \<open>reference_restart\<close> is the function with a
  reference, as the guard expects it.
\<close>

definition demo_restart :: "bool \<Rightarrow> nat option \<Rightarrow> nat \<times> bool" where
  "demo_restart active spawned = (fst (StartWorker spawned), active)"

definition reference_restart :: "bool \<Rightarrow> nat option \<Rightarrow> nat \<times> bool" where
  "reference_restart active spawned = StartWorker spawned"

datatype demo_shown =
    ConnectFailed
  | RemoteSpawnFailed
  | StartFailed nat
  | GetRet int
  | GetError nat
  | FirstParameter int
  | ReturnValue int

text \<open>A request without the guard; the error handler prints two constants.\<close>

definition normal_request :: "outcome \<Rightarrow> calculator_task \<Rightarrow> demo_shown list" where
  "normal_request reply task =
     (case reply of
        Answer \<Rightarrow> (case calculator_fun task of Inr r \<Rightarrow> [GetRet r] | Inl _ \<Rightarrow> [])
      | BusinessError e \<Rightarrow> [GetError e, FirstParameter 200, FirstParameter 100]
      | SystemError e \<Rightarrow> [GetError e, FirstParameter 200, FirstParameter 100])"

definition actions_shown :: "calculator_task \<Rightarrow> guard_action list \<Rightarrow> demo_shown list" where
  "actions_shown task actions = concat (map (\<lambda>a. case a of
       ReturnFunction \<Rightarrow> (case calculator_fun task of Inr r \<Rightarrow> [ReturnValue r] | Inl _ \<Rightarrow> [])
     | ErrorFunction e \<Rightarrow> [GetError e]
     | _ \<Rightarrow> []) actions)"

definition guard_rounds :: "(outcome \<times> nat option) list \<Rightarrow> (outcome \<times> nat \<times> bool) list" where
  "guard_rounds rs = map (\<lambda>(reply, spawned). (reply, demo_restart True spawned)) rs"

definition guard_demo ::
  "bool \<Rightarrow> nat option \<Rightarrow> outcome \<Rightarrow> (outcome \<times> nat option) list \<Rightarrow> outcome \<Rightarrow> (outcome \<times> nat option) list
     \<Rightarrow> demo_shown list" where
  "guard_demo connected spawned reply1 rounds1 reply2 rounds2 =
     (if \<not> connected then [ConnectFailed]
      else case StartWorker spawned of
        (_, False) \<Rightarrow> [RemoteSpawnFailed, StartFailed 0]
      | (worker_actor, True) \<Rightarrow>
          (case guard_SendAndReceive (guard_rounds rounds1) \<lparr>ag_keep_actor = worker_actor, ag_active = True\<rparr> of
             (actions1, g, _) \<Rightarrow>
           case guard_SendAndReceive (guard_rounds rounds2) g of
             (actions2, _, _) \<Rightarrow>
               normal_request reply1 (Add 200 100) @ actions_shown (Add 50 100) actions1 @
               normal_request reply2 (Add 500 100) @ actions_shown (Add 66 600) actions2))"

text \<open>
  A restart that fails is reported with the reference; the demo goes on with the null actor, to
  which the next request is sent.
\<close>

lemma failed_restart_reported:
  "fst (guard_SendAndReceive ((SystemError e, reference_restart True None) # rs) \<lparr>ag_keep_actor = a, ag_active = True\<rparr>) =
    [Request a, RestartFun, ErrorFunction e]"
  by (simp add: guard_SendAndReceive_def reference_restart_def StartWorker_def Let_def)

lemma failed_restart_ignored:
  "fst (guard_SendAndReceive (guard_rounds [(SystemError e, None)]) \<lparr>ag_keep_actor = a, ag_active = True\<rparr>) =
    [Request a, RestartFun, SleepTwoSeconds, Request 0]"
  by (simp add: guard_SendAndReceive_def guard_rounds_def demo_restart_def StartWorker_def Let_def)

text \<open>The guard of the demo stays active whatever happens.\<close>

lemma demo_guard_active:
  "ag_active g \<Longrightarrow> ag_active (snd (guard_request (guard_rounds rs) g))"
proof (induction rs arbitrary: g)
  case (Cons r rs)
  obtain reply spawned where r: "r = (reply, spawned)" by fastforce
  let ?g = "\<lparr>ag_keep_actor = fst (StartWorker spawned), ag_active = True\<rparr>"
  have "ag_active (snd (guard_request (guard_rounds rs) ?g))" by (rule Cons.IH) simp
  then show ?case using Cons.prems
    by (cases reply; cases "guard_request (guard_rounds rs) ?g") (simp_all add: r guard_rounds_def demo_restart_def Let_def)
qed (simp add: guard_rounds_def)

text \<open>The demo's run: the worker is killed, the plain request fails and the guarded one is answered.\<close>

lemma guard_demo_run:
  "guard_demo True (Some 7) Answer [(Answer, None)] (SystemError 4) [(SystemError 4, Some 8), (Answer, None)] =
    [GetRet 300, ReturnValue 150, GetError 4, FirstParameter 200, FirstParameter 100, ReturnValue 666]"
  by code_simp

section \<open>The union\<close>

definition union_ports :: "u16 list" where
  "union_ports = [56098, 56099, 56100]"

text \<open>The port of worker \<open>n\<close>, counted from 1; the array has three.\<close>

definition union_port :: "nat \<Rightarrow> cpp_exn + u16" where
  "union_port worker_number = vec_at union_ports (worker_number - 1)"

lemma union_port_range: "union_port n = Inl UndefinedBehaviour \<longleftrightarrow> 3 < n"
  by (auto simp: union_port_def union_ports_def vec_at_def)

definition union_shown :: "calculator_task \<Rightarrow> union_action list \<Rightarrow> demo_shown list" where
  "union_shown task actions = concat (map (\<lambda>a. case a of
       UnionReturn \<Rightarrow> (case calculator_fun task of Inr r \<Rightarrow> [ReturnValue r] | Inl _ \<Rightarrow> [])
     | UnionError e \<Rightarrow> [GetError e]
     | AllActorOutOfWork \<Rightarrow> [GetError 1]
     | _ \<Rightarrow> []) actions)"

text \<open>\<open>UnionLeader\<close>: three connections, three workers, and six requests; in between a worker is killed.\<close>

fun start_workers :: "nat \<Rightarrow> nat option list \<Rightarrow> demo_shown list + nat list" where
  "start_workers k [] = Inr []"
| "start_workers k (spawned # ss) =
     (case StartWorker spawned of
        (_, False) \<Rightarrow> Inl [RemoteSpawnFailed, StartFailed k]
      | (a, True) \<Rightarrow> map_sum id (Cons a) (start_workers (Suc k) ss))"

definition union_tasks :: "calculator_task list" where
  "union_tasks = [Add 1 600, Add 2 600, Add 3 600, Add 1 990, Add 2 990, Add 3 990]"

definition union_demo :: "bool list \<Rightarrow> nat option list \<Rightarrow> outcome list list \<Rightarrow> demo_shown list" where
  "union_demo connected spawned scripts =
     (if False \<in> set connected then [ConnectFailed]
      else case start_workers 1 spawned of
        Inl out \<Rightarrow> out
      | Inr workers \<Rightarrow>
          let u = fold union_AddActor workers \<lparr>au_actor_count = 0, au_pool = []\<rparr> in
          concat (map (\<lambda>(task, script). union_shown task (union_SendAndReceive script u)) (zip union_tasks scripts)))"

text \<open>
  With two of three workers left every request of the demo is answered, whichever of them the
  pool turns to: up to three failed attempts before an answer do not matter.
\<close>

lemma union_demo_answered:
  assumes "length scripts = 6" and "\<forall>s\<in>set scripts. \<exists>k\<le>3. \<exists>rest. s = replicate k (SystemError e) @ Answer # rest"
  shows "union_demo [True, True, True] [Some 7, Some 8, Some 9] scripts =
    [ReturnValue 601, ReturnValue 602, ReturnValue 603, ReturnValue 991, ReturnValue 992, ReturnValue 993]"
proof -
  let ?u = "union_AddActor 9 (union_AddActor 8 (union_AddActor 7 \<lparr>au_actor_count = 0, au_pool = []\<rparr>))"
  have u: "union_shown task (union_SendAndReceive s ?u) = (case calculator_fun task of Inr r \<Rightarrow> [ReturnValue r] | Inl _ \<Rightarrow> [])"
    if s: "s \<in> set scripts" for s task
  proof -
    obtain k rest where k: "k \<le> 3" "s = replicate k (SystemError e) @ Answer # rest" using assms(2) s by blast
    have c: "au_actor_count ?u = 3" by (simp add: union_AddActor_def)
    have "union_attempt 3 (replicate k (SystemError e) @ Answer # rest) 0 = replicate (Suc k) PoolRequest @ [UnionReturn]"
      by (rule union_attempt_answered) (use k(1) in simp_all)
    then show ?thesis by (simp add: union_SendAndReceive_def c k(2) union_shown_def)
  qed
  obtain s1 s2 s3 s4 s5 s6 where scripts: "scripts = [s1, s2, s3, s4, s5, s6]"
    using assms(1) by (auto simp: length_Suc_conv eval_nat_numeral)
  show ?thesis
    using u [of s1] u [of s2] u [of s3] u [of s4] u [of s5] u [of s6]
    by (simp add: union_demo_def StartWorker_def scripts union_tasks_def Let_def add_int_def int_ok_def)
qed

section \<open>Sums\<close>

text \<open>\<open>Additon\<close>: an int that the loop adds up to.\<close>

fun Additon_loop :: "nat \<Rightarrow> cpp_exn + int" where
  "Additon_loop 0 = Inr 0"
| "Additon_loop (Suc i) = (case Additon_loop i of Inl e \<Rightarrow> Inl e | Inr s \<Rightarrow> add_int s (int (Suc i)))"

definition Additon :: "int \<Rightarrow> cpp_exn + int" where
  "Additon what = Additon_loop (nat what)"

lemma Additon_sum:
  assumes "0 \<le> n" and "n * (n + 1) div 2 < 2 ^ 31"
  shows "Additon n = Inr (n * (n + 1) div 2)"
proof -
  have "2 * s = int m * (int m + 1) \<Longrightarrow> s < 2 ^ 31 \<Longrightarrow> Additon_loop m = Inr s" for m s
  proof (induction m arbitrary: s)
    case (Suc m)
    let ?s = "s - int (Suc m)"
    have eq: "2 * ?s = int m * (int m + 1)" using Suc.prems(1) by (simp add: algebra_simps)
    have "0 \<le> 2 * ?s" unfolding eq by simp
    then have "0 \<le> ?s" by simp
    then show ?case using Suc.IH [OF eq] Suc.prems(2) by (auto simp: add_int_def int_ok_def)
  qed simp
  from this [of "n * (n + 1) div 2" "nat n"] show ?thesis using assms by (simp add: Additon_def)
qed

lemma Additon_demo: "map Additon [1, 2, 3, 4] = [Inr 1, Inr 3, Inr 6, Inr 10]"
  by code_simp

section \<open>Ping and pong\<close>

text \<open>Both actors answer a value with the next one, for ever.\<close>

definition next_value :: "int \<Rightarrow> cpp_exn + int" where
  "next_value v = add_int v 1"

fun ping_pong :: "nat \<Rightarrow> cpp_exn + int" where
  "ping_pong 0 = Inr 0"
| "ping_pong (Suc n) = (case ping_pong n of Inl e \<Rightarrow> Inl e | Inr v \<Rightarrow> next_value v)"

lemma ping_pong_counts: "n < 2 ^ 31 \<Longrightarrow> ping_pong n = Inr (int n)"
proof (induction n)
  case (Suc n)
  have "ping_pong n = Inr (int n)" using Suc by simp
  moreover have "int n + 1 < 2 ^ 31" using Suc.prems by simp
  ultimately show ?case by (simp add: next_value_def add_int_def int_ok_def algebra_simps)
qed simp

text \<open>In the end the value leaves the integers.\<close>

lemma ping_pong_overflows: "2 ^ 31 \<le> n \<Longrightarrow> ping_pong n = Inl UndefinedBehaviour"
proof (induction n)
  case (Suc n)
  show ?case
  proof (cases "2 ^ 31 \<le> n")
    case True
    then show ?thesis using Suc.IH by simp
  next
    case False
    then have n: "n = 2 ^ 31 - 1" using Suc.prems by linarith
    then have "ping_pong n = Inr (2 ^ 31 - 1)" using ping_pong_counts [of n] by simp
    then show ?thesis by (simp add: next_value_def add_int_def int_ok_def)
  qed
qed simp

text \<open>\<open>Ping::Update\<close>: an actor for every event about the member \<open>Pong\<close>, of whatever kind.\<close>

definition ping_Update :: "nat option \<Rightarrow> string \<Rightarrow> cpp_exn + nat list" where
  "ping_Update remote_pong name =
     (if name = ''Pong'' then (case remote_pong of None \<Rightarrow> Inl UndefinedBehaviour | Some a \<Rightarrow> Inr [a]) else Inr [])"

section \<open>The status service\<close>

definition status_demo :: "u64 \<Rightarrow> u64 \<Rightarrow> u64 \<Rightarrow> actor_status" where
  "status_demo a b c =
     RegisterActor c ''Adder3'' ''a actor can count add.''
       (RegisterActor b ''Adder2'' ''a actor can count add.''
         (RegisterActor a ''Adder1'' ''a actor can count add.'' []))"

lemma status_demo_reply:
  assumes "a < b" and "b < c"
  shows "map (\<lambda>i. (ai_id i, ai_name i)) (GetActorStatus (status_demo a b c)) = [(a, ''Adder1''), (b, ''Adder2''), (c, ''Adder3'')]"
  using assms by (auto simp: status_demo_def RegisterActor_def GetActorStatus_def)

end
