(* ===== verification/Config_Options.thy ===== *)
theory Config_Options
  imports App_Config
begin

text \<open>
  The command line options of the programs: \<open>common/src/cdcf_config.cc\<close>,
  \<open>actor_system/include/cdcf/actor_system/config.h\<close> and the configuration class of each program. An option is
  added with the member it sets and its names, a long one and, behind a comma, the letters of
  the short ones. Finding an option by its name and reading its argument is CAF's.
\<close>

section \<open>Options\<close>

datatype opt_value = OptString string | OptNumber int | OptFlag bool | OptReal rat

text \<open>The declared type of a member.\<close>

datatype opt_type = TString | TU16 | TInt | TBool | TDouble

fun has_type :: "opt_type \<Rightarrow> opt_value \<Rightarrow> bool" where
  "has_type TString (OptString s) \<longleftrightarrow> True"
| "has_type TU16 (OptNumber n) \<longleftrightarrow> 0 \<le> n \<and> n < 2 ^ 16"
| "has_type TInt (OptNumber n) \<longleftrightarrow> - (2 ^ 31) \<le> n \<and> n < 2 ^ 31"
| "has_type TBool (OptFlag b) \<longleftrightarrow> True"
| "has_type TDouble (OptReal r) \<longleftrightarrow> True"
| "has_type _ _ \<longleftrightarrow> False"

record cfg_option =
  op_member :: string
  op_names :: string
  op_type :: opt_type
  op_default :: opt_value

definition long_name :: "cfg_option \<Rightarrow> string" where
  "long_name opt = takeWhile (\<lambda>c. c \<noteq> CHR '','') (op_names opt)"

definition short_names :: "cfg_option \<Rightarrow> string" where
  "short_names opt = tl (dropWhile (\<lambda>c. c \<noteq> CHR '','') (op_names opt))"

definition option_of :: "string \<Rightarrow> string \<Rightarrow> opt_type \<Rightarrow> opt_value \<Rightarrow> cfg_option" where
  "option_of m names ty v = \<lparr>op_member = m, op_names = names, op_type = ty, op_default = v\<rparr>"

section \<open>The programs\<close>

definition cdcf_options :: "cfg_option list" where
  "cdcf_options =
     [option_of ''threads_proportion'' ''threads_proportion'' TDouble (OptReal 1),
      option_of ''log_file_'' ''log_file'' TString (OptString []),
      option_of ''log_level_'' ''log_level'' TString (OptString ''info''),
      option_of ''no_log_to_console_'' ''no_log_to_console'' TBool (OptFlag False),
      option_of ''log_file_size_in_bytes_'' ''log_file_size'' TU16 (OptNumber 0),
      option_of ''log_file_number_'' ''log_file_num'' TU16 (OptNumber 0),
      option_of ''log_no_display_filename_and_line_number_'' ''log_no_display_filename_and_line_num'' TBool (OptFlag False),
      option_of ''role_'' ''role'' TString (OptString []),
      option_of ''name_'' ''name,n'' TString (OptString ''node''),
      option_of ''host_'' ''host,H'' TString (OptString ''localhost'')]"

definition actor_system_options :: "cfg_option list" where
  "actor_system_options = cdcf_options @ [option_of ''port_'' ''actor_system_port,a'' TU16 (OptNumber 4750)]"

definition keeper_options :: "cfg_option list" where
  "keeper_options = cdcf_options @
     [option_of ''port_'' ''port,p'' TU16 (OptNumber 4748),
      option_of ''seeds_'' ''seeds,s'' TString (OptString []),
      option_of ''app_'' ''app'' TString (OptString []),
      option_of ''app_args_'' ''app-args'' TString (OptString []),
      option_of ''print_ping_log_'' ''print-ping-log'' TBool (OptFlag False)]"

definition client_options :: "cfg_option list" where
  "client_options = cdcf_options @
     [option_of ''server_host'' ''server_host,S'' TString (OptString ''localhost:50051''),
      option_of ''actor_node_host'' ''node,N'' TString (OptString []),
      option_of ''port'' ''port,P'' TU16 (OptNumber 50052)]"

definition yanghui_options :: "cfg_option list" where
  "yanghui_options = actor_system_options @
     [option_of ''root_port'' ''root_port'' TU16 (OptNumber 0),
      option_of ''root_host'' ''root_host'' TString (OptString ''localhost''),
      option_of ''worker_port'' ''worker_port, w'' TU16 (OptNumber 0),
      option_of ''root'' ''root, r'' TBool (OptFlag False),
      option_of ''worker_load'' ''load, l'' TInt (OptNumber 0),
      option_of ''node_keeper_host'' ''node_keeper_host'' TString (OptString ''127.0.0.1''),
      option_of ''node_keeper_port'' ''node_port'' TU16 (OptNumber 50051)]"

definition reception_option :: cfg_option where
  "reception_option = option_of ''reception_port_'' ''reception_port,r'' TU16 (OptNumber 3335)"

definition hello_options :: "cfg_option list" where
  "hello_options = actor_system_options @ [reception_option]"

definition balancer_options :: "cfg_option list" where
  "balancer_options = actor_system_options @ [reception_option]"

definition cluster_demo_options :: "cfg_option list" where
  "cluster_demo_options = actor_system_options @ [reception_option]"

definition ping_pong_options :: "cfg_option list" where
  "ping_pong_options = actor_system_options @
     [option_of ''pong_host'' ''pong_host'' TString (OptString ''127.0.0.1''),
      option_of ''pong_port'' ''pong_port'' TU16 (OptNumber 58888)]"

text \<open>The programs below declare a host of their own beside that of \<open>CDCFConfig\<close>.\<close>

definition own_host :: cfg_option where
  "own_host = option_of ''host'' ''host,H'' TString (OptString ''localhost'')"

definition guard_options :: "cfg_option list" where
  "guard_options = cdcf_options @
     [option_of ''port'' ''port,p'' TU16 (OptNumber 56088), own_host,
      option_of ''worker_mode'' ''guard_mode,s'' TBool (OptFlag False)]"

definition union_options :: "cfg_option list" where
  "union_options = cdcf_options @
     [own_host, option_of ''worker_number'' ''worker_number,w'' TU16 (OptNumber 0)]"

definition status_options :: "cfg_option list" where
  "status_options = cdcf_options @ [option_of ''port'' ''port,p'' TU16 (OptNumber 50052), own_host]"

definition monitor_options :: "cfg_option list" where
  "monitor_options = cdcf_options @
     [option_of ''port'' ''port,p'' TU16 (OptNumber 56088), own_host,
      option_of ''test_type'' ''test, T'' TString (OptString [])]"

definition triangle_options :: "cfg_option list" where
  "triangle_options = cdcf_options @
     [option_of ''port'' ''port,p'' TU16 (OptNumber 0), own_host,
      option_of ''worker_group'' ''group,g'' TString (OptString []),
      option_of ''count_result_group'' ''result,r'' TString (OptString []),
      option_of ''compare_group'' ''compare, c'' TString (OptString []),
      option_of ''worker_port'' ''instance, i'' TU16 (OptNumber 0)]"

section \<open>Arguments\<close>

text \<open>
  The members with their values, in the order of the options. An argument names an option by its long
  name or by a letter, and has a text that \<open>parse\<close> makes a value of the option's type of; \<open>pick\<close> is which of
  several options of that name is taken.
\<close>

type_synonym settings = "(string \<times> opt_value) list"

datatype opt_name = Long string | Short char

definition initial_settings :: "cfg_option list \<Rightarrow> settings" where
  "initial_settings opts = map (\<lambda>opt. (op_member opt, op_default opt)) opts"

fun names_option :: "opt_name \<Rightarrow> cfg_option \<Rightarrow> bool" where
  "names_option (Long s) opt \<longleftrightarrow> s = long_name opt"
| "names_option (Short c) opt \<longleftrightarrow> c \<in> set (short_names opt)"

definition candidates :: "opt_name \<Rightarrow> cfg_option list \<Rightarrow> nat list" where
  "candidates n opts = filter (\<lambda>i. names_option n (opts ! i)) [0..<length opts]"

definition set_option ::
  "(nat list \<Rightarrow> nat) \<Rightarrow> (opt_type \<Rightarrow> string \<Rightarrow> opt_value option) \<Rightarrow> cfg_option list \<Rightarrow> opt_name \<times> string
     \<Rightarrow> settings \<Rightarrow> settings option" where
  "set_option pick parse opts arg st =
     (case candidates (fst arg) opts of
        [] \<Rightarrow> None
      | is \<Rightarrow> (let i = pick is; opt = opts ! i in
          map_option (\<lambda>v. st[i := (op_member opt, v)]) (parse (op_type opt) (snd arg))))"

fun parse_arguments ::
  "(nat list \<Rightarrow> nat) \<Rightarrow> (opt_type \<Rightarrow> string \<Rightarrow> opt_value option) \<Rightarrow> cfg_option list \<Rightarrow> (opt_name \<times> string) list
     \<Rightarrow> settings \<Rightarrow> settings option" where
  "parse_arguments pick parse opts [] st = Some st"
| "parse_arguments pick parse opts (arg # args) st =
     Option.bind (set_option pick parse opts arg st) (parse_arguments pick parse opts args)"

section \<open>Laws\<close>

text \<open>Whatever is on the command line, each member keeps its declared type.\<close>

definition typed_parser :: "(opt_type \<Rightarrow> string \<Rightarrow> opt_value option) \<Rightarrow> bool" where
  "typed_parser parse \<longleftrightarrow> (\<forall>ty s v. parse ty s = Some v \<longrightarrow> has_type ty v)"

definition picks_one :: "(nat list \<Rightarrow> nat) \<Rightarrow> bool" where
  "picks_one pick \<longleftrightarrow> (\<forall>is. is \<noteq> [] \<longrightarrow> pick is \<in> set is)"

definition settings_typed :: "cfg_option list \<Rightarrow> settings \<Rightarrow> bool" where
  "settings_typed opts st \<longleftrightarrow> list_all2 (\<lambda>opt x. fst x = op_member opt \<and> has_type (op_type opt) (snd x)) opts st"

lemma candidates_range: "i \<in> set (candidates n opts) \<Longrightarrow> i < length opts \<and> names_option n (opts ! i)"
  by (auto simp: candidates_def)

lemma candidates_Nil: "candidates n opts = [] \<longleftrightarrow> (\<forall>opt\<in>set opts. \<not> names_option n opt)"
  by (force simp: candidates_def filter_empty_conv in_set_conv_nth)

lemma set_option_Some:
  assumes "set_option pick parse opts arg st = Some st'" and "picks_one pick"
  obtains i v where "i \<in> set (candidates (fst arg) opts)" and "parse (op_type (opts ! i)) (snd arg) = Some v"
    and "st' = st[i := (op_member (opts ! i), v)]"
proof (cases "candidates (fst arg) opts")
  case (Cons j js)
  have "pick (j # js) \<in> set (j # js)" using assms(2) by (simp only: picks_one_def) blast
  then show ?thesis using assms(1) Cons that by (auto simp: set_option_def Let_def)
qed (use assms(1) in \<open>simp add: set_option_def\<close>)

lemma settings_typed_set:
  assumes "settings_typed opts st" and "set_option pick parse opts arg st = Some st'"
    and "picks_one pick" and "typed_parser parse"
  shows "settings_typed opts st'"
proof -
  obtain i v where i: "i \<in> set (candidates (fst arg) opts)" "parse (op_type (opts ! i)) (snd arg) = Some v"
    "st' = st[i := (op_member (opts ! i), v)]" using set_option_Some [OF assms(2,3)] .
  have "has_type (op_type (opts ! i)) v" using i(2) assms(4) by (simp add: typed_parser_def)
  then show ?thesis using assms(1) i(3) candidates_range [OF i(1)]
    by (simp add: settings_typed_def list_all2_conv_all_nth nth_list_update)
qed

lemma parse_arguments_typed:
  assumes "parse_arguments pick parse opts args st = Some st'" and "settings_typed opts st"
    and "picks_one pick" and "typed_parser parse"
  shows "settings_typed opts st'"
  using assms(1,2)
proof (induction args arbitrary: st)
  case (Cons arg args)
  then obtain st1 where "set_option pick parse opts arg st = Some st1" "parse_arguments pick parse opts args st1 = Some st'"
    by (auto simp: bind_eq_Some_conv)
  then show ?case using Cons.IH settings_typed_set [OF Cons.prems(2) _ assms(3,4)] by blast
qed simp

definition defaults_typed :: "cfg_option list \<Rightarrow> bool" where
  "defaults_typed opts \<longleftrightarrow> list_all (\<lambda>opt. has_type (op_type opt) (op_default opt)) opts"

lemma initial_settings_typed: "defaults_typed opts \<Longrightarrow> settings_typed opts (initial_settings opts)"
  by (simp add: settings_typed_def initial_settings_def defaults_typed_def list_all2_conv_all_nth list_all_length)

text \<open>No name stands for two options of a program.\<close>

definition names_distinct :: "cfg_option list \<Rightarrow> bool" where
  "names_distinct opts \<longleftrightarrow> distinct (map long_name opts) \<and> distinct (concat (map (remdups \<circ> short_names) opts))"

lemma distinct_concat_nth:
  "distinct (concat xss) \<Longrightarrow> i < length xss \<Longrightarrow> j < length xss \<Longrightarrow> x \<in> set (xss ! i) \<Longrightarrow> x \<in> set (xss ! j) \<Longrightarrow> i = j"
proof (induction xss arbitrary: i j)
  case (Cons xs xss)
  have apart: "x \<in> set xs \<Longrightarrow> k < length xss \<Longrightarrow> x \<in> set (xss ! k) \<Longrightarrow> False" for k
    using Cons.prems(1) nth_mem by fastforce
  show ?case
  proof (cases i; cases j)
    fix i' j' assume "i = Suc i'" "j = Suc j'"
    then show ?thesis using Cons.IH [of i' j'] Cons.prems by simp
  qed (use Cons.prems apart in auto)
qed simp

lemma candidates_unique:
  assumes "names_distinct opts" and "i \<in> set (candidates n opts)"
  shows "candidates n opts = [i]"
proof -
  have same: "j = i" if "j \<in> set (candidates n opts)" for j
  proof (cases n)
    case (Long s)
    then have "map long_name opts ! i = map long_name opts ! j"
      using candidates_range [OF assms(2)] candidates_range [OF that] by simp
    then show ?thesis
      using assms(1) candidates_range [OF assms(2)] candidates_range [OF that]
      by (simp add: names_distinct_def nth_eq_iff_index_eq del: nth_map)
  next
    case (Short c)
    let ?xss = "map (remdups \<circ> short_names) opts"
    have "c \<in> set (?xss ! i)" "c \<in> set (?xss ! j)" "i < length ?xss" "j < length ?xss"
      using candidates_range [OF assms(2)] candidates_range [OF that] Short by simp_all
    then show ?thesis using distinct_concat_nth [of ?xss j i c] assms(1) by (simp add: names_distinct_def)
  qed
  have d: "distinct (candidates n opts)" by (simp add: candidates_def)
  show ?thesis
  proof (cases "candidates n opts")
    case (Cons j js)
    have "j = i" "\<forall>k\<in>set js. k = i" using same Cons by simp_all
    moreover have "j \<notin> set js" using d Cons by simp
    ultimately have "js = []" by (cases js) auto
    then show ?thesis using Cons \<open>j = i\<close> by simp
  qed (use assms(2) in simp)
qed

text \<open>An argument of a program with distinct names sets its member and no other.\<close>

lemma set_option_own:
  assumes "names_distinct opts" and "i < length opts" and "names_option (fst arg) (opts ! i)" and "picks_one pick"
  shows "set_option pick parse opts arg st =
    map_option (\<lambda>v. st[i := (op_member (opts ! i), v)]) (parse (op_type (opts ! i)) (snd arg))"
proof -
  have "i \<in> set (candidates (fst arg) opts)" using assms(2,3) by (simp add: candidates_def)
  then have c: "candidates (fst arg) opts = [i]" by (rule candidates_unique [OF assms(1)])
  have "pick [i] = i" using assms(4) by (force simp: picks_one_def)
  then show ?thesis by (simp add: set_option_def c Let_def)
qed

lemma set_option_unknown:
  "\<forall>opt\<in>set opts. \<not> names_option (fst arg) opt \<Longrightarrow> set_option pick parse opts arg st = None"
  using candidates_Nil [of "fst arg" opts] by (simp add: set_option_def)

text \<open>The programs whose names are distinct, and those that have a name twice.\<close>

lemma distinct_programs:
  "names_distinct keeper_options" "names_distinct client_options" "names_distinct ping_pong_options"
  "names_distinct hello_options" "names_distinct balancer_options" "names_distinct cluster_demo_options"
  by code_simp+

lemma ambiguous_programs:
  "\<not> names_distinct guard_options" "\<not> names_distinct union_options" "\<not> names_distinct status_options"
  "\<not> names_distinct monitor_options" "\<not> names_distinct triangle_options"
  by code_simp+

text \<open>
  The blank before the letter of three options of the Yanghui programs is a letter too, so \<open>"- "\<close> is
  ambiguous; their long names are distinct.
\<close>

lemma yanghui_blank_letter:
  "distinct (map long_name yanghui_options)" "candidates (Short (CHR '' '')) yanghui_options = [13, 14, 15]"
  by code_simp+

text \<open>
  In the programs with two hosts an argument for it reaches one of them: the other keeps
  \<open>localhost\<close>, whichever option is taken. The programs read their own, the base class that of \<open>CDCFConfig\<close>.
\<close>

lemma two_hosts:
  "candidates (Long ''host'') guard_options = [9, 11]" "candidates (Long ''host'') union_options = [9, 10]"
  "candidates (Long ''host'') status_options = [9, 11]" "candidates (Long ''host'') monitor_options = [9, 11]"
  "candidates (Long ''host'') triangle_options = [9, 11]"
  by code_simp+

lemma one_host_stays:
  assumes "set_option pick parse monitor_options (Long ''host'', text) (initial_settings monitor_options) = Some st"
    and "picks_one pick"
  shows "st ! 9 = (''host_'', OptString ''localhost'') \<or> st ! 11 = (''host'', OptString ''localhost'')"
proof -
  have init: "initial_settings monitor_options ! 9 = (''host_'', OptString ''localhost'')"
    "initial_settings monitor_options ! 11 = (''host'', OptString ''localhost'')"
    by code_simp+
  obtain i v where "i \<in> set (candidates (fst (Long ''host'', text)) monitor_options)"
    "st = (initial_settings monitor_options)[i := (op_member (monitor_options ! i), v)]"
    using set_option_Some [OF assms] by metis
  then have "i = 9 \<or> i = 11" "st ! 9 = initial_settings monitor_options ! 9 \<or> i = 9"
    "st ! 11 = initial_settings monitor_options ! 11 \<or> i = 11"
    by (auto simp: two_hosts(4))
  then show ?thesis using init by auto
qed

text \<open>All defaults have the type of their member.\<close>

lemma programs_typed:
  "defaults_typed keeper_options" "defaults_typed client_options" "defaults_typed yanghui_options"
  "defaults_typed hello_options" "defaults_typed balancer_options" "defaults_typed cluster_demo_options"
  "defaults_typed ping_pong_options" "defaults_typed guard_options" "defaults_typed union_options"
  "defaults_typed status_options" "defaults_typed monitor_options" "defaults_typed triangle_options"
  by code_simp+

end
