(* ===== verification/Cluster_Life.thy ===== *)
theory Cluster_Life
  imports Cluster
begin

text \<open>
  The object behind a cluster view, \<open>ClusterImpl\<close> of \<open>actor_system/src/cluster.cc\<close>: its
  construction, the thread that reads the event stream as a step relation, and its
  destructor, which has to wait for that thread.
\<close>

section \<open>Construction\<close>

datatype reader_pc = ReaderFetch | ReaderSubscribe | ReaderCheck | ReaderRead | ReaderDone

record cluster_impl =
  ci_address :: string
  ci_view :: cluster
  ci_pc :: reader_pc
  ci_stop :: bool

definition keeper_address :: "string \<times> u16 \<Rightarrow> string" where
  "keeper_address a = fst a @ '':'' @ to_string (unat (snd a))"

text \<open>
  Both constructors: whether the channel connected within ten seconds is not looked at. The first
  \<open>Fetch\<close> is made here, the second by the thread.
\<close>

definition ClusterImpl :: "string \<times> u16 \<Rightarrow> pb_member list option \<Rightarrow> cluster_impl" where
  "ClusterImpl a reply =
     \<lparr>ci_address = keeper_address a, ci_view = Fetch reply new_cluster, ci_pc = ReaderFetch, ci_stop = False\<rparr>"

text \<open>\<open>NotifyReady\<close>: a failure of the call is a log line.\<close>

definition NotifyReady :: "(nat \<times> string \<times> string) option \<Rightarrow> string list" where
  "NotifyReady failure =
     (case failure of
        None \<Rightarrow> []
      | Some (code, message, detail) \<Rightarrow>
          [''Send actor system up to self node keeper, error code: '' @ to_string code @
           '', error msg: '' @ message @ '', detail: '' @ detail])"

section \<open>The thread\<close>

text \<open>
  \<open>Routine\<close> with the conditions of its loop as steps of their own: \<open>stop_\<close> is looked at before a read,
  and a read lasts until an event comes or the stream ends. \<open>destroy\<close> is the assignment of
  the destructor.
\<close>

inductive view_step :: "cluster_impl \<Rightarrow> cluster_impl \<Rightarrow> bool" where
  fetch: "ci_pc c = ReaderFetch \<Longrightarrow>
    view_step c (c\<lparr>ci_view := Fetch reply (ci_view c), ci_pc := ReaderSubscribe\<rparr>)"
| subscribe: "ci_pc c = ReaderSubscribe \<Longrightarrow> view_step c (c\<lparr>ci_pc := ReaderCheck\<rparr>)"
| go: "ci_pc c = ReaderCheck \<Longrightarrow> \<not> ci_stop c \<Longrightarrow> view_step c (c\<lparr>ci_pc := ReaderRead\<rparr>)"
| halt: "ci_pc c = ReaderCheck \<Longrightarrow> ci_stop c \<Longrightarrow> view_step c (c\<lparr>ci_pc := ReaderDone\<rparr>)"
| event: "ci_pc c = ReaderRead \<Longrightarrow>
    view_step c (c\<lparr>ci_view := cl_Update changed e (ci_view c), ci_pc := ReaderCheck\<rparr>)"
| ended: "ci_pc c = ReaderRead \<Longrightarrow> view_step c (c\<lparr>ci_pc := ReaderDone\<rparr>)"
| destroy: "view_step c (c\<lparr>ci_stop := True\<rparr>)"

inductive_cases view_stepE: "view_step c c'"

text \<open>The destructor returns when the thread can be joined.\<close>

definition destructor_returns :: "cluster_impl \<Rightarrow> bool" where
  "destructor_returns c \<longleftrightarrow> ci_stop c \<and> ci_pc c = ReaderDone"

section \<open>Laws\<close>

text \<open>The steps refine \<open>read_events\<close>: once subscribed, the view is the one the events read so far make of it.\<close>

lemma view_step_reads:
  assumes "view_step c c'" and "ci_pc c \<notin> {ReaderFetch, ReaderSubscribe}"
  shows "\<exists>es. ci_view c' = read_events (map (Pair False) es) (ci_view c)"
    and "ci_pc c' \<notin> {ReaderFetch, ReaderSubscribe}"
proof -
  have none: "\<exists>es. v = read_events (map (Pair False) es) v" for v by (rule exI [of _ "[]"]) simp
  have one: "\<exists>es. cl_Update ch e v = read_events (map (Pair False) es) v" for ch e v
    by (rule exI [of _ "[(ch, e)]"]) simp
  from assms show "\<exists>es. ci_view c' = read_events (map (Pair False) es) (ci_view c)"
    by (cases rule: view_step.cases) (simp_all add: none one)
  from assms show "ci_pc c' \<notin> {ReaderFetch, ReaderSubscribe}"
    by (cases rule: view_step.cases) simp_all
qed

lemma read_events_append:
  "read_events (map (Pair False) (es @ es')) c = read_events (map (Pair False) es') (read_events (map (Pair False) es) c)"
  by (induction es arbitrary: c) auto

lemma view_run_reads:
  assumes "view_step\<^sup>*\<^sup>* c c'" and "ci_pc c \<notin> {ReaderFetch, ReaderSubscribe}"
  shows "(\<exists>es. ci_view c' = read_events (map (Pair False) es) (ci_view c)) \<and>
    ci_pc c' \<notin> {ReaderFetch, ReaderSubscribe}"
  using assms(1)
proof (induction rule: rtranclp_induct)
  case base
  then show ?case using assms(2) by (intro conjI exI [of _ "[]"]) simp_all
next
  case (step d d')
  then obtain es where es: "ci_view d = read_events (map (Pair False) es) (ci_view c)" by blast
  obtain es' where es': "ci_view d' = read_events (map (Pair False) es') (ci_view d)"
    using view_step_reads(1) [OF step.hyps(2)] step.IH by blast
  then have "ci_view d' = read_events (map (Pair False) (es @ es')) (ci_view c)"
    by (simp only: read_events_append es)
  then show ?case using view_step_reads(2) [OF step.hyps(2)] step.IH by blast
qed

text \<open>After the destructor has asked it to stop the thread applies at most the event it is waiting for.\<close>

lemma stopped_applies_one:
  assumes "view_step\<^sup>*\<^sup>* c c'" and "ci_stop c" and "ci_pc c \<notin> {ReaderFetch, ReaderSubscribe}"
  shows "ci_stop c' \<and> ci_pc c' \<notin> {ReaderFetch, ReaderSubscribe} \<and>
    (ci_view c' = ci_view c \<and> (ci_pc c' = ReaderRead \<longrightarrow> ci_pc c = ReaderRead) \<or>
     ci_pc c = ReaderRead \<and> ci_pc c' \<noteq> ReaderRead \<and> (\<exists>ch e. ci_view c' = cl_Update ch e (ci_view c)))"
  using assms(1)
proof (induction rule: rtranclp_induct)
  case (step d d')
  from step.hyps(2) step.IH show ?case by (cases rule: view_step.cases) auto
qed (use assms(2,3) in simp)

text \<open>
  A thread that waits in a read is not woken by the destructor: until an event comes or the stream
  ends, the only thing that can happen changes nothing, and the destructor does not return.
\<close>

lemma destructor_waits:
  assumes "ci_stop c" and "ci_pc c = ReaderRead" and "view_step c c'"
  shows "c' = c \<or> (\<exists>ch e. c' = c\<lparr>ci_view := cl_Update ch e (ci_view c), ci_pc := ReaderCheck\<rparr>) \<or>
    c' = c\<lparr>ci_pc := ReaderDone\<rparr>"
  using assms(3) by (cases rule: view_step.cases) (use assms(1,2) in auto)

lemma destructor_waiting_blocked: "ci_pc c = ReaderRead \<Longrightarrow> \<not> destructor_returns (c\<lparr>ci_stop := True\<rparr>)"
  by (simp add: destructor_returns_def)

text \<open>One more event, or the end of the stream, and the destructor returns.\<close>

lemma destructor_after_event:
  assumes "ci_stop c" and "ci_pc c = ReaderRead"
  shows "\<exists>c'. view_step\<^sup>*\<^sup>* c c' \<and> destructor_returns c'"
proof -
  have "view_step c (c\<lparr>ci_pc := ReaderDone\<rparr>)" by (rule view_step.ended [OF assms(2)])
  then have "view_step\<^sup>*\<^sup>* c (c\<lparr>ci_pc := ReaderDone\<rparr>)" by (rule r_into_rtranclp)
  then show ?thesis using assms(1) by (intro exI conjI) (assumption, simp add: destructor_returns_def)
qed

text \<open>
  The view is fetched before the stream is opened. A member the keeper announces in between is
  in its set and in none of the events the new subscriber will read.
\<close>

lemma member_missed_before_subscription:
  assumes "gs_channels g = []" and "mkey m \<notin> keys_of (gs_members g)" and "mwf (gs_members g)"
    and "service_Notify [\<lparr>ev_type = kMemberUp, ev_member = m\<rparr>] g = (g', None)"
  shows "mkey m \<in> keys_of (gs_members g')" and "gs_channels (AddChannel it g') = [(it, new_channel)]"
    and "mkey m \<notin> view_keys (Fetch (Some (GetMembersReply g)) c)"
proof -
  have "gs_members g' = mput m () (gs_members g)" "gs_channels g' = []"
    using assms(1,4) by (auto simp: service_Notify_def split: prod.splits)
  then show "mkey m \<in> keys_of (gs_members g')" "gs_channels (AddChannel it g') = [(it, new_channel)]"
    using assms(3) by (simp_all add: keys_of_mput AddChannel_def)
  show "mkey m \<notin> view_keys (Fetch (Some (GetMembersReply g)) c)" using assms(2) by (simp add: view_keys_Fetch)
qed

end
