(* ===== verification/Monitor_System.thy ===== *)
theory Monitor_System
  imports Actor_Helpers
begin

text \<open>
  Monitors at work, \<open>actor_system/src/actor_monitor.cc\<close> and \<open>actor_status_monitor.cc\<close>: the actor with its
  mailbox, the threads that call \<open>SetMonitor\<close> and \<open>StopMonitor\<close>, each of which sends a mail first and
  changes what the actor watches afterwards, and the actors that go down in between.
\<close>

section \<open>The monitor and its mailbox\<close>

datatype monitor_mail =
    MailText string
  | MailActor string string        \<comment> \<open>an address and a description\<close>
  | MailDemonitor string
  | MailDown string string         \<comment> \<open>a source and a reason\<close>

datatype monitor_call = AttachTo string | DetachFrom string

record monitor_system =
  mo_map :: actor_map
  mo_inbox :: "monitor_mail list"
  mo_calls :: "monitor_call list"
  mo_watched :: "string list"
  mo_shown :: "string list"
  mo_told :: "(string \<times> string) list"   \<comment> \<open>calls of the down function\<close>

definition ActorMonitor :: monitor_system where
  "ActorMonitor = \<lparr>mo_map = [], mo_inbox = [], mo_calls = [], mo_watched = [], mo_shown = [], mo_told = []\<rparr>"

text \<open>The behaviour of \<open>make_behavior\<close> and its down handler, on the first mail.\<close>

fun monitor_handle :: "bool \<Rightarrow> monitor_mail \<Rightarrow> monitor_system \<Rightarrow> monitor_system" where
  "monitor_handle has_fun (MailText s) m = m\<lparr>mo_shown := mo_shown m @ [s]\<rparr>"
| "monitor_handle has_fun (MailActor a d) m = m\<lparr>mo_map := monitor_register a d (mo_map m)\<rparr>"
| "monitor_handle has_fun (MailDemonitor a) m = m\<lparr>mo_map := monitor_demonitor a (mo_map m)\<rparr>"
| "monitor_handle has_fun (MailDown a reason) m =
     (case monitor_down has_fun a reason (mo_map m) of
        (DownMsgFun source d, map') \<Rightarrow> m\<lparr>mo_map := map', mo_told := mo_told m @ [(source, d)]\<rparr>
      | (SendSelf s, map') \<Rightarrow> m\<lparr>mo_map := map', mo_inbox := mo_inbox m @ [MailText s]\<rparr>)"

text \<open>\<open>SetMonitor\<close> and \<open>StopMonitor\<close>, each in two halves; both return true whatever happens.\<close>

definition SetMonitor_send :: "string \<Rightarrow> string \<Rightarrow> monitor_system \<Rightarrow> monitor_system" where
  "SetMonitor_send a d m = m\<lparr>mo_inbox := mo_inbox m @ [MailActor a d], mo_calls := mo_calls m @ [AttachTo a]\<rparr>"

definition SetMonitor_attach :: "string \<Rightarrow> monitor_system \<Rightarrow> monitor_system \<times> bool" where
  "SetMonitor_attach a m =
     (m\<lparr>mo_calls := remove1 (AttachTo a) (mo_calls m), mo_watched := mo_watched m @ [a]\<rparr>, True)"

definition StopMonitor_send :: "string \<Rightarrow> monitor_system \<Rightarrow> monitor_system" where
  "StopMonitor_send a m =
     m\<lparr>mo_inbox := mo_inbox m @ [MailDemonitor a], mo_calls := mo_calls m @ [DetachFrom a]\<rparr>"

definition StopMonitor_detach :: "string \<Rightarrow> monitor_system \<Rightarrow> monitor_system \<times> bool" where
  "StopMonitor_detach a m =
     (m\<lparr>mo_calls := remove1 (DetachFrom a) (mo_calls m), mo_watched := filter (\<lambda>b. b \<noteq> a) (mo_watched m)\<rparr>, True)"

text \<open>An actor that is watched goes down: one mail, and it is watched no more.\<close>

definition actor_goes_down :: "string \<Rightarrow> string \<Rightarrow> monitor_system \<Rightarrow> monitor_system" where
  "actor_goes_down a reason m =
     m\<lparr>mo_inbox := mo_inbox m @ [MailDown a reason], mo_watched := filter (\<lambda>b. b \<noteq> a) (mo_watched m)\<rparr>"

datatype monitor_event =
    EvSet string string | EvAttach string | EvStop string | EvDetach string | EvDown string string | EvHandle

inductive monitor_step :: "bool \<Rightarrow> monitor_system \<Rightarrow> monitor_event \<Rightarrow> monitor_system \<Rightarrow> bool" for has_fun where
  set: "monitor_step has_fun m (EvSet a d) (SetMonitor_send a d m)"
| attach: "AttachTo a \<in> set (mo_calls m) \<Longrightarrow> monitor_step has_fun m (EvAttach a) (fst (SetMonitor_attach a m))"
| stop: "monitor_step has_fun m (EvStop a) (StopMonitor_send a m)"
| detach: "DetachFrom a \<in> set (mo_calls m) \<Longrightarrow> monitor_step has_fun m (EvDetach a) (fst (StopMonitor_detach a m))"
| down: "a \<in> set (mo_watched m) \<Longrightarrow> monitor_step has_fun m (EvDown a reason) (actor_goes_down a reason m)"
| handle: "mo_inbox m = x # xs \<Longrightarrow>
    monitor_step has_fun m EvHandle (monitor_handle has_fun x (m\<lparr>mo_inbox := xs\<rparr>))"

inductive_cases monitor_stepE: "monitor_step has_fun m e m'"

inductive monitor_run :: "bool \<Rightarrow> monitor_system \<Rightarrow> monitor_event list \<Rightarrow> monitor_system \<Rightarrow> bool" for has_fun where
  none: "monitor_run has_fun m [] m"
| more: "monitor_run has_fun m es m' \<Longrightarrow> monitor_step has_fun m' e m'' \<Longrightarrow> monitor_run has_fun m (es @ [e]) m''"

section \<open>A monitored actor is described\<close>

text \<open>
  What a run does with the actor \<open>a\<close>: it is set with the one description \<open>d\<close> and not stopped.
\<close>

fun keeps_description :: "string \<Rightarrow> string \<Rightarrow> monitor_event \<Rightarrow> bool" where
  "keeps_description a d (EvSet b e) \<longleftrightarrow> b = a \<longrightarrow> e = d"
| "keeps_description a d (EvStop b) \<longleftrightarrow> b \<noteq> a"
| "keeps_description a d _ \<longleftrightarrow> True"

text \<open>
  Down mails about \<open>a\<close> come after its description, which is known or in a mail before them.
\<close>

fun mails_ok :: "string \<Rightarrow> string \<Rightarrow> bool \<Rightarrow> monitor_mail list \<Rightarrow> bool" where
  "mails_ok a d known [] \<longleftrightarrow> True"
| "mails_ok a d known (MailText s # ms) \<longleftrightarrow> mails_ok a d known ms"
| "mails_ok a d known (MailActor b e # ms) \<longleftrightarrow> (b = a \<longrightarrow> e = d) \<and> mails_ok a d (known \<or> b = a) ms"
| "mails_ok a d known (MailDemonitor b # ms) \<longleftrightarrow> b \<noteq> a \<and> mails_ok a d known ms"
| "mails_ok a d known (MailDown b r # ms) \<longleftrightarrow> (b = a \<longrightarrow> known) \<and> mails_ok a d known ms"

fun announces :: "string \<Rightarrow> monitor_mail list \<Rightarrow> bool" where
  "announces a [] \<longleftrightarrow> False"
| "announces a (MailActor b e # ms) \<longleftrightarrow> b = a \<or> announces a ms"
| "announces a (_ # ms) \<longleftrightarrow> announces a ms"

definition described :: "string \<Rightarrow> string \<Rightarrow> actor_map \<Rightarrow> bool" where
  "described a d m \<longleftrightarrow> map_find id a m = Some d"

definition monitor_inv :: "string \<Rightarrow> string \<Rightarrow> monitor_system \<Rightarrow> bool" where
  "monitor_inv a d m \<longleftrightarrow>
     map_wf id (mo_map m) \<and> mails_ok a d (described a d (mo_map m)) (mo_inbox m) \<and>
     DetachFrom a \<notin> set (mo_calls m) \<and>
     (a \<in> set (mo_watched m) \<or> AttachTo a \<in> set (mo_calls m) \<longrightarrow>
        described a d (mo_map m) \<or> announces a (mo_inbox m)) \<and>
     (\<forall>x\<in>set (mo_told m). fst x = a \<longrightarrow> snd x = d)"

lemma monitor_inv_new: "monitor_inv a d ActorMonitor"
  by (simp add: monitor_inv_def ActorMonitor_def)

lemma mails_ok_append:
  "mails_ok a d known (ms @ ms') \<longleftrightarrow>
     mails_ok a d known ms \<and> mails_ok a d (known \<or> announces a ms) ms'"
  by (induction a d known ms rule: mails_ok.induct) (simp_all add: disj_assoc, blast?)

lemma mails_ok_mono: "mails_ok a d known ms \<Longrightarrow> mails_ok a d True ms"
  by (induction a d known ms rule: mails_ok.induct) auto

lemma find_register: "map_wf id m \<Longrightarrow> map_find id a (monitor_register b e m) = (if b = a then Some e else map_find id a m)"
  by (simp add: monitor_register_def std_map.find_put_same std_map.find_put_other)

lemma find_demonitor: "map_wf id m \<Longrightarrow> b \<noteq> a \<Longrightarrow> map_find id a (monitor_demonitor b m) = map_find id a m"
  by (auto simp: monitor_demonitor_def map_index_def map_wf_put map_wf_erase map_laws split: option.splits)

lemma wf_monitor [simp]:
  "map_wf id m \<Longrightarrow> map_wf id (monitor_register b e m)" "map_wf id m \<Longrightarrow> map_wf id (monitor_demonitor b m)"
  by (simp_all add: monitor_register_def monitor_demonitor_def map_wf_put map_wf_erase map_index_wf)

lemma monitor_down_map:
  assumes "map_wf id m" and "monitor_down has_fun b r m = (x, m')"
  shows "map_wf id m'" and "described a d m \<Longrightarrow> described a d m'"
    and "x = DownMsgFun c e \<Longrightarrow> c = b \<and> (described b d m \<longrightarrow> e = d)"
proof -
  have m': "m' = snd (map_index id [] b m)" using assms(2) by (auto simp: monitor_down_def split: prod.splits)
  then show "map_wf id m'" using assms(1) by (simp add: map_index_wf)
  show "described a d m \<Longrightarrow> described a d m'"
    by (cases "a = b") (use assms(1) m' in \<open>auto simp: described_def map_index_def std_map.find_put_other split: option.splits\<close>)
  show "x = DownMsgFun c e \<Longrightarrow> c = b \<and> (described b d m \<longrightarrow> e = d)"
    using assms(2) by (auto simp: monitor_down_def map_index_def described_def split: option.splits if_splits)
qed

lemma announces_append [simp]: "announces a (ms @ ms') \<longleftrightarrow> announces a ms \<or> announces a ms'"
  by (induction a ms rule: announces.induct) auto

lemma monitor_inv_handle:
  assumes "monitor_inv a d m" and "mo_inbox m = x # xs"
  shows "monitor_inv a d (monitor_handle has_fun x (m\<lparr>mo_inbox := xs\<rparr>))"
proof -
  have wf: "map_wf id (mo_map m)" and ok: "mails_ok a d (described a d (mo_map m)) (x # xs)"
    and calls: "DetachFrom a \<notin> set (mo_calls m)" and told: "\<forall>x\<in>set (mo_told m). fst x = a \<longrightarrow> snd x = d"
    and watched: "a \<in> set (mo_watched m) \<or> AttachTo a \<in> set (mo_calls m) \<longrightarrow>
        described a d (mo_map m) \<or> announces a (x # xs)"
    using assms by (auto simp: monitor_inv_def)
  show ?thesis
  proof (cases x)
    case (MailText s)
    then show ?thesis using wf ok calls told watched by (simp add: monitor_inv_def)
  next
    case (MailActor b e)
    have desc: "described a d (monitor_register b e (mo_map m)) \<longleftrightarrow> described a d (mo_map m) \<or> b = a"
      using ok MailActor by (auto simp: described_def find_register [OF wf])
    show ?thesis using wf ok calls told watched MailActor by (simp add: monitor_inv_def desc)
  next
    case (MailDemonitor b)
    have "b \<noteq> a" using ok MailDemonitor by simp
    then have "described a d (monitor_demonitor b (mo_map m)) \<longleftrightarrow> described a d (mo_map m)"
      by (simp add: described_def find_demonitor [OF wf])
    then show ?thesis using wf ok calls told watched MailDemonitor by (simp add: monitor_inv_def)
  next
    case (MailDown b r)
    obtain y m' where y: "monitor_down has_fun b r (mo_map m) = (y, m')" by fastforce
    note keep = monitor_down_map [OF wf y]
    have "mails_ok a d (described a d (mo_map m)) xs" using ok MailDown by simp
    then have mails: "mails_ok a d (described a d m') xs"
      using keep(2) [of a d] mails_ok_mono
      by (cases "described a d (mo_map m)"; cases "described a d m'") simp_all
    show ?thesis
    proof (cases y)
      case (DownMsgFun c e)
      have "c = a \<longrightarrow> e = d" using keep(3) [OF DownMsgFun, of d] ok MailDown by auto
      then show ?thesis using keep(1,2) mails calls told watched MailDown y DownMsgFun
        by (auto simp: monitor_inv_def)
    next
      case (SendSelf s)
      then show ?thesis using keep(1,2) mails calls told watched MailDown y
        by (auto simp: monitor_inv_def mails_ok_append)
    qed
  qed
qed

lemma monitor_inv_step:
  "monitor_step has_fun m e m' \<Longrightarrow> keeps_description a d e \<Longrightarrow> monitor_inv a d m \<Longrightarrow> monitor_inv a d m'"
proof (induction rule: monitor_step.induct)
  case (handle m x xs)
  then show ?case using monitor_inv_handle by blast
qed (auto simp: monitor_inv_def SetMonitor_send_def SetMonitor_attach_def StopMonitor_send_def StopMonitor_detach_def
    actor_goes_down_def mails_ok_append dest: notin_set_remove1)

lemma monitor_inv_run:
  "monitor_run has_fun m es m' \<Longrightarrow> \<forall>e\<in>set es. keeps_description a d e \<Longrightarrow> monitor_inv a d m \<Longrightarrow> monitor_inv a d m'"
  by (induction rule: monitor_run.induct) (auto intro: monitor_inv_step)

text \<open>
  However the two halves of the calls, the mails and the ends of the actors interleave: an actor
  that is set with one description and not stopped is reported down with it.
\<close>

theorem down_reports_description:
  assumes "monitor_run has_fun ActorMonitor es m" and "\<forall>e\<in>set es. keeps_description a d e"
    and "(a, d') \<in> set (mo_told m)"
  shows "d' = d"
  using monitor_inv_run [OF assms(1,2) monitor_inv_new] assms(3) by (auto simp: monitor_inv_def)

text \<open>
  \<open>StopMonitor\<close> sends its mail before it stops watching: an actor that goes down in between is
  reported without its description, and an empty entry stays in the map.
\<close>

lemma stop_races_down:
  "\<exists>m. monitor_run True ActorMonitor
      [EvSet a d, EvAttach a, EvHandle, EvStop a, EvDown a r, EvDetach a, EvHandle, EvHandle] m
    \<and> mo_told m = [(a, [])] \<and> mo_map m = [(a, [])] \<and> mo_watched m = []"
proof -
  let ?step = "monitor_step True"
  let ?m1 = "ActorMonitor\<lparr>mo_inbox := [MailActor a d], mo_calls := [AttachTo a]\<rparr>"
  let ?m2 = "ActorMonitor\<lparr>mo_inbox := [MailActor a d], mo_watched := [a]\<rparr>"
  let ?m3 = "ActorMonitor\<lparr>mo_map := [(a, d)], mo_watched := [a]\<rparr>"
  let ?m4 = "?m3\<lparr>mo_inbox := [MailDemonitor a], mo_calls := [DetachFrom a]\<rparr>"
  let ?m5 = "?m3\<lparr>mo_inbox := [MailDemonitor a, MailDown a r], mo_calls := [DetachFrom a], mo_watched := []\<rparr>"
  let ?m6 = "?m3\<lparr>mo_inbox := [MailDemonitor a, MailDown a r], mo_watched := []\<rparr>"
  let ?m7 = "ActorMonitor\<lparr>mo_inbox := [MailDown a r]\<rparr>"
  let ?m8 = "ActorMonitor\<lparr>mo_map := [(a, [])], mo_told := [(a, [])]\<rparr>"
  have s1: "?step ActorMonitor (EvSet a d) ?m1"
    using monitor_step.set [of True ActorMonitor a d] by (simp add: SetMonitor_send_def ActorMonitor_def)
  have s2: "?step ?m1 (EvAttach a) ?m2"
    using monitor_step.attach [of a ?m1 True] by (simp add: SetMonitor_attach_def ActorMonitor_def)
  have s3: "?step ?m2 EvHandle ?m3"
    using monitor_step.handle [of ?m2 "MailActor a d" "[]" True] by (simp add: ActorMonitor_def monitor_register_def)
  have s4: "?step ?m3 (EvStop a) ?m4"
    using monitor_step.stop [of True ?m3 a] by (simp add: StopMonitor_send_def ActorMonitor_def)
  have s5: "?step ?m4 (EvDown a r) ?m5"
    using monitor_step.down [of a ?m4 True r] by (simp add: actor_goes_down_def ActorMonitor_def)
  have s6: "?step ?m5 (EvDetach a) ?m6"
    using monitor_step.detach [of a ?m5 True] by (simp add: StopMonitor_detach_def ActorMonitor_def)
  have s7: "?step ?m6 EvHandle ?m7"
    using monitor_step.handle [of ?m6 "MailDemonitor a" "[MailDown a r]" True]
    by (simp add: ActorMonitor_def monitor_demonitor_def map_index_def map_find_def)
  have s8: "?step ?m7 EvHandle ?m8"
    using monitor_step.handle [of ?m7 "MailDown a r" "[]" True]
    by (simp add: ActorMonitor_def monitor_down_def map_index_def map_find_def)
  note run = monitor_run.more [OF monitor_run.more [OF monitor_run.more [OF monitor_run.more [OF monitor_run.more
    [OF monitor_run.more [OF monitor_run.more [OF monitor_run.more [OF monitor_run.none s1] s2] s3] s4] s5] s6] s7] s8]
  show ?thesis by (rule exI [of _ ?m8], use run in \<open>simp add: ActorMonitor_def\<close>)
qed

text \<open>Without a down function the monitor sends itself the text it prints.\<close>

lemma default_down_shown:
  "mo_shown (monitor_handle False (MailText (DownMsgHandle a r d))
     (monitor_handle False (MailDown a r) (m\<lparr>mo_inbox := []\<rparr>))) = mo_shown m @ [DownMsgHandle a r d]"
  by (simp add: monitor_down_def split: prod.splits)

section \<open>The status monitor\<close>

text \<open>
  \<open>ActorStatusMonitor\<close>: its monitor has the down function that erases the actor. \<open>number\<close> takes a
  printed address to the number of the actor.
\<close>

definition status_after :: "(string \<Rightarrow> u64) \<Rightarrow> monitor_system \<Rightarrow> actor_status \<Rightarrow> actor_status" where
  "status_after number m st = fold (\<lambda>(a, d) st. status_actor_down (number a) st) (mo_told m) st"

definition RegisterActor_monitored ::
  "string \<Rightarrow> u64 \<Rightarrow> string \<Rightarrow> string \<Rightarrow> actor_status \<Rightarrow> monitor_system \<Rightarrow> actor_status \<times> monitor_system" where
  "RegisterActor_monitored a i name d st m =
     (RegisterActor i name d st, fst (SetMonitor_attach a (SetMonitor_send a d m)))"

text \<open>The destructor stops the monitor, which would live on otherwise.\<close>

definition destroy_status_monitor :: "string \<Rightarrow> (string \<times> string) list" where
  "destroy_status_monitor monitor = [(monitor, ''user_shutdown'')]"

lemma status_wf_after: "status_wf st \<Longrightarrow> status_wf (status_after number m st)"
proof -
  have "status_wf st \<Longrightarrow> status_wf (fold (\<lambda>(a, d) st. status_actor_down (number a) st) xs st)" for xs st
    by (induction xs arbitrary: st) (auto simp: status_wf_down)
  then show "status_wf st \<Longrightarrow> status_wf (status_after number m st)" by (simp add: status_after_def)
qed

text \<open>An actor reported down is not among the actors any more.\<close>

lemma status_after_down:
  assumes "status_wf st" and "(a, d) \<in> set (mo_told m)"
  shows "map_find id (number a) (status_after number m st) = None"
proof -
  have gone: "map_find id i st = None \<Longrightarrow> status_wf st \<Longrightarrow>
      map_find id i (fold (\<lambda>(a, d) st. status_actor_down (number a) st) xs st) = None" for i xs st
  proof (induction xs arbitrary: st)
    case (Cons x xs)
    have "map_find id i (status_actor_down (number (fst x)) st) = None"
      using Cons.prems by (auto simp: status_actor_down_def status_wf_def map_laws id_def)
    from Cons.IH [OF this status_wf_down [OF Cons.prems(2)]] show ?case by (cases x) simp
  qed simp
  have "(a, d) \<in> set xs \<Longrightarrow> status_wf st \<Longrightarrow>
      map_find id (number a) (fold (\<lambda>(a, d) st. status_actor_down (number a) st) xs st) = None" for xs st
  proof (induction xs arbitrary: st)
    case (Cons x xs)
    show ?case
    proof (cases "x = (a, d)")
      case True
      have "map_find id (number a) (status_actor_down (number a) st) = None"
        using Cons.prems(2) by (simp add: status_actor_down_def status_wf_def std_map.find_erase_same)
      from gone [OF this status_wf_down [OF Cons.prems(2)]] show ?thesis by (simp only: True fold.simps comp_apply split_conv)
    next
      case False
      then show ?thesis using Cons.IH [of "status_actor_down (number (fst x)) st"] Cons.prems status_wf_down
        by (simp add: case_prod_beta)
    qed
  qed simp
  then show ?thesis using assms by (simp add: status_after_def)
qed

end
