(* ===== verification/Demo_Consoles.thy ===== *)
theory Demo_Consoles
  imports Helper_Demos Demo_Sessions Yanghui_Cluster Cluster_Life Monitor_System
begin

text \<open>
  What is left of the demos: the observers from construction to destruction, the lines printed about
  members and log lines, the main functions of the helper demos, the monitored worker
  (\<open>actor_monitor\<close>) and the console of \<open>openssl\<close>. Connections, remote spawns and the console are arguments.
\<close>

section \<open>Observers\<close>

text \<open>
  The constructors of the routers of \<open>hello_world\<close> and \<open>cluster\<close> fetch the members and then observe; that of
  \<open>load_balancer\<close> observes first. Their destructors stop observing.
\<close>

definition hello_construct :: "string \<Rightarrow> nat \<Rightarrow> cluster \<Rightarrow> hello_router \<times> cluster" where
  "hello_construct host this c =
     (hello_FetchMembers host (cl_members c) \<lparr>hr_members = [], hr_requests = 0\<rparr>, AddObserver this c)"

definition report_construct :: "nat \<Rightarrow> cluster \<Rightarrow> report_router \<times> cluster" where
  "report_construct this c =
     (report_FetchMembers \<lparr>rr_members = [], rr_cluster = cl_members c\<rparr>, AddObserver this c)"

definition hello_destroy :: "nat \<Rightarrow> cluster \<Rightarrow> cluster" where
  "hello_destroy this c = RemoveObserver this c"

definition report_destroy :: "nat \<Rightarrow> cluster \<Rightarrow> cluster" where
  "report_destroy this c = RemoveObserver this c"

text \<open>
  \<open>events\<close> are what the observer is told between \<open>AddObserver\<close> and \<open>FetchMembers\<close>, which
  sees the members after them.
\<close>

definition balancer_construct ::
  "nat \<Rightarrow> (cl_member \<Rightarrow> actor option list) \<Rightarrow> cl_member list \<Rightarrow> cl_member list \<Rightarrow> worker_router \<Rightarrow> cluster
     \<Rightarrow> worker_router option \<times> cluster" where
  "balancer_construct this spawns events fetched r c =
     (Option.bind (wr_add_all spawns events r) (wr_add_all spawns (wr_FetchMembers fetched)), AddObserver this c)"

definition balancer_destroy :: "nat \<Rightarrow> cluster \<Rightarrow> cluster" where
  "balancer_destroy this c = RemoveObserver this c"

text \<open>\<open>CountCluster\<close>: the address of the node keeper counts only for the first instance.\<close>

definition CountCluster_construct ::
  "string \<Rightarrow> u16 \<Rightarrow> nat \<Rightarrow> (string \<times> u16) option \<Rightarrow> cluster \<Rightarrow> (string \<times> u16) option \<times> cluster" where
  "CountCluster_construct node_keeper_host node_keeper_port this inst c =
     (GetInstance (if node_keeper_host = [] then default_address else (node_keeper_host, node_keeper_port)) inst,
      AddObserver this c)"

definition CountCluster_destroy :: "nat \<Rightarrow> cluster \<Rightarrow> cluster" where
  "CountCluster_destroy this c = RemoveObserver this c"

text \<open>
  \<open>RouterPoolCountCluster\<close>: its base observes before the object has its own functions and its pool.
  An event in that time calls a pure virtual function.
\<close>

datatype construction = BaseOnly | Complete

definition virtual_AddWorkerNode :: "construction \<Rightarrow> string \<Rightarrow> cpp_exn + string" where
  "virtual_AddWorkerNode st host = (case st of BaseOnly \<Rightarrow> Inl UndefinedBehaviour | Complete \<Rightarrow> Inr host)"

text \<open>\<open>CountCluster::Update\<close> told to a cluster under construction, and to one that is complete.\<close>

definition update_during :: "construction \<Rightarrow> string \<Rightarrow> cl_member \<Rightarrow> cpp_exn + string list" where
  "update_during st host m =
     (case count_cluster_Update host m of
        [] \<Rightarrow> Inr []
      | h # hs \<Rightarrow> map_sum id (\<lambda>x. [x]) (virtual_AddWorkerNode st h))"

text \<open>Construction and destruction leave the observers of the others as they were.\<close>

lemma RemoveObserver_AddObserver:
  assumes "i \<notin> set (cl_observers c)"
  shows "RemoveObserver i (AddObserver i c) = c"
proof -
  have "filter (\<lambda>j. j \<noteq> i) (cl_observers c) = cl_observers c" by (rule filter_True) (use assms in auto)
  then show ?thesis by (simp add: RemoveObserver_def AddObserver_def)
qed

lemma observers_return:
  assumes "this \<notin> set (cl_observers c)"
  shows "hello_destroy this (snd (hello_construct host this c)) = c"
    and "report_destroy this (snd (report_construct this c)) = c"
    and "balancer_destroy this (snd (balancer_construct this spawns es ms r c)) = c"
    and "CountCluster_destroy this (snd (CountCluster_construct h p this inst c)) = c"
  by (simp_all add: hello_destroy_def hello_construct_def report_destroy_def report_construct_def
      balancer_destroy_def balancer_construct_def CountCluster_destroy_def CountCluster_construct_def
      RemoveObserver_AddObserver [OF assms])

lemma CountCluster_second_address:
  "fst (CountCluster_construct h p this (Some a) c) = Some a"
  by (simp add: CountCluster_construct_def GetInstance_def)

lemma update_during_construction:
  assumes "cm_hostname m \<noteq> host" and "cm_host m \<noteq> host" and "cm_status m = StActorSystemUp"
    and "cm_role m = k_role_worker"
  shows "update_during BaseOnly host m = Inl UndefinedBehaviour" and "update_during Complete host m = Inr [cm_host m]"
  using assms by (simp_all add: update_during_def count_cluster_Update_def virtual_AddWorkerNode_def)

section \<open>Lines about members\<close>

definition member_line :: "string \<Rightarrow> nat \<Rightarrow> cl_member \<Rightarrow> string" where
  "member_line host_label i m =
     ''Member '' @ to_string (i + 1) @ '': name: '' @ cm_name m @ '', hostname: '' @ cm_hostname m @
     '', '' @ host_label @ '': '' @ cm_host m @ '', port:'' @ to_string (unat (cm_port m))"

definition PrintClusterMembers :: "cl_member list \<Rightarrow> string list" where
  "PrintClusterMembers ms = ''Current Cluster Members:'' # map (\<lambda>(i, m). member_line ''host'' i m) (enumerate 0 ms)"

definition wp_PrintClusterMembers :: "cl_member list \<Rightarrow> string list" where
  "wp_PrintClusterMembers ms = ''Current Cluster Members:'' # map (\<lambda>(i, m). member_line ''ip'' i m) (enumerate 0 ms)"

lemma PrintClusterMembers_length: "length (PrintClusterMembers ms) = Suc (length ms)"
  by (simp add: PrintClusterMembers_def)

section \<open>Log lines\<close>

text \<open>The formatting of spdlog: each pair of braces takes the next argument, arguments left over are dropped.\<close>

fun fmt_log :: "string \<Rightarrow> string list \<Rightarrow> string" where
  "fmt_log [] args = []"
| "fmt_log (c # cs) args =
     (if c = CHR ''{'' \<and> cs \<noteq> [] \<and> hd cs = CHR ''}'' then
        (case args of [] \<Rightarrow> c # fmt_log cs args | a # as \<Rightarrow> a @ fmt_log (tl cs) as)
      else c # fmt_log cs args)"

text \<open>\<open>downMsgHandle\<close> of the Yanghui programs: two of its lines have no braces.\<close>

definition yanghui_downMsgHandle :: "string \<Rightarrow> string \<Rightarrow> string \<Rightarrow> string list" where
  "yanghui_downMsgHandle source description reason =
     [fmt_log ''=============actor monitor call==============='' [],
      fmt_log ''down actor address:{}'' [source],
      fmt_log ''down actor description:'' [description],
      fmt_log ''down reason:'' [reason]]"

definition yanghui_dealSendErr :: "string \<Rightarrow> string list" where
  "yanghui_dealSendErr err = [fmt_log ''call actor get error: {}'' [err]]"

definition pong_log :: "int \<Rightarrow> string \<Rightarrow> string" where
  "pong_log ping_value printed = fmt_log ''Get ping_value:'' [printed]"

lemma downMsgHandle_loses_description:
  "yanghui_downMsgHandle source description reason = yanghui_downMsgHandle source description' reason'"
  by (simp add: yanghui_downMsgHandle_def)

lemma downMsgHandle_shows_source: "yanghui_downMsgHandle source d r ! 1 = ''down actor address:'' @ source"
  by (simp add: yanghui_downMsgHandle_def)

text \<open>The printers of results: what they send on and what they show.\<close>

definition result_print_actor :: "int \<Rightarrow> (nat \<times> int) list \<times> int" where
  "result_print_actor result = ([], result)"

definition load_balance_result_print_actor :: "nat \<Rightarrow> int \<Rightarrow> (nat \<times> int) list \<times> int" where
  "load_balance_result_print_actor destination result = ([(destination, result)], result)"

text \<open>The job actors spawned over one pool; the dispatcher has the normal one as its first target.\<close>

datatype spawned_job = SpawnPriorityJob bool nat | SpawnDispatcher nat nat nat

definition InitHighPriorityYanghuiActors :: "nat \<Rightarrow> spawned_job list \<times> nat" where
  "InitHighPriorityYanghuiActors next_actor =
     ([SpawnPriorityJob False next_actor, SpawnPriorityJob True (next_actor + 1),
       SpawnDispatcher (next_actor + 2) next_actor (next_actor + 1)], next_actor + 2)"

section \<open>The sums of \<open>additional_allownance\<close>\<close>

datatype sum_mail = SumTask int | SumExit nat    \<comment> \<open>the reason of an exit; 0 is no error\<close>

datatype sum_shown = SumReply int | TaskFailed nat

text \<open>
  The loop of \<open>Sum\<close>: a task is passed to its buddy, whose error leaves a 0 to answer with. An exit with a
  reason ends the loop and becomes the state of failure; \<open>replies\<close> are the outcomes of the buddy.
\<close>

fun Sum_loop :: "sum_mail list \<Rightarrow> outcome list \<Rightarrow> sum_shown list \<times> nat option" where
  "Sum_loop [] rs = ([], None)"
| "Sum_loop (SumTask what # ms) [] = ([], None)"
| "Sum_loop (SumTask what # ms) (Answer # rs) =
     (case Additon what of
        Inr s \<Rightarrow> (case Sum_loop ms rs of (out, x) \<Rightarrow> (SumReply s # out, x))
      | Inl _ \<Rightarrow> ([], None))"
| "Sum_loop (SumTask what # ms) (BusinessError e # rs) =
     (case Sum_loop ms rs of (out, x) \<Rightarrow> (TaskFailed e # SumReply 0 # out, x))"
| "Sum_loop (SumTask what # ms) (SystemError e # rs) =
     (case Sum_loop ms rs of (out, x) \<Rightarrow> (TaskFailed e # SumReply 0 # out, x))"
| "Sum_loop (SumExit reason # ms) rs = (if reason \<noteq> 0 then ([], Some reason) else Sum_loop ms rs)"

text \<open>The four requests of \<open>main\<close> and the exit it sends; an error of a request leaves a 0 to print.\<close>

definition sum_lines :: "int option list \<Rightarrow> string list" where
  "sum_lines answers = map (\<lambda>(i, a). ''sigma(1-'' @ to_string i @ '')='' @
     to_string (nat (case a of None \<Rightarrow> 0 | Some s \<Rightarrow> s))) (enumerate 1 answers)"

definition allowance_mails :: "nat \<Rightarrow> sum_mail list" where
  "allowance_mails user_shutdown = map SumTask [1, 2, 3, 4] @ [SumExit user_shutdown]"

lemma sums_to_four: "Additon 1 = Inr 1" "Additon 2 = Inr 3" "Additon 3 = Inr 6" "Additon 4 = Inr 10"
  by code_simp+

lemma allowance_run:
  "user_shutdown \<noteq> 0 \<Longrightarrow> Sum_loop (allowance_mails user_shutdown) [Answer, Answer, Answer, Answer] =
    ([SumReply 1, SumReply 3, SumReply 6, SumReply 10], Some user_shutdown)"
  by (simp add: allowance_mails_def sums_to_four)

text \<open>Every task before the exit is answered, with its sum or with 0.\<close>

lemma Sum_loop_answers:
  assumes "length rs = length ws" and "\<forall>w\<in>set ws. \<exists>s. Additon w = Inr s"
  shows "length (filter (\<lambda>x. \<exists>s. x = SumReply s) (fst (Sum_loop (map SumTask ws @ [SumExit 1]) rs))) = length ws
    \<and> snd (Sum_loop (map SumTask ws @ [SumExit 1]) rs) = Some 1"
  using assms
proof (induction ws arbitrary: rs)
  case (Cons w ws)
  then obtain r rs' where rs: "rs = r # rs'" by (cases rs) auto
  obtain s where s: "Additon w = Inr s" using Cons.prems(2) by auto
  have IH: "length (filter (\<lambda>x. \<exists>s. x = SumReply s) (fst (Sum_loop (map SumTask ws @ [SumExit 1]) rs'))) = length ws
    \<and> snd (Sum_loop (map SumTask ws @ [SumExit 1]) rs') = Some 1"
    by (rule Cons.IH) (use Cons.prems rs in simp_all)
  show ?case
    by (cases r; cases "Sum_loop (map SumTask ws @ [SumExit 1]) rs'") (use IH rs s in simp_all)
qed simp

section \<open>The main functions of the guard and the union\<close>

text \<open>\<open>Worker\<close>: the port it opens, or None when it cannot.\<close>

definition guard_Worker :: "u16 \<Rightarrow> u16 option \<Rightarrow> string" where
  "guard_Worker port opened =
     (case opened of None \<Rightarrow> ''*** cannot open port: '' | Some p \<Rightarrow> ''*** running on port: '' @ to_string (unat p))"

datatype program_run = RunsWorker string | RunsLeader "demo_shown list"

definition guard_caf_main :: "bool \<Rightarrow> string \<Rightarrow> demo_shown list \<Rightarrow> program_run" where
  "guard_caf_main worker_mode worker leader = (if worker_mode then RunsLeader leader else RunsWorker worker)"

definition union_caf_main :: "nat \<Rightarrow> (u16 \<Rightarrow> string) \<Rightarrow> demo_shown list \<Rightarrow> cpp_exn + program_run" where
  "union_caf_main worker_number worker leader =
     (if worker_number \<noteq> 0 then map_sum id (RunsWorker \<circ> worker) (union_port worker_number)
      else Inr (RunsLeader leader))"

text \<open>The union's leader needs a worker number of 0, its workers 1 to 3.\<close>

lemma union_caf_main_worker:
  "1 \<le> n \<Longrightarrow> n \<le> 3 \<Longrightarrow> union_caf_main n worker leader = Inr (RunsWorker (worker (union_ports ! (n - 1))))"
  by (auto simp: union_caf_main_def union_port_def vec_at_def union_ports_def)

text \<open>The option called worker mode starts the leader.\<close>

lemma guard_worker_mode: "guard_caf_main True worker leader = RunsLeader leader"
  by (simp add: guard_caf_main_def)

section \<open>The monitored worker\<close>

datatype worker_mail =
    AddInts int int
  | SubInts int int
  | UnknownText string
  | ErrorMail string
  | ExitMail string

text \<open>
  What the worker does with a mail: an answer, or its end with a reason. Two numbers without an atom make it
  quit, and so does a mail it has no handler for.
\<close>

datatype worker_reaction = Answers int | Quits string

fun monitored_worker :: "worker_mail \<Rightarrow> cpp_exn + worker_reaction" where
  "monitored_worker (AddInts a b) = Inr (Quits ''normal'')"
| "monitored_worker (SubInts a b) = map_sum id Answers (sub_int a b)"
| "monitored_worker (UnknownText s) = Inr (Quits ''unexpected_message'')"
| "monitored_worker (ErrorMail e) = Inr (Quits e)"
| "monitored_worker (ExitMail reason) = Inr (Quits reason)"

text \<open>The mails of \<open>caf_main\<close> for a test type, with the exit sent at the end.\<close>

definition worker_mails :: "string \<Rightarrow> worker_mail list" where
  "worker_mails test_type =
     (if test_type = ''down'' then [AddInts 12 13] else []) @
     (if test_type = ''exit'' then [ExitMail ''kill''] else []) @
     (if test_type = ''error'' then [ErrorMail ''out_of_workers''] else []) @
     (if test_type = ''default'' then [UnknownText ''unknown message''] else []) @
     [ExitMail ''user_shutdown'']"

fun end_reason :: "worker_mail list \<Rightarrow> string option" where
  "end_reason [] = None"
| "end_reason (m # ms) = (case monitored_worker m of Inr (Quits r) \<Rightarrow> Some r | _ \<Rightarrow> end_reason ms)"

text \<open>The lines of the supervisor's down function.\<close>

definition supervisor_lines :: "string \<Rightarrow> string \<Rightarrow> string \<Rightarrow> string list" where
  "supervisor_lines source description reason =
     [[], ''down actor address:'' @ source, ''down actor description:'' @ description, ''down reason:'' @ reason, [], []]"

lemma end_reasons:
  "end_reason (worker_mails ''down'') = Some ''normal''"
  "end_reason (worker_mails ''exit'') = Some ''kill''"
  "end_reason (worker_mails ''error'') = Some ''out_of_workers''"
  "end_reason (worker_mails ''default'') = Some ''unexpected_message''"
  by (simp_all add: worker_mails_def)

lemma end_reason_other:
  "t \<notin> {''down'', ''exit'', ''error'', ''default''} \<Longrightarrow> end_reason (worker_mails t) = Some ''user_shutdown''"
  by (simp add: worker_mails_def)

text \<open>
  The main functions. The supervisor is published or the program ends; the worker takes the remote handle
  out of the result without looking whether there is one, and sends its mails after it has set the monitor.
\<close>

definition supervisor_main :: "u16 option \<Rightarrow> string list" where
  "supervisor_main published =
     (case published of
        None \<Rightarrow> [''*** publish failed: '']
      | Some p \<Rightarrow> [''supervisor started at port:'' @ to_string (unat p), ''*** press [enter] to quit'', ''... cya''])"

definition worker_description :: string where "worker_description = ''worker actor for testing''"

definition worker_main :: "bool \<Rightarrow> string \<Rightarrow> cpp_exn + (string \<times> worker_mail list)" where
  "worker_main connected test_type =
     (if connected then Inr (worker_description, worker_mails test_type) else Inl UndefinedBehaviour)"

text \<open>Without a supervisor the program is undefined; with one its worker always ends, and the mail that ends it is the first.\<close>

lemma worker_main_alone: "worker_main False test_type = Inl UndefinedBehaviour"
  by (simp add: worker_main_def)

lemma worker_main_ends:
  assumes "worker_main True t = Inr (d, ms)"
  shows "d = worker_description" and "end_reason ms = end_reason [hd ms]" and "end_reason ms \<noteq> None"
  using assms by (auto simp: worker_main_def worker_mails_def)

section \<open>Console and servers\<close>

text \<open>
  \<open>openssl/client.cpp\<close>: both connections or the exit code 1; then a line \<open>n\<close> or \<open>s\<close> sends a
  greeting over the one or the other. The loop never ends, and a closed console changes nothing in it.
\<close>

datatype ssl_send = SendPlain | SendSsl

definition ssl_command :: "string \<Rightarrow> ssl_send list" where
  "ssl_command line = (if line = ''n'' then [SendPlain] else if line = ''s'' then [SendSsl] else [])"

definition openssl_client :: "bool \<Rightarrow> bool \<Rightarrow> string list \<Rightarrow> nat + ssl_send list" where
  "openssl_client connected ssl_connected lines =
     (if \<not> connected then Inl 1 else if \<not> ssl_connected then Inl 1 else Inr (concat (map ssl_command lines)))"

text \<open>\<open>openssl/server.cpp\<close>: the ports it publishes, or the exit code 1.\<close>

definition openssl_server :: "(u16 \<Rightarrow> bool) \<Rightarrow> nat + u16 list" where
  "openssl_server publish =
     (if \<not> publish 50602 then Inl 1 else if \<not> publish 50603 then Inl 1 else Inr [50602, 50603])"

text \<open>What the server prints of a greeting.\<close>

definition pong_line :: "ssl_send \<Rightarrow> string \<Rightarrow> string" where
  "pong_line over str = (case over of SendPlain \<Rightarrow> ''receive msg: '' @ str | SendSsl \<Rightarrow> ''ssl receive msg: '' @ str)"

text \<open>\<open>yanghui_server_example.cc\<close>: the groups are published on the port it is given.\<close>

definition triangle_server :: "u16 option \<Rightarrow> string" where
  "triangle_server published =
     (case published of
        None \<Rightarrow> ''*** publishing local groups failed: ''
      | Some p \<Rightarrow> ''*** listening at port '' @ to_string (unat p))"

lemma openssl_client_sends:
  "openssl_client True True lines = Inr sends \<Longrightarrow> length sends = length (filter (\<lambda>l. l \<in> {''n'', ''s''}) lines)"
proof -
  have "length (concat (map ssl_command lines)) = length (filter (\<lambda>l. l \<in> {''n'', ''s''}) lines)"
    by (induction lines) (simp_all add: ssl_command_def)
  then show "openssl_client True True lines = Inr sends \<Longrightarrow> ?thesis" by (auto simp: openssl_client_def)
qed

end
