(* ===== verification/Spec2Isabelle.thy ===== *)
theory Spec2Isabelle
  imports Membership_Properties Cluster_Properties Keeper_Properties Actor_Properties Yanghui_Properties Worker_Join Yanghui_Root Demo_Sessions Triangle_Demo Helper_Demos
    Config_Options Cluster_Life Monitor_System Demo_Consoles
begin

text \<open>
  A model of CDCF, an actor framework for clusters, in two layers that meet in one file
  of protobuf messages, and of the programs that show it:

  \<^item> the \<^emph>\<open>node keeper\<close> (\<open>src/node_keeper/src\<close>), a process per host that keeps the
    members of the cluster by gossip, pings them, guards the application with a daemon and
    tells it what changed over a local gRPC service;
  \<^item> the \<^emph>\<open>actor system\<close> (\<open>src/actor_system\<close>), the library the application links: its view
    of the cluster, a load balancer and a router pool for CAF actors, and helpers that
    restart, retry and watch actors;
  \<^item> the \<^emph>\<open>demos\<close> (\<open>src/demos\<close>), above all the Yanghui cluster, which finds the cheapest
    path through a triangle of numbers in four ways over the actor system.

  \<^bold>\<open>How the code is modelled.\<close> A class is a record with its fields, a member function is
  one definition of the same name over it. What a function asks of the outside is a value
  it appends (the \<open>effects\<close> of \<open>Membership\<close>, \<open>ro_effects\<close> of \<open>Router\<close>, the action
  lists of the others); what the outside answers is an argument. A callback that is stored
  is a value of a datatype with its body as a definition (\<open>pull_cont\<close> and \<open>did_pull\<close>,
  \<open>job\<close> and \<open>run_job\<close>). An exception or undefined behaviour is a value of \<open>cpp_exn\<close>; a
  function that may end with one and has changed its object by then is an \<open>act\<close>, a state
  transformer that returns both. Integers are words of their width, \<open>std::map\<close> and
  \<open>std::set\<close> are sorted association lists (\<open>Std_Map\<close>), strings are lists of characters. A
  random draw is an argument that the theorems quantify over.

  \<^bold>\<open>Theories and files.\<close>

  \<^item> \<open>CDCF_Prelude\<close>, \<open>Std_Map\<close>, \<open>Std_String\<close>, \<open>Fifo_Spec\<close>: what the rest shares. The
    contract of \<open>std::map\<close> is a locale over an abstraction to maps, that of a FIFO queue
    one over the list it holds; \<open>functor_fifo\<close> and the channel instantiate the latter.
  \<^item> \<open>Functor_Queue\<close> (\<open>queue.cc\<close>), \<open>Channel\<close> (\<open>channel.h\<close>): the timed queue with the steps of
    its thread, and the channel between the keeper's main loop and a subscriber.
  \<^item> \<open>Gossip_Types\<close>, \<open>Message_Frame\<close>, \<open>Message_Frame_Laws\<close>, \<open>Pull_Session\<close>, \<open>Transport\<close>
    (\<open>gossip.cc\<close>, \<open>gossip/message.h\<close>, \<open>connection.h\<close>, \<open>pull_session.h\<close>): the framing of TCP
    messages byte by byte and the transport around it. Sockets are the record \<open>net\<close> and
    lists of the chunks that reads return. \<open>Transport_Life\<close> is the transport as an object: opening its
    ports, the operations its io thread has under way (\<open>io_step\<close>), and its destructor.
  \<^item> \<open>Member\<close>, \<open>Membership_Message\<close>, \<open>Message_Laws\<close> (\<open>membership.h\<close>,
    \<open>membership_message.cc\<close>): members, the configuration and the four messages. Protobuf is
    the record \<open>wire\<close> of serialisers and parsers; a theorem that needs a message to be
    read back assumes it for that message.
  \<^item> \<open>Membership\<close> (\<open>membership.cc\<close>): the protocol. \<open>Membership_Laws\<close>, \<open>Gossip_Handling\<close> and
    \<open>Node_Behaviour\<close> say what each operation does to the tables. \<open>Membership_Contract\<close> is the
    locale of predicates every primitive keeps, with the preservation of each operation
    proved once; \<open>Node_System\<close> is the node as a step relation (\<open>node_step\<close>, \<open>reachable\<close>)
    with the locale instantiated at the tables, the payloads and the failure detector.
  \<^item> \<open>Cluster_Bounds\<close> and \<open>Cluster_Net\<close>: several nodes with the messages between them, as a
    step relation (\<open>net_step\<close>) in which messages are late, lost, repeated and overtaken.
    \<open>Plain_Wire\<close> is a serialisation of the four messages that reads back what it wrote, so
    that what the theorems assume of protobuf has an instance.
  \<^item> \<open>Event_Gen\<close> (\<open>event.h\<close>), \<open>Node_Grpc\<close> (\<open>grpc.cc\<close>), \<open>Node_Keeper\<close> (\<open>node_keeper.cc\<close>,
    \<open>config.h\<close>, \<open>main.cc\<close>), \<open>Daemon\<close> (\<open>daemon.cc\<close>, \<open>process_manager.cc\<close>), \<open>Node_Status\<close>
    (\<open>node_run_status.cc\<close>, \<open>node_status_grpc_impl.cc\<close>): the rest of the node keeper.
    \<open>Keeper_Main\<close> (\<open>main.cc\<close>) puts it together: the process with its membership, its daemon and
    the signals as the relation \<open>process_step\<close>.
  \<^item> \<open>Balancer_Policy\<close>, \<open>Load_Balancer\<close> (\<open>load_balancer.cc\<close> and its directory),
    \<open>Router_Pool\<close> (\<open>router_pool.cc\<close>), \<open>Cluster\<close> and \<open>Cluster_Life\<close> (\<open>cluster.cc\<close>: the view, and the
    object with its reader thread), \<open>Actor_Helpers\<close> (the guard, the union, the monitors, message
    priorities), \<open>Monitor_System\<close> (\<open>actor_monitor.cc\<close>: a monitor with its mailbox while actors end and
    other threads set and stop monitors): the actor system. \<open>App_Config\<close> has the common
    configuration, the logger and the monitor client; \<open>Config_Options\<close> the option tables of all
    programs and what arguments do to their fields.
  \<^item> \<open>Worker_Join\<close>: how an actor system that says it is ready becomes a worker, through every layer.
  \<^item> \<open>Yanghui_Triangle\<close> (\<open>yanghui_example_v2.cc\<close>): triangles, paths and the sequential job.
    \<open>Yanghui_Counter\<close> (\<open>yanghui_actor.cc\<close>, \<open>fake_counter.cc\<close>, the calls of the two clusters): the
    actor over any counter, a locale with three providers. \<open>Task_System\<close>: an actor, its inbox
    and the tasks its workers hold, in any order; the locale \<open>countdown\<close> turns a number that
    every step lowers by one into termination, \<open>task_simulation\<close> carries results from one task system
    to another. \<open>Yanghui_Load_Balance\<close> (\<open>yanghui_sample_actor.cc\<close>, \<open>simple_counter.cc\<close>) and
    \<open>Yanghui_Priority\<close> (\<open>yanghui_with_priority.cc\<close>) are the actors over it; \<open>Triangle_Demo\<close>
    (\<open>demos/yanghui_triangle\<close>) is simulated by the first. \<open>Yanghui_Cluster\<close> (\<open>count_cluster.cc\<close> and
    its two subclasses, \<open>yanghui_server.cc\<close>): how members become workers and how the jobs are
    published and checked. \<open>Yanghui_Client\<close> and \<open>Yanghui_Root\<close> (\<open>yanghui_example_v2.cc\<close>,
    \<open>cdcf_spawn.cc\<close>): the client with its retries, the worker program and the root with its console.
  \<^item> \<open>Demo_Router\<close> and \<open>Demo_Sessions\<close> (\<open>demos/load_balancer\<close>, \<open>demos/hello_world\<close>, \<open>demos/cluster\<close>): routers
    that keep their workers in step with the members, and the three servers around them, which are the
    three providers of the locale \<open>demo_server\<close>. \<open>Helper_Demos\<close> and \<open>Demo_Consoles\<close>: the demos of the guard, the union,
    ping and pong, the monitor and OpenSSL, the observers' construction and end, and what the demos print.
  \<^item> \<open>Sample_Node\<close>, \<open>Sample_Cluster\<close>: concrete members, messages and nodes for the witnesses.
  \<^item> \<open>Membership_Properties\<close>, \<open>Cluster_Properties\<close>, \<open>Keeper_Properties\<close>, \<open>Actor_Properties\<close>,
    \<open>Yanghui_Properties\<close> and this theory: the properties, each with a witness at concrete
    values where it has hypotheses.

  \<^bold>\<open>What is shown.\<close> For the protocol: the tables are well formed and the failure detector
  stays armed in every reachable state; what each gossip message, ping, relayed ping, join
  and leave does to the tables and sends on; handling a message twice is handling it once;
  merges are order independent joins. For several nodes: no node holds an incarnation its
  owner has not counted to, so what a node announces is news everywhere. For the keeper: framing under any cutting of the
  stream, the queue's accounting, events that carry one view of the cluster to the next,
  the seeds, and a process that restarts its application until a signal and then announces its leave.
  For the actor system: the balancer's choice and order, tickets
  that bring each answer back, and the invariants of router and pool. Here: a pull from one
  node to another through both ends of the transport, and the actor system's view of the
  cluster following the membership. For the Yanghui demos: the sequential job finds the least
  sum over all paths, and each distributed job ends, in whatever order its workers answer and
  whatever calls fail on the way, with the same number; the client sends every request, the servers of the
  demos keep their routers in step, and the root answers each command until it is told to quit. Some properties show where the code does not do what
  it means to: a lost wakeup, a node that is alone and told it is suspected, a member that
  loses its actor system, an empty router, a deleted worker, a pool that shrinks and grows.

  \<^bold>\<open>Bounds and fuel.\<close> \<open>failing_pulls\<close> runs the chain of a relayed ping on as many pulls as
  its fuel; one more than the members is enough, since each relay is excluded afterwards
  (\<open>relay_chain_suspects\<close>). \<open>worker_run\<close> takes a number of steps; \<open>steps_needed\<close> of a queue
  is enough to pay what it owes. \<open>async_scan\<close> takes fuel for the loop of the asynchronous
  pull, which need not end (\<open>async_scan_overrun\<close>). \<open>room\<close> says that a node has not used up its incarnations;
  \<open>levels_ok\<close> that no sum of a triangle leaves the integers; \<open>path_steps\<close>, \<open>min_steps\<close> and
  \<open>priority_steps\<close> are the exact lengths of the runs. \<open>root_loop\<close> is a \<open>partial_function\<close>: None is a console
  loop that does not return, and \<open>root_session\<close> proves when it does. \<open>small\<close> bounds a message by the length
  the header can hold without a sign, \<open>limits_ok\<close> keeps the retransmission limit within an int.

  \<^bold>\<open>Not modelled.\<close> A member function runs as one step, so its locks do not appear; the
  interleavings are those of whole functions and of the steps of the threads: the two worker
  threads of a node, its io thread, the keeper's main loop with a subscriber, the daemon, the
  reader of a cluster view and the halves of \<open>SetMonitor\<close> and \<open>StopMonitor\<close>. The libraries (asio, protobuf,
  gRPC, CAF with the pool it keeps behind a router pool and its parser of options, spdlog) and the
  system calls are parameters or inputs. Headers that only include or register types, the tests with their
  fake and mock transports, and the files of build and deployment have no model.
\<close>

section \<open>Properties that span components\<close>




definition keeper_of_a :: keeper where
  "keeper_of_a = \<lparr>k_pc = RunTop, k_generator = \<lparr>eg_members = [member_a], eg_actor_systems = []\<rparr>,
     k_service = \<lparr>gs_members = [(member_a, ())], gs_channels = [], gs_host = ''10.0.0.1''\<rparr>\<rparr>"


end
